(* ===== verification/Prelude.thy ===== *)
theory Prelude
  imports "HOL-Library.AList" "HOL-Library.Word" "HOL-Library.Monad_Syntax"
begin

text \<open>
  What the component theories share: the names of the machine types, the containers of
  the Rust standard library, and the laws of a map as a locale.

  A \<^verbatim>\<open>HashMap\<close> is an association list with distinct keys (\<open>AList.update\<close>,
  \<open>AList.delete\<close>, \<open>map_of\<close>): an insert replaces in place or appends. Rust leaves the
  iteration order open, so this list fixes one of the possible orders; theorems about
  iteration are stated so that they do not depend on it. A \<^verbatim>\<open>BTreeMap\<close> is an
  association list sorted strictly by its keys (\<open>bt_insert\<close>). Both interpret
  \<open>kv_map\<close>, and the second one the extension \<open>ordered_map\<close>, whose lemmas the order book uses
  for its price levels.
\<close>

section \<open>Machine types\<close>

type_synonym u8 = "8 word"
type_synonym u16 = "16 word"
type_synonym u32 = "32 word"
type_synonym u64 = "64 word"

text \<open>Time stamps (\<^verbatim>\<open>DateTime<Utc>\<close>, \<^verbatim>\<open>Instant\<close>) are integers in one unit chosen by the client
  theory; an operation that reads the clock takes the reading as its argument \<open>now\<close>.\<close>

type_synonym datetime = int

type_synonym ('k, 'v) hashmap = "('k \<times> 'v) list"
type_synonym ('k, 'v) btreemap = "('k \<times> 'v) list"

text \<open>Why a request to an actor gets no answer (\<^verbatim>\<open>actix/src/address/mod.rs\<close>).\<close>

datatype MailboxError = MailboxClosed | MailboxTimeout

fun mailbox_error_text :: "MailboxError \<Rightarrow> string" where
  "mailbox_error_text MailboxClosed = ''Mailbox has closed''"
| "mailbox_error_text MailboxTimeout = ''Message delivery timed out''"

section \<open>Collections of facts\<close>

named_theorems inv_intros \<open>introduction rules that an operation keeps an invariant\<close>
named_theorems map_simps \<open>what a lookup sees after an update of a container\<close>

section \<open>Hash maps\<close>

abbreviation hm_insert :: "'k \<Rightarrow> 'v \<Rightarrow> ('k, 'v) hashmap \<Rightarrow> ('k, 'v) hashmap" where
  "hm_insert \<equiv> AList.update"

abbreviation hm_remove :: "'k \<Rightarrow> ('k, 'v) hashmap \<Rightarrow> ('k, 'v) hashmap" where
  "hm_remove \<equiv> AList.delete"

abbreviation hm_get :: "('k, 'v) hashmap \<Rightarrow> 'k \<Rightarrow> 'v option" where
  "hm_get \<equiv> map_of"

abbreviation hm_keys :: "('k, 'v) hashmap \<Rightarrow> 'k list" where
  "hm_keys \<equiv> map fst"

abbreviation hm_values :: "('k, 'v) hashmap \<Rightarrow> 'v list" where
  "hm_values \<equiv> map snd"

abbreviation hm_contains :: "('k, 'v) hashmap \<Rightarrow> 'k \<Rightarrow> bool" where
  "hm_contains m k \<equiv> map_of m k \<noteq> None"

definition hm_ok :: "('k, 'v) hashmap \<Rightarrow> bool" where
  "hm_ok m = distinct (map fst m)"

lemma hm_get_insert [simp, map_simps]: "hm_get (hm_insert k v m) k' = (if k' = k then Some v else hm_get m k')"
  by (simp add: update_conv')

lemma hm_get_remove [simp, map_simps]: "hm_get (hm_remove k m) k' = (if k' = k then None else hm_get m k')"
  by (simp add: delete_conv')

lemma dom_hm_insert: "dom (hm_get (hm_insert k v m)) = insert k (dom (hm_get m))"
  and dom_hm_remove: "dom (hm_get (hm_remove k m)) = dom (hm_get m) - {k}"
  by (auto simp: dom_def)

lemma hm_ok_Nil [simp, inv_intros]: "hm_ok []"
  by (simp add: hm_ok_def)

lemma hm_ok_insert [simp, inv_intros]: "hm_ok m \<Longrightarrow> hm_ok (hm_insert k v m)"
  by (simp add: hm_ok_def distinct_update)

lemma hm_ok_remove [simp, inv_intros]: "hm_ok m \<Longrightarrow> hm_ok (hm_remove k m)"
  by (simp add: hm_ok_def distinct_delete)

lemma set_hm_insert: "set (hm_insert k v m) \<subseteq> insert (k, v) (set m)"
  by (induction m) auto

lemma set_hm_insert_ok: "hm_ok m \<Longrightarrow> set (hm_insert k v m) = insert (k, v) {p \<in> set m. fst p \<noteq> k}"
  by (induction m) (auto simp: hm_ok_def rev_image_eqI)

lemma set_hm_remove: "set (hm_remove k m) = {p \<in> set m. fst p \<noteq> k}"
  by (auto simp: AList.delete_eq)

lemma hm_remove_absent [simp]: "hm_get m k = None \<Longrightarrow> hm_remove k m = m"
  by (simp add: delete_id map_of_eq_None_iff)

lemma hm_mem_get: "hm_ok m \<Longrightarrow> (k, v) \<in> set m \<longleftrightarrow> hm_get m k = Some v"
  by (auto simp: hm_ok_def)

lemma length_hm_remove_le: "length (hm_remove k m) \<le> length m"
  by (simp add: length_delete_le)

lemma length_hm_insert: "length (hm_insert k v m) = (if hm_contains m k then length m else Suc (length m))"
  by (induction m) auto

lemma hm_insert_new: "hm_get m k = None \<Longrightarrow> hm_insert k v m = m @ [(k, v)]"
  by (induction m) (auto split: if_splits)

lemma length_hm_insert_le: "length (hm_insert k v m) \<le> Suc (length m)"
  by (simp add: length_hm_insert)

lemma length_hm_remove: "hm_ok m \<Longrightarrow> hm_contains m k \<Longrightarrow> Suc (length (hm_remove k m)) = length m"
proof (induction m)
  case (Cons p m)
  then show ?case
    by (cases "fst p = k") (auto simp: hm_ok_def dest: map_of_SomeD)
qed simp

section \<open>Ordered maps\<close>

fun bt_insert :: "'k::linorder \<Rightarrow> 'v \<Rightarrow> ('k, 'v) btreemap \<Rightarrow> ('k, 'v) btreemap" where
  "bt_insert k v [] = [(k, v)]"
| "bt_insert k v ((k', v') # m) =
     (if k < k' then (k, v) # (k', v') # m
      else if k = k' then (k, v) # m
      else (k', v') # bt_insert k v m)"

abbreviation bt_get :: "('k, 'v) btreemap \<Rightarrow> 'k \<Rightarrow> 'v option" where
  "bt_get \<equiv> map_of"

abbreviation bt_remove :: "'k \<Rightarrow> ('k, 'v) btreemap \<Rightarrow> ('k, 'v) btreemap" where
  "bt_remove \<equiv> AList.delete"

definition bt_ok :: "('k::linorder, 'v) btreemap \<Rightarrow> bool" where
  "bt_ok m = sorted_wrt (<) (map fst m)"

lemma set_bt_keys_insert: "fst ` set (bt_insert k v m) = insert k (fst ` set m)"
  by (induction k v m rule: bt_insert.induct) auto

lemma bt_ok_Nil [simp, inv_intros]: "bt_ok []"
  by (simp add: bt_ok_def)

lemma bt_ok_Cons: "bt_ok (p # m) \<longleftrightarrow> (\<forall>q\<in>set m. fst p < fst q) \<and> bt_ok m"
  by (auto simp: bt_ok_def)

lemma bt_ok_insert [simp, inv_intros]: "bt_ok m \<Longrightarrow> bt_ok (bt_insert k v m)"
proof (induction k v m rule: bt_insert.induct)
  case (2 k v k' v' m)
  have "\<forall>q\<in>set (bt_insert k v m). k' < fst q" if "k' < k" "\<forall>q\<in>set m. k' < fst q"
    using that set_bt_keys_insert [of k v m] by (metis image_iff insert_iff)
  with 2 show ?case by (auto simp: bt_ok_Cons)
qed (simp add: bt_ok_def)

lemma bt_get_insert [simp, map_simps]:
  "bt_ok m \<Longrightarrow> bt_get (bt_insert k v m) k' = (if k' = k then Some v else bt_get m k')"
proof (induction k v m rule: bt_insert.induct)
  case (2 k v x y m)
  have "k' < x \<Longrightarrow> bt_get m k' = None"
    using 2(2) by (fastforce simp: bt_ok_Cons map_of_eq_None_iff)
  with 2 show ?case by (auto simp: bt_ok_Cons)
qed simp

lemma bt_ok_distinct: "bt_ok m \<Longrightarrow> distinct (map fst m)"
  by (simp add: bt_ok_def strict_sorted_iff)

lemma bt_ok_filter: "bt_ok m \<Longrightarrow> bt_ok (filter P m)"
  by (induction m) (auto simp: bt_ok_Cons)

lemma bt_ok_remove [simp, inv_intros]: "bt_ok m \<Longrightarrow> bt_ok (bt_remove k m)"
  by (simp add: AList.delete_eq bt_ok_filter)

lemma bt_mem_get: "bt_ok m \<Longrightarrow> (k, v) \<in> set m \<longleftrightarrow> bt_get m k = Some v"
  by (rule hm_mem_get) (simp only: hm_ok_def bt_ok_distinct)

lemma set_bt_insert: "bt_ok m \<Longrightarrow> set (bt_insert k v m) = insert (k, v) {p \<in> set m. fst p \<noteq> k}"
  by (induction k v m rule: bt_insert.induct) (auto simp: bt_ok_Cons)

section \<open>The laws of a map\<close>

text \<open>The interface both containers provide. The lemmas inside are what the clients of
  a map use and follow from the laws alone.\<close>

locale kv_map =
  fixes get :: "'m \<Rightarrow> 'k \<Rightarrow> 'v option"
    and ins :: "'k \<Rightarrow> 'v \<Rightarrow> 'm \<Rightarrow> 'm"
    and del :: "'k \<Rightarrow> 'm \<Rightarrow> 'm"
    and emp :: 'm
    and ok :: "'m \<Rightarrow> bool"
  assumes ok_emp: "ok emp"
    and get_emp: "get emp k = None"
    and ok_ins: "ok m \<Longrightarrow> ok (ins k v m)"
    and ok_del: "ok m \<Longrightarrow> ok (del k m)"
    and get_ins: "ok m \<Longrightarrow> get (ins k v m) k' = (if k' = k then Some v else get m k')"
    and get_del: "ok m \<Longrightarrow> get (del k m) k' = (if k' = k then None else get m k')"
begin

lemma ins_ins_get: "ok m \<Longrightarrow> get (ins k v (ins k w m)) = get (ins k v m)"
  by (rule ext) (simp add: get_ins ok_ins)

lemma del_ins_get: "ok m \<Longrightarrow> get (del k (ins k v m)) = get (del k m)"
  by (rule ext) (simp add: get_ins get_del ok_ins)

lemma ins_commute_get:
  "ok m \<Longrightarrow> k \<noteq> k' \<Longrightarrow> get (ins k v (ins k' w m)) = get (ins k' w (ins k v m))"
  by (rule ext) (simp add: get_ins ok_ins)

lemma ok_fold_ins: "ok m \<Longrightarrow> ok (foldl (\<lambda>m x. ins (f x) (g x) m) m xs)"
  by (induction xs arbitrary: m) (simp_all add: ok_ins)

lemma get_fold_ins_notin:
  "ok m \<Longrightarrow> k \<notin> f ` set xs \<Longrightarrow> get (foldl (\<lambda>m x. ins (f x) (g x) m) m xs) k = get m k"
  by (induction xs arbitrary: m) (simp_all add: ok_ins get_ins)

lemma get_fold_ins:
  "ok m \<Longrightarrow> distinct (map f xs) \<Longrightarrow> x \<in> set xs \<Longrightarrow>
   get (foldl (\<lambda>m x. ins (f x) (g x) m) m xs) (f x) = Some (g x)"
  by (induction xs arbitrary: m) (auto simp: ok_ins get_ins get_fold_ins_notin rev_image_eqI)

lemma dom_ins: "ok m \<Longrightarrow> dom (get (ins k v m)) = insert k (dom (get m))"
  by (auto simp: get_ins split: if_splits)

lemma dom_del: "ok m \<Longrightarrow> dom (get (del k m)) = dom (get m) - {k}"
  by (auto simp: get_del split: if_splits)

end

locale ordered_map = kv_map get ins del emp ok
  for get :: "'m \<Rightarrow> 'k::linorder \<Rightarrow> 'v option"
    and ins :: "'k \<Rightarrow> 'v \<Rightarrow> 'm \<Rightarrow> 'm"
    and del :: "'k \<Rightarrow> 'm \<Rightarrow> 'm"
    and emp :: 'm
    and ok :: "'m \<Rightarrow> bool" +
  fixes items :: "'m \<Rightarrow> ('k \<times> 'v) list"
  assumes items_sorted: "ok m \<Longrightarrow> sorted_wrt (<) (map fst (items m))"
    and items_get: "ok m \<Longrightarrow> (k, v) \<in> set (items m) \<longleftrightarrow> get m k = Some v"
begin

lemma items_keys: "ok m \<Longrightarrow> fst ` set (items m) = dom (get m)"
  by (auto simp: items_get image_iff dom_def) (metis fst_conv items_get)

lemma first_key_least:
  "ok m \<Longrightarrow> items m = (k, v) # rest \<Longrightarrow> k' \<in> dom (get m) \<Longrightarrow> k \<le> k'"
  using items_sorted [of m] items_keys [of m] by fastforce

lemma last_key_greatest:
  "ok m \<Longrightarrow> items m = rest @ [(k, v)] \<Longrightarrow> k' \<in> dom (get m) \<Longrightarrow> k' \<le> k"
  using items_sorted [of m] items_keys [of m] by (fastforce simp: sorted_wrt_append)

end

interpretation hm: kv_map hm_get hm_insert hm_remove "[]" hm_ok
  by unfold_locales simp_all

interpretation bt: ordered_map bt_get bt_insert bt_remove "[]" bt_ok "\<lambda>m. m"
  by unfold_locales (simp_all add: bt_mem_get, simp add: bt_ok_def)

section \<open>Voters\<close>

text \<open>What makes a node vote once per term: a step raises the term, or keeps it together with the vote it has given. Both nodes that vote interpret this.\<close>

locale voter =
  fixes epoch :: "'s \<Rightarrow> 't::linorder"
    and vote :: "'s \<Rightarrow> 'c option"
    and step :: "'s \<Rightarrow> 's \<Rightarrow> bool"
  assumes step_keeps: "step s s' \<Longrightarrow> epoch s < epoch s' \<or> epoch s' = epoch s \<and> (vote s = None \<or> vote s' = vote s)"
begin

lemma run_keeps: "step\<^sup>*\<^sup>* s s' \<Longrightarrow> epoch s < epoch s' \<or> epoch s' = epoch s \<and> (vote s = None \<or> vote s' = vote s)"
  by (induction rule: rtranclp_induct) (auto dest!: step_keeps)

lemma one_vote:
  assumes "step\<^sup>*\<^sup>* s s'" and "epoch s' = epoch s" and "vote s = Some c" and "vote s' = Some c'"
  shows "c' = c"
  using run_keeps [OF assms(1)] assms(2-4) by auto

end

section \<open>Words\<close>

text \<open>Counters are machine words; below the last value they count.\<close>

lemma word_Suc_unat: "(n :: 'a::len word) \<noteq> - 1 \<Longrightarrow> unat (n + 1) = Suc (unat n)"
  by (metis add.commute add_eq_0_iff2 unatSuc)

lemma word_less_Suc: "(n :: 'a::len word) \<noteq> - 1 \<Longrightarrow> n < n + 1"
  by (simp add: word_less_nat_alt word_Suc_unat)

lemma word_not_last: "Suc (unat (n :: 'a::len word)) < 2 ^ LENGTH('a) \<Longrightarrow> n \<noteq> - 1"
  by (auto simp: unsigned_minus_1_eq_mask mask_eq_exp_minus_1)

lemma u64_of_nat: "n < 2 ^ 64 \<Longrightarrow> unat (of_nat n :: u64) = n"
  by (simp add: unat_of_nat take_bit_nat_eq_self)

section \<open>Lists\<close>

lemma find_None_filter: "find P xs = None \<longleftrightarrow> filter P xs = []"
  by (auto simp: find_None_iff filter_empty_conv)

lemma find_Some_mem: "find P xs = Some x \<Longrightarrow> x \<in> set xs \<and> P x"
  by (auto simp: find_Some_iff)

text \<open>\<^verbatim>\<open>Vec::retain\<close> and \<^verbatim>\<open>position\<close> then \<^verbatim>\<open>remove\<close>: the first element that satisfies the test is taken out.\<close>

fun remove_first :: "('a \<Rightarrow> bool) \<Rightarrow> 'a list \<Rightarrow> 'a list" where
  "remove_first P [] = []"
| "remove_first P (x # xs) = (if P x then xs else x # remove_first P xs)"

lemma set_remove_first_subset: "set (remove_first P xs) \<subseteq> set xs"
  by (induction xs) auto

lemma remove_first_none [simp]: "\<forall>x\<in>set xs. \<not> P x \<Longrightarrow> remove_first P xs = xs"
  by (induction xs) auto

lemma distinct_map_remove_first: "distinct (map f xs) \<Longrightarrow> distinct (map f (remove_first P xs))"
  by (induction xs) (auto dest: set_remove_first_subset [THEN subsetD])

end
