(* ===== verification/F64.thy ===== *)
theory F64
  imports Complex_Main Prelude
begin

text \<open>
  IEEE-754 binary64, the Rust type \<^verbatim>\<open>f64\<close> that carries every price, quantity and
  balance of the trading crate. A finite value is the rational it denotes; every operation
  computes the exact rational result and rounds it to nearest, ties to even
  (\<open>f64_round\<close>), with gradual underflow and overflow to the infinities. The two zeros
  are one value here: no operation that is modelled tells them apart (no division by
  a zero of unknown sign, no sign test, no printing of a zero). The lemmas show what
  survives rounding: results that are representable are exact (in particular integers up
  to \<open>2 ^ 53\<close>), and rounding is monotone, so a guard such as \<open>amount \<le> available\<close>
  keeps the difference non-negative whatever the rounding does.
\<close>

section \<open>Powers of two and bit lengths\<close>

definition pow2 :: "int \<Rightarrow> rat" where
  "pow2 e = (if 0 \<le> e then 2 ^ nat e else 1 / 2 ^ nat (- e))"

function bit_len :: "int \<Rightarrow> int" where
  "bit_len n = (if n \<le> 0 then 0 else 1 + bit_len (n div 2))"
  by auto
termination
  by (relation "measure nat") auto

declare bit_len.simps [simp del]

lemma pow2_powi: "pow2 e = 2 powi e"
  by (simp add: pow2_def power_int_def inverse_eq_divide power_divide)

lemma pow2_pos [simp]: "0 < pow2 e"
  by (simp add: pow2_def)

lemma pow2_nz [simp]: "pow2 e \<noteq> 0"
  using pow2_pos [of e] by linarith

lemma pow2_nneg [simp]: "0 \<le> pow2 e"
  using pow2_pos [of e] by linarith

lemma pow2_add: "pow2 (a + b) = pow2 a * pow2 b"
  by (simp add: pow2_powi power_int_add)

lemma pow2_diff: "pow2 (a - b) = pow2 a / pow2 b"
  by (simp add: pow2_powi power_int_diff)

lemma pow2_mono: "a \<le> b \<Longrightarrow> pow2 a \<le> pow2 b"
  by (simp add: pow2_powi power_int_increasing)

lemma pow2_strict_mono: "a < b \<Longrightarrow> pow2 a < pow2 b"
  by (simp add: pow2_powi power_int_strict_increasing)

lemma pow2_less_cancel: "pow2 a < pow2 b \<longleftrightarrow> a < b"
  using pow2_mono [of b a] pow2_strict_mono [of a b] by (meson leD leI)

lemma pow2_of_nat: "pow2 (int n) = 2 ^ n"
  by (simp add: pow2_def)

lemma pow2_nonneg_int: "0 \<le> e \<Longrightarrow> pow2 e = of_int (2 ^ nat e)"
  by (simp add: pow2_def)

lemma pow2_52: "pow2 52 = of_int (2 ^ 52)" and pow2_53: "pow2 53 = of_int (2 ^ 53)"
  by (simp_all add: pow2_def)

lemma bit_len_nonneg: "0 \<le> bit_len n"
proof (induction n rule: bit_len.induct)
  case (1 n)
  then show ?case by (subst bit_len.simps) simp
qed

lemma bit_len_bounds: "0 < n \<Longrightarrow> pow2 (bit_len n - 1) \<le> of_int n \<and> of_int n < pow2 (bit_len n)"
proof (induction n rule: bit_len.induct)
  case (1 n)
  show ?case
  proof (cases "n = 1")
    case True
    have "bit_len 1 = 1" by (subst bit_len.simps, simp) (subst bit_len.simps, simp)
    with True show ?thesis by (simp add: pow2_def)
  next
    case False
    with "1.prems" have half: "0 < n div 2" by auto
    with "1.IH" "1.prems" have IH: "pow2 (bit_len (n div 2) - 1) \<le> of_int (n div 2)"
      "of_int (n div 2) < pow2 (bit_len (n div 2))" by auto
    have b: "bit_len n = bit_len (n div 2) + 1"
      using "1.prems" by (subst bit_len.simps) simp
    have d: "pow2 (e + 1) = 2 * pow2 e" for e by (simp add: pow2_add) (simp add: pow2_def)
    have "0 \<le> bit_len (n div 2)" by (rule bit_len_nonneg)
    then have "of_int (n div 2) < (of_int (2 ^ nat (bit_len (n div 2))) :: rat)"
      using IH(2) pow2_nonneg_int by simp
    then have "n div 2 < 2 ^ nat (bit_len (n div 2))" by (simp only: of_int_less_iff)
    then have "n < 2 * 2 ^ nat (bit_len (n div 2))" by simp
    then have "(of_int n :: rat) < of_int (2 * 2 ^ nat (bit_len (n div 2)))" by (simp only: of_int_less_iff)
    then have up: "of_int n < pow2 (bit_len n)"
      using \<open>0 \<le> bit_len (n div 2)\<close> by (simp add: b d pow2_nonneg_int)
    have "pow2 (bit_len (n div 2)) \<le> 2 * of_int (n div 2)"
      using IH(1) d [of "bit_len (n div 2) - 1"] by simp
    also have "\<dots> \<le> of_int n"
    proof -
      have "2 * (n div 2) \<le> n" by simp
      then have "(of_int (2 * (n div 2)) :: rat) \<le> of_int n" by (simp only: of_int_le_iff)
      then show ?thesis by simp
    qed
    finally show ?thesis using up b by simp
  qed
qed

section \<open>Rounding a rational to binary64\<close>

text \<open>
  \<open>ilog2 q\<close> is the floor of the binary logarithm of a positive rational: the bit
  lengths of numerator and denominator give it up to one, a comparison decides which.
\<close>

definition ilog2 :: "rat \<Rightarrow> int" where
  "ilog2 q =
     (let (n, d) = quotient_of q;
          k = bit_len n - bit_len d
      in if pow2 k \<le> q then k else k - 1)"

definition round_half_even :: "rat \<Rightarrow> int" where
  "round_half_even q =
     (let f = \<lfloor>q\<rfloor>; r = q - of_int f
      in if r < 1 / 2 then f else if 1 / 2 < r then f + 1 else if even f then f else f + 1)"

text \<open>The exponent of the last place of the result: 52 bits below the leading bit, and never
  below the exponent of the subnormals.\<close>

definition ulp_exp :: "rat \<Rightarrow> int" where
  "ulp_exp q = (if q = 0 then -1074 else max (ilog2 \<bar>q\<bar> - 52) (-1074))"

datatype f64 = NaN | PInf | NInf | Fin rat

definition round_rat :: "rat \<Rightarrow> rat" where
  "round_rat q = of_int (round_half_even (q / pow2 (ulp_exp q))) * pow2 (ulp_exp q)"

definition f64_round :: "rat \<Rightarrow> f64" where
  "f64_round q =
     (let r = round_rat q
      in if 2 ^ 1024 \<le> r then PInf else if r \<le> - (2 ^ 1024) then NInf else Fin r)"

section \<open>The operations\<close>

fun f64_neg :: "f64 \<Rightarrow> f64" where
  "f64_neg NaN = NaN"
| "f64_neg PInf = NInf"
| "f64_neg NInf = PInf"
| "f64_neg (Fin a) = Fin (- a)"

fun f64_add :: "f64 \<Rightarrow> f64 \<Rightarrow> f64" where
  "f64_add (Fin a) (Fin b) = f64_round (a + b)"
| "f64_add NaN y = NaN"
| "f64_add x NaN = NaN"
| "f64_add PInf NInf = NaN"
| "f64_add NInf PInf = NaN"
| "f64_add PInf y = PInf"
| "f64_add NInf y = NInf"
| "f64_add x PInf = PInf"
| "f64_add x NInf = NInf"

definition f64_sub :: "f64 \<Rightarrow> f64 \<Rightarrow> f64" where
  "f64_sub x y = f64_add x (f64_neg y)"

definition f64_inf :: "rat \<Rightarrow> f64" where
  "f64_inf s = (if s = 0 then NaN else if 0 < s then PInf else NInf)"

fun f64_mul :: "f64 \<Rightarrow> f64 \<Rightarrow> f64" where
  "f64_mul (Fin a) (Fin b) = f64_round (a * b)"
| "f64_mul NaN y = NaN"
| "f64_mul x NaN = NaN"
| "f64_mul PInf PInf = PInf"
| "f64_mul NInf NInf = PInf"
| "f64_mul PInf NInf = NInf"
| "f64_mul NInf PInf = NInf"
| "f64_mul PInf (Fin b) = f64_inf b"
| "f64_mul NInf (Fin b) = f64_inf (- b)"
| "f64_mul (Fin a) PInf = f64_inf a"
| "f64_mul (Fin a) NInf = f64_inf (- a)"

text \<open>Division by a zero takes the zero as positive.\<close>

fun f64_div :: "f64 \<Rightarrow> f64 \<Rightarrow> f64" where
  "f64_div (Fin a) (Fin b) = (if b = 0 then f64_inf a else f64_round (a / b))"
| "f64_div NaN y = NaN"
| "f64_div x NaN = NaN"
| "f64_div PInf (Fin b) = (if b < 0 then NInf else PInf)"
| "f64_div NInf (Fin b) = (if b < 0 then PInf else NInf)"
| "f64_div (Fin a) y = Fin 0"
| "f64_div x y = NaN"

text \<open>Comparisons: everything is false on NaN.\<close>

fun f64_le :: "f64 \<Rightarrow> f64 \<Rightarrow> bool" where
  "f64_le NaN y = False"
| "f64_le x NaN = False"
| "f64_le NInf y = True"
| "f64_le x PInf = True"
| "f64_le (Fin a) (Fin b) = (a \<le> b)"
| "f64_le x y = False"

fun f64_eq :: "f64 \<Rightarrow> f64 \<Rightarrow> bool" where
  "f64_eq NaN y = False"
| "f64_eq x y = (x = y)"

definition f64_lt :: "f64 \<Rightarrow> f64 \<Rightarrow> bool" where
  "f64_lt x y = (f64_le x y \<and> \<not> f64_eq x y)"

text \<open>\<^verbatim>\<open>f64::min\<close>: the other operand when one is NaN.\<close>

definition f64_min :: "f64 \<Rightarrow> f64 \<Rightarrow> f64" where
  "f64_min x y = (if x = NaN then y else if y = NaN then x else if f64_le x y then x else y)"

text \<open>\<^verbatim>\<open>x as i64\<close>: truncation towards zero that saturates, zero on NaN.
  \<^verbatim>\<open>n as f64\<close>: rounding.\<close>

definition i64_min :: int where "i64_min = - (2 ^ 63)"
definition i64_max :: int where "i64_max = 2 ^ 63 - 1"

definition rat_trunc :: "rat \<Rightarrow> int" where
  "rat_trunc q = (if 0 \<le> q then \<lfloor>q\<rfloor> else - \<lfloor>- q\<rfloor>)"

fun f64_to_i64 :: "f64 \<Rightarrow> int" where
  "f64_to_i64 NaN = 0"
| "f64_to_i64 PInf = i64_max"
| "f64_to_i64 NInf = i64_min"
| "f64_to_i64 (Fin a) = max i64_min (min i64_max (rat_trunc a))"

text \<open>A float cast to \<^verbatim>\<open>u64\<close> saturates and sends what is not a number to zero.\<close>

fun f64_to_u64 :: "f64 \<Rightarrow> u64" where
  "f64_to_u64 NaN = 0"
| "f64_to_u64 PInf = - 1"
| "f64_to_u64 NInf = 0"
| "f64_to_u64 (Fin r) = of_int (min (2 ^ 64 - 1) (max 0 (rat_trunc r)))"

definition f64_of_int :: "int \<Rightarrow> f64" where
  "f64_of_int n = f64_round (of_int n)"

text \<open>\<^verbatim>\<open>Iterator::sum\<close>: a fold of \<open>f64_add\<close> from zero, in iteration order.\<close>

definition f64_sum :: "f64 list \<Rightarrow> f64" where
  "f64_sum xs = foldl f64_add (Fin 0) xs"


section \<open>The logarithm and the last place\<close>

lemma ilog2_bounds:
  assumes "0 < q"
  shows "pow2 (ilog2 q) \<le> q" and "q < pow2 (ilog2 q + 1)"
proof -
  obtain n d where nd: "quotient_of q = (n, d)" by (cases "quotient_of q")
  then have d: "0 < d" and q: "q = of_int n / of_int d"
    using quotient_of_denom_pos quotient_of_div by auto
  with assms have n: "0 < n" by (simp add: zero_less_divide_iff)
  define k where "k = bit_len n - bit_len d"
  have rN: "pow2 (bit_len n - 1) \<le> of_int n" "of_int n < pow2 (bit_len n)"
    and rD: "pow2 (bit_len d - 1) \<le> of_int d" "of_int d < pow2 (bit_len d)"
    using bit_len_bounds n d by blast+
  have up: "q < pow2 (k + 1)"
  proof -
    have "q \<le> of_int n / pow2 (bit_len d - 1)"
      unfolding q using rD(1) using n d by (intro divide_left_mono) auto
    also have "\<dots> < pow2 (bit_len n) / pow2 (bit_len d - 1)"
      using rN(2) by (intro divide_strict_right_mono) auto
    also have "\<dots> = pow2 (k + 1)"
      unfolding k_def by (simp add: pow2_diff [symmetric] algebra_simps)
    finally show ?thesis .
  qed
  have lo: "pow2 (k - 1) \<le> q"
  proof -
    have "pow2 (k - 1) = pow2 (bit_len n - 1) / pow2 (bit_len d)"
      unfolding k_def by (simp add: pow2_diff [symmetric] algebra_simps)
    also have "\<dots> \<le> of_int n / pow2 (bit_len d)"
      using rN(1) by (intro divide_right_mono) auto
    also have "\<dots> \<le> q"
      unfolding q using rD(2) using n d by (intro divide_left_mono) auto
    finally show ?thesis .
  qed
  have il: "ilog2 q = (if pow2 k \<le> q then k else k - 1)"
    unfolding ilog2_def nd k_def by (simp add: Let_def)
  show "pow2 (ilog2 q) \<le> q" "q < pow2 (ilog2 q + 1)"
    using up lo by (auto simp: il)
qed

lemma ulp_exp_ge: "- 1074 \<le> ulp_exp q"
  by (simp add: ulp_exp_def)

lemma ulp_exp_upper: "\<bar>q\<bar> < pow2 (53 + ulp_exp q)"
proof (cases "q = 0")
  case False
  then have "\<bar>q\<bar> < pow2 (ilog2 \<bar>q\<bar> + 1)" by (intro ilog2_bounds) simp
  also have "\<dots> \<le> pow2 (53 + ulp_exp q)"
    using False by (intro pow2_mono) (simp add: ulp_exp_def)
  finally show ?thesis .
qed simp

lemma ulp_exp_lower: "ulp_exp q \<noteq> - 1074 \<Longrightarrow> pow2 (52 + ulp_exp q) \<le> \<bar>q\<bar>"
  using ilog2_bounds(1) [of "\<bar>q\<bar>"] by (auto simp: ulp_exp_def max_def split: if_splits)

lemma ulp_exp_neg [simp]: "ulp_exp (- q) = ulp_exp q"
  by (simp add: ulp_exp_def)

text \<open>The exponent of a concrete value by its two bounds, so that a rounding evaluates.\<close>

lemma ulp_exp_unique:
  assumes "- 1074 \<le> e" "\<bar>q\<bar> < pow2 (53 + e)" "e = - 1074 \<or> pow2 (52 + e) \<le> \<bar>q\<bar>"
  shows "ulp_exp q = e"
proof (cases "ulp_exp q" e rule: linorder_cases)
  case less
  with assms ulp_exp_ge [of q] have "pow2 (52 + e) \<le> \<bar>q\<bar>" by auto
  also have "\<dots> < pow2 (53 + ulp_exp q)" by (rule ulp_exp_upper)
  finally show ?thesis using less by (simp add: pow2_less_cancel)
next
  case greater
  with assms(1) have "pow2 (52 + ulp_exp q) \<le> \<bar>q\<bar>" by (intro ulp_exp_lower) simp
  also note assms(2)
  finally show ?thesis using greater by (simp add: pow2_less_cancel)
qed

section \<open>Rounding to an integer\<close>

lemma round_half_even_of_int [simp]: "round_half_even (of_int n) = n"
  by (simp add: round_half_even_def)

lemma round_half_even_nearest: "\<bar>q - of_int n\<bar> < 1 / 2 \<Longrightarrow> round_half_even q = n"
proof -
  assume *: "\<bar>q - of_int n\<bar> < 1 / 2"
  show ?thesis
  proof (cases "of_int n \<le> q")
    case True
    with * have "\<lfloor>q\<rfloor> = n" by (intro floor_unique) (auto simp: abs_less_iff)
    moreover from * have "q - of_int n < 1 / 2" by linarith
    ultimately show ?thesis by (simp add: round_half_even_def Let_def)
  next
    case False
    with * have "\<lfloor>q\<rfloor> = n - 1" by (intro floor_unique) (auto simp: abs_less_iff)
    moreover from * have "1 / 2 < q - (of_int n - 1)" by linarith
    ultimately show ?thesis by (simp add: round_half_even_def Let_def)
  qed
qed

lemma f64_round_by:
  assumes "- 1074 \<le> e" "\<bar>q\<bar> < pow2 (53 + e)" "e = - 1074 \<or> pow2 (52 + e) \<le> \<bar>q\<bar>"
    and "\<bar>q / pow2 e - of_int n\<bar> < 1 / 2" "\<bar>of_int n * pow2 e\<bar> < 2 ^ 1024"
  shows "f64_round q = Fin (of_int n * pow2 e)"
  using assms(5)
  by (simp add: f64_round_def round_rat_def ulp_exp_unique [OF assms(1-3)]
      round_half_even_nearest [OF assms(4)] abs_less_iff)

lemma round_half_even_mono: "p \<le> q \<Longrightarrow> round_half_even p \<le> round_half_even q"
proof -
  assume pq: "p \<le> q"
  then have f: "\<lfloor>p\<rfloor> \<le> \<lfloor>q\<rfloor>" by (rule floor_mono)
  show ?thesis
  proof (cases "\<lfloor>p\<rfloor> = \<lfloor>q\<rfloor>")
    case True
    with pq show ?thesis by (auto simp: round_half_even_def Let_def)
  next
    case False
    with f have "\<lfloor>p\<rfloor> + 1 \<le> \<lfloor>q\<rfloor>" by simp
    moreover have "round_half_even p \<le> \<lfloor>p\<rfloor> + 1" "\<lfloor>q\<rfloor> \<le> round_half_even q"
      by (simp_all add: round_half_even_def Let_def)
    ultimately show ?thesis by linarith
  qed
qed

lemma round_half_even_neg: "round_half_even (- q) = - round_half_even q"
proof (cases "q = of_int \<lfloor>q\<rfloor>")
  case True
  then show ?thesis using round_half_even_of_int [of "- \<lfloor>q\<rfloor>"] by (metis of_int_minus round_half_even_of_int)
next
  case False
  then have "\<lfloor>- q\<rfloor> = - \<lfloor>q\<rfloor> - 1"
    by (simp add: floor_minus ceiling_altdef)
  then show ?thesis by (auto simp: round_half_even_def Let_def)
qed

lemma round_rat_neg [simp]: "round_rat (- q) = - round_rat q"
  using round_half_even_neg [of "q / pow2 (ulp_exp q)"] by (simp add: round_rat_def)

section \<open>Representable values are exact\<close>

definition representable :: "rat \<Rightarrow> bool" where
  "representable q \<longleftrightarrow> (\<exists>m e. q = of_int m * pow2 e \<and> \<bar>m\<bar> < 2 ^ 53 \<and> - 1074 \<le> e)"

lemma representable_0 [simp]: "representable 0"
  by (auto simp: representable_def intro!: exI [of _ "0::int"])

lemma representable_of_int: "\<bar>n\<bar> \<le> 2 ^ 53 \<Longrightarrow> representable (of_int n)"
proof (cases "\<bar>n\<bar> = 2 ^ 53")
  case True
  then have "n = 2 ^ 53 \<or> n = - (2 ^ 53)" by linarith
  then have "of_int n = of_int (sgn n) * pow2 53" by (auto simp: pow2_def)
  then show ?thesis unfolding representable_def
    by (intro exI [of _ "sgn n"] exI [of _ 53]) (auto simp: sgn_if)
next
  case False
  moreover assume "\<bar>n\<bar> \<le> 2 ^ 53"
  ultimately show ?thesis unfolding representable_def
    by (intro exI [of _ n] exI [of _ 0]) (auto simp: pow2_def)
qed

lemma representable_neg [simp]: "representable (- q) \<longleftrightarrow> representable q"
proof -
  have "representable (- q)" if "representable q" for q
  proof -
    from that obtain m e where "q = of_int m * pow2 e" "\<bar>m\<bar> < 2 ^ 53" "- 1074 \<le> e"
      by (auto simp: representable_def)
    then show ?thesis
      unfolding representable_def by (intro exI [of _ "- m"] exI [of _ e]) simp
  qed
  from this [of q] this [of "- q"] show ?thesis by auto
qed

lemma round_rat_exact: "representable q \<Longrightarrow> round_rat q = q"
proof -
  assume "representable q"
  then obtain m e where q: "q = of_int m * pow2 e" and m: "\<bar>m\<bar> < 2 ^ 53" and e: "- 1074 \<le> e"
    by (auto simp: representable_def)
  have "ulp_exp q \<le> e"
  proof (rule ccontr)
    assume "\<not> ulp_exp q \<le> e"
    with e have "pow2 (52 + ulp_exp q) \<le> \<bar>q\<bar>" by (intro ulp_exp_lower) simp
    also have "\<bar>q\<bar> = of_int \<bar>m\<bar> * pow2 e" by (simp add: q abs_mult)
    also have "\<dots> < of_int (2 ^ 53) * pow2 e"
      using m by (intro mult_strict_right_mono) (simp_all only: of_int_less_iff pow2_pos)
    also have "\<dots> = pow2 (53 + e)" by (simp only: pow2_add pow2_53)
    finally have "52 + ulp_exp q < 53 + e" by (simp add: pow2_less_cancel)
    with \<open>\<not> ulp_exp q \<le> e\<close> show False by simp
  qed
  then have "pow2 e / pow2 (ulp_exp q) = of_int (2 ^ nat (e - ulp_exp q))"
    by (metis diff_ge_0_iff_ge pow2_diff pow2_nonneg_int)
  then have "q / pow2 (ulp_exp q) = of_int (m * 2 ^ nat (e - ulp_exp q))"
    by (metis of_int_mult q times_divide_eq_right)
  then show ?thesis
    unfolding round_rat_def by (metis nonzero_eq_divide_eq pow2_nz round_half_even_of_int)
qed

lemma f64_round_exact: "representable q \<Longrightarrow> \<bar>q\<bar> < 2 ^ 1024 \<Longrightarrow> f64_round q = Fin q"
  by (simp add: f64_round_def round_rat_exact Let_def abs_less_iff)

lemma f64_round_of_int:
  assumes "\<bar>n\<bar> \<le> 2 ^ 53"
  shows "f64_round (of_int n) = Fin (of_int n)"
proof (rule f64_round_exact [OF representable_of_int [OF assms]])
  have "(of_int \<bar>n\<bar> :: rat) \<le> of_int (2 ^ 53)" using assms by (simp only: of_int_le_iff)
  also have "\<dots> < (2 ^ 1024 :: rat)" by simp
  finally show "\<bar>of_int n\<bar> < (2 ^ 1024 :: rat)" by simp
qed

section \<open>Rounding is monotone\<close>

lemma round_rat_nonneg: "0 \<le> q \<Longrightarrow> 0 \<le> round_rat q"
  using round_half_even_mono [of 0 "q / pow2 (ulp_exp q)"] round_half_even_of_int [of 0]
  by (simp add: round_rat_def)

lemma round_rat_upper: "0 \<le> q \<Longrightarrow> round_rat q \<le> pow2 (53 + ulp_exp q)"
proof -
  assume "0 \<le> q"
  then have "q / pow2 (ulp_exp q) \<le> of_int (2 ^ 53)"
    using ulp_exp_upper [of q] by (simp add: pow2_add pos_divide_le_eq pow2_53)
  then have "round_half_even (q / pow2 (ulp_exp q)) \<le> 2 ^ 53"
    using round_half_even_mono round_half_even_of_int by metis
  then have "of_int (round_half_even (q / pow2 (ulp_exp q))) \<le> (of_int (2 ^ 53) :: rat)"
    by (simp only: of_int_le_iff)
  then show ?thesis by (simp add: round_rat_def pow2_add pow2_52 pow2_53)
qed

lemma round_rat_lower: "0 \<le> q \<Longrightarrow> ulp_exp q \<noteq> - 1074 \<Longrightarrow> pow2 (52 + ulp_exp q) \<le> round_rat q"
proof -
  assume "0 \<le> q" "ulp_exp q \<noteq> - 1074"
  then have "of_int (2 ^ 52) \<le> q / pow2 (ulp_exp q)"
    using ulp_exp_lower [of q] by (simp add: pow2_add pos_le_divide_eq pow2_52)
  then have "2 ^ 52 \<le> round_half_even (q / pow2 (ulp_exp q))"
    using round_half_even_mono round_half_even_of_int by metis
  then have "(of_int (2 ^ 52) :: rat) \<le> of_int (round_half_even (q / pow2 (ulp_exp q)))"
    by (simp only: of_int_le_iff)
  then show ?thesis by (simp add: round_rat_def pow2_add pow2_52 pow2_53)
qed

lemma round_rat_mono_nonneg:
  assumes "0 \<le> p" "p \<le> q"
  shows "round_rat p \<le> round_rat q"
proof (cases "ulp_exp p" "ulp_exp q" rule: linorder_cases)
  case equal
  then show ?thesis
    using assms unfolding round_rat_def
    by (auto intro!: mult_right_mono round_half_even_mono divide_right_mono)
next
  case less
  have "round_rat p \<le> pow2 (53 + ulp_exp p)" using assms(1) by (rule round_rat_upper)
  also have "\<dots> \<le> pow2 (52 + ulp_exp q)" using less by (intro pow2_mono) simp
  also have "\<dots> \<le> round_rat q"
    using less assms ulp_exp_ge [of p] by (intro round_rat_lower) auto
  finally show ?thesis .
next
  case greater
  then have "pow2 (52 + ulp_exp p) \<le> \<bar>p\<bar>"
    using ulp_exp_ge [of q] by (intro ulp_exp_lower) auto
  also have "\<dots> \<le> \<bar>q\<bar>" using assms by simp
  also have "\<dots> < pow2 (53 + ulp_exp q)" by (rule ulp_exp_upper)
  finally show ?thesis using greater by (simp add: pow2_less_cancel)
qed

lemma round_rat_mono: "p \<le> q \<Longrightarrow> round_rat p \<le> round_rat q"
proof -
  assume pq: "p \<le> q"
  consider "0 \<le> p" | "q \<le> 0" | "p \<le> 0" "0 \<le> q" by linarith
  then show ?thesis
  proof cases
    case 2
    then show ?thesis using pq round_rat_mono_nonneg [of "- q" "- p"] by simp
  next
    case 3
    then show ?thesis using round_rat_nonneg [of "- p"] round_rat_nonneg [of q] by simp
  qed (use pq round_rat_mono_nonneg in auto)
qed

lemma f64_round_mono: "p \<le> q \<Longrightarrow> f64_le (f64_round p) (f64_round q)"
  using round_rat_mono [of p q] by (auto simp: f64_round_def Let_def)

section \<open>What the clients use\<close>

text \<open>Integers up to \<open>2 ^ 53\<close>, the whole quantities of the order flow, are exact.\<close>

definition whole :: "int \<Rightarrow> f64" where
  "whole n = Fin (of_int n)"

lemma f64_round_numeral [simp]:
  "f64_round 0 = Fin 0" "f64_round 1 = Fin 1" "f64_round (- 1) = Fin (- 1)"
  "(numeral w :: int) \<le> 9007199254740992 \<Longrightarrow> f64_round (numeral w) = Fin (numeral w)"
  "(numeral w :: int) \<le> 9007199254740992 \<Longrightarrow> f64_round (- numeral w) = Fin (- numeral w)"
  using f64_round_of_int [of 0] f64_round_of_int [of 1] f64_round_of_int [of "-1"]
    f64_round_of_int [of "numeral w"] f64_round_of_int [of "- numeral w"]
  by simp_all

lemma f64_of_int_whole: "\<bar>n\<bar> \<le> 2 ^ 53 \<Longrightarrow> f64_of_int n = whole n"
  by (simp add: f64_of_int_def whole_def f64_round_of_int)

lemma whole_add: "\<bar>a + b\<bar> \<le> 2 ^ 53 \<Longrightarrow> f64_add (whole a) (whole b) = whole (a + b)"
  using f64_round_of_int [of "a + b"] by (simp add: whole_def)

lemma whole_sub: "\<bar>a - b\<bar> \<le> 2 ^ 53 \<Longrightarrow> f64_sub (whole a) (whole b) = whole (a - b)"
  using f64_round_of_int [of "a - b"] by (simp add: whole_def f64_sub_def)

lemma whole_mul: "\<bar>a * b\<bar> \<le> 2 ^ 53 \<Longrightarrow> f64_mul (whole a) (whole b) = whole (a * b)"
  using f64_round_of_int [of "a * b"] by (simp add: whole_def)

lemma whole_le [simp]: "f64_le (whole a) (whole b) \<longleftrightarrow> a \<le> b"
  by (simp add: whole_def)

lemma whole_eq [simp]: "f64_eq (whole a) (whole b) \<longleftrightarrow> a = b"
  by (simp add: whole_def)

lemma whole_lt [simp]: "f64_lt (whole a) (whole b) \<longleftrightarrow> a < b"
  by (auto simp: f64_lt_def)

lemma whole_inject [simp]: "whole a = whole b \<longleftrightarrow> a = b"
  by (simp add: whole_def)

lemma whole_not_special [simp]: "whole a \<noteq> NaN" "whole a \<noteq> PInf" "whole a \<noteq> NInf"
  by (simp_all add: whole_def)

lemma Fin_0_whole: "Fin 0 = whole 0"
  by (simp add: whole_def)

lemma whole_min [simp]: "f64_min (whole a) (whole b) = whole (min a b)"
  by (simp add: f64_min_def min_def)

lemma f64_not_le_iff: "x \<noteq> NaN \<Longrightarrow> y \<noteq> NaN \<Longrightarrow> \<not> f64_le x y \<longleftrightarrow> f64_lt y x"
  by (cases x; cases y) (auto simp: f64_lt_def)

lemma f64_lt_NaN [simp]: "\<not> f64_lt NaN y" "\<not> f64_lt x NaN"
  by (cases x; simp add: f64_lt_def)+

lemma f64_le_NaN [simp]: "\<not> f64_le x NaN"
  by (cases x) auto

lemma f64_le_trans: "f64_le x y \<Longrightarrow> f64_le y z \<Longrightarrow> f64_le x z"
  by (cases x; cases y; cases z) auto

lemma f64_le_refl: "x \<noteq> NaN \<Longrightarrow> f64_le x x"
  by (cases x) auto

text \<open>Sterbenz-style guards: a difference guarded by the comparison is not negative, and
  adding a non-negative amount does not decrease.\<close>

lemma f64_round_nonneg: "0 \<le> q \<Longrightarrow> f64_le (Fin 0) (f64_round q)"
  using f64_round_mono [of 0 q] by simp

lemma f64_sub_nonneg: "f64_le (Fin b) (Fin a) \<Longrightarrow> f64_le (Fin 0) (f64_sub (Fin a) (Fin b))"
  by (simp add: f64_sub_def f64_round_nonneg)

lemma f64_add_mono_right:
  "representable a \<Longrightarrow> \<bar>a\<bar> < 2 ^ 1024 \<Longrightarrow> 0 \<le> b \<Longrightarrow> f64_le (Fin a) (f64_add (Fin a) (Fin b))"
  using f64_round_mono [of a "a + b"] by (simp add: f64_round_exact)

lemma f64_sub_exact:
  "representable (a - b) \<Longrightarrow> \<bar>a - b\<bar> < 2 ^ 1024 \<Longrightarrow> f64_sub (Fin a) (Fin b) = Fin (a - b)"
  by (simp add: f64_sub_def f64_round_exact)

lemma f64_add_exact:
  "representable (a + b) \<Longrightarrow> \<bar>a + b\<bar> < 2 ^ 1024 \<Longrightarrow> f64_add (Fin a) (Fin b) = Fin (a + b)"
  by (simp add: f64_round_exact)

end
