(* ===== verification/Models.thy ===== *)
theory Models
  imports Prelude F64
begin

text \<open>
  The data model of the trading crate (\<^verbatim>\<open>trading/src/models/{order,account,execution}.rs\<close>):
  orders and their life cycle, positions and accounts, executions and trades. Each struct
  is a record with its fields in the source's order under a short prefix, each method one
  definition \<open>Type_method\<close>; \<^verbatim>\<open>Utc::now()\<close> is the argument \<open>now\<close> and a fresh UUID the
  argument \<open>uid\<close>. The lemmas show that a fill never leaves an order in a state that its
  quantities contradict, that the account's balance is always the sum of its available and
  frozen parts, that no guarded operation overdraws it whatever the rounding does, and that
  positions stay keyed by their symbols and strictly positive.
\<close>

section \<open>Orders\<close>

datatype OrderSide = Buy | Sell

datatype OrderType = Market | Limit | StopLoss | StopLimit | ImmediateOrCancel | FillOrKill

datatype OrderStatus = New | Accepted | PartiallyFilled | Filled | Cancelled | Rejected | Expired

record Order =
  o_order_id :: string
  o_account_id :: string
  o_symbol :: string
  o_side :: OrderSide
  o_order_type :: OrderType
  o_quantity :: f64
  o_price :: "f64 option"
  o_stop_price :: "f64 option"
  o_status :: OrderStatus
  o_filled_quantity :: f64
  o_created_at :: datetime
  o_updated_at :: datetime

record OrderRequest =
  rq_order_id :: "string option"
  rq_symbol :: string
  rq_side :: OrderSide
  rq_price :: "f64 option"
  rq_quantity :: u64
  rq_client_id :: string
  rq_order_type :: OrderType

datatype OrderResult = OrderAccepted string | OrderRejected string | OrderError string

datatype OrderQuery = ById string | ByAccount string | BySymbol string | ByStatus OrderStatus | AllOrders

record CancelOrderRequest =
  cq_order_id :: string
  cq_client_id :: string

text \<open>\<^verbatim>\<open>u64 as f64\<close> is a rounding of the unsigned value.\<close>

definition Order_from_request :: "string \<Rightarrow> datetime \<Rightarrow> OrderRequest \<Rightarrow> Order" where
  "Order_from_request uid now req =
     \<lparr> o_order_id = (case rq_order_id req of Some i \<Rightarrow> i | None \<Rightarrow> uid),
       o_account_id = rq_client_id req,
       o_symbol = rq_symbol req,
       o_side = rq_side req,
       o_order_type = rq_order_type req,
       o_quantity = f64_of_int (uint (rq_quantity req)),
       o_price = rq_price req,
       o_stop_price = None,
       o_status = New,
       o_filled_quantity = Fin 0,
       o_created_at = now,
       o_updated_at = now \<rparr>"

definition Order_update_status :: "datetime \<Rightarrow> OrderStatus \<Rightarrow> Order \<Rightarrow> Order" where
  "Order_update_status now st ord = ord \<lparr> o_status := st, o_updated_at := now \<rparr>"

definition Order_update_filled_quantity :: "datetime \<Rightarrow> f64 \<Rightarrow> Order \<Rightarrow> Order" where
  "Order_update_filled_quantity now filled ord =
     (let f = f64_add (o_filled_quantity ord) filled;
          st = (if f64_le (o_quantity ord) f then Filled
                else if f64_lt (Fin 0) f then PartiallyFilled
                else o_status ord)
      in ord \<lparr> o_filled_quantity := f, o_status := st, o_updated_at := now \<rparr>)"

definition Order_can_cancel :: "Order \<Rightarrow> bool" where
  "Order_can_cancel ord = (case o_status ord of New \<Rightarrow> True | Accepted \<Rightarrow> True | PartiallyFilled \<Rightarrow> True | _ \<Rightarrow> False)"

definition Order_is_active :: "Order \<Rightarrow> bool" where
  "Order_is_active ord = (case o_status ord of New \<Rightarrow> True | Accepted \<Rightarrow> True | PartiallyFilled \<Rightarrow> True | _ \<Rightarrow> False)"

definition Order_remaining_quantity :: "Order \<Rightarrow> f64" where
  "Order_remaining_quantity ord = f64_sub (o_quantity ord) (o_filled_quantity ord)"

section \<open>Positions and accounts\<close>

record Position =
  p_symbol :: string
  p_quantity :: f64
  p_avg_price :: f64
  p_frozen :: f64

definition Position_new :: "string \<Rightarrow> f64 \<Rightarrow> f64 \<Rightarrow> Position" where
  "Position_new symbol quantity price =
     \<lparr> p_symbol = symbol, p_quantity = quantity, p_avg_price = price, p_frozen = Fin 0 \<rparr>"

definition Position_value :: "Position \<Rightarrow> f64 \<Rightarrow> f64" where
  "Position_value pos current_price = f64_mul (p_quantity pos) current_price"

definition Position_available :: "Position \<Rightarrow> f64" where
  "Position_available pos = f64_sub (p_quantity pos) (p_frozen pos)"

definition Position_update :: "f64 \<Rightarrow> f64 \<Rightarrow> Position \<Rightarrow> Position" where
  "Position_update quantity_change price pos =
     (if f64_lt (Fin 0) quantity_change then
        (let total_cost = f64_add (f64_mul (p_quantity pos) (p_avg_price pos)) (f64_mul quantity_change price);
             new_quantity = f64_add (p_quantity pos) quantity_change
         in pos \<lparr> p_avg_price := (if f64_lt (Fin 0) new_quantity then f64_div total_cost new_quantity else Fin 0),
                  p_quantity := new_quantity \<rparr>)
      else pos \<lparr> p_quantity := f64_add (p_quantity pos) quantity_change \<rparr>)"

definition Position_freeze :: "f64 \<Rightarrow> Position \<Rightarrow> bool \<times> Position" where
  "Position_freeze amount pos =
     (if f64_lt (Position_available pos) amount then (False, pos)
      else (True, pos \<lparr> p_frozen := f64_add (p_frozen pos) amount \<rparr>))"

definition Position_unfreeze :: "f64 \<Rightarrow> Position \<Rightarrow> bool \<times> Position" where
  "Position_unfreeze amount pos =
     (if f64_lt (p_frozen pos) amount then (False, pos)
      else (True, pos \<lparr> p_frozen := f64_sub (p_frozen pos) amount \<rparr>))"

record Account =
  a_id :: string
  a_name :: string
  a_balance :: f64
  a_available :: f64
  a_frozen :: f64
  a_positions :: "(string, Position) hashmap"
  a_created_at :: datetime
  a_updated_at :: datetime

definition Account_new :: "datetime \<Rightarrow> string \<Rightarrow> string \<Rightarrow> f64 \<Rightarrow> Account" where
  "Account_new now i name initial_balance =
     \<lparr> a_id = i, a_name = name, a_balance = initial_balance, a_available = initial_balance,
       a_frozen = Fin 0, a_positions = [], a_created_at = now, a_updated_at = now \<rparr>"

definition Account_get_position :: "Account \<Rightarrow> string \<Rightarrow> Position option" where
  "Account_get_position acc symbol = hm_get (a_positions acc) symbol"

definition Account_update_position :: "datetime \<Rightarrow> string \<Rightarrow> f64 \<Rightarrow> f64 \<Rightarrow> Account \<Rightarrow> Account" where
  "Account_update_position now symbol quantity_change price acc0 =
     (let acc = acc0 \<lparr> a_updated_at := now \<rparr>
      in case hm_get (a_positions acc) symbol of
           Some pos0 \<Rightarrow>
             (let pos = Position_update quantity_change price pos0
              in if f64_le (p_quantity pos) (Fin 0)
                 then acc \<lparr> a_positions := hm_remove symbol (a_positions acc) \<rparr>
                 else acc \<lparr> a_positions := hm_insert symbol pos (a_positions acc) \<rparr>)
         | None \<Rightarrow>
             if f64_lt (Fin 0) quantity_change
             then acc \<lparr> a_positions := hm_insert symbol (Position_new symbol quantity_change price) (a_positions acc) \<rparr>
             else acc)"

definition Account_freeze_funds :: "datetime \<Rightarrow> f64 \<Rightarrow> Account \<Rightarrow> bool \<times> Account" where
  "Account_freeze_funds now amount acc =
     (if f64_lt (a_available acc) amount then (False, acc)
      else (True, acc \<lparr> a_available := f64_sub (a_available acc) amount,
                        a_frozen := f64_add (a_frozen acc) amount,
                        a_updated_at := now \<rparr>))"

definition Account_unfreeze_funds :: "datetime \<Rightarrow> f64 \<Rightarrow> Account \<Rightarrow> bool \<times> Account" where
  "Account_unfreeze_funds now amount acc =
     (if f64_lt (a_frozen acc) amount then (False, acc)
      else (True, acc \<lparr> a_frozen := f64_sub (a_frozen acc) amount,
                        a_available := f64_add (a_available acc) amount,
                        a_updated_at := now \<rparr>))"

definition Account_deposit :: "datetime \<Rightarrow> f64 \<Rightarrow> Account \<Rightarrow> Account" where
  "Account_deposit now amount acc =
     acc \<lparr> a_balance := f64_add (a_balance acc) amount,
           a_available := f64_add (a_available acc) amount,
           a_updated_at := now \<rparr>"

definition Account_withdraw :: "datetime \<Rightarrow> f64 \<Rightarrow> Account \<Rightarrow> bool \<times> Account" where
  "Account_withdraw now amount acc =
     (if f64_lt (a_available acc) amount then (False, acc)
      else (True, acc \<lparr> a_balance := f64_sub (a_balance acc) amount,
                        a_available := f64_sub (a_available acc) amount,
                        a_updated_at := now \<rparr>))"

definition Account_total_assets :: "(string, f64) hashmap \<Rightarrow> Account \<Rightarrow> f64" where
  "Account_total_assets price_map acc =
     foldl (\<lambda>total (symbol, position).
              case hm_get price_map symbol of
                Some price \<Rightarrow> f64_add total (Position_value position price)
              | None \<Rightarrow> f64_add total (Position_value position (p_avg_price position)))
       (a_balance acc) (a_positions acc)"

section \<open>Executions and trades\<close>

record Execution =
  ex_execution_id :: string
  ex_order_id :: string
  ex_counter_order_id :: "string option"
  ex_symbol :: string
  ex_price :: f64
  ex_quantity :: f64
  ex_side :: OrderSide
  ex_buyer_account_id :: "string option"
  ex_seller_account_id :: "string option"
  ex_executed_at :: datetime

definition Execution_new ::
    "string \<Rightarrow> datetime \<Rightarrow> string \<Rightarrow> string option \<Rightarrow> string \<Rightarrow> f64 \<Rightarrow> f64 \<Rightarrow> OrderSide \<Rightarrow>
     string option \<Rightarrow> string option \<Rightarrow> Execution" where
  "Execution_new uid now order_id counter_order_id symbol price quantity side buyer seller =
     \<lparr> ex_execution_id = uid, ex_order_id = order_id, ex_counter_order_id = counter_order_id,
       ex_symbol = symbol, ex_price = price, ex_quantity = quantity, ex_side = side,
       ex_buyer_account_id = buyer, ex_seller_account_id = seller, ex_executed_at = now \<rparr>"

definition Execution_from_order ::
    "string \<Rightarrow> datetime \<Rightarrow> Order \<Rightarrow> string option \<Rightarrow> f64 \<Rightarrow> f64 \<Rightarrow> Execution" where
  "Execution_from_order uid now ord counter_order_id executed_quantity executed_price =
     (let (buyer, seller) = (case o_side ord of
             Buy \<Rightarrow> (Some (o_account_id ord), None)
           | Sell \<Rightarrow> (None, Some (o_account_id ord)))
      in \<lparr> ex_execution_id = uid, ex_order_id = o_order_id ord, ex_counter_order_id = counter_order_id,
           ex_symbol = o_symbol ord, ex_price = executed_price, ex_quantity = executed_quantity,
           ex_side = o_side ord, ex_buyer_account_id = buyer, ex_seller_account_id = seller,
           ex_executed_at = now \<rparr>)"

definition Execution_value :: "Execution \<Rightarrow> f64" where
  "Execution_value ex = f64_mul (ex_price ex) (ex_quantity ex)"

record Trade =
  t_trade_id :: string
  t_symbol :: string
  t_price :: f64
  t_quantity :: f64
  t_buy_order_id :: string
  t_sell_order_id :: string
  t_buyer_account_id :: string
  t_seller_account_id :: string
  t_buy_execution_id :: string
  t_sell_execution_id :: string
  t_traded_at :: datetime

definition Trade_new ::
    "string \<Rightarrow> datetime \<Rightarrow> string \<Rightarrow> f64 \<Rightarrow> f64 \<Rightarrow> string \<Rightarrow> string \<Rightarrow> string \<Rightarrow> string \<Rightarrow> string \<Rightarrow> string \<Rightarrow> Trade" where
  "Trade_new uid now symbol price quantity buy_order_id sell_order_id buyer seller buy_exec sell_exec =
     \<lparr> t_trade_id = uid, t_symbol = symbol, t_price = price, t_quantity = quantity,
       t_buy_order_id = buy_order_id, t_sell_order_id = sell_order_id,
       t_buyer_account_id = buyer, t_seller_account_id = seller,
       t_buy_execution_id = buy_exec, t_sell_execution_id = sell_exec, t_traded_at = now \<rparr>"

definition Trade_from_executions :: "string \<Rightarrow> datetime \<Rightarrow> Execution \<Rightarrow> Execution \<Rightarrow> Trade option" where
  "Trade_from_executions uid now buy_exec sell_exec =
     (if ex_side buy_exec \<noteq> Buy \<or> ex_side sell_exec \<noteq> Sell then None
      else if ex_symbol buy_exec \<noteq> ex_symbol sell_exec \<or>
              \<not> f64_eq (ex_price buy_exec) (ex_price sell_exec) \<or>
              \<not> f64_eq (ex_quantity buy_exec) (ex_quantity sell_exec) then None
      else case (ex_buyer_account_id buy_exec, ex_seller_account_id sell_exec) of
             (Some buyer, Some seller) \<Rightarrow>
               Some \<lparr> t_trade_id = uid, t_symbol = ex_symbol buy_exec, t_price = ex_price buy_exec,
                      t_quantity = ex_quantity buy_exec,
                      t_buy_order_id = ex_order_id buy_exec, t_sell_order_id = ex_order_id sell_exec,
                      t_buyer_account_id = buyer, t_seller_account_id = seller,
                      t_buy_execution_id = ex_execution_id buy_exec,
                      t_sell_execution_id = ex_execution_id sell_exec, t_traded_at = now \<rparr>
           | _ \<Rightarrow> None)"

definition Trade_value :: "Trade \<Rightarrow> f64" where
  "Trade_value t = f64_mul (t_price t) (t_quantity t)"

section \<open>The life cycle of an order\<close>

text \<open>An order whose numbers are whole: the quantity \<open>q\<close> of a request (a \<^verbatim>\<open>u64\<close>) and the
  filled part \<open>f\<close>, below the bound under which binary64 counts exactly.\<close>

definition order_amounts :: "Order \<Rightarrow> int \<Rightarrow> int \<Rightarrow> bool" where
  "order_amounts ord q f \<longleftrightarrow>
     o_quantity ord = whole q \<and> o_filled_quantity ord = whole f \<and> 0 \<le> f \<and> f < q \<and> q \<le> 2 ^ 52"

lemma can_cancel_is_active: "Order_can_cancel ord = Order_is_active ord"
  by (simp add: Order_can_cancel_def Order_is_active_def)

lemma from_request_active [simp]: "Order_is_active (Order_from_request uid now req)"
  by (simp add: Order_from_request_def Order_is_active_def)

lemma from_request_amounts:
  assumes "0 < uint (rq_quantity req)" "uint (rq_quantity req) \<le> 2 ^ 52"
  shows "order_amounts (Order_from_request uid now req) (uint (rq_quantity req)) 0"
proof -
  have "f64_of_int (uint (rq_quantity req)) = whole (uint (rq_quantity req))"
    using assms by (intro f64_of_int_whole) auto
  then show ?thesis
    using assms by (simp add: order_amounts_def Order_from_request_def Fin_0_whole)
qed

lemma remaining_whole: "order_amounts ord q f \<Longrightarrow> Order_remaining_quantity ord = whole (q - f)"
  by (simp add: order_amounts_def Order_remaining_quantity_def whole_sub)

lemma update_filled_simps [simp]:
  "o_order_id (Order_update_filled_quantity now x ord) = o_order_id ord"
  "o_account_id (Order_update_filled_quantity now x ord) = o_account_id ord"
  "o_symbol (Order_update_filled_quantity now x ord) = o_symbol ord"
  "o_side (Order_update_filled_quantity now x ord) = o_side ord"
  "o_order_type (Order_update_filled_quantity now x ord) = o_order_type ord"
  "o_quantity (Order_update_filled_quantity now x ord) = o_quantity ord"
  "o_price (Order_update_filled_quantity now x ord) = o_price ord"
  "o_filled_quantity (Order_update_filled_quantity now x ord) = f64_add (o_filled_quantity ord) x"
  by (simp_all add: Order_update_filled_quantity_def Let_def)

lemma update_filled_status:
  assumes "order_amounts ord q f" "0 < n" "n \<le> 2 ^ 52"
  shows "o_status (Order_update_filled_quantity now (whole n) ord) = (if q \<le> f + n then Filled else PartiallyFilled)"
proof -
  have "f64_add (whole f) (whole n) = whole (f + n)"
    using assms by (intro whole_add) (auto simp: order_amounts_def)
  then show ?thesis
    using assms by (simp add: order_amounts_def Order_update_filled_quantity_def Let_def Fin_0_whole)
qed

lemma update_filled_amounts:
  assumes "order_amounts ord q f" "0 < n" "f + n < q"
  shows "order_amounts (Order_update_filled_quantity now (whole n) ord) q (f + n)"
  using assms by (simp add: order_amounts_def whole_add)

text \<open>
  A fill of \<open>n\<close> units, not more than what remains of the order, is booked exactly: the
  remaining quantity drops by \<open>n\<close>, and the order is finished (\<open>Filled\<close>, no longer active)
  exactly when nothing remains.
\<close>

theorem order_fill_exact:
  assumes "order_amounts ord q f" "0 < n" "n \<le> q - f"
  shows "let ord' = Order_update_filled_quantity now (whole n) ord
         in Order_remaining_quantity ord' = whole (q - f - n) \<and>
            (o_status ord' = Filled \<longleftrightarrow> n = q - f) \<and>
            (Order_is_active ord' \<longleftrightarrow> n < q - f)"
proof -
  let ?ord' = "Order_update_filled_quantity now (whole n) ord"
  have st: "o_status ?ord' = (if q \<le> f + n then Filled else PartiallyFilled)"
    using assms by (intro update_filled_status) (auto simp: order_amounts_def)
  have "f64_add (whole f) (whole n) = whole (f + n)" "f64_sub (whole q) (whole (f + n)) = whole (q - (f + n))"
    using assms by (auto intro!: whole_add whole_sub simp: order_amounts_def)
  then have "Order_remaining_quantity ?ord' = whole (q - f - n)"
    using assms by (simp add: Order_remaining_quantity_def order_amounts_def algebra_simps)
  then show ?thesis using assms st by (auto simp: Let_def Order_is_active_def)
qed

definition sample_request :: OrderRequest where
  "sample_request = \<lparr> rq_order_id = Some ''o1'', rq_symbol = ''AAPL'', rq_side = Buy, rq_price = Some (Fin 150),
     rq_quantity = 10, rq_client_id = ''c1'', rq_order_type = Limit \<rparr>"

definition sample_order :: Order where
  "sample_order = Order_from_request ''u'' 0 sample_request"

lemma sample_order_amounts: "order_amounts sample_order 10 0"
  using from_request_amounts [of sample_request "''u''" 0] by (simp add: sample_order_def sample_request_def)

theorem order_fill_exact_witness:
  "Order_remaining_quantity (Order_update_filled_quantity 1 (whole 4) sample_order) = whole 6 \<and>
   Order_is_active (Order_update_filled_quantity 1 (whole 4) sample_order)"
  using order_fill_exact [OF sample_order_amounts, of 4 1] by (simp add: Let_def)

section \<open>The ledger of an account\<close>

text \<open>
  The abstract account: the available and the frozen amount, two natural numbers written as
  integers. \<open>account_ledger acc a f\<close> says that the record \<open>acc\<close> holds them, with the balance their sum.
\<close>

datatype account_op = Deposit int | Withdraw int | Freeze int | Unfreeze int

fun op_amount :: "account_op \<Rightarrow> int" where
  "op_amount (Deposit n) = n" | "op_amount (Withdraw n) = n" | "op_amount (Freeze n) = n" | "op_amount (Unfreeze n) = n"

fun ledger_step :: "account_op \<Rightarrow> int \<times> int \<Rightarrow> int \<times> int" where
  "ledger_step (Deposit n) (a, f) = (a + n, f)"
| "ledger_step (Withdraw n) (a, f) = (if n \<le> a then (a - n, f) else (a, f))"
| "ledger_step (Freeze n) (a, f) = (if n \<le> a then (a - n, f + n) else (a, f))"
| "ledger_step (Unfreeze n) (a, f) = (if n \<le> f then (a + n, f - n) else (a, f))"

fun account_step :: "datetime \<Rightarrow> account_op \<Rightarrow> Account \<Rightarrow> Account" where
  "account_step now (Deposit n) acc = Account_deposit now (whole n) acc"
| "account_step now (Withdraw n) acc = snd (Account_withdraw now (whole n) acc)"
| "account_step now (Freeze n) acc = snd (Account_freeze_funds now (whole n) acc)"
| "account_step now (Unfreeze n) acc = snd (Account_unfreeze_funds now (whole n) acc)"

definition account_ledger :: "Account \<Rightarrow> int \<times> int \<Rightarrow> bool" where
  "account_ledger acc l \<longleftrightarrow>
     a_available acc = whole (fst l) \<and> a_frozen acc = whole (snd l) \<and> a_balance acc = whole (fst l + snd l) \<and>
     0 \<le> fst l \<and> 0 \<le> snd l"

definition deposits :: "account_op list \<Rightarrow> int" where
  "deposits ops = sum_list (map (\<lambda>c. case c of Deposit n \<Rightarrow> n | _ \<Rightarrow> 0) ops)"

lemma account_step_refines:
  assumes "account_ledger acc l" "0 \<le> op_amount c" "fst l + snd l + deposits [c] \<le> 2 ^ 53"
  shows "account_ledger (account_step now c acc) (ledger_step c l)"
proof (cases l)
  case (Pair a f)
  have not_lt: "\<not> f64_lt (whole x) (whole n) \<longleftrightarrow> n \<le> x" for x n by auto
  show ?thesis
    using assms unfolding Pair
    by (cases c) (auto simp: account_ledger_def Account_deposit_def Account_withdraw_def Account_freeze_funds_def
        Account_unfreeze_funds_def deposits_def not_lt whole_add whole_sub algebra_simps split: if_splits)
qed

lemma ledger_step_total:
  "fst (ledger_step c l) + snd (ledger_step c l) \<le> fst l + snd l + deposits [c]" if "0 \<le> op_amount c"
  using that by (cases l; cases c) (auto simp: deposits_def)

lemma deposits_Cons: "deposits (c # ops) = deposits [c] + deposits ops"
  by (simp add: deposits_def)

lemma deposits_nonneg: "\<forall>c\<in>set ops. 0 \<le> op_amount c \<Longrightarrow> 0 \<le> deposits ops"
  unfolding deposits_def by (rule sum_list_nonneg) (force split: account_op.splits)

text \<open>
  C11. Refinement: any sequence of deposits, withdrawals, freezes and unfreezes of whole
  non-negative amounts, whose deposits stay within the exact range of binary64, acts on the account record as
  the ledger acts on two integers; refused operations (amount above the available or the
  frozen part) change nothing, no part becomes negative, and the balance is always
  available plus frozen.
\<close>

theorem account_refines_ledger:
  assumes "account_ledger acc l" "\<forall>c\<in>set ops. 0 \<le> op_amount c" "fst l + snd l + deposits ops \<le> 2 ^ 53"
  shows "account_ledger (fold (account_step now) ops acc) (fold ledger_step ops l)"
  using assms
proof (induction ops arbitrary: acc l)
  case (Cons c ops)
  have d: "0 \<le> deposits ops" using Cons.prems(2) by (intro deposits_nonneg) auto
  have "account_ledger (account_step now c acc) (ledger_step c l)"
    using Cons.prems d by (intro account_step_refines) (auto simp: deposits_Cons [of c ops])
  moreover have "fst (ledger_step c l) + snd (ledger_step c l) + deposits ops \<le> 2 ^ 53"
    using ledger_step_total [of c l] Cons.prems by (auto simp: deposits_Cons [of c ops])
  ultimately show ?case using Cons by simp
qed simp

definition sample_account :: Account where
  "sample_account = Account_new 0 ''a1'' ''alice'' (Fin 100)"

lemma sample_account_ledger: "account_ledger sample_account (100, 0)"
  by (simp add: sample_account_def account_ledger_def Account_new_def whole_def)

theorem account_refines_ledger_witness:
  "account_ledger (fold (account_step 1) [Freeze 30, Withdraw 80, Deposit 20, Unfreeze 10] sample_account) (100, 20)"
  using account_refines_ledger [OF sample_account_ledger, of "[Freeze 30, Withdraw 80, Deposit 20, Unfreeze 10]" 1]
  by (simp add: deposits_def)

text \<open>
  No overdraft, for every finite binary64 amount: when a withdrawal or a freeze is
  accepted, the available amount that remains is not negative, although the subtraction
  rounds.
\<close>

theorem guarded_no_overdraft:
  assumes "a_available acc = Fin a" "Account_withdraw now (Fin x) acc = (ok, acc')"
    and "Account_freeze_funds now (Fin x) acc = (ok2, acc2)" "f64_le (Fin 0) (a_available acc)"
  shows "ok = ok2 \<and> ok = (x \<le> a) \<and> f64_le (Fin 0) (a_available acc') \<and> a_available acc2 = a_available acc'"
proof -
  have "\<not> f64_lt (Fin a) (Fin x) \<longleftrightarrow> x \<le> a" by (auto simp: f64_lt_def)
  moreover have "f64_le (Fin 0) (f64_sub (Fin a) (Fin x))" if "x \<le> a"
    using that by (intro f64_sub_nonneg) simp
  ultimately show ?thesis
    using assms by (auto simp: Account_withdraw_def Account_freeze_funds_def split: if_splits)
qed

theorem guarded_no_overdraft_witness:
  "f64_le (Fin 0) (a_available (snd (Account_withdraw 1 (Fin (1 / 10)) sample_account)))"
  using guarded_no_overdraft [of sample_account 100 1 "1 / 10"
      "fst (Account_withdraw 1 (Fin (1 / 10)) sample_account)" "snd (Account_withdraw 1 (Fin (1 / 10)) sample_account)"
      "fst (Account_freeze_funds 1 (Fin (1 / 10)) sample_account)" "snd (Account_freeze_funds 1 (Fin (1 / 10)) sample_account)"]
  by (simp add: sample_account_def Account_new_def)

section \<open>Positions\<close>

definition positions_ok :: "Account \<Rightarrow> bool" where
  "positions_ok acc \<longleftrightarrow>
     hm_ok (a_positions acc) \<and>
     (\<forall>(s, p)\<in>set (a_positions acc). p_symbol p = s \<and> f64_lt (Fin 0) (p_quantity p))"

lemma f64_add_Fin_not_NaN: "x \<noteq> NaN \<Longrightarrow> f64_add x (Fin b) \<noteq> NaN"
  by (cases x) (auto simp: f64_round_def Let_def)

lemma Position_update_quantity [simp]: "p_quantity (Position_update c price pos) = f64_add (p_quantity pos) c"
  by (simp add: Position_update_def Let_def)

lemma Position_update_symbol [simp]: "p_symbol (Position_update c price pos) = p_symbol pos"
  by (simp add: Position_update_def Let_def)

text \<open>
  C39. Updating a position by any finite change keeps the account's positions well formed: one entry
  per symbol, filed under its own symbol, with a strictly positive quantity (an entry
  that falls to zero or below is removed); the other symbols are untouched.
\<close>

theorem update_position_ok:
  assumes "positions_ok acc"
  shows "positions_ok (Account_update_position now symbol (Fin c) price acc) \<and>
         (\<forall>s. s \<noteq> symbol \<longrightarrow>
            Account_get_position (Account_update_position now symbol (Fin c) price acc) s = Account_get_position acc s)"
proof -
  have ok: "hm_ok (a_positions acc)" using assms by (simp add: positions_ok_def)
  have pos: "p_symbol p = symbol" "p_quantity p \<noteq> NaN" if "hm_get (a_positions acc) symbol = Some p" for p
    using assms map_of_SomeD [OF that] by (auto simp: positions_ok_def)
  have lt: "f64_lt (Fin 0) x \<longleftrightarrow> \<not> f64_le x (Fin 0)" if "x \<noteq> NaN" for x
    using that f64_not_le_iff [of x "Fin 0"] by auto
  show ?thesis
    using assms ok pos f64_add_Fin_not_NaN
    by (auto simp: positions_ok_def Account_update_position_def Account_get_position_def Let_def
        set_hm_insert_ok set_hm_remove Position_new_def lt split: option.splits)
qed

theorem update_position_ok_witness:
  "positions_ok (Account_update_position 1 ''AAPL'' (Fin 5) (Fin 150) sample_account)"
  using update_position_ok [of sample_account 1 "''AAPL''" 5 "Fin 150"]
  by (simp add: sample_account_def Account_new_def positions_ok_def)

section \<open>Trades\<close>

lemma Trade_from_executions_Some_iff:
  "Trade_from_executions uid now b s \<noteq> None \<longleftrightarrow>
     ex_side b = Buy \<and> ex_side s = Sell \<and> ex_symbol b = ex_symbol s \<and> f64_eq (ex_price b) (ex_price s) \<and>
     f64_eq (ex_quantity b) (ex_quantity s) \<and> ex_buyer_account_id b \<noteq> None \<and> ex_seller_account_id s \<noteq> None"
  by (auto simp: Trade_from_executions_def split: option.splits)

lemma Trade_from_executions_value:
  "Trade_from_executions uid now b s = Some t \<Longrightarrow> Trade_value t = Execution_value b"
  by (auto simp: Trade_from_executions_def Trade_value_def Execution_value_def split: option.splits if_splits)

end
