(* ===== verification/Order_Book.thy ===== *)
theory Order_Book
  imports Models
begin

text \<open>
  The order book of one symbol (\<^verbatim>\<open>trading/src/execution/order_book.rs\<close>): two \<^verbatim>\<open>BTreeMap\<close>s
  from a price key (the price in hundredths, truncated to an \<^verbatim>\<open>i64\<close>) to the orders at
  that level in arrival order, and an index by order id. \<open>book_ok\<close> says that the three
  agree: a level holds exactly the indexed orders of its side and key. Adding an order
  with a new id, removing, cancelling and clearing keep it; the
  best prices and the matching lists are characterised through the index alone.
\<close>

section \<open>Price keys and levels\<close>

definition price_key :: "f64 \<Rightarrow> int" where
  "price_key price = f64_to_i64 (f64_mul price (Fin 100))"

definition key_price :: "int \<Rightarrow> f64" where
  "key_price k = f64_div (f64_of_int k) (Fin 100)"

definition has_price :: "Order \<Rightarrow> bool" where
  "has_price ord = (case o_price ord of Some price \<Rightarrow> f64_lt (Fin 0) price | None \<Rightarrow> False)"

text \<open>The key \<^verbatim>\<open>remove_order\<close> computes, with a missing price taken as zero; it is the key of
  \<^verbatim>\<open>add_order\<close> where there is a price.\<close>

definition order_key :: "Order \<Rightarrow> int" where
  "order_key ord = price_key (case o_price ord of Some price \<Rightarrow> price | None \<Rightarrow> Fin 0)"

type_synonym levels = "(int, Order list) btreemap"

definition level :: "levels \<Rightarrow> int \<Rightarrow> Order list" where
  "level m k = (case bt_get m k of Some os \<Rightarrow> os | None \<Rightarrow> [])"

definition level_push :: "int \<Rightarrow> Order \<Rightarrow> levels \<Rightarrow> levels" where
  "level_push k ord m = bt_insert k (level m k @ [ord]) m"

definition level_retain :: "int \<Rightarrow> string \<Rightarrow> levels \<Rightarrow> levels" where
  "level_retain k order_id m =
     (case bt_get m k of
        None \<Rightarrow> m
      | Some os \<Rightarrow>
          (let os' = filter (\<lambda>o'. o_order_id o' \<noteq> order_id) os
           in if os' = [] then bt_remove k m else bt_insert k os' m))"

section \<open>The order book\<close>

record OrderBook =
  ob_symbol :: string
  ob_buy_orders :: levels
  ob_sell_orders :: levels
  ob_orders_by_id :: "(string, Order) hashmap"

definition OrderBook_new :: "string \<Rightarrow> OrderBook" where
  "OrderBook_new symbol = \<lparr> ob_symbol = symbol, ob_buy_orders = [], ob_sell_orders = [], ob_orders_by_id = [] \<rparr>"

definition OrderBook_add_order :: "Order \<Rightarrow> OrderBook \<Rightarrow> bool \<times> OrderBook" where
  "OrderBook_add_order ord b =
     (if o_symbol ord \<noteq> ob_symbol b then (False, b)
      else if \<not> Order_is_active ord then (False, b)
      else
        let b1 = (if has_price ord then
                    (case o_side ord of
                       Buy \<Rightarrow> b \<lparr> ob_buy_orders := level_push (order_key ord) ord (ob_buy_orders b) \<rparr>
                     | Sell \<Rightarrow> b \<lparr> ob_sell_orders := level_push (order_key ord) ord (ob_sell_orders b) \<rparr>)
                  else b)
        in (True, b1 \<lparr> ob_orders_by_id := hm_insert (o_order_id ord) ord (ob_orders_by_id b1) \<rparr>))"

definition OrderBook_remove_order :: "string \<Rightarrow> OrderBook \<Rightarrow> Order option \<times> OrderBook" where
  "OrderBook_remove_order order_id b =
     (case hm_get (ob_orders_by_id b) order_id of
        None \<Rightarrow> (None, b)
      | Some ord \<Rightarrow>
          (let b1 = b \<lparr> ob_orders_by_id := hm_remove order_id (ob_orders_by_id b) \<rparr>
           in (Some ord,
               case o_side ord of
                 Buy \<Rightarrow> b1 \<lparr> ob_buy_orders := level_retain (order_key ord) order_id (ob_buy_orders b1) \<rparr>
               | Sell \<Rightarrow> b1 \<lparr> ob_sell_orders := level_retain (order_key ord) order_id (ob_sell_orders b1) \<rparr>)))"

definition OrderBook_update_order ::
    "datetime \<Rightarrow> string \<Rightarrow> OrderStatus \<Rightarrow> f64 option \<Rightarrow> OrderBook \<Rightarrow> Order option \<times> OrderBook" where
  "OrderBook_update_order now order_id status filled_quantity b =
     (case hm_get (ob_orders_by_id b) order_id of
        None \<Rightarrow> (None, b)
      | Some ord0 \<Rightarrow>
          (let ord1 = Order_update_status now status ord0;
               ord = (case filled_quantity of Some qty \<Rightarrow> Order_update_filled_quantity now qty ord1 | None \<Rightarrow> ord1);
               b1 = b \<lparr> ob_orders_by_id := hm_insert order_id ord (ob_orders_by_id b) \<rparr>
           in (Some ord, if \<not> Order_is_active ord then snd (OrderBook_remove_order order_id b1) else b1)))"

definition OrderBook_best_buy_price :: "OrderBook \<Rightarrow> f64 option" where
  "OrderBook_best_buy_price b =
     (if ob_buy_orders b = [] then None else Some (key_price (fst (last (ob_buy_orders b)))))"

definition OrderBook_best_sell_price :: "OrderBook \<Rightarrow> f64 option" where
  "OrderBook_best_sell_price b =
     (if ob_sell_orders b = [] then None else Some (key_price (fst (hd (ob_sell_orders b)))))"

text \<open>The loop both depth functions share: the running total over the levels in the order given.\<close>

fun accumulate_depth :: "f64 \<Rightarrow> levels \<Rightarrow> (f64 \<times> f64) list" where
  "accumulate_depth total_qty [] = []"
| "accumulate_depth total_qty ((k, os) # m) =
     (let qty = f64_sum (map Order_remaining_quantity os);
          total = f64_add total_qty qty
      in (key_price k, total) # accumulate_depth total m)"

definition OrderBook_buy_depth :: "OrderBook \<Rightarrow> (f64 \<times> f64) list" where
  "OrderBook_buy_depth b = accumulate_depth (Fin 0) (rev (ob_buy_orders b))"

definition OrderBook_sell_depth :: "OrderBook \<Rightarrow> (f64 \<times> f64) list" where
  "OrderBook_sell_depth b = accumulate_depth (Fin 0) (ob_sell_orders b)"

definition OrderBook_get_buy_orders_at_price :: "f64 \<Rightarrow> OrderBook \<Rightarrow> Order list" where
  "OrderBook_get_buy_orders_at_price price b = level (ob_buy_orders b) (price_key price)"

definition OrderBook_get_sell_orders_at_price :: "f64 \<Rightarrow> OrderBook \<Rightarrow> Order list" where
  "OrderBook_get_sell_orders_at_price price b = level (ob_sell_orders b) (price_key price)"

definition OrderBook_get_matching_buy_orders :: "f64 \<Rightarrow> OrderBook \<Rightarrow> Order list" where
  "OrderBook_get_matching_buy_orders price b =
     concat (map snd (filter (\<lambda>(k, os). price_key price \<le> k) (ob_buy_orders b)))"

definition OrderBook_get_matching_sell_orders :: "f64 \<Rightarrow> OrderBook \<Rightarrow> Order list" where
  "OrderBook_get_matching_sell_orders price b =
     concat (map snd (filter (\<lambda>(k, os). k \<le> price_key price) (ob_sell_orders b)))"

definition OrderBook_get_all_active_orders :: "OrderBook \<Rightarrow> Order list" where
  "OrderBook_get_all_active_orders b = filter Order_is_active (hm_values (ob_orders_by_id b))"

definition OrderBook_get_active_buy_orders :: "OrderBook \<Rightarrow> Order list" where
  "OrderBook_get_active_buy_orders b =
     filter (\<lambda>o'. Order_is_active o' \<and> o_side o' = Buy) (hm_values (ob_orders_by_id b))"

definition OrderBook_get_active_sell_orders :: "OrderBook \<Rightarrow> Order list" where
  "OrderBook_get_active_sell_orders b =
     filter (\<lambda>o'. Order_is_active o' \<and> o_side o' = Sell) (hm_values (ob_orders_by_id b))"

definition OrderBook_buy_volume :: "OrderBook \<Rightarrow> f64" where
  "OrderBook_buy_volume b = f64_sum (map Order_remaining_quantity (OrderBook_get_active_buy_orders b))"

definition OrderBook_sell_volume :: "OrderBook \<Rightarrow> f64" where
  "OrderBook_sell_volume b = f64_sum (map Order_remaining_quantity (OrderBook_get_active_sell_orders b))"

record OrderBookSummary =
  bs_symbol :: string
  bs_buy_orders_count :: nat
  bs_sell_orders_count :: nat
  bs_best_buy_price :: "f64 option"
  bs_best_sell_price :: "f64 option"
  bs_buy_volume :: f64
  bs_sell_volume :: f64

definition OrderBook_get_summary :: "OrderBook \<Rightarrow> OrderBookSummary" where
  "OrderBook_get_summary b =
     \<lparr> bs_symbol = ob_symbol b,
       bs_buy_orders_count = length (OrderBook_get_active_buy_orders b),
       bs_sell_orders_count = length (OrderBook_get_active_sell_orders b),
       bs_best_buy_price = OrderBook_best_buy_price b,
       bs_best_sell_price = OrderBook_best_sell_price b,
       bs_buy_volume = OrderBook_buy_volume b,
       bs_sell_volume = OrderBook_sell_volume b \<rparr>"

definition OrderBook_clear :: "OrderBook \<Rightarrow> OrderBook" where
  "OrderBook_clear b = b \<lparr> ob_buy_orders := [], ob_sell_orders := [], ob_orders_by_id := [] \<rparr>"

section \<open>Levels\<close>

definition levels_ok :: "levels \<Rightarrow> bool" where
  "levels_ok m \<longleftrightarrow> bt_ok m \<and> (\<forall>(k, os)\<in>set m. os \<noteq> [] \<and> distinct (map o_order_id os))"

lemma levels_ok_bt: "levels_ok m \<Longrightarrow> bt_ok m"
  by (simp add: levels_ok_def)

lemma level_insert: "bt_ok m \<Longrightarrow> level (bt_insert k os m) k' = (if k' = k then os else level m k')"
  by (simp add: level_def)

lemma level_remove: "level (bt_remove k m) k' = (if k' = k then [] else level m k')"
  by (simp add: level_def)

lemma level_Nil [simp]: "level [] k = []"
  by (simp add: level_def)

lemma level_push: "bt_ok m \<Longrightarrow> level (level_push k ord m) k' = (if k' = k then level m k @ [ord] else level m k')"
  by (simp add: level_push_def level_insert)

lemma level_retain:
  "bt_ok m \<Longrightarrow> level (level_retain k i m) k' =
     (if k' = k then filter (\<lambda>o'. o_order_id o' \<noteq> i) (level m k) else level m k')"
  by (auto simp: level_retain_def Let_def level_insert level_remove split: option.splits)
    (simp_all add: level_def)

lemma level_mem: "levels_ok m \<Longrightarrow> (k, os) \<in> set m \<longleftrightarrow> os = level m k \<and> level m k \<noteq> []"
  by (auto simp: levels_ok_def bt_mem_get level_def split: option.splits)

lemma level_distinct: "levels_ok m \<Longrightarrow> distinct (map o_order_id (level m k))"
  using level_mem [of m k "level m k"] by (cases "level m k = []") (auto simp: levels_ok_def)

lemma levels_ok_push:
  assumes "levels_ok m" "o_order_id ord \<notin> o_order_id ` set (level m k)"
  shows "levels_ok (level_push k ord m)"
  using assms level_distinct [OF assms(1), of k]
  by (auto simp: levels_ok_def level_push_def set_bt_insert)

lemma levels_ok_retain: "levels_ok m \<Longrightarrow> levels_ok (level_retain k i m)"
proof (cases "bt_get m k")
  case (Some os)
  assume ok: "levels_ok m"
  then have "distinct (map o_order_id os)" using level_distinct [OF ok, of k] Some by (simp add: level_def)
  then have "distinct (map o_order_id (filter (\<lambda>o'. o_order_id o' \<noteq> i) os))" by (rule distinct_map_filter)
  with ok Some show ?thesis
    by (auto simp: levels_ok_def level_retain_def Let_def set_bt_insert set_hm_remove)
qed (simp add: level_retain_def)

section \<open>The book invariant\<close>

text \<open>\<open>resting idx s k\<close>: the orders of side \<open>s\<close> the index holds at price key \<open>k\<close>.\<close>

definition rests :: "(string, Order) hashmap \<Rightarrow> OrderSide \<Rightarrow> int \<Rightarrow> Order \<Rightarrow> bool" where
  "rests idx s k ord \<longleftrightarrow>
     hm_get idx (o_order_id ord) = Some ord \<and> o_side ord = s \<and> has_price ord \<and> order_key ord = k"

definition side_ok :: "(string, Order) hashmap \<Rightarrow> OrderSide \<Rightarrow> levels \<Rightarrow> bool" where
  "side_ok idx s m \<longleftrightarrow> levels_ok m \<and> (\<forall>k ord. ord \<in> set (level m k) \<longleftrightarrow> rests idx s k ord)"

definition book_ok :: "OrderBook \<Rightarrow> bool" where
  "book_ok b \<longleftrightarrow>
     hm_ok (ob_orders_by_id b) \<and>
     (\<forall>i ord. hm_get (ob_orders_by_id b) i = Some ord \<longrightarrow>
        o_order_id ord = i \<and> o_symbol ord = ob_symbol b \<and> Order_is_active ord) \<and>
     side_ok (ob_orders_by_id b) Buy (ob_buy_orders b) \<and>
     side_ok (ob_orders_by_id b) Sell (ob_sell_orders b)"

lemma side_ok_add_same:
  assumes "side_ok idx s m" "hm_get idx (o_order_id ord) = None" "o_side ord = s" "has_price ord"
  shows "side_ok (hm_insert (o_order_id ord) ord idx) s (level_push (order_key ord) ord m)"
proof -
  have "o_order_id ord \<notin> o_order_id ` set (level m (order_key ord))"
    using assms by (auto simp: side_ok_def rests_def)
  then show ?thesis
    using assms by (auto simp: side_ok_def levels_ok_push level_push levels_ok_bt rests_def split: if_splits)
qed

lemma side_ok_add_other:
  assumes "side_ok idx s m" "hm_get idx (o_order_id ord) = None" "o_side ord \<noteq> s \<or> \<not> has_price ord"
  shows "side_ok (hm_insert (o_order_id ord) ord idx) s m"
  using assms by (auto simp: side_ok_def rests_def split: if_splits)

lemma side_ok_remove_same:
  assumes "side_ok idx s m" "hm_get idx i = Some ord" "o_order_id ord = i"
  shows "side_ok (hm_remove i idx) s (level_retain (order_key ord) i m)"
  using assms
  by (auto simp: side_ok_def levels_ok_retain level_retain levels_ok_bt rests_def split: if_splits)

lemma side_ok_remove_other:
  assumes "side_ok idx s m" "hm_get idx i = Some ord" "o_side ord \<noteq> s"
  shows "side_ok (hm_remove i idx) s m"
  using assms by (auto simp: side_ok_def rests_def split: if_splits)

lemma side_ok_Nil [simp]: "side_ok [] s []"
  by (simp add: side_ok_def levels_ok_def rests_def)

lemma book_ok_new [simp, inv_intros]: "book_ok (OrderBook_new symbol)"
  by (simp add: book_ok_def OrderBook_new_def)

lemma book_ok_clear [simp, inv_intros]: "book_ok (OrderBook_clear b)"
  by (simp add: book_ok_def OrderBook_clear_def)

lemma add_order_index:
  "ob_orders_by_id (snd (OrderBook_add_order ord b)) =
     (if o_symbol ord = ob_symbol b \<and> Order_is_active ord
      then hm_insert (o_order_id ord) ord (ob_orders_by_id b) else ob_orders_by_id b)"
  "ob_symbol (snd (OrderBook_add_order ord b)) = ob_symbol b"
  by (auto simp: OrderBook_add_order_def Let_def split: OrderSide.split)

lemma add_order_accepts:
  "fst (OrderBook_add_order ord b) \<longleftrightarrow> o_symbol ord = ob_symbol b \<and> Order_is_active ord"
  by (simp add: OrderBook_add_order_def Let_def)

lemma book_ok_add [inv_intros]:
  assumes "book_ok b" "hm_get (ob_orders_by_id b) (o_order_id ord) = None"
  shows "book_ok (snd (OrderBook_add_order ord b))"
  using assms
  by (cases "o_side ord")
    (auto simp: OrderBook_add_order_def Let_def book_ok_def side_ok_add_same side_ok_add_other)

lemma remove_order_index:
  "ob_orders_by_id (snd (OrderBook_remove_order i b)) = hm_remove i (ob_orders_by_id b)"
  "ob_symbol (snd (OrderBook_remove_order i b)) = ob_symbol b"
  "fst (OrderBook_remove_order i b) = hm_get (ob_orders_by_id b) i"
  by (simp_all add: OrderBook_remove_order_def Let_def split: option.split OrderSide.split)

lemma book_ok_remove [inv_intros]:
  assumes "book_ok b"
  shows "book_ok (snd (OrderBook_remove_order i b))"
proof (cases "hm_get (ob_orders_by_id b) i")
  case (Some ord)
  with assms show ?thesis
    by (cases "o_side ord")
      (auto simp: OrderBook_remove_order_def book_ok_def side_ok_remove_same side_ok_remove_other)
qed (simp add: OrderBook_remove_order_def assms)

text \<open>Replacing an indexed order by one of the same side and price changes what the
  removal looks up, not what it removes.\<close>

lemma remove_order_reindexed:
  assumes "hm_get (ob_orders_by_id b) i = Some ord0" "o_side ord = o_side ord0" "o_price ord = o_price ord0"
  shows "snd (OrderBook_remove_order i (b \<lparr> ob_orders_by_id := hm_insert i ord (ob_orders_by_id b) \<rparr>)) =
         (snd (OrderBook_remove_order i b))
           \<lparr> ob_orders_by_id := hm_remove i (hm_insert i ord (ob_orders_by_id b)) \<rparr>"
  using assms by (cases "o_side ord0") (simp_all add: OrderBook_remove_order_def order_key_def)

lemma hm_remove_insert: "hm_remove i (hm_insert i v m) = hm_remove i m"
  by (induction m) (auto simp: AList.delete_eq)

definition sample_sell :: Order where
  "sample_sell = sample_order \<lparr> o_order_id := ''s1'', o_side := Sell \<rparr>"

definition sample_book :: OrderBook where
  "sample_book = snd (OrderBook_add_order sample_sell (OrderBook_new ''AAPL''))"

lemmas sample_defs = sample_book_def sample_sell_def sample_order_def sample_request_def Order_from_request_def
  OrderBook_new_def

lemma sample_book_ok: "book_ok sample_book"
  unfolding sample_book_def by (intro book_ok_add book_ok_new) (simp add: OrderBook_new_def)

lemma sample_book_index: "ob_orders_by_id sample_book = [(''s1'', sample_sell)]" "ob_symbol sample_book = ''AAPL''"
  by (simp_all add: sample_book_def add_order_index OrderBook_new_def)
    (simp_all add: sample_sell_def sample_order_def sample_request_def Order_from_request_def Order_is_active_def)

lemma sample_order_index: "hm_get (ob_orders_by_id sample_book) (o_order_id sample_order) = None"
  by (simp add: sample_book_index) (simp add: sample_order_def sample_request_def Order_from_request_def)



text \<open>
  Round trip: removing an order just added under a new id returns that order, and the
  book is as before for every observer of its index and its levels.
\<close>

theorem add_remove_round_trip:
  assumes "book_ok b" "hm_get (ob_orders_by_id b) (o_order_id ord) = None" "o_symbol ord = ob_symbol b" "Order_is_active ord"
  shows "let (found, b') = OrderBook_remove_order (o_order_id ord) (snd (OrderBook_add_order ord b))
         in found = Some ord \<and> hm_get (ob_orders_by_id b') = hm_get (ob_orders_by_id b) \<and>
            (\<forall>k. set (level (ob_buy_orders b') k) = set (level (ob_buy_orders b) k) \<and>
                 set (level (ob_sell_orders b') k) = set (level (ob_sell_orders b) k))"
proof -
  define b1 where "b1 = snd (OrderBook_add_order ord b)"
  define b' where "b' = snd (OrderBook_remove_order (o_order_id ord) b1)"
  have idx1: "ob_orders_by_id b1 = hm_insert (o_order_id ord) ord (ob_orders_by_id b)"
    using assms(3,4) by (simp add: b1_def add_order_index)
  have ok: "book_ok b'" unfolding b'_def b1_def using assms by (intro book_ok_remove book_ok_add)
  have idx: "hm_get (ob_orders_by_id b') = hm_get (ob_orders_by_id b)"
    using assms(2) by (auto simp: b'_def remove_order_index idx1)
  then have "rests (ob_orders_by_id b') s k = rests (ob_orders_by_id b) s k" for s k
    by (auto simp: rests_def)
  then have "set (level (ob_buy_orders b') k) = set (level (ob_buy_orders b) k)"
    "set (level (ob_sell_orders b') k) = set (level (ob_sell_orders b) k)" for k
    using ok assms(1) by (auto simp: book_ok_def side_ok_def)
  moreover have "fst (OrderBook_remove_order (o_order_id ord) b1) = Some ord"
    by (simp add: remove_order_index idx1)
  ultimately show ?thesis using idx by (simp add: b'_def b1_def case_prod_beta)
qed

theorem add_remove_round_trip_witness:
  "fst (OrderBook_remove_order ''o1'' (snd (OrderBook_add_order sample_order sample_book))) = Some sample_order"
proof -
  have "o_symbol sample_order = ob_symbol sample_book" "Order_is_active sample_order" "o_order_id sample_order = ''o1''"
    by (simp_all add: sample_book_index) (simp_all add: sample_defs Order_is_active_def)
  then show ?thesis
    using add_remove_round_trip [OF sample_book_ok sample_order_index] by (simp add: case_prod_beta)
qed

section \<open>Best prices\<close>

lemma side_ok_level: "side_ok idx s m \<Longrightarrow> set (level m k) = Collect (rests idx s k)"
  by (auto simp: side_ok_def)

lemma side_ok_keys:
  assumes "side_ok idx s m"
  shows "k \<in> dom (bt_get m) \<longleftrightarrow> (\<exists>ord. rests idx s k ord)"
proof -
  have ok: "levels_ok m" using assms by (simp add: side_ok_def)
  have "k \<in> dom (bt_get m) \<longleftrightarrow> (\<exists>os. (k, os) \<in> set m)"
    using ok by (auto simp: bt_mem_get levels_ok_bt)
  also have "\<dots> \<longleftrightarrow> set (level m k) \<noteq> {}" using ok by (simp add: level_mem)
  also have "\<dots> \<longleftrightarrow> (\<exists>ord. rests idx s k ord)" by (simp add: side_ok_level [OF assms])
  finally show ?thesis .
qed

lemma side_ok_Nil_iff: "side_ok idx s m \<Longrightarrow> m = [] \<longleftrightarrow> (\<forall>k ord. \<not> rests idx s k ord)"
  using side_ok_keys [of idx s m] by (cases m) (fastforce simp: dom_def)+

lemma side_ok_first:
  assumes "side_ok idx s m" "m \<noteq> []"
  shows "(\<exists>ord. rests idx s (fst (hd m)) ord) \<and> (\<forall>k ord. rests idx s k ord \<longrightarrow> fst (hd m) \<le> k)"
proof -
  obtain k v rest where m: "m = (k, v) # rest" using assms(2) by (cases m) auto
  then have "k \<in> dom (bt_get m)" by auto
  moreover have "k \<le> k'" if "rests idx s k' ord" for k' ord
    using that assms(1) side_ok_keys [OF assms(1), of k'] bt.first_key_least [OF _ m, of k']
    by (auto simp: side_ok_def levels_ok_bt)
  ultimately show ?thesis using m side_ok_keys [OF assms(1)] by auto
qed

lemma side_ok_last:
  assumes "side_ok idx s m" "m \<noteq> []"
  shows "(\<exists>ord. rests idx s (fst (last m)) ord) \<and> (\<forall>k ord. rests idx s k ord \<longrightarrow> k \<le> fst (last m))"
proof -
  obtain k v rest where m: "m = rest @ [(k, v)]" using assms(2) by (cases m rule: rev_cases) auto
  then have "bt_get m k \<noteq> None" by (simp add: map_of_eq_None_iff)
  then have "k \<in> dom (bt_get m)" by auto
  moreover have "k' \<le> k" if "rests idx s k' ord" for k' ord
    using that assms(1) side_ok_keys [OF assms(1), of k'] bt.last_key_greatest [OF _ m, of k']
    by (auto simp: side_ok_def levels_ok_bt)
  ultimately show ?thesis using m side_ok_keys [OF assms(1)] by auto
qed

text \<open>
  The best prices are the extremes of the resting orders: the best sell price is the
  price of the least key at which a sell order rests, the best buy price that of the greatest
  key of a buy order, and there is none exactly when the side is empty.
\<close>

theorem best_prices:
  assumes "book_ok b"
  shows "(case OrderBook_best_sell_price b of
            None \<Rightarrow> \<forall>k ord. \<not> rests (ob_orders_by_id b) Sell k ord
          | Some p \<Rightarrow> \<exists>k. p = key_price k \<and> (\<exists>ord. rests (ob_orders_by_id b) Sell k ord) \<and>
                         (\<forall>k' ord. rests (ob_orders_by_id b) Sell k' ord \<longrightarrow> k \<le> k')) \<and>
         (case OrderBook_best_buy_price b of
            None \<Rightarrow> \<forall>k ord. \<not> rests (ob_orders_by_id b) Buy k ord
          | Some p \<Rightarrow> \<exists>k. p = key_price k \<and> (\<exists>ord. rests (ob_orders_by_id b) Buy k ord) \<and>
                         (\<forall>k' ord. rests (ob_orders_by_id b) Buy k' ord \<longrightarrow> k' \<le> k))"
proof -
  have s: "side_ok (ob_orders_by_id b) Sell (ob_sell_orders b)" and bu: "side_ok (ob_orders_by_id b) Buy (ob_buy_orders b)"
    using assms by (simp_all add: book_ok_def)
  have "case OrderBook_best_sell_price b of
            None \<Rightarrow> \<forall>k ord. \<not> rests (ob_orders_by_id b) Sell k ord
          | Some p \<Rightarrow> \<exists>k. p = key_price k \<and> (\<exists>ord. rests (ob_orders_by_id b) Sell k ord) \<and>
                         (\<forall>k' ord. rests (ob_orders_by_id b) Sell k' ord \<longrightarrow> k \<le> k')"
    using side_ok_first [OF s] side_ok_Nil_iff [OF s]
    by (cases "ob_sell_orders b = []") (simp_all add: OrderBook_best_sell_price_def, blast)
  moreover have "case OrderBook_best_buy_price b of
            None \<Rightarrow> \<forall>k ord. \<not> rests (ob_orders_by_id b) Buy k ord
          | Some p \<Rightarrow> \<exists>k. p = key_price k \<and> (\<exists>ord. rests (ob_orders_by_id b) Buy k ord) \<and>
                         (\<forall>k' ord. rests (ob_orders_by_id b) Buy k' ord \<longrightarrow> k' \<le> k)"
    using side_ok_last [OF bu] side_ok_Nil_iff [OF bu]
    by (cases "ob_buy_orders b = []") (simp_all add: OrderBook_best_buy_price_def, blast)
  ultimately show ?thesis by blast
qed

lemma sample_sell_rests: "rests (ob_orders_by_id sample_book) Sell 15000 sample_sell"
  by (simp add: sample_book_index rests_def has_price_def order_key_def)
    (simp add: sample_defs f64_lt_def price_key_def i64_min_def i64_max_def rat_trunc_def)

theorem best_prices_witness:
  "\<exists>k. OrderBook_best_sell_price sample_book = Some (key_price k) \<and> k \<le> 15000"
  using best_prices [OF sample_book_ok] sample_sell_rests by (auto split: option.splits)

section \<open>Matching lists\<close>

lemma concat_levels_set:
  assumes "side_ok idx s m"
  shows "set (concat (map snd (filter (\<lambda>(k, os). P k) m))) = {ord. \<exists>k. P k \<and> rests idx s k ord}"
proof -
  have ok: "levels_ok m" using assms by (simp add: side_ok_def)
  have mem: "ord \<in> set (concat (map snd (filter (\<lambda>(k, os). P k) m))) \<longleftrightarrow> (\<exists>k os. (k, os) \<in> set m \<and> P k \<and> ord \<in> set os)" for ord
    by force
  have "(\<exists>k os. (k, os) \<in> set m \<and> P k \<and> ord \<in> set os) \<longleftrightarrow> (\<exists>k. P k \<and> ord \<in> set (level m k))" for ord
    using ok by (simp add: level_mem) (metis empty_iff empty_set)
  then show ?thesis using assms by (auto simp only: mem side_ok_def mem_Collect_eq)
qed

lemma concat_levels_sorted:
  assumes "bt_ok m" "\<forall>(k, os)\<in>set m. \<forall>ord\<in>set os. order_key ord = k"
  shows "sorted (map order_key (concat (map snd m)))"
  using assms
proof (induction m)
  case (Cons p m)
  obtain k os where p: "p = (k, os)" by (cases p)
  have "map order_key os = replicate (length os) k"
    using Cons.prems(2) by (intro replicate_eqI) (auto simp: p)
  moreover have "\<forall>ord\<in>set (concat (map snd m)). k \<le> order_key ord"
    using Cons.prems by (fastforce simp: p bt_ok_Cons)
  ultimately show ?case using Cons by (auto simp: p bt_ok_Cons sorted_append)
qed simp

lemma side_ok_key_of: "side_ok idx s m \<Longrightarrow> (k, os) \<in> set m \<Longrightarrow> ord \<in> set os \<Longrightarrow> order_key ord = k"
  by (auto simp: side_ok_def level_mem rests_def)

lemma side_ok_sorted:
  assumes "side_ok idx s m"
  shows "sorted (map order_key (concat (map snd (filter P m))))"
proof (rule concat_levels_sorted)
  show "bt_ok (filter P m)" using assms by (intro bt_ok_filter) (simp add: side_ok_def levels_ok_bt)
  show "\<forall>(k, os)\<in>set (filter P m). \<forall>ord\<in>set os. order_key ord = k"
    using side_ok_key_of [OF assms] by auto
qed

lemma side_ok_distinct:
  assumes "side_ok idx s m"
  shows "distinct (map o_order_id (concat (map snd (filter P m))))"
proof -
  have main: "distinct (map o_order_id (concat (map snd m')))"
    if "bt_ok m'" "\<forall>(k, os)\<in>set m'. distinct (map o_order_id os) \<and> (\<forall>ord\<in>set os. rests idx s k ord)" for m'
    using that
  proof (induction m')
    case (Cons p m')
    obtain k os where p: "p = (k, os)" by (cases p)
    have "o_order_id x \<noteq> o_order_id y" if "x \<in> set os" "(k', os') \<in> set m'" "y \<in> set os'" for x y k' os'
    proof -
      have "rests idx s k x" "k < k'" using that Cons.prems by (auto simp: p bt_ok_Cons)
      moreover have "rests idx s k' y" using that Cons.prems(2) by (metis (no_types, lifting) case_prodD list.set_intros(2))
      ultimately show ?thesis unfolding rests_def by (metis option.inject order_less_irrefl)
    qed
    then have "o_order_id ` set os \<inter> o_order_id ` (\<Union>p\<in>set m'. set (snd p)) = {}" by auto
    moreover have "distinct (map o_order_id (concat (map snd m')))"
      using Cons.prems by (intro Cons.IH) (auto simp: bt_ok_Cons)
    ultimately show ?case using Cons.prems(2) by (simp add: p)
  qed simp
  have "bt_ok (filter P m)" using assms by (intro bt_ok_filter) (simp add: side_ok_def levels_ok_bt)
  moreover have "distinct (map o_order_id os) \<and> (\<forall>ord\<in>set os. rests idx s k ord)" if "(k, os) \<in> set m" for k os
    using that assms level_distinct [of m k] by (auto simp: side_ok_def level_mem)
  ultimately show ?thesis by (intro main) auto
qed

lemma filter_key_level:
  assumes "bt_ok m" "\<And>k os ord. (k, os) \<in> set m \<Longrightarrow> ord \<in> set os \<Longrightarrow> order_key ord = k"
  shows "filter (\<lambda>ord. order_key ord = k) (concat (map snd (filter (\<lambda>(k, os). P k) m))) =
         (if P k then level m k else [])"
  using assms
proof (induction m)
  case (Cons p m)
  obtain k' os where p: "p = (k', os)" by (cases p)
  have "order_key ord = k'" if "ord \<in> set os" for ord
    using that Cons.prems(2) [of k' os ord] by (simp add: p)
  then have "filter (\<lambda>ord. order_key ord = k) os = (if k' = k then os else [])"
    by (auto simp: filter_id_conv filter_empty_conv)
  moreover have "level m k' = []"
    using Cons.prems(1) by (fastforce simp: p bt_ok_Cons level_def split: option.splits dest: map_of_SomeD)
  moreover have "filter (\<lambda>ord. order_key ord = k) (concat (map snd (filter (\<lambda>(k, os). P k) m))) =
      (if P k then level m k else [])"
    using Cons.prems by (intro Cons.IH) (auto simp: bt_ok_Cons)
  ultimately show ?case by (auto simp: p level_def)
qed simp

text \<open>
  The candidates of a limit order: for a sell list, exactly the resting sell orders whose
  key does not exceed that of the limit, for a buy list those whose key reaches it. Both are in ascending
  key order and keep the arrival order of each level: the sell list starts with the best
  price, the buy list with the worst one.
\<close>

theorem matching_orders:
  assumes "book_ok b"
  shows "set (OrderBook_get_matching_sell_orders price b) =
           {ord. \<exists>k. k \<le> price_key price \<and> rests (ob_orders_by_id b) Sell k ord} \<and>
         set (OrderBook_get_matching_buy_orders price b) =
           {ord. \<exists>k. price_key price \<le> k \<and> rests (ob_orders_by_id b) Buy k ord} \<and>
         sorted (map order_key (OrderBook_get_matching_sell_orders price b)) \<and>
         sorted (map order_key (OrderBook_get_matching_buy_orders price b)) \<and>
         (\<forall>k. filter (\<lambda>ord. order_key ord = k) (OrderBook_get_matching_sell_orders price b) =
               (if k \<le> price_key price then level (ob_sell_orders b) k else []))"
proof -
  have s: "side_ok (ob_orders_by_id b) Sell (ob_sell_orders b)" and bu: "side_ok (ob_orders_by_id b) Buy (ob_buy_orders b)"
    using assms by (simp_all add: book_ok_def)
  have "bt_ok (ob_sell_orders b)" using s by (simp add: side_ok_def levels_ok_bt)
  note level = filter_key_level [OF this side_ok_key_of [OF s]]
  show ?thesis
    unfolding OrderBook_get_matching_sell_orders_def OrderBook_get_matching_buy_orders_def
    by (simp add: concat_levels_set [OF s] concat_levels_set [OF bu] side_ok_sorted [OF s] side_ok_sorted [OF bu] level
        del: set_concat)
qed

theorem matching_orders_witness:
  "sample_sell \<in> set (OrderBook_get_matching_sell_orders (Fin 150) sample_book)"
proof -
  have "price_key (Fin 150) = 15000" by (simp add: price_key_def i64_min_def i64_max_def rat_trunc_def)
  then show ?thesis using matching_orders [OF sample_book_ok, of "Fin 150"] sample_sell_rests by auto
qed

section \<open>Keys and prices\<close>

text \<open>Which prices survive the key: multiples of a quarter, whose hundredths are whole numbers and
  whose values are dyadic, up to \<open>2 ^ 50\<close> hundredths.\<close>

definition on_grid :: "int \<Rightarrow> bool" where
  "on_grid k \<longleftrightarrow> 25 dvd k \<and> \<bar>k\<bar> \<le> 2 ^ 50"

lemma quarter_exact: "\<bar>j\<bar> \<le> 2 ^ 50 \<Longrightarrow> f64_round (of_int j / 4) = Fin (of_int j / 4)"
proof (rule f64_round_exact)
  assume j: "\<bar>j\<bar> \<le> 2 ^ 50"
  show "representable (of_int j / 4)"
    unfolding representable_def using j by (intro exI [of _ j] exI [of _ "- 2"]) (auto simp: pow2_def)
  have "\<bar>of_int j / 4\<bar> \<le> (of_int \<bar>j\<bar> :: rat)" by simp
  also have "\<dots> \<le> of_int (2 ^ 50)" using j by (simp only: of_int_le_iff)
  also have "\<dots> < (2 ^ 1024 :: rat)" by simp
  finally show "\<bar>of_int j / 4\<bar> < (2 ^ 1024 :: rat)" .
qed

lemma key_price_grid: "on_grid k \<Longrightarrow> key_price k = Fin (of_int k / 100)"
proof -
  assume "on_grid k"
  then obtain j where k: "k = 25 * j" and b: "\<bar>k\<bar> \<le> 2 ^ 50" by (auto simp: on_grid_def elim: dvdE)
  have "f64_of_int k = Fin (of_int k)"
    unfolding f64_of_int_def using b by (intro f64_round_of_int) auto
  moreover have "of_int k / 100 = (of_int j / 4 :: rat)" by (simp add: k)
  ultimately show ?thesis using b by (simp add: key_price_def quarter_exact k)
qed

lemma on_grid_round_trip: "on_grid k \<Longrightarrow> price_key (key_price k) = k"
proof -
  assume g: "on_grid k"
  then have b: "\<bar>k\<bar> \<le> 2 ^ 50" by (simp add: on_grid_def)
  then have "f64_round (of_int k) = Fin (of_int k)" by (intro f64_round_of_int) auto
  then have "f64_mul (key_price k) (Fin 100) = Fin (of_int k)" by (simp add: key_price_grid [OF g])
  moreover have "rat_trunc (of_int k) = k" by (simp add: rat_trunc_def)
  ultimately show ?thesis using b by (simp add: price_key_def i64_min_def i64_max_def)
qed

text \<open>
  On the quarter grid (prices that are multiples of 0.25, up to 2 to the 50 hundredths) the best price reported for a
  level leads back to that level; in general it does not. A level with key 29 is reported at a price whose
  key is 28, so the level is not found under its own best price.
\<close>

theorem price_key_round_trip:
  "(\<forall>k. on_grid k \<longrightarrow> price_key (key_price k) = k) \<and> price_key (key_price 29) = 28"
proof (intro conjI)
  show "\<forall>k. on_grid k \<longrightarrow> price_key (key_price k) = k" using on_grid_round_trip by blast
next
  have "f64_round (29 / 100) = Fin (5224175567749775 / 18014398509481984)"
    using f64_round_by [of "-54" "29 / 100" 5224175567749775] by (simp add: pow2_def)
  moreover have "f64_round (5224175567749775 / 18014398509481984 * 100) = Fin (8162774324609023 / 281474976710656)"
    using f64_round_by [of "-48" "5224175567749775 / 18014398509481984 * 100" 8162774324609023] by (simp add: pow2_def)
  moreover have "\<lfloor>8162774324609023 / 281474976710656 :: rat\<rfloor> = 28" by (rule floor_unique) simp_all
  ultimately show "price_key (key_price 29) = 28"
    by (simp add: price_key_def key_price_def f64_of_int_def rat_trunc_def i64_min_def i64_max_def)
qed

theorem price_key_round_trip_witness: "price_key (key_price 15025) = 15025"
  using price_key_round_trip by (simp add: on_grid_def)

text \<open>
  An update that leaves the order active reaches only the index: the price level keeps the old copy, with its
  old status and filled quantity, and the book invariant is lost.
\<close>

theorem update_order_stale_level:
  assumes "book_ok b" "rests (ob_orders_by_id b) s k ord" "now \<noteq> o_updated_at ord"
  shows "let b' = snd (OrderBook_update_order now (o_order_id ord) PartiallyFilled None b)
         in ord \<in> set (level (if s = Buy then ob_buy_orders b' else ob_sell_orders b') k) \<and>
            hm_get (ob_orders_by_id b') (o_order_id ord) \<noteq> Some ord \<and> \<not> book_ok b'"
proof -
  define b' where "b' = snd (OrderBook_update_order now (o_order_id ord) PartiallyFilled None b)"
  have "b' = b \<lparr> ob_orders_by_id := hm_insert (o_order_id ord) (Order_update_status now PartiallyFilled ord) (ob_orders_by_id b) \<rparr>"
    using assms(2) by (simp add: b'_def rests_def OrderBook_update_order_def Order_update_status_def Order_is_active_def Let_def)
  moreover have "ord \<in> set (level (if s = Buy then ob_buy_orders b else ob_sell_orders b) k)"
    using assms(1,2) by (cases s) (auto simp: book_ok_def side_ok_def)
  moreover have "Order_update_status now PartiallyFilled ord \<noteq> ord"
    using assms(3) by (auto simp: Order_update_status_def dest: arg_cong [of _ _ o_updated_at])
  ultimately have "ord \<in> set (level (if s = Buy then ob_buy_orders b' else ob_sell_orders b') k)"
    "hm_get (ob_orders_by_id b') (o_order_id ord) \<noteq> Some ord" by (auto split: if_splits)
  moreover from this have "\<not> book_ok b'"
    using assms(2) by (cases s) (auto simp: book_ok_def side_ok_def rests_def)
  ultimately show ?thesis by (simp add: b'_def [symmetric] Let_def)
qed

theorem update_order_stale_level_witness:
  "\<not> book_ok (snd (OrderBook_update_order 1 ''s1'' PartiallyFilled None sample_book))"
  using update_order_stale_level [OF sample_book_ok sample_sell_rests, of 1] by (simp add: sample_defs Let_def)

end
