(* ===== verification/Matcher.thy ===== *)
theory Matcher
  imports Order_Book
begin

text \<open>
  The matcher (\<^verbatim>\<open>trading/src/execution/matcher.rs\<close>). The four private matching functions
  share their loop body, which is \<open>match_step\<close>: take a resting order off the book, execute the
  smaller of the two remaining quantities, book the fill on both orders and put the rest of
  the resting order back. The state of a loop is the book, the incoming order, the
  local variable \<^verbatim>\<open>remaining_qty\<close> and the result so far. The two market loops and
  \<^verbatim>\<open>continuous_match\<close> are \<^verbatim>\<open>while\<close> loops without a bound, hence \<open>partial_function (option)\<close>; the theorems show
  that they return. \<open>uid n\<close> is the \<open>n\<close>-th UUID drawn while the operation runs.
\<close>

section \<open>Results\<close>

record MatchResult =
  mr_executions :: "Execution list"
  mr_updated_orders :: "Order list"

definition MatchResult_new :: MatchResult where
  "MatchResult_new = \<lparr> mr_executions = [], mr_updated_orders = [] \<rparr>"

definition MatchResult_add_execution :: "Execution \<Rightarrow> MatchResult \<Rightarrow> MatchResult" where
  "MatchResult_add_execution e r = r \<lparr> mr_executions := mr_executions r @ [e] \<rparr>"

definition MatchResult_add_updated_order :: "Order \<Rightarrow> MatchResult \<Rightarrow> MatchResult" where
  "MatchResult_add_updated_order ord r = r \<lparr> mr_updated_orders := mr_updated_orders r @ [ord] \<rparr>"

definition MatchResult_has_matches :: "MatchResult \<Rightarrow> bool" where
  "MatchResult_has_matches r = (mr_executions r \<noteq> [])"

definition MatchResult_merge :: "MatchResult \<Rightarrow> MatchResult \<Rightarrow> MatchResult" where
  "MatchResult_merge r other =
     r \<lparr> mr_executions := mr_executions r @ mr_executions other,
         mr_updated_orders := mr_updated_orders r @ mr_updated_orders other \<rparr>"

section \<open>The loop body\<close>

definition create_execution_record :: "string \<Rightarrow> datetime \<Rightarrow> Order \<Rightarrow> Order \<Rightarrow> f64 \<Rightarrow> f64 \<Rightarrow> Execution" where
  "create_execution_record uid now buy_order sell_order price quantity =
     \<lparr> ex_execution_id = uid, ex_order_id = o_order_id buy_order,
       ex_counter_order_id = Some (o_order_id sell_order), ex_symbol = o_symbol buy_order,
       ex_price = price, ex_quantity = quantity, ex_side = Buy,
       ex_buyer_account_id = Some (o_account_id buy_order),
       ex_seller_account_id = Some (o_account_id sell_order), ex_executed_at = now \<rparr>"

text \<open>Booking a fill as the matcher calls it: the argument is the old filled quantity plus the
  match, and \<^verbatim>\<open>update_filled_quantity\<close> adds it to the old filled quantity once more.\<close>

definition book_fill :: "datetime \<Rightarrow> f64 \<Rightarrow> Order \<Rightarrow> Order" where
  "book_fill now match_qty ord =
     Order_update_filled_quantity now (f64_add (o_filled_quantity ord) match_qty) ord"

text \<open>The resting side after the fill: the updated order and the book it goes back to.\<close>

definition settle_resting :: "datetime \<Rightarrow> f64 \<Rightarrow> Order \<Rightarrow> OrderBook \<Rightarrow> Order \<times> OrderBook" where
  "settle_resting now match_qty ord b =
     (let upd = book_fill now match_qty ord
      in if f64_le (Order_remaining_quantity upd) (Fin 0)
         then (Order_update_status now Filled upd, b)
         else let upd' = Order_update_status now PartiallyFilled upd
              in (upd', snd (OrderBook_add_order upd' b)))"

record match_state =
  ms_book :: OrderBook
  ms_order :: Order
  ms_remaining :: f64
  ms_result :: MatchResult

definition match_step :: "(nat \<Rightarrow> string) \<Rightarrow> datetime \<Rightarrow> f64 \<Rightarrow> Order \<Rightarrow> match_state \<Rightarrow> match_state" where
  "match_step uid now match_price resting st =
     (let ord = ms_order st;
          b1 = snd (OrderBook_remove_order (o_order_id resting) (ms_book st));
          match_qty = f64_min (ms_remaining st) (Order_remaining_quantity resting);
          u = uid (length (mr_executions (ms_result st)));
          execution = (case o_side ord of
                         Buy \<Rightarrow> create_execution_record u now ord resting match_price match_qty
                       | Sell \<Rightarrow> create_execution_record u now resting ord match_price match_qty);
          ord1 = book_fill now match_qty ord;
          remaining = f64_sub (ms_remaining st) match_qty;
          (upd, b2) = settle_resting now match_qty resting b1;
          res = MatchResult_add_updated_order upd (MatchResult_add_execution execution (ms_result st));
          ord2 = Order_update_status now (if f64_le remaining (Fin 0) then Filled else PartiallyFilled) ord1
      in \<lparr> ms_book = b2, ms_order = ord2, ms_remaining = remaining, ms_result = res \<rparr>)"

section \<open>Limit orders\<close>

text \<open>\<^verbatim>\<open>sell_order.price.unwrap()\<close>: the orders of a level have a price.\<close>

fun limit_loop :: "(nat \<Rightarrow> string) \<Rightarrow> datetime \<Rightarrow> Order list \<Rightarrow> match_state \<Rightarrow> match_state" where
  "limit_loop uid now [] st = st"
| "limit_loop uid now (resting # rest) st =
     (if f64_le (ms_remaining st) (Fin 0) \<or> \<not> Order_is_active (ms_order st) then st
      else limit_loop uid now rest (match_step uid now (the (o_price resting)) resting st))"

definition match_limit_buy_order ::
    "(nat \<Rightarrow> string) \<Rightarrow> datetime \<Rightarrow> OrderBook \<Rightarrow> Order \<Rightarrow> f64 \<Rightarrow> MatchResult \<Rightarrow> match_state" where
  "match_limit_buy_order uid now b ord price res =
     limit_loop uid now (OrderBook_get_matching_sell_orders price b)
       \<lparr> ms_book = b, ms_order = ord, ms_remaining = Order_remaining_quantity ord, ms_result = res \<rparr>"

definition match_limit_sell_order ::
    "(nat \<Rightarrow> string) \<Rightarrow> datetime \<Rightarrow> OrderBook \<Rightarrow> Order \<Rightarrow> f64 \<Rightarrow> MatchResult \<Rightarrow> match_state" where
  "match_limit_sell_order uid now b ord price res =
     limit_loop uid now (OrderBook_get_matching_buy_orders price b)
       \<lparr> ms_book = b, ms_order = ord, ms_remaining = Order_remaining_quantity ord, ms_result = res \<rparr>"

section \<open>Market orders\<close>

fun market_level :: "(nat \<Rightarrow> string) \<Rightarrow> datetime \<Rightarrow> f64 \<Rightarrow> Order list \<Rightarrow> match_state \<Rightarrow> match_state" where
  "market_level uid now price [] st = st"
| "market_level uid now price (resting # rest) st =
     (let st' = match_step uid now price resting st
      in if f64_le (ms_remaining st') (Fin 0) then st' else market_level uid now price rest st')"

partial_function (option) market_loop ::
    "(OrderBook \<Rightarrow> f64 option) \<Rightarrow> (f64 \<Rightarrow> OrderBook \<Rightarrow> Order list) \<Rightarrow> (nat \<Rightarrow> string) \<Rightarrow> datetime \<Rightarrow>
     match_state \<Rightarrow> match_state option" where
  "market_loop best at_price uid now st =
     (if f64_lt (Fin 0) (ms_remaining st) \<and> Order_is_active (ms_order st) then
        (case best (ms_book st) of
           None \<Rightarrow> Some st
         | Some p \<Rightarrow>
             (let os = at_price p (ms_book st)
              in if os = [] then Some st
                 else market_loop best at_price uid now (market_level uid now p os st)))
      else Some st)"

definition match_market_buy_order ::
    "(nat \<Rightarrow> string) \<Rightarrow> datetime \<Rightarrow> OrderBook \<Rightarrow> Order \<Rightarrow> MatchResult \<Rightarrow> match_state option" where
  "match_market_buy_order uid now b ord res =
     market_loop OrderBook_best_sell_price OrderBook_get_sell_orders_at_price uid now
       \<lparr> ms_book = b, ms_order = ord, ms_remaining = Order_remaining_quantity ord, ms_result = res \<rparr>"

definition match_market_sell_order ::
    "(nat \<Rightarrow> string) \<Rightarrow> datetime \<Rightarrow> OrderBook \<Rightarrow> Order \<Rightarrow> MatchResult \<Rightarrow> match_state option" where
  "match_market_sell_order uid now b ord res =
     market_loop OrderBook_best_buy_price OrderBook_get_buy_orders_at_price uid now
       \<lparr> ms_book = b, ms_order = ord, ms_remaining = Order_remaining_quantity ord, ms_result = res \<rparr>"

section \<open>The entry points\<close>

text \<open>The book, the order and the result when \<^verbatim>\<open>match_order\<close> returns.\<close>

definition finish_match :: "datetime \<Rightarrow> match_state \<Rightarrow> OrderBook \<times> Order \<times> MatchResult" where
  "finish_match now st =
     (let ord = ms_order st
      in if Order_is_active ord \<and> f64_lt (Fin 0) (Order_remaining_quantity ord) then
           (if o_order_type ord = Limit
            then (snd (OrderBook_add_order ord (ms_book st)), ord, ms_result st)
            else let ord' = Order_update_status now Cancelled ord
                 in (ms_book st, ord', MatchResult_add_updated_order ord' (ms_result st)))
         else (ms_book st, ord, ms_result st))"

definition match_order ::
    "(nat \<Rightarrow> string) \<Rightarrow> datetime \<Rightarrow> OrderBook \<Rightarrow> Order \<Rightarrow> (OrderBook \<times> Order \<times> MatchResult) option" where
  "match_order uid now b ord =
     (if \<not> Order_is_active ord then Some (b, ord, MatchResult_new)
      else
        let idle = \<lparr> ms_book = b, ms_order = ord, ms_remaining = Order_remaining_quantity ord,
                     ms_result = MatchResult_new \<rparr>
        in map_option (finish_match now)
             (case (o_order_type ord, o_side ord) of
                (Market, Buy) \<Rightarrow> match_market_buy_order uid now b ord MatchResult_new
              | (Market, Sell) \<Rightarrow> match_market_sell_order uid now b ord MatchResult_new
              | (Limit, Buy) \<Rightarrow>
                  (case o_price ord of
                     Some price \<Rightarrow> Some (match_limit_buy_order uid now b ord price MatchResult_new)
                   | None \<Rightarrow> Some idle)
              | (Limit, Sell) \<Rightarrow>
                  (case o_price ord of
                     Some price \<Rightarrow> Some (match_limit_sell_order uid now b ord price MatchResult_new)
                   | None \<Rightarrow> Some idle)
              | _ \<Rightarrow> Some idle))"

text \<open>One iteration of \<^verbatim>\<open>continuous_match\<close>: \<open>None\<close> when nothing matches and the loop ends.\<close>

definition continuous_step ::
    "(nat \<Rightarrow> string) \<Rightarrow> datetime \<Rightarrow> OrderBook \<times> MatchResult \<Rightarrow> (OrderBook \<times> MatchResult) option" where
  "continuous_step uid now br =
     (case br of (b, res) \<Rightarrow>
        (case (OrderBook_best_buy_price b, OrderBook_best_sell_price b) of
           (Some buy_price, Some sell_price) \<Rightarrow>
             (if f64_le sell_price buy_price then
                (case (OrderBook_get_buy_orders_at_price buy_price b, OrderBook_get_sell_orders_at_price sell_price b) of
                   (buy_order # _, sell_order # _) \<Rightarrow>
                     (let b1 = snd (OrderBook_remove_order (o_order_id buy_order) b);
                          b2 = snd (OrderBook_remove_order (o_order_id sell_order) b1);
                          match_qty = f64_min (Order_remaining_quantity buy_order) (Order_remaining_quantity sell_order);
                          execution = create_execution_record (uid (length (mr_executions res))) now
                                        buy_order sell_order sell_price match_qty;
                          (buy', b3) = settle_resting now match_qty buy_order b2;
                          (sell', b4) = settle_resting now match_qty sell_order b3
                      in Some (b4, MatchResult_add_updated_order sell'
                                     (MatchResult_add_updated_order buy' (MatchResult_add_execution execution res))))
                 | _ \<Rightarrow> None)
              else None)
         | _ \<Rightarrow> None))"

partial_function (option) continuous_loop ::
    "(nat \<Rightarrow> string) \<Rightarrow> datetime \<Rightarrow> OrderBook \<times> MatchResult \<Rightarrow> (OrderBook \<times> MatchResult) option" where
  "continuous_loop uid now br =
     (case continuous_step uid now br of None \<Rightarrow> Some br | Some br' \<Rightarrow> continuous_loop uid now br')"

definition continuous_match ::
    "(nat \<Rightarrow> string) \<Rightarrow> datetime \<Rightarrow> OrderBook \<Rightarrow> (OrderBook \<times> MatchResult) option" where
  "continuous_match uid now b = continuous_loop uid now (b, MatchResult_new)"

section \<open>Whole quantities\<close>

text \<open>All resting orders carry whole amounts with something left to fill; \<open>rem_of\<close> reads the rest as an integer.\<close>

definition book_whole :: "OrderBook \<Rightarrow> bool" where
  "book_whole b \<longleftrightarrow> (\<forall>i ord. hm_get (ob_orders_by_id b) i = Some ord \<longrightarrow> (\<exists>q f. order_amounts ord q f))"

definition rem_of :: "Order \<Rightarrow> int" where
  "rem_of ord = (case Order_remaining_quantity ord of Fin x \<Rightarrow> \<lfloor>x\<rfloor> | _ \<Rightarrow> 0)"

lemma rem_of_amounts: "order_amounts ord q f \<Longrightarrow> rem_of ord = q - f"
  by (simp add: rem_of_def remaining_whole) (simp add: whole_def flip: of_int_diff)

lemma amounts_pos: "order_amounts ord q f \<Longrightarrow> 0 < rem_of ord"
  by (simp add: rem_of_amounts) (simp add: order_amounts_def)

lemma amounts_le: "order_amounts ord q f \<Longrightarrow> rem_of ord \<le> 2 ^ 52"
  by (simp add: rem_of_amounts) (simp add: order_amounts_def)

lemma remaining_rem_of: "order_amounts ord q f \<Longrightarrow> Order_remaining_quantity ord = whole (rem_of ord)"
  by (simp add: rem_of_amounts remaining_whole)

lemma update_status_simps [simp]:
  "o_order_id (Order_update_status now st ord) = o_order_id ord"
  "o_account_id (Order_update_status now st ord) = o_account_id ord"
  "o_symbol (Order_update_status now st ord) = o_symbol ord"
  "o_side (Order_update_status now st ord) = o_side ord"
  "o_order_type (Order_update_status now st ord) = o_order_type ord"
  "o_quantity (Order_update_status now st ord) = o_quantity ord"
  "o_price (Order_update_status now st ord) = o_price ord"
  "o_status (Order_update_status now st ord) = st"
  "o_filled_quantity (Order_update_status now st ord) = o_filled_quantity ord"
  "Order_remaining_quantity (Order_update_status now st ord) = Order_remaining_quantity ord"
  by (simp_all add: Order_update_status_def Order_remaining_quantity_def)

lemma active_update_status [simp]:
  "Order_is_active (Order_update_status now st ord) \<longleftrightarrow> st \<in> {New, Accepted, PartiallyFilled}"
  by (cases st) (simp_all add: Order_is_active_def)

lemma book_fill_simps [simp]:
  "o_order_id (book_fill now m ord) = o_order_id ord"
  "o_account_id (book_fill now m ord) = o_account_id ord"
  "o_symbol (book_fill now m ord) = o_symbol ord"
  "o_side (book_fill now m ord) = o_side ord"
  "o_order_type (book_fill now m ord) = o_order_type ord"
  "o_quantity (book_fill now m ord) = o_quantity ord"
  "o_price (book_fill now m ord) = o_price ord"
  "o_filled_quantity (book_fill now m ord) = f64_add (o_filled_quantity ord) (f64_add (o_filled_quantity ord) m)"
  by (simp_all add: book_fill_def)

text \<open>The resting order is booked with its previous fill counted twice: what is left of it is
  \<open>q - 2 f - m\<close>, not \<open>q - f - m\<close>.\<close>

lemma book_fill_remaining:
  assumes "order_amounts ord q f" "0 < m" "m \<le> q - f"
  shows "Order_remaining_quantity (book_fill now (whole m) ord) = whole (q - 2 * f - m)"
    and "o_filled_quantity (book_fill now (whole m) ord) = whole (2 * f + m)"
proof -
  have "f64_add (whole f) (f64_add (whole f) (whole m)) = whole (2 * f + m)"
    using assms by (simp add: order_amounts_def whole_add)
  moreover have "f64_sub (whole q) (whole (2 * f + m)) = whole (q - (2 * f + m))"
    using assms by (intro whole_sub) (auto simp: order_amounts_def)
  ultimately show "Order_remaining_quantity (book_fill now (whole m) ord) = whole (q - 2 * f - m)"
    "o_filled_quantity (book_fill now (whole m) ord) = whole (2 * f + m)"
    using assms by (simp_all add: Order_remaining_quantity_def order_amounts_def algebra_simps)
qed

lemma settle_done:
  assumes "order_amounts ord q f"
  shows "snd (settle_resting now (whole (q - f)) ord b) = b"
proof -
  have "0 < q - f" "0 \<le> f" using assms by (simp_all add: order_amounts_def)
  then show ?thesis
    using book_fill_remaining(1) [OF assms, of "q - f" now] by (simp add: settle_resting_def Fin_0_whole Let_def)
qed

text \<open>What settling does to the book, whatever the amounts: nothing, or it puts the order back
  under its own id.\<close>

definition settled :: "OrderBook \<Rightarrow> Order \<Rightarrow> OrderBook \<Rightarrow> bool" where
  "settled b ord b' \<longleftrightarrow> book_ok b' \<and> book_whole b' \<and> ob_symbol b' = ob_symbol b \<and>
     (\<forall>j. j \<noteq> o_order_id ord \<longrightarrow> hm_get (ob_orders_by_id b') j = hm_get (ob_orders_by_id b) j) \<and>
     (\<forall>x. hm_get (ob_orders_by_id b') (o_order_id ord) = Some x \<longrightarrow> o_price x = o_price ord \<and> o_side x = o_side ord)"

definition same_terms :: "OrderBook \<Rightarrow> OrderBook \<Rightarrow> bool" where
  "same_terms b b' \<longleftrightarrow>
     (\<forall>j x. hm_get (ob_orders_by_id b') j = Some x \<longrightarrow>
        (\<exists>y. hm_get (ob_orders_by_id b) j = Some y \<and> o_price x = o_price y \<and> o_side x = o_side y))"

lemma same_terms_refl [simp]: "same_terms b b"
  by (simp add: same_terms_def)

lemma same_terms_dom: "same_terms b b' \<Longrightarrow> dom (hm_get (ob_orders_by_id b')) \<subseteq> dom (hm_get (ob_orders_by_id b))"
  by (auto simp: same_terms_def)

lemma same_terms_trans: "same_terms b b' \<Longrightarrow> same_terms b' b'' \<Longrightarrow> same_terms b b''"
  unfolding same_terms_def by metis

lemma settled_terms:
  assumes "same_terms b b1" "settled b1 ord b2" "hm_get (ob_orders_by_id b) (o_order_id ord) = Some ord"
  shows "same_terms b b2"
  unfolding same_terms_def
proof (intro allI impI)
  fix j x assume x: "hm_get (ob_orders_by_id b2) j = Some x"
  show "\<exists>y. hm_get (ob_orders_by_id b) j = Some y \<and> o_price x = o_price y \<and> o_side x = o_side y"
  proof (cases "j = o_order_id ord")
    case True
    with x assms(2,3) show ?thesis by (simp add: settled_def)
  next
    case False
    with x assms(1,2) show ?thesis by (simp add: settled_def same_terms_def)
  qed
qed

lemma settle_resting_settled:
  assumes b: "book_ok b" "book_whole b" "hm_get (ob_orders_by_id b) (o_order_id ord) = None"
    and ord: "order_amounts ord q f" "o_symbol ord = ob_symbol b" and m: "0 < m" "m \<le> q - f"
  shows "settled b ord (snd (settle_resting now (whole m) ord b))"
proof -
  define upd where "upd = Order_update_status now PartiallyFilled (book_fill now (whole m) ord)"
  have eq: "snd (settle_resting now (whole m) ord b) = (if q - 2 * f - m \<le> 0 then b else snd (OrderBook_add_order upd b))"
    using book_fill_remaining(1) [OF ord(1) m] by (simp add: settle_resting_def Fin_0_whole Let_def upd_def)
  have "order_amounts upd q (2 * f + m)" if "\<not> q - 2 * f - m \<le> 0"
    using that ord(1) m book_fill_remaining(2) [OF ord(1) m, of now] by (simp add: order_amounts_def upd_def)
  then show ?thesis
    using b ord(2) book_ok_add [OF b(1), of upd]
    by (auto simp: eq settled_def book_whole_def add_order_index upd_def split: if_splits)
qed

section \<open>One step\<close>

text \<open>The incoming order's own count, doubled at each fill: an exact number below the quantity, or
  at least the quantity, where it stays.\<close>

definition fill_track :: "Order \<Rightarrow> bool" where
  "fill_track ord \<longleftrightarrow> (\<exists>q. o_quantity ord = whole q \<and> 0 < q \<and> q \<le> 2 ^ 52 \<and>
     ((\<exists>f. order_amounts ord q f) \<or> f64_le (whole q) (o_filled_quantity ord)))"

lemma add_ge: "f64_le (whole q) x \<Longrightarrow> \<bar>q\<bar> \<le> 2 ^ 53 \<Longrightarrow> 0 \<le> y \<Longrightarrow> f64_le (whole q) (f64_add x (Fin y))"
proof (cases x)
  case (Fin a)
  assume *: "f64_le (whole q) x" "\<bar>q\<bar> \<le> 2 ^ 53" "0 \<le> y"
  then have "of_int q \<le> a + y" using Fin by (simp add: whole_def)
  then have "f64_le (f64_round (of_int q)) (f64_round (a + y))" by (rule f64_round_mono)
  then show ?thesis using Fin f64_round_of_int [OF *(2)] by (simp add: whole_def)
qed (simp_all add: whole_def)

lemma add_ge_both:
  assumes "f64_le (whole q) x" "f64_le (whole q) y" "0 \<le> q" "q \<le> 2 ^ 53"
  shows "f64_le (whole q) (f64_add x y)"
proof (cases y)
  case (Fin r)
  have "0 \<le> (of_int q :: rat)" using assms(3) by simp
  also have "\<dots> \<le> r" using assms(2) Fin by (simp add: whole_def)
  finally show ?thesis unfolding Fin using assms by (intro add_ge) auto
qed (use assms in \<open>cases x; simp add: whole_def\<close>)+

lemma fill_track_step:
  assumes "fill_track ord" "0 < m" "m \<le> 2 ^ 52"
  shows "fill_track (Order_update_status now st (book_fill now' (whole m) ord))"
proof -
  obtain q where q: "o_quantity ord = whole q" "0 < q" "q \<le> 2 ^ 52"
    and c: "(\<exists>f. order_amounts ord q f) \<or> f64_le (whole q) (o_filled_quantity ord)"
    using assms(1) by (auto simp: fill_track_def)
  let ?ord' = "Order_update_status now st (book_fill now' (whole m) ord)"
  from c have "(\<exists>f. order_amounts ?ord' q f) \<or> f64_le (whole q) (o_filled_quantity ?ord')"
  proof
    assume "\<exists>f. order_amounts ord q f"
    then obtain f where f: "o_filled_quantity ord = whole f" "0 \<le> f" "f < q" by (auto simp: order_amounts_def)
    then have e: "o_filled_quantity ?ord' = f64_add (whole f) (whole (f + m))"
      using q assms(2,3) by (simp add: whole_add)
    show ?thesis
    proof (cases "2 * f + m < q")
      case True
      then have "o_filled_quantity ?ord' = whole (2 * f + m)" unfolding e using f q assms(2) by (simp add: whole_add)
      then show ?thesis using True f q assms(2) by (auto simp: order_amounts_def intro!: exI [of _ "2 * f + m"])
    next
      case False
      then have "(of_int q :: rat) \<le> of_int (f + (f + m))" by (simp only: of_int_le_iff)
      then have "f64_le (f64_round (of_int q)) (f64_round (of_int (f + (f + m))))" by (rule f64_round_mono)
      then show ?thesis using e q f64_round_of_int [of q] by (simp add: whole_def)
    qed
  next
    assume g: "f64_le (whole q) (o_filled_quantity ord)"
    then have "f64_le (whole q) (f64_add (o_filled_quantity ord) (whole m))"
      unfolding whole_def [of m] using q assms(2) by (intro add_ge) auto
    from add_ge_both [OF g this] q
    have "f64_le (whole q) (f64_add (o_filled_quantity ord) (f64_add (o_filled_quantity ord) (whole m)))" by simp
    then show ?thesis by simp
  qed
  then show ?thesis using q by (auto simp: fill_track_def)
qed

text \<open>The invariant of the loops, with \<open>r\<close> units of the incoming order still open.\<close>

definition loop_inv :: "match_state \<Rightarrow> int \<Rightarrow> bool" where
  "loop_inv st r \<longleftrightarrow> book_ok (ms_book st) \<and> book_whole (ms_book st) \<and> ms_remaining st = whole r \<and>
     0 \<le> r \<and> r \<le> 2 ^ 52 \<and> (Order_is_active (ms_order st) \<longleftrightarrow> 0 < r) \<and> fill_track (ms_order st)"

definition holds :: "OrderBook \<Rightarrow> Order \<Rightarrow> bool" where
  "holds b ord \<longleftrightarrow> hm_get (ob_orders_by_id b) (o_order_id ord) = Some ord"

definition step_execution :: "(nat \<Rightarrow> string) \<Rightarrow> datetime \<Rightarrow> f64 \<Rightarrow> Order \<Rightarrow> match_state \<Rightarrow> Execution" where
  "step_execution uid now price resting st =
     (let u = uid (length (mr_executions (ms_result st))); m = f64_min (ms_remaining st) (Order_remaining_quantity resting)
      in case o_side (ms_order st) of
           Buy \<Rightarrow> create_execution_record u now (ms_order st) resting price m
         | Sell \<Rightarrow> create_execution_record u now resting (ms_order st) price m)"

lemma match_step_simps:
  "mr_executions (ms_result (match_step uid now p o' st)) = mr_executions (ms_result st) @ [step_execution uid now p o' st]"
  "ms_remaining (match_step uid now p o' st) = f64_sub (ms_remaining st) (f64_min (ms_remaining st) (Order_remaining_quantity o'))"
  "ms_book (match_step uid now p o' st) =
     snd (settle_resting now (f64_min (ms_remaining st) (Order_remaining_quantity o')) o'
            (snd (OrderBook_remove_order (o_order_id o') (ms_book st))))"
  by (simp_all add: match_step_def step_execution_def Let_def case_prod_beta MatchResult_add_updated_order_def
      MatchResult_add_execution_def)

lemma match_step_order:
  "o_order_id (ms_order (match_step uid now p o' st)) = o_order_id (ms_order st)"
  "o_symbol (ms_order (match_step uid now p o' st)) = o_symbol (ms_order st)"
  "o_side (ms_order (match_step uid now p o' st)) = o_side (ms_order st)"
  "o_order_type (ms_order (match_step uid now p o' st)) = o_order_type (ms_order st)"
  "Order_is_active (ms_order (match_step uid now p o' st)) \<longleftrightarrow> \<not> f64_le (ms_remaining (match_step uid now p o' st)) (Fin 0)"
  "ms_order (match_step uid now p o' st) =
     Order_update_status now (if f64_le (ms_remaining (match_step uid now p o' st)) (Fin 0) then Filled else PartiallyFilled)
       (book_fill now (f64_min (ms_remaining st) (Order_remaining_quantity o')) (ms_order st))"
  by (simp_all add: match_step_def Let_def case_prod_beta)

lemma step_execution_simps:
  "ex_quantity (step_execution uid now p o' st) = f64_min (ms_remaining st) (Order_remaining_quantity o')"
  "ex_price (step_execution uid now p o' st) = p"
  by (simp_all add: step_execution_def Let_def create_execution_record_def split: OrderSide.split)

lemma book_ok_index:
  "book_ok b \<Longrightarrow> hm_get (ob_orders_by_id b) i = Some ord \<Longrightarrow> o_order_id ord = i \<and> o_symbol ord = ob_symbol b"
  by (simp add: book_ok_def)

lemma match_step_inv:
  fixes uid now p
  assumes inv: "loop_inv st r" "0 < r" and o': "holds (ms_book st) o'"
  defines "st' \<equiv> match_step uid now p o' st" and "m \<equiv> min r (rem_of o')"
  shows "loop_inv st' (r - m)" and "0 < m"
    and "ex_quantity (step_execution uid now p o' st) = whole m"
    and "j \<noteq> o_order_id o' \<Longrightarrow> hm_get (ob_orders_by_id (ms_book st')) j = hm_get (ob_orders_by_id (ms_book st)) j"
    and "rem_of o' \<le> r \<Longrightarrow> hm_get (ob_orders_by_id (ms_book st')) (o_order_id o') = None"
    and "ob_symbol (ms_book st') = ob_symbol (ms_book st)"
    and "same_terms (ms_book st) (ms_book st')"
proof -
  define b1 where "b1 = snd (OrderBook_remove_order (o_order_id o') (ms_book st))"
  obtain q f where am: "order_amounts o' q f"
    using inv(1) o' unfolding loop_inv_def book_whole_def holds_def by blast
  have rem: "Order_remaining_quantity o' = whole (rem_of o')" "rem_of o' = q - f" "0 < rem_of o'"
    using am by (simp_all add: remaining_rem_of rem_of_amounts amounts_pos) (simp add: order_amounts_def)
  have mq: "f64_min (ms_remaining st) (Order_remaining_quantity o') = whole m"
    using inv by (simp add: loop_inv_def rem(1) m_def)
  show m: "0 < m" using inv(2) rem(3) by (simp add: m_def)
  show "ex_quantity (step_execution uid now p o' st) = whole m" by (simp add: step_execution_simps mq)
  have b1: "book_ok b1" "book_whole b1" "hm_get (ob_orders_by_id b1) (o_order_id o') = None"
    "o_symbol o' = ob_symbol b1"
    using inv(1) o' book_ok_index [of "ms_book st" "o_order_id o'" o']
    by (auto simp: b1_def loop_inv_def book_ok_remove book_whole_def remove_order_index holds_def split: if_splits)
  have bk: "ms_book st' = snd (settle_resting now (whole m) o' b1)" by (simp add: st'_def match_step_simps mq b1_def)
  have se: "settled b1 o' (ms_book st')"
    unfolding bk using b1 am m rem(2) by (intro settle_resting_settled) (auto simp: m_def)
  have rs: "ms_remaining st' = whole (r - m)"
  proof -
    have "f64_sub (whole r) (whole m) = whole (r - m)"
      using inv m by (intro whole_sub) (auto simp: loop_inv_def m_def)
    then show ?thesis unfolding st'_def match_step_simps mq using inv by (simp add: loop_inv_def)
  qed
  have "f64_le (ms_remaining st') (Fin 0) \<longleftrightarrow> r - m \<le> 0" by (simp add: rs Fin_0_whole)
  then have "Order_is_active (ms_order st') \<longleftrightarrow> 0 < r - m"
    using match_step_order(5) [of uid now p o' st] by (simp only: st'_def) auto
  moreover have "fill_track (ms_order st')"
    unfolding st'_def match_step_order(6) mq using inv m by (intro fill_track_step) (auto simp: loop_inv_def m_def)
  ultimately show "loop_inv st' (r - m)" using inv m rs se by (auto simp: loop_inv_def settled_def m_def)
  show "hm_get (ob_orders_by_id (ms_book st')) j = hm_get (ob_orders_by_id (ms_book st)) j" if "j \<noteq> o_order_id o'"
    using se that by (simp add: settled_def b1_def remove_order_index)
  show "hm_get (ob_orders_by_id (ms_book st')) (o_order_id o') = None" if "rem_of o' \<le> r"
  proof -
    have "m = q - f" using that rem(2) by (simp add: m_def)
    then show ?thesis using settle_done [OF am, of now b1] b1(3) by (simp add: bk)
  qed
  show "ob_symbol (ms_book st') = ob_symbol (ms_book st)" using se by (simp add: settled_def b1_def remove_order_index)
  show "same_terms (ms_book st) (ms_book st')"
  proof (rule settled_terms [OF _ se])
    show "same_terms (ms_book st) b1" by (auto simp: same_terms_def b1_def remove_order_index split: if_splits)
    show "hm_get (ob_orders_by_id (ms_book st)) (o_order_id o') = Some o'" using o' by (simp add: holds_def)
  qed
qed

section \<open>Limit orders fill as far as the book allows\<close>

text \<open>What a matching loop has done to a state: a list \<open>es\<close> of executions of the amounts \<open>ns\<close>,
  \<open>r'\<close> units still open, and the book changed at the ids \<open>I\<close> only.\<close>

definition progress :: "match_state \<Rightarrow> match_state \<Rightarrow> int \<Rightarrow> Execution list \<Rightarrow> int list \<Rightarrow> string set \<Rightarrow> bool" where
  "progress st st' r' es ns I \<longleftrightarrow>
     loop_inv st' r' \<and> mr_executions (ms_result st') = mr_executions (ms_result st) @ es \<and>
     map ex_quantity es = map whole ns \<and> (\<forall>n\<in>set ns. 0 < n) \<and>
     (\<forall>j. j \<notin> I \<longrightarrow> hm_get (ob_orders_by_id (ms_book st')) j = hm_get (ob_orders_by_id (ms_book st)) j) \<and>
     ob_symbol (ms_book st') = ob_symbol (ms_book st) \<and> same_terms (ms_book st) (ms_book st') \<and>
     o_order_id (ms_order st') = o_order_id (ms_order st) \<and> o_symbol (ms_order st') = o_symbol (ms_order st) \<and>
     o_side (ms_order st') = o_side (ms_order st) \<and> o_order_type (ms_order st') = o_order_type (ms_order st)"

lemma progress_refl: "loop_inv st r \<Longrightarrow> progress st st r [] [] I"
  by (simp add: progress_def)

lemma progress_step:
  assumes "loop_inv st r" "0 < r" "holds (ms_book st) o'"
  shows "progress st (match_step uid now p o' st) (r - min r (rem_of o')) [step_execution uid now p o' st]
           [min r (rem_of o')] {o_order_id o'}"
  using match_step_inv(1-4,6,7) [OF assms]
  by (simp add: progress_def match_step_simps match_step_order)

lemma progress_trans:
  "progress st st1 r1 es ns I \<Longrightarrow> progress st1 st2 r2 es' ns' J \<Longrightarrow> progress st st2 r2 (es @ es') (ns @ ns') (I \<union> J)"
  by (auto simp: progress_def intro: same_terms_trans)

lemma progress_mono: "progress st st' r es ns I \<Longrightarrow> I \<subseteq> J \<Longrightarrow> progress st st' r es ns J"
  by (auto simp: progress_def)

lemma rem_sum_nonneg: "\<forall>o'\<in>set os. holds b o' \<Longrightarrow> book_whole b \<Longrightarrow> 0 \<le> sum_list (map rem_of os)"
  by (rule sum_list_nonneg) (auto simp: holds_def book_whole_def dest!: amounts_pos, meson amounts_pos less_imp_le)

lemma limit_loop_fills:
  assumes "loop_inv st r" "distinct (map o_order_id os)" "\<forall>o'\<in>set os. holds (ms_book st) o'"
  shows "\<exists>es ns. progress st (limit_loop uid now os st) (r - sum_list ns) es ns (o_order_id ` set os) \<and>
           sum_list ns = min r (sum_list (map rem_of os)) \<and>
           (\<forall>e\<in>set es. \<exists>o'\<in>set os. ex_price e = the (o_price o'))"
  using assms
proof (induction os arbitrary: st r)
  case Nil
  then show ?case by (intro exI [of _ "[]"]) (simp add: progress_refl, simp add: loop_inv_def)
next
  case (Cons o' os)
  have nn: "0 \<le> sum_list (map rem_of (o' # os))"
    using Cons.prems by (intro rem_sum_nonneg [where b = "ms_book st"]) (auto simp: loop_inv_def)
  show ?case
  proof (cases "0 < r")
    case False
    with Cons.prems(1) have "r = 0" by (simp add: loop_inv_def)
    then show ?thesis
      using Cons.prems(1) nn by (intro exI [of _ "[]"]) (simp add: progress_refl, simp add: loop_inv_def Fin_0_whole)
  next
    case True
    define st1 where "st1 = match_step uid now (the (o_price o')) o' st"
    define m where "m = min r (rem_of o')"
    have h: "holds (ms_book st) o'" using Cons.prems(3) by simp
    have p1: "progress st st1 (r - m) [step_execution uid now (the (o_price o')) o' st] [m] {o_order_id o'}"
      unfolding st1_def m_def by (rule progress_step [OF Cons.prems(1) True h])
    have "\<forall>x\<in>set os. holds (ms_book st1) x"
    proof
      fix x assume x: "x \<in> set os"
      with Cons.prems(2) have "o_order_id x \<noteq> o_order_id o'" by (auto simp: rev_image_eqI)
      with p1 x Cons.prems(3) show "holds (ms_book st1) x" by (auto simp: progress_def holds_def)
    qed
    moreover have "loop_inv st1 (r - m)" using p1 by (simp add: progress_def)
    ultimately obtain es ns where IH: "progress st1 (limit_loop uid now os st1) (r - m - sum_list ns) es ns (o_order_id ` set os)"
      "sum_list ns = min (r - m) (sum_list (map rem_of os))" "\<forall>e\<in>set es. \<exists>o'\<in>set os. ex_price e = the (o_price o')"
      using Cons.IH [of st1 "r - m"] Cons.prems(2) by auto
    have loop: "limit_loop uid now (o' # os) st = limit_loop uid now os st1"
      using Cons.prems(1) True by (simp add: st1_def loop_inv_def Fin_0_whole)
    have "0 \<le> sum_list (map rem_of os)"
      using Cons.prems by (intro rem_sum_nonneg [where b = "ms_book st"]) (auto simp: loop_inv_def)
    then have "sum_list (m # ns) = min r (sum_list (map rem_of (o' # os)))"
      using IH(2) by (simp add: m_def)
    then show ?thesis
      using progress_trans [OF p1 IH(1)] IH(3) unfolding loop
      by (intro exI [of _ "step_execution uid now (the (o_price o')) o' st # es"] exI [of _ "m # ns"])
        (auto simp: step_execution_simps algebra_simps)
  qed
qed

lemma limit_candidates:
  assumes "book_ok b"
  shows "distinct (map o_order_id (OrderBook_get_matching_sell_orders price b))"
    and "distinct (map o_order_id (OrderBook_get_matching_buy_orders price b))"
    and "\<forall>o'\<in>set (OrderBook_get_matching_sell_orders price b). holds b o' \<and> order_key o' \<le> price_key price \<and> has_price o'"
    and "\<forall>o'\<in>set (OrderBook_get_matching_buy_orders price b). holds b o' \<and> price_key price \<le> order_key o' \<and> has_price o'"
proof -
  have s: "side_ok (ob_orders_by_id b) Sell (ob_sell_orders b)" and bu: "side_ok (ob_orders_by_id b) Buy (ob_buy_orders b)"
    using assms by (simp_all add: book_ok_def)
  show "distinct (map o_order_id (OrderBook_get_matching_sell_orders price b))"
    "distinct (map o_order_id (OrderBook_get_matching_buy_orders price b))"
    unfolding OrderBook_get_matching_sell_orders_def OrderBook_get_matching_buy_orders_def
    by (rule side_ok_distinct [OF s], rule side_ok_distinct [OF bu])
  show "\<forall>o'\<in>set (OrderBook_get_matching_sell_orders price b). holds b o' \<and> order_key o' \<le> price_key price \<and> has_price o'"
    "\<forall>o'\<in>set (OrderBook_get_matching_buy_orders price b). holds b o' \<and> price_key price \<le> order_key o' \<and> has_price o'"
    unfolding OrderBook_get_matching_sell_orders_def OrderBook_get_matching_buy_orders_def
      concat_levels_set [OF s] concat_levels_set [OF bu]
    by (auto simp: rests_def holds_def)
qed

lemma loop_inv_start:
  assumes "book_ok b" "book_whole b" "order_amounts ord q f" "Order_is_active ord"
  shows "loop_inv \<lparr> ms_book = b, ms_order = ord, ms_remaining = Order_remaining_quantity ord, ms_result = res \<rparr> (q - f)"
  using assms remaining_whole [OF assms(3)] by (simp add: loop_inv_def) (auto simp: order_amounts_def fill_track_def)

lemma order_key_price: "has_price ord \<Longrightarrow> order_key ord = price_key (the (o_price ord))"
  by (auto simp: has_price_def order_key_def split: option.splits)


lemma sample_sell_amounts: "order_amounts sample_sell 10 0"
  using sample_order_amounts by (simp add: order_amounts_def sample_sell_def)

lemma sample_book_whole: "book_whole sample_book"
  using sample_sell_amounts by (auto simp: book_whole_def sample_book_index)

lemma sample_order_active: "Order_is_active sample_order"
  by (simp add: sample_order_def)


section \<open>Market orders\<close>

text \<open>What the market loop needs of a side of the book: the orders it is given at the best price are in
  the book, each once. The loop returns on every such side, because a level that does not
  finish the incoming order leaves the book for good.\<close>

abbreviation index_of :: "match_state \<Rightarrow> string \<Rightarrow> Order option" where
  "index_of st \<equiv> hm_get (ob_orders_by_id (ms_book st))"

locale market_side =
  fixes best :: "OrderBook \<Rightarrow> f64 option"
    and at_price :: "f64 \<Rightarrow> OrderBook \<Rightarrow> Order list"
  assumes at_distinct: "book_ok b \<Longrightarrow> distinct (map o_order_id (at_price p b))"
    and at_holds: "book_ok b \<Longrightarrow> o' \<in> set (at_price p b) \<Longrightarrow> holds b o'"
begin

lemma level_progress:
  assumes "loop_inv st r" "0 < r" "distinct (map o_order_id os)" "\<forall>o'\<in>set os. holds (ms_book st) o'"
  shows "\<exists>es ns. progress st (market_level uid now p os st) (r - sum_list ns) es ns (o_order_id ` set os) \<and>
           (0 < r - sum_list ns \<longrightarrow>
              (\<forall>o'\<in>set os. hm_get (ob_orders_by_id (ms_book (market_level uid now p os st))) (o_order_id o') = None)) \<and>
           (\<forall>e\<in>set es. ex_price e = p)"
  using assms
proof (induction os arbitrary: st r)
  case Nil
  then show ?case by (intro exI [of _ "[]"]) (simp add: progress_refl)
next
  case (Cons o' os)
  define st1 where "st1 = match_step uid now p o' st"
  define m where "m = min r (rem_of o')"
  have h: "holds (ms_book st) o'" using Cons.prems(4) by simp
  have p1: "progress st st1 (r - m) [step_execution uid now p o' st] [m] {o_order_id o'}"
    unfolding st1_def m_def by (rule progress_step [OF Cons.prems(1,2) h])
  have le: "f64_le (ms_remaining st1) (Fin 0) \<longleftrightarrow> r \<le> m"
    using p1 by (auto simp: progress_def loop_inv_def Fin_0_whole)
  show ?case
  proof (cases "r \<le> m")
    case True
    then have "market_level uid now p (o' # os) st = st1" using le by (simp add: st1_def)
    then show ?thesis
      using progress_mono [OF p1, of "o_order_id ` set (o' # os)"] True
      by (intro exI [of _ "[step_execution uid now p o' st]"] exI [of _ "[m]"]) (simp add: step_execution_simps)
  next
    case False
    have loop: "market_level uid now p (o' # os) st = market_level uid now p os st1" using le False by (simp add: st1_def)
    have ids: "o_order_id x \<noteq> o_order_id o'" if "x \<in> set os" for x
      using that Cons.prems(3) by (auto simp: rev_image_eqI)
    then have "\<forall>x\<in>set os. holds (ms_book st1) x"
      using p1 Cons.prems(4) by (auto simp: progress_def holds_def)
    then obtain es ns where IH: "progress st1 (market_level uid now p os st1) (r - m - sum_list ns) es ns (o_order_id ` set os)"
      "0 < r - m - sum_list ns \<Longrightarrow>
        \<forall>x\<in>set os. hm_get (ob_orders_by_id (ms_book (market_level uid now p os st1))) (o_order_id x) = None"
      "\<forall>e\<in>set es. ex_price e = p"
      using Cons.IH [of st1 "r - m"] p1 False Cons.prems(3) by (auto simp: progress_def)
    have gone: "hm_get (ob_orders_by_id (ms_book (market_level uid now p os st1))) (o_order_id o') = None"
    proof -
      have "rem_of o' \<le> r" using False by (simp add: m_def)
      then have "hm_get (ob_orders_by_id (ms_book st1)) (o_order_id o') = None"
        unfolding st1_def by (rule match_step_inv(5) [OF Cons.prems(1,2) h])
      moreover have "o_order_id o' \<notin> o_order_id ` set os" using ids by (metis imageE)
      ultimately show ?thesis using IH(1) by (simp add: progress_def)
    qed
    show ?thesis
      using progress_trans [OF p1 IH(1)] IH(2,3) gone unfolding loop
      by (intro exI [of _ "step_execution uid now p o' st # es"] exI [of _ "m # ns"])
        (auto simp: step_execution_simps algebra_simps)
  qed
qed

text \<open>One round of the \<^verbatim>\<open>while\<close> loop: the whole level at the best price.\<close>

lemma round_shrinks:
  fixes uid now
  assumes inv: "loop_inv st r" "0 < r" and os: "at_price p (ms_book st) \<noteq> []"
  defines "st1 \<equiv> market_level uid now p (at_price p (ms_book st)) st"
  shows "\<exists>es ns I. progress st st1 (r - sum_list ns) es ns I \<and> I \<subseteq> dom (index_of st) \<and> dom (index_of st1) \<subseteq> dom (index_of st) \<and>
           (0 < r - sum_list ns \<longrightarrow> card (dom (index_of st1)) < card (dom (index_of st)))"
proof -
  define ids where "ids = o_order_id ` set (at_price p (ms_book st))"
  have ok: "book_ok (ms_book st)" using inv by (simp add: loop_inv_def)
  obtain es ns where lv: "progress st st1 (r - sum_list ns) es ns ids"
    "0 < r - sum_list ns \<Longrightarrow> \<forall>i\<in>ids. index_of st1 i = None"
    using level_progress [OF inv at_distinct [OF ok, of p], of uid now p] at_holds [OF ok, of _ p]
    unfolding st1_def ids_def by (metis (no_types, lifting) imageE)
  have ids: "ids \<subseteq> dom (index_of st)" "ids \<noteq> {}" using at_holds [OF ok] os by (auto simp: ids_def holds_def)
  have eq: "index_of st1 j = index_of st j" if "j \<notin> ids" for j using lv(1) that by (simp add: progress_def)
  have sub: "dom (index_of st1) \<subseteq> dom (index_of st)"
  proof
    fix j assume "j \<in> dom (index_of st1)"
    then show "j \<in> dom (index_of st)" using eq [of j] ids(1) by (cases "j \<in> ids") (auto simp: domIff)
  qed
  have "card (dom (index_of st1)) < card (dom (index_of st))" if "0 < r - sum_list ns"
  proof (rule psubset_card_mono)
    obtain i where "i \<in> ids" using ids(2) by blast
    then have "i \<in> dom (index_of st)" "i \<notin> dom (index_of st1)" using ids(1) lv(2) [OF that] by auto
    then show "dom (index_of st1) \<subset> dom (index_of st)" using sub by blast
  qed (simp add: finite_dom_map_of)
  with lv(1) ids(1) sub show ?thesis by blast
qed

lemma loop_returns:
  assumes "loop_inv st r"
  shows "\<exists>st' es ns I. market_loop best at_price uid now st = Some st' \<and>
           progress st st' (r - sum_list ns) es ns I \<and> I \<subseteq> dom (index_of st) \<and>
           (0 < r - sum_list ns \<longrightarrow>
              (case best (ms_book st') of None \<Rightarrow> True | Some p \<Rightarrow> at_price p (ms_book st') = []))"
  using assms
proof (induction "card (dom (index_of st))" arbitrary: st r rule: less_induct)
  case less
  have guard: "f64_lt (Fin 0) (ms_remaining st) \<and> Order_is_active (ms_order st) \<longleftrightarrow> 0 < r"
    using less.prems by (auto simp: loop_inv_def Fin_0_whole)
  note unfold = market_loop.simps [of best at_price uid now st, unfolded guard Let_def]
  have stop: ?case if "market_loop best at_price uid now st = Some st"
    "0 < r \<Longrightarrow> case best (ms_book st) of None \<Rightarrow> True | Some p \<Rightarrow> at_price p (ms_book st) = []"
    using that less.prems by (intro exI [of _ st] exI [of _ "[]"] exI [of _ "{}"]) (simp add: progress_refl)
  consider "\<not> 0 < r \<or> best (ms_book st) = None \<or> (\<exists>p. best (ms_book st) = Some p \<and> at_price p (ms_book st) = [])"
    | p where "0 < r" "best (ms_book st) = Some p" "at_price p (ms_book st) \<noteq> []"
    by (cases "best (ms_book st)") auto
  then show ?case
  proof cases
    case 1
    then show ?thesis by (intro stop) (auto simp: unfold)
  next
    case (2 p)
    define st1 where "st1 = market_level uid now p (at_price p (ms_book st)) st"
    obtain es ns I where rd: "progress st st1 (r - sum_list ns) es ns I" "I \<subseteq> dom (index_of st)"
      "dom (index_of st1) \<subseteq> dom (index_of st)"
      "0 < r - sum_list ns \<longrightarrow> card (dom (index_of st1)) < card (dom (index_of st))"
      using round_shrinks [OF less.prems 2(1,3), of uid now] by (auto simp: st1_def)
    have loop: "market_loop best at_price uid now st = market_loop best at_price uid now st1"
      using 2 by (simp add: unfold st1_def)
    have inv1: "loop_inv st1 (r - sum_list ns)" using rd(1) by (simp add: progress_def)
    show ?thesis
    proof (cases "0 < r - sum_list ns")
      case False
      then have "market_loop best at_price uid now st1 = Some st1"
        using inv1 by (subst market_loop.simps) (simp add: loop_inv_def)
      then show ?thesis using rd False loop by (intro exI [of _ st1]) auto
    next
      case True
      with less.hyps [OF _ inv1] rd(4) obtain st' es' ns' J where IH:
        "market_loop best at_price uid now st1 = Some st'" "progress st1 st' (r - sum_list ns - sum_list ns') es' ns' J"
        "J \<subseteq> dom (index_of st1)" "0 < r - sum_list ns - sum_list ns' \<longrightarrow>
              (case best (ms_book st') of None \<Rightarrow> True | Some p \<Rightarrow> at_price p (ms_book st') = [])"
        by blast
      with progress_trans [OF rd(1) IH(2)] loop rd(2,3) show ?thesis
        by (intro exI [of _ st'] exI [of _ "es @ es'"] exI [of _ "ns @ ns'"] exI [of _ "I \<union> J"])
          (auto simp: algebra_simps)
    qed
  qed
qed

end

lemma at_price_level:
  assumes "side_ok (ob_orders_by_id b) s m"
  shows "distinct (map o_order_id (level m k))" and "o' \<in> set (level m k) \<Longrightarrow> holds b o'"
  using assms level_distinct [of m k] by (auto simp: side_ok_def rests_def holds_def)

interpretation sell_side: market_side OrderBook_best_sell_price OrderBook_get_sell_orders_at_price
  by unfold_locales (auto simp: OrderBook_get_sell_orders_at_price_def book_ok_def at_price_level)

interpretation buy_side: market_side OrderBook_best_buy_price OrderBook_get_buy_orders_at_price
  by unfold_locales (auto simp: OrderBook_get_buy_orders_at_price_def book_ok_def at_price_level)

definition book_on_grid :: "OrderBook \<Rightarrow> bool" where
  "book_on_grid b \<longleftrightarrow> (\<forall>j x. hm_get (ob_orders_by_id b) j = Some x \<longrightarrow> on_grid (order_key x))"

lemma same_terms_grid: "same_terms b b' \<Longrightarrow> book_on_grid b \<Longrightarrow> book_on_grid b'"
  unfolding same_terms_def book_on_grid_def order_key_def by metis

text \<open>On the grid the level of the best price is found, and it is not empty.\<close>

lemma best_level_found:
  assumes "book_ok b" "book_on_grid b"
  shows "OrderBook_best_sell_price b = Some p \<Longrightarrow> OrderBook_get_sell_orders_at_price p b \<noteq> []"
    and "OrderBook_best_buy_price b = Some p \<Longrightarrow> OrderBook_get_buy_orders_at_price p b \<noteq> []"
proof -
  have s: "side_ok (ob_orders_by_id b) Sell (ob_sell_orders b)" and bu: "side_ok (ob_orders_by_id b) Buy (ob_buy_orders b)"
    using assms by (simp_all add: book_ok_def)
  have nonempty: "level m (price_key (key_price k)) \<noteq> []" if "side_ok (ob_orders_by_id b) sd m" "\<exists>x. rests (ob_orders_by_id b) sd k x" for m sd k
  proof -
    from that(2) have "on_grid k" using assms(2) by (auto simp: rests_def book_on_grid_def)
    with that show ?thesis using side_ok_level [OF that(1), of k] by (auto simp: on_grid_round_trip)
  qed
  show "OrderBook_best_sell_price b = Some p \<Longrightarrow> OrderBook_get_sell_orders_at_price p b \<noteq> []"
    using side_ok_first [OF s] nonempty [OF s]
    by (auto simp: OrderBook_best_sell_price_def OrderBook_get_sell_orders_at_price_def split: if_splits)
  show "OrderBook_best_buy_price b = Some p \<Longrightarrow> OrderBook_get_buy_orders_at_price p b \<noteq> []"
    using side_ok_last [OF bu] nonempty [OF bu]
    by (auto simp: OrderBook_best_buy_price_def OrderBook_get_buy_orders_at_price_def split: if_splits)
qed

text \<open>
  A market buy order always returns, and takes the whole sell side if it must: when all
  price keys of the book are on the quarter grid, it stops only when it is completely filled or
  no sell order is left in the book. The executed amounts add up to what it lost.
\<close>

theorem market_buy_exhausts:
  assumes "book_ok b" "book_whole b" "book_on_grid b" "order_amounts ord q f" "Order_is_active ord"
  shows "\<exists>st ns. match_market_buy_order uid now b ord MatchResult_new = Some st \<and>
           map ex_quantity (mr_executions (ms_result st)) = map whole ns \<and> (\<forall>n\<in>set ns. 0 < n) \<and>
           ms_remaining st = whole (q - f - sum_list ns) \<and>
           (sum_list ns = q - f \<or> ob_sell_orders (ms_book st) = [])"
proof -
  let ?st0 = "\<lparr> ms_book = b, ms_order = ord, ms_remaining = Order_remaining_quantity ord, ms_result = MatchResult_new \<rparr>"
  obtain st es ns I where st: "match_market_buy_order uid now b ord MatchResult_new = Some st"
    "progress ?st0 st (q - f - sum_list ns) es ns I"
    "0 < q - f - sum_list ns \<Longrightarrow> case OrderBook_best_sell_price (ms_book st) of None \<Rightarrow> True
        | Some p \<Rightarrow> OrderBook_get_sell_orders_at_price p (ms_book st) = []"
    using sell_side.loop_returns [OF loop_inv_start [OF assms(1,2,4,5)], of uid now MatchResult_new]
    unfolding match_market_buy_order_def by blast
  have "book_ok (ms_book st)" "book_on_grid (ms_book st)"
    using st(2) assms(3) by (auto simp: progress_def loop_inv_def intro: same_terms_grid)
  then have "ob_sell_orders (ms_book st) = []" if "0 < q - f - sum_list ns"
    using st(3) [OF that] best_level_found(1) [of "ms_book st"]
    by (cases "OrderBook_best_sell_price (ms_book st)") (auto simp: OrderBook_best_sell_price_def split: if_splits)
  moreover have "0 \<le> q - f - sum_list ns" using st(2) by (simp add: progress_def loop_inv_def)
  ultimately show ?thesis
    using st(1,2) by (intro exI [of _ st] exI [of _ ns]) (auto simp: progress_def loop_inv_def MatchResult_new_def)
qed

lemma sample_book_grid: "book_on_grid sample_book"
proof -
  have "order_key sample_sell = 15000" using sample_sell_rests by (simp add: rests_def)
  then show ?thesis by (auto simp: book_on_grid_def sample_book_index on_grid_def)
qed

theorem market_buy_exhausts_witness:
  "\<exists>st ns. match_market_buy_order (\<lambda>n. ''u'') 1 sample_book sample_order MatchResult_new = Some st \<and>
           ms_remaining st = whole (10 - sum_list ns) \<and> (sum_list ns = 10 \<or> ob_sell_orders (ms_book st) = [])"
  using market_buy_exhausts [OF sample_book_ok sample_book_whole sample_book_grid sample_order_amounts sample_order_active,
      of "\<lambda>n. ''u''" 1] by auto

section \<open>The entry point\<close>

lemma sub_overfilled: "f64_le (whole q) x \<Longrightarrow> \<not> f64_lt (Fin 0) (f64_sub (whole q) x)"
proof (cases x)
  case (Fin a)
  assume "f64_le (whole q) x"
  then have "of_int q - a \<le> 0" using Fin by (simp add: whole_def)
  then have "f64_le (f64_round (of_int q - a)) (f64_round 0)" by (rule f64_round_mono)
  then show ?thesis using Fin by (cases "f64_round (of_int q - a)") (auto simp: whole_def f64_sub_def f64_lt_def)
qed (simp_all add: whole_def f64_sub_def f64_lt_def)

lemma fill_track_open:
  "fill_track ord \<Longrightarrow> f64_lt (Fin 0) (Order_remaining_quantity ord) \<Longrightarrow> \<exists>q f. order_amounts ord q f"
  using sub_overfilled unfolding fill_track_def Order_remaining_quantity_def by metis

lemma finish_match_ok:
  assumes "loop_inv st r" "hm_get (ob_orders_by_id (ms_book st)) (o_order_id (ms_order st)) = None"
  shows "\<exists>b' ord' res. finish_match now st = (b', ord', res) \<and> book_ok b' \<and> book_whole b' \<and>
           ob_symbol b' = ob_symbol (ms_book st) \<and> mr_executions res = mr_executions (ms_result st)"
proof -
  have inv: "book_ok (ms_book st)" "book_whole (ms_book st)" "fill_track (ms_order st)"
    using assms(1) by (simp_all add: loop_inv_def)
  have "book_whole (snd (OrderBook_add_order (ms_order st) (ms_book st)))"
    if "f64_lt (Fin 0) (Order_remaining_quantity (ms_order st))"
    using inv(2) fill_track_open [OF inv(3) that] by (auto simp: book_whole_def add_order_index)
  then show ?thesis
    using inv book_ok_add [OF inv(1) assms(2)]
    by (auto simp: finish_match_def Let_def MatchResult_add_updated_order_def add_order_index)
qed

lemma match_loops_progress:
  fixes uid now
  assumes "book_ok b" "book_whole b" "order_amounts ord q f" "Order_is_active ord"
  defines "st0 \<equiv> \<lparr> ms_book = b, ms_order = ord, ms_remaining = Order_remaining_quantity ord, ms_result = MatchResult_new \<rparr>"
  defines "good \<equiv> \<lambda>st. \<exists>es ns I. progress st0 st (q - f - sum_list ns) es ns I \<and> I \<subseteq> dom (hm_get (ob_orders_by_id b))"
  shows "\<exists>st. match_order uid now b ord = Some (finish_match now st) \<and> good st"
proof -
  have inv: "loop_inv st0 (q - f)" unfolding st0_def by (rule loop_inv_start [OF assms(1-4)])
  have idle: "good st0"
    unfolding good_def using progress_refl [OF inv, of "{}"] by (intro exI [of _ "[]"] exI [of _ "{}"]) simp
  have lim: "good (limit_loop uid now os st0)" if "distinct (map o_order_id os)" "\<forall>o'\<in>set os. holds b o'" for os
    unfolding good_def using limit_loop_fills [OF inv that(1), of uid now] that(2)
    by (auto simp: st0_def holds_def intro!: exI [of _ "o_order_id ` set os"])
  have "good (match_limit_buy_order uid now b ord p MatchResult_new)" "good (match_limit_sell_order uid now b ord p MatchResult_new)" for p
    unfolding match_limit_buy_order_def match_limit_sell_order_def st0_def [symmetric]
    using lim limit_candidates [OF assms(1), of p] by auto
  moreover obtain st1 where "match_market_buy_order uid now b ord MatchResult_new = Some st1" "good st1"
    using sell_side.loop_returns [OF inv, of uid now]
    unfolding match_market_buy_order_def st0_def [symmetric] good_def by (auto simp: st0_def)
  moreover obtain st2 where "match_market_sell_order uid now b ord MatchResult_new = Some st2" "good st2"
    using buy_side.loop_returns [OF inv, of uid now]
    unfolding match_market_sell_order_def st0_def [symmetric] good_def by (auto simp: st0_def)
  ultimately show ?thesis
    using idle assms(4) unfolding match_order_def Let_def st0_def [symmetric]
    by (simp split: OrderType.split OrderSide.split option.split) blast
qed

lemma match_order_spec:
  assumes "book_ok b" "book_whole b" "order_amounts ord q f" "Order_is_active ord"
    and "hm_get (ob_orders_by_id b) (o_order_id ord) = None"
  shows "\<exists>b' ord' res ns. match_order uid now b ord = Some (b', ord', res) \<and> book_ok b' \<and> book_whole b' \<and>
           ob_symbol b' = ob_symbol b \<and>
           map ex_quantity (mr_executions res) = map whole ns \<and> (\<forall>n\<in>set ns. 0 < n) \<and> sum_list ns \<le> q - f"
proof -
  obtain st es ns I where st: "match_order uid now b ord = Some (finish_match now st)"
    "progress \<lparr> ms_book = b, ms_order = ord, ms_remaining = Order_remaining_quantity ord, ms_result = MatchResult_new \<rparr>
       st (q - f - sum_list ns) es ns I" "I \<subseteq> dom (hm_get (ob_orders_by_id b))"
    using match_loops_progress [OF assms(1-4), of uid now] by blast
  have "hm_get (ob_orders_by_id (ms_book st)) (o_order_id (ms_order st)) = None"
  proof -
    have "o_order_id ord \<notin> I" using st(3) assms(5) by auto
    then show ?thesis using st(2) assms(5) by (simp add: progress_def)
  qed
  with finish_match_ok [of st "q - f - sum_list ns" now] st show ?thesis
    by (auto simp: progress_def loop_inv_def MatchResult_new_def)
qed

text \<open>
  Every match returns and executes no more than the order asked for: for an active order with a new id, of whichever type and
  side, \<^verbatim>\<open>match_order\<close> ends (the market loops included), the executed amounts are positive and
  add up to at most the open quantity, and the book it leaves is consistent.
\<close>

theorem match_order_total:
  assumes "book_ok b" "book_whole b" "order_amounts ord q f" "Order_is_active ord"
    and "hm_get (ob_orders_by_id b) (o_order_id ord) = None"
  shows "\<exists>b' ord' res ns. match_order uid now b ord = Some (b', ord', res) \<and> book_ok b' \<and> book_whole b' \<and>
           map ex_quantity (mr_executions res) = map whole ns \<and> (\<forall>n\<in>set ns. 0 < n) \<and> sum_list ns \<le> q - f"
  using match_order_spec [OF assms, of uid now] by blast

theorem match_order_total_witness:
  "\<exists>b' ord' res. match_order (\<lambda>n. ''u'') 1 sample_book sample_order = Some (b', ord', res) \<and> book_ok b'"
  using match_order_total [OF sample_book_ok sample_book_whole sample_order_amounts sample_order_active sample_order_index,
      of "\<lambda>n. ''u''" 1] by blast

section \<open>Continuous matching\<close>

lemma continuous_stepE:
  assumes "continuous_step uid now (b, res) = Some (b', res')"
  obtains buy sell buys sells bp sp b3 where
    "OrderBook_best_buy_price b = Some bp" "OrderBook_best_sell_price b = Some sp" "f64_le sp bp"
    "OrderBook_get_buy_orders_at_price bp b = buy # buys" "OrderBook_get_sell_orders_at_price sp b = sell # sells"
    "b3 = snd (settle_resting now (f64_min (Order_remaining_quantity buy) (Order_remaining_quantity sell)) buy
            (snd (OrderBook_remove_order (o_order_id sell) (snd (OrderBook_remove_order (o_order_id buy) b)))))"
    "b' = snd (settle_resting now (f64_min (Order_remaining_quantity buy) (Order_remaining_quantity sell)) sell b3)"
  using assms by (auto simp: continuous_step_def Let_def case_prod_beta split: option.splits if_splits list.splits)

lemma continuous_step_shrinks:
  assumes b: "book_ok b" "book_whole b" and step: "continuous_step uid now (b, res) = Some (b', res')"
  shows "book_ok b' \<and> book_whole b' \<and> same_terms b b' \<and> ob_symbol b' = ob_symbol b \<and>
         card (dom (hm_get (ob_orders_by_id b'))) < card (dom (hm_get (ob_orders_by_id b)))"
  using step
proof (rule continuous_stepE)
  fix buy sell buys sells bp sp b3
  assume at: "OrderBook_get_buy_orders_at_price bp b = buy # buys" "OrderBook_get_sell_orders_at_price sp b = sell # sells"
  define m where "m = min (rem_of buy) (rem_of sell)"
  define b2 where "b2 = snd (OrderBook_remove_order (o_order_id sell) (snd (OrderBook_remove_order (o_order_id buy) b)))"
  assume b3: "b3 = snd (settle_resting now (f64_min (Order_remaining_quantity buy) (Order_remaining_quantity sell)) buy
        (snd (OrderBook_remove_order (o_order_id sell) (snd (OrderBook_remove_order (o_order_id buy) b)))))"
    and b': "b' = snd (settle_resting now (f64_min (Order_remaining_quantity buy) (Order_remaining_quantity sell)) sell b3)"
  have r: "rests (ob_orders_by_id b) Buy (price_key bp) buy" "rests (ob_orders_by_id b) Sell (price_key sp) sell"
    using at b(1) unfolding OrderBook_get_buy_orders_at_price_def OrderBook_get_sell_orders_at_price_def book_ok_def side_ok_def
    by (metis list.set_intros(1))+
  then have idx: "hm_get (ob_orders_by_id b) (o_order_id buy) = Some buy" "hm_get (ob_orders_by_id b) (o_order_id sell) = Some sell"
    by (simp_all only: rests_def)
  have ne: "o_order_id buy \<noteq> o_order_id sell"
  proof
    assume "o_order_id buy = o_order_id sell"
    with idx have "buy = sell" by (metis option.inject)
    with r show False by (simp add: rests_def)
  qed
  obtain q f q' f' where am: "order_amounts buy q f" "order_amounts sell q' f'"
    using idx b(2) unfolding book_whole_def by blast
  have rem: "rem_of buy = q - f" "rem_of sell = q' - f'" "0 < m"
    using am by (simp_all add: rem_of_amounts m_def amounts_pos) (simp_all add: order_amounts_def)
  have mq: "f64_min (Order_remaining_quantity buy) (Order_remaining_quantity sell) = whole m"
    using am by (simp add: remaining_rem_of m_def)
  have b2: "book_ok b2" "book_whole b2" "hm_get (ob_orders_by_id b2) = (hm_get (ob_orders_by_id b)) |` (- {o_order_id buy, o_order_id sell})"
    "ob_symbol b2 = ob_symbol b"
    using b unfolding b2_def by (auto simp: book_ok_remove book_whole_def remove_order_index restrict_map_def)
  have se1: "settled b2 buy b3"
    unfolding b3 mq b2_def [symmetric] using b2 am(1) rem book_ok_index [OF b(1) idx(1)]
    by (intro settle_resting_settled) (auto simp: m_def restrict_map_def)
  have se2: "settled b3 sell b'"
    unfolding b' mq using se1 am(2) rem ne b2(3,4) book_ok_index [OF b(1) idx(2)]
    by (intro settle_resting_settled) (auto simp: settled_def m_def restrict_map_def)
  have gone: "hm_get (ob_orders_by_id b') (o_order_id buy) = None \<or> hm_get (ob_orders_by_id b') (o_order_id sell) = None"
  proof (cases "rem_of buy \<le> rem_of sell")
    case True
    then have "m = q - f" using rem(1) by (simp add: m_def)
    then have "b3 = b2" using settle_done [OF am(1), of now b2] unfolding b3 mq b2_def [symmetric] by simp
    then show ?thesis using se2 ne b2(3) by (simp add: settled_def restrict_map_def)
  next
    case False
    then have "m = q' - f'" using rem(2) by (simp add: m_def)
    then have "b' = b3" using settle_done [OF am(2), of now b3] unfolding b' mq by simp
    then show ?thesis using se1 ne b2(3) by (auto simp: settled_def restrict_map_def)
  qed
  have st: "same_terms b b'"
  proof -
    have "same_terms b b2" by (auto simp: same_terms_def b2(3) restrict_map_def split: if_splits)
    then have "same_terms b b3" using se1 idx(1) by (rule settled_terms)
    then show ?thesis using se2 idx(2) by (rule settled_terms)
  qed
  have "dom (hm_get (ob_orders_by_id b')) \<subset> dom (hm_get (ob_orders_by_id b))"
  proof (rule psubsetI)
    show "dom (hm_get (ob_orders_by_id b')) \<subseteq> dom (hm_get (ob_orders_by_id b))"
      using st by (rule same_terms_dom)
    have "o_order_id buy \<in> dom (hm_get (ob_orders_by_id b))" "o_order_id sell \<in> dom (hm_get (ob_orders_by_id b))"
      using idx by (simp_all only: domI)
    with gone show "dom (hm_get (ob_orders_by_id b')) \<noteq> dom (hm_get (ob_orders_by_id b))" by (metis domIff)
  qed
  then have "card (dom (hm_get (ob_orders_by_id b'))) < card (dom (hm_get (ob_orders_by_id b)))"
    by (intro psubset_card_mono) (simp add: finite_dom_map_of)
  with se1 se2 st b2(4) show ?thesis by (simp add: settled_def)
qed

lemma continuous_loop_returns:
  assumes "book_ok b" "book_whole b"
  shows "\<exists>b' res'. continuous_loop uid now (b, res) = Some (b', res') \<and> continuous_step uid now (b', res') = None \<and>
           book_ok b' \<and> book_whole b' \<and> same_terms b b' \<and> ob_symbol b' = ob_symbol b"
  using assms
proof (induction "card (dom (hm_get (ob_orders_by_id b)))" arbitrary: b res rule: less_induct)
  case less
  show ?case
  proof (cases "continuous_step uid now (b, res)")
    case None
    then show ?thesis using less.prems by (intro exI [of _ b] exI [of _ res]) (simp add: continuous_loop.simps)
  next
    case (Some br)
    obtain b1 res1 where br: "br = (b1, res1)" by (cases br)
    note sh = continuous_step_shrinks [OF less.prems Some [unfolded br]]
    then obtain b' res' where "continuous_loop uid now (b1, res1) = Some (b', res')" "continuous_step uid now (b', res') = None"
      "book_ok b'" "book_whole b'" "same_terms b1 b'" "ob_symbol b' = ob_symbol b1" using less.hyps [of b1 res1] by blast
    then show ?thesis
      using sh Some br by (intro exI [of _ b'] exI [of _ res']) (auto simp: continuous_loop.simps [of uid now "(b, res)"] intro: same_terms_trans)
  qed
qed



text \<open>
  The double count: an order of \<open>q\<close> units with \<open>f\<close> already filled that the matcher fills with \<open>m\<close> more
  is booked as \<open>2 f + m\<close>; whenever \<open>f + m < q \<le> 2 f + m\<close> the order is taken for
  completed and leaves the book although \<open>q - f - m\<close> units were never executed.
\<close>

theorem resting_remainder_lost:
  assumes "order_amounts ord q f" "0 < m" "f + m < q" "q \<le> 2 * f + m"
  shows "let (upd, b') = settle_resting now (whole m) ord b
         in o_filled_quantity upd = whole (2 * f + m) \<and> o_status upd = Filled \<and> b' = b"
  using book_fill_remaining [OF assms(1,2)] assms(3,4) by (simp add: settle_resting_def Fin_0_whole Let_def)

theorem resting_remainder_lost_witness:
  "\<exists>ord b. order_amounts ord 8 4 \<and> o_status (fst (settle_resting 1 (whole 3) ord b)) = Filled"
proof -
  define ord where "ord = sample_sell \<lparr> o_quantity := whole 8, o_filled_quantity := whole 4 \<rparr>"
  have am: "order_amounts ord 8 4" by (simp add: order_amounts_def ord_def)
  then show ?thesis using resting_remainder_lost [OF am, of 3 1 sample_book] by (auto simp: case_prod_beta)
qed

text \<open>
  Below the resolution of a key the limit is not respected: a buy order limited to 150 matches a
  resting sell order at 150 + 1/128 (both have the key 15000) and is executed at the
  seller's price, above its limit.
\<close>

theorem limit_price_exceeded:
  "\<exists>b ord e. book_ok b \<and> o_price ord = Some (Fin 150) \<and> o_side ord = Buy \<and>
     mr_executions (ms_result (match_limit_buy_order (\<lambda>n. ''u'') 1 b ord (Fin 150) MatchResult_new)) = [e] \<and>
     ex_price e = Fin (150 + 1 / 128) \<and> f64_lt (Fin 150) (ex_price e)"
proof -
  define sell where "sell = sample_sell \<lparr> o_price := Some (Fin (150 + 1 / 128)) \<rparr>"
  define b where "b = snd (OrderBook_add_order sell (OrderBook_new ''AAPL''))"
  have ok: "book_ok b" unfolding b_def by (intro book_ok_add book_ok_new) (simp add: OrderBook_new_def)
  have "f64_round (480025 / 32) = Fin (480025 / 32)"
    using f64_round_by [of "-39" "480025 / 32" "480025 * 2 ^ 34"] by (simp add: pow2_def)
  moreover have "\<lfloor>480025 / 32 :: rat\<rfloor> = 15000" by (rule floor_unique) simp_all
  ultimately have keys: "price_key (Fin (19201 / 128)) = 15000" "price_key (Fin 150) = 15000"
    by (simp_all add: price_key_def i64_min_def i64_max_def rat_trunc_def)
  have sell: "has_price sell" "order_key sell = 15000" "Order_is_active sell" "o_symbol sell = ''AAPL''" "o_side sell = Sell"
    by (simp_all add: sell_def sample_defs has_price_def order_key_def f64_lt_def Order_is_active_def keys)
  have "OrderBook_get_matching_sell_orders (Fin 150) b = [sell]"
    by (simp add: b_def OrderBook_get_matching_sell_orders_def OrderBook_add_order_def sell keys level_push_def OrderBook_new_def)
  moreover have "Order_remaining_quantity sample_order = whole 10" using remaining_whole [OF sample_order_amounts] by simp
  ultimately have "mr_executions (ms_result (match_limit_buy_order (\<lambda>n. ''u'') 1 b sample_order (Fin 150) MatchResult_new)) =
      [step_execution (\<lambda>n. ''u'') 1 (Fin (150 + 1 / 128)) sell
        \<lparr> ms_book = b, ms_order = sample_order, ms_remaining = whole 10, ms_result = MatchResult_new \<rparr>]"
    by (simp add: match_limit_buy_order_def match_step_simps sample_order_active Fin_0_whole MatchResult_new_def)
      (simp add: sell_def)
  then show ?thesis
    using ok by (intro exI [of _ b] exI [of _ sample_order] exI conjI)
      (auto simp: step_execution_simps f64_lt_def, simp_all add: sample_defs)
qed

end
