(* ===== verification/Engine.thy ===== *)
theory Engine
  imports Matcher "HOL-Library.Multiset"
begin

text \<open>
  The execution engine (\<^verbatim>\<open>trading/src/execution/engine.rs\<close>): one order book per symbol, the
  stored executions and trades, and the notifications it sends to the account actor. A
  handler returns the new state with the list of messages it passes to \<^verbatim>\<open>ctx.tell\<close>, in
  order. \<open>uid\<close> numbers the UUIDs drawn by the handler: the executions of a match take the first ones, its
  trades the next ones. The theorems show that the engine's books stay consistent, that
  executing an order always returns, and that the trades made of a match carry its whole volume.
\<close>

section \<open>State and messages\<close>

record ExecutionNotificationMessage =
  en_execution_id :: string
  en_account_id :: string
  en_order_id :: string
  en_symbol :: string
  en_price :: f64
  en_quantity :: f64
  en_side :: OrderSide
  en_timestamp :: datetime

record TradeNotificationMessage =
  tn_trade_id :: string
  tn_symbol :: string
  tn_price :: f64
  tn_quantity :: f64
  tn_timestamp :: datetime

datatype notification = ExecutionNotification ExecutionNotificationMessage | TradeNotification TradeNotificationMessage

text \<open>The account actor is its path; a message is told to that path.\<close>

record ExecutionEngine =
  ee_node_id :: string
  ee_order_books :: "(string, OrderBook) hashmap"
  ee_executions :: "(string, Execution) hashmap"
  ee_trades :: "(string, Trade) hashmap"
  ee_account_actor :: "string option"

type_synonym tells = "(string \<times> notification) list"

definition ExecutionEngine_new :: "string \<Rightarrow> ExecutionEngine" where
  "ExecutionEngine_new node_id =
     \<lparr> ee_node_id = node_id, ee_order_books = [], ee_executions = [], ee_trades = [], ee_account_actor = None \<rparr>"

definition ExecutionEngine_set_account_actor :: "string \<Rightarrow> ExecutionEngine \<Rightarrow> ExecutionEngine" where
  "ExecutionEngine_set_account_actor a eng = eng \<lparr> ee_account_actor := Some a \<rparr>"

definition get_or_create_order_book :: "string \<Rightarrow> ExecutionEngine \<Rightarrow> OrderBook \<times> ExecutionEngine" where
  "get_or_create_order_book symbol eng =
     (case hm_get (ee_order_books eng) symbol of
        Some b \<Rightarrow> (b, eng)
      | None \<Rightarrow>
          (let b = OrderBook_new symbol
           in (b, eng \<lparr> ee_order_books := hm_insert symbol b (ee_order_books eng) \<rparr>)))"

section \<open>Trades from executions\<close>

definition trade_key :: "Execution \<Rightarrow> string \<times> int" where
  "trade_key e = (ex_symbol e, f64_to_i64 (f64_mul (ex_price e) (Fin 10000)))"

definition push_group ::
    "((string \<times> int), Execution list) hashmap \<Rightarrow> Execution \<Rightarrow> ((string \<times> int), Execution list) hashmap" where
  "push_group groups e =
     hm_insert (trade_key e) ((case hm_get groups (trade_key e) of Some g \<Rightarrow> g | None \<Rightarrow> []) @ [e]) groups"

record parties =
  pt_buy_order_id :: string
  pt_sell_order_id :: string
  pt_buyer_account_id :: string
  pt_seller_account_id :: string
  pt_buy_execution_id :: string
  pt_sell_execution_id :: string

definition note_party :: "parties \<Rightarrow> Execution \<Rightarrow> parties" where
  "note_party pt e =
     (if ex_side e = Buy then
        pt \<lparr> pt_buy_order_id := ex_order_id e, pt_buy_execution_id := ex_execution_id e,
             pt_buyer_account_id := (case ex_buyer_account_id e of Some a \<Rightarrow> a | None \<Rightarrow> pt_buyer_account_id pt) \<rparr>
      else
        pt \<lparr> pt_sell_order_id := ex_order_id e, pt_sell_execution_id := ex_execution_id e,
             pt_seller_account_id := (case ex_seller_account_id e of Some a \<Rightarrow> a | None \<Rightarrow> pt_seller_account_id pt) \<rparr>)"

definition no_parties :: parties where
  "no_parties = \<lparr> pt_buy_order_id = [], pt_sell_order_id = [], pt_buyer_account_id = [], pt_seller_account_id = [],
     pt_buy_execution_id = [], pt_sell_execution_id = [] \<rparr>"

definition trade_of_group :: "string \<Rightarrow> datetime \<Rightarrow> (string \<times> int) \<times> Execution list \<Rightarrow> Trade" where
  "trade_of_group uid now kg =
     (case kg of ((symbol, key), grp) \<Rightarrow>
        (let total_quantity = f64_sum (map ex_quantity grp);
             actual_price = f64_div (f64_of_int key) (Fin 10000);
             pt = foldl note_party no_parties grp
         in Trade_new uid now symbol actual_price total_quantity (pt_buy_order_id pt) (pt_sell_order_id pt)
              (pt_buyer_account_id pt) (pt_seller_account_id pt) (pt_buy_execution_id pt) (pt_sell_execution_id pt)))"

definition create_trade_from_executions :: "(nat \<Rightarrow> string) \<Rightarrow> datetime \<Rightarrow> Execution list \<Rightarrow> Trade list" where
  "create_trade_from_executions uid now es =
     (let groups = foldl push_group [] es
      in map (\<lambda>(i, kg). trade_of_group (uid i) now kg) (enumerate 0 groups))"

section \<open>Handling a match\<close>

definition execution_tells :: "string option \<Rightarrow> Execution \<Rightarrow> tells" where
  "execution_tells account e =
     (let note = (\<lambda>acc side. ExecutionNotification
            \<lparr> en_execution_id = ex_execution_id e, en_account_id = acc, en_order_id = ex_order_id e,
              en_symbol = ex_symbol e, en_price = ex_price e, en_quantity = ex_quantity e,
              en_side = side, en_timestamp = ex_executed_at e \<rparr>);
          send = (\<lambda>who side. case (who, account) of (Some acc, Some a) \<Rightarrow> [(a, note acc side)] | _ \<Rightarrow> [])
      in send (ex_buyer_account_id e) Buy @ send (ex_seller_account_id e) Sell)"

definition trade_tells :: "string option \<Rightarrow> Trade \<Rightarrow> tells" where
  "trade_tells account t =
     (case account of
        None \<Rightarrow> []
      | Some a \<Rightarrow> [(a, TradeNotification \<lparr> tn_trade_id = t_trade_id t, tn_symbol = t_symbol t, tn_price = t_price t,
                        tn_quantity = t_quantity t, tn_timestamp = t_traded_at t \<rparr>)])"

definition process_match_result ::
    "(nat \<Rightarrow> string) \<Rightarrow> datetime \<Rightarrow> MatchResult \<Rightarrow> ExecutionEngine \<Rightarrow> bool \<times> ExecutionEngine \<times> tells" where
  "process_match_result uid now result eng =
     (if \<not> MatchResult_has_matches result then (False, eng, [])
      else
        let es = mr_executions result;
            trades = create_trade_from_executions uid now es;
            eng' = eng \<lparr> ee_executions := foldl (\<lambda>m e. hm_insert (ex_execution_id e) e m) (ee_executions eng) es,
                         ee_trades := foldl (\<lambda>m t. hm_insert (t_trade_id t) t m) (ee_trades eng) trades \<rparr>
        in (True, eng',
            concat (map (execution_tells (ee_account_actor eng)) es) @
            concat (map (trade_tells (ee_account_actor eng)) trades)))"

text \<open>The UUIDs a processed match has drawn: its executions and its trades.\<close>

definition drawn :: "MatchResult \<Rightarrow> nat" where
  "drawn r = length (mr_executions r) + length (foldl push_group [] (mr_executions r))"

definition execute_order ::
    "(nat \<Rightarrow> string) \<Rightarrow> datetime \<Rightarrow> Order \<Rightarrow> ExecutionEngine \<Rightarrow>
     (MatchResult \<times> Order \<times> ExecutionEngine \<times> tells) option" where
  "execute_order uid now ord eng =
     (let symbol = o_symbol ord; (b, eng1) = get_or_create_order_book symbol eng
      in do {
           (b1, ord', r1) \<leftarrow> match_order uid now b ord;
           let eng2 = eng1 \<lparr> ee_order_books := hm_insert symbol b1 (ee_order_books eng1) \<rparr>;
           let (_, eng3, tells1) = process_match_result (\<lambda>n. uid (n + length (mr_executions r1))) now r1 eng2;
           let (b2, eng4) = get_or_create_order_book symbol eng3;
           (b3, r2) \<leftarrow> continuous_match (\<lambda>n. uid (n + drawn r1)) now b2;
           let eng5 = eng4 \<lparr> ee_order_books := hm_insert symbol b3 (ee_order_books eng4) \<rparr>;
           if MatchResult_has_matches r2 then do {
             let (_, eng6, tells2) =
               process_match_result (\<lambda>n. uid (n + drawn r1 + length (mr_executions r2))) now r2 eng5;
             Some (MatchResult_merge r1 r2, ord', eng6, tells1 @ tells2)
           }
           else Some (r1, ord', eng5, tells1)
         })"

text \<open>The handler of \<^verbatim>\<open>ExecuteOrderMessage\<close>; those of the two notifications only log.\<close>

definition handle_ExecuteOrderMessage ::
    "(nat \<Rightarrow> string) \<Rightarrow> datetime \<Rightarrow> Order \<Rightarrow> ExecutionEngine \<Rightarrow> (MatchResult \<times> ExecutionEngine \<times> tells) option" where
  "handle_ExecuteOrderMessage uid now ord eng =
     map_option (\<lambda>(r, ord', eng', tells). (r, eng', tells)) (execute_order uid now ord eng)"

section \<open>Trades carry the volume of their executions\<close>

definition exec_amount :: "Execution \<Rightarrow> int" where
  "exec_amount e = (case ex_quantity e of Fin x \<Rightarrow> \<lfloor>x\<rfloor> | _ \<Rightarrow> 0)"

definition exec_whole :: "Execution \<Rightarrow> bool" where
  "exec_whole e \<longleftrightarrow> ex_quantity e = whole (exec_amount e) \<and> 0 \<le> exec_amount e"

lemma exec_wholeI: "ex_quantity e = whole n \<Longrightarrow> 0 \<le> n \<Longrightarrow> exec_whole e \<and> exec_amount e = n"
  by (simp add: exec_whole_def exec_amount_def whole_def)

lemma f64_sum_whole_from:
  "\<forall>n\<in>set ns. 0 \<le> n \<Longrightarrow> 0 \<le> a \<Longrightarrow> a + sum_list ns \<le> 2 ^ 53 \<Longrightarrow> foldl f64_add (whole a) (map whole ns) = whole (a + sum_list ns)"
proof (induction ns arbitrary: a)
  case (Cons n ns)
  have "0 \<le> sum_list ns" using Cons.prems by (intro sum_list_nonneg) auto
  then have "f64_add (whole a) (whole n) = whole (a + n)" using Cons.prems by (intro whole_add) auto
  then show ?case using Cons by (simp add: add.assoc)
qed simp

lemma f64_sum_whole: "\<forall>n\<in>set ns. 0 \<le> n \<Longrightarrow> sum_list ns \<le> 2 ^ 53 \<Longrightarrow> f64_sum (map whole ns) = whole (sum_list ns)"
  using f64_sum_whole_from [of ns 0] by (simp add: f64_sum_def Fin_0_whole)

lemma concat_snd_insert:
  "hm_ok m \<Longrightarrow>
   mset (concat (map snd (hm_insert k (v @ [e]) m))) + mset (case hm_get m k of Some g \<Rightarrow> g | None \<Rightarrow> []) =
   mset (concat (map snd m)) + mset v + {#e#}"
  by (induction m) (auto simp: hm_ok_def ac_simps split: option.splits)

lemma groups_mset:
  "hm_ok m \<Longrightarrow> hm_ok (foldl push_group m es) \<and>
     mset (concat (map snd (foldl push_group m es))) = mset (concat (map snd m)) + mset es"
proof (induction es arbitrary: m)
  case (Cons e es)
  let ?g = "case hm_get m (trade_key e) of Some g \<Rightarrow> g | None \<Rightarrow> []"
  have "mset (concat (map snd (push_group m e))) + mset ?g = mset (concat (map snd m)) + mset ?g + {#e#}"
    unfolding push_group_def using concat_snd_insert [OF Cons.prems] .
  then have "mset (concat (map snd (push_group m e))) = mset (concat (map snd m)) + {#e#}" by simp
  then show ?case using Cons by (simp add: push_group_def)
qed simp

lemma sum_list_le_member: "x \<in> set xs \<Longrightarrow> \<forall>x\<in>set xs. 0 \<le> (f x :: int) \<Longrightarrow> f x \<le> sum_list (map f xs)"
  by (rule member_le_sum_list) auto

lemma trades_conv:
  "create_trade_from_executions uid now es =
     (let gs = foldl push_group [] es in map (\<lambda>i. trade_of_group (uid i) now (gs ! i)) [0..<length gs])"
  by (auto simp: create_trade_from_executions_def Let_def case_prod_beta nth_enumerate_eq intro!: nth_equalityI)


definition sample_execution :: Execution where
  "sample_execution = create_execution_record ''e1'' 1 sample_order sample_sell (Fin 150) (whole 4)"


lemma note_party_buy_only:
  "\<forall>e\<in>set es. ex_side e = Buy \<Longrightarrow> pt_seller_account_id (foldl note_party pt es) = pt_seller_account_id pt \<and>
     pt_sell_order_id (foldl note_party pt es) = pt_sell_order_id pt"
  by (induction es arbitrary: pt) (auto simp: note_party_def)

lemma buy_record: "ex_side (create_execution_record u now bo so p q) = Buy"
  by (simp add: create_execution_record_def)

text \<open>
  A trade never names its seller: every execution record the matcher creates has side Buy, so the trades built from
  them have an empty seller account and an empty sell order id, although the executions know both.
\<close>

theorem trades_lose_seller:
  assumes "\<forall>e\<in>set es. \<exists>u now bo so p q. e = create_execution_record u now bo so p q"
    and "t \<in> set (create_trade_from_executions uid now es)"
  shows "t_seller_account_id t = [] \<and> t_sell_order_id t = []"
proof -
  define gs where "gs = foldl push_group [] es"
  obtain i where "i < length gs" "t = trade_of_group (uid i) now (gs ! i)"
    using assms(2) unfolding trades_conv gs_def [symmetric] Let_def by auto
  then obtain u g where g: "g \<in> set gs" "t = trade_of_group u now g" using nth_mem by blast
  have "mset (concat (map snd gs)) = mset es" using groups_mset [of "[]" es] by (simp add: gs_def)
  then have "set (concat (map snd gs)) = set es" by (metis set_mset_mset)
  then have "\<forall>e\<in>set (snd g). e \<in> set es" using g(1) by auto
  then have "\<forall>e\<in>set (snd g). ex_side e = Buy" using assms(1) buy_record by metis
  then show ?thesis
    using note_party_buy_only [of "snd g" no_parties] g(2)
    by (simp add: trade_of_group_def case_prod_beta Let_def Trade_new_def no_parties_def)
qed

theorem trades_lose_seller_witness:
  "t_seller_account_id (hd (create_trade_from_executions (\<lambda>n. ''t'') 1 [sample_execution])) = []"
proof -
  have "create_trade_from_executions (\<lambda>n. ''t'') 1 [sample_execution] \<noteq> []"
    by (simp add: create_trade_from_executions_def push_group_def)
  moreover have "\<forall>e\<in>set [sample_execution]. \<exists>u now bo so p q. e = create_execution_record u now bo so p q"
    using sample_execution_def by (metis empty_iff empty_set set_ConsD)
  ultimately show ?thesis using trades_lose_seller hd_in_set by blast
qed

section \<open>The engine invariant\<close>

definition engine_ok :: "ExecutionEngine \<Rightarrow> bool" where
  "engine_ok eng \<longleftrightarrow>
     (\<forall>s b. hm_get (ee_order_books eng) s = Some b \<longrightarrow> ob_symbol b = s \<and> book_ok b \<and> book_whole b)"

lemma process_match_books [simp]:
  "ee_order_books (fst (snd (process_match_result uid now r eng))) = ee_order_books eng"
  by (simp add: process_match_result_def Let_def)

lemma book_whole_new: "book_whole (OrderBook_new s)" and symbol_new [simp]: "ob_symbol (OrderBook_new s) = s"
  by (simp_all add: book_whole_def OrderBook_new_def)

lemma get_or_create_ok:
  assumes "engine_ok eng" "get_or_create_order_book s eng = (b, eng')"
  shows "engine_ok eng'" and "ob_symbol b = s" and "book_ok b" and "book_whole b"
    and "hm_get (ee_order_books eng') s = Some b"
    and "hm_get (ob_orders_by_id b) i = (case hm_get (ee_order_books eng) s of Some b \<Rightarrow> hm_get (ob_orders_by_id b) i | None \<Rightarrow> None)"
  using assms book_ok_new [of s] book_whole_new [of s]
  by (auto simp: engine_ok_def get_or_create_order_book_def Let_def split: option.splits if_splits)
    (simp_all add: OrderBook_new_def)

lemma engine_ok_insert:
  "engine_ok eng \<Longrightarrow> book_ok b \<Longrightarrow> book_whole b \<Longrightarrow> ob_symbol b = s \<Longrightarrow>
   engine_ok (eng \<lparr> ee_order_books := hm_insert s b (ee_order_books eng) \<rparr>)"
  by (auto simp: engine_ok_def)

lemma engine_ok_process: "engine_ok eng \<Longrightarrow> engine_ok (fst (snd (process_match_result uid now r eng)))"
  by (simp add: engine_ok_def)

lemma continuous_match_spec:
  assumes "book_ok b" "book_whole b"
  shows "\<exists>b' res. continuous_match uid now b = Some (b', res) \<and> book_ok b' \<and> book_whole b' \<and> ob_symbol b' = ob_symbol b"
  using continuous_loop_returns [OF assms, of uid now MatchResult_new] by (auto simp: continuous_match_def)

text \<open>
  C15. Executing an order always returns and keeps the engine consistent: for an active order with whole amounts, whose id no
  resting order of its symbol has, both the match and the continuous match that follows end, every book of the
  engine stays filed under its symbol and consistent, and the books of other symbols are not touched.
\<close>

theorem execute_order_total:
  assumes "engine_ok eng" "order_amounts ord q f" "Order_is_active ord"
    and "\<And>b. hm_get (ee_order_books eng) (o_symbol ord) = Some b \<Longrightarrow> hm_get (ob_orders_by_id b) (o_order_id ord) = None"
  shows "\<exists>r ord' eng' tells. execute_order uid now ord eng = Some (r, ord', eng', tells) \<and> engine_ok eng' \<and>
           (\<forall>s. s \<noteq> o_symbol ord \<longrightarrow> hm_get (ee_order_books eng') s = hm_get (ee_order_books eng) s)"
proof -
  obtain b eng1 where g1: "get_or_create_order_book (o_symbol ord) eng = (b, eng1)" by (cases "get_or_create_order_book (o_symbol ord) eng")
  note b = get_or_create_ok [OF assms(1) g1]
  have fresh: "hm_get (ob_orders_by_id b) (o_order_id ord) = None"
    using b(6) assms(4) by (auto split: option.splits)
  obtain b1 ord' r1 where m1: "match_order uid now b ord = Some (b1, ord', r1)" "book_ok b1" "book_whole b1" "ob_symbol b1 = ob_symbol b"
    using match_order_spec [OF b(3,4) assms(2,3) fresh, of uid now] by blast
  define eng2 where "eng2 = eng1 \<lparr> ee_order_books := hm_insert (o_symbol ord) b1 (ee_order_books eng1) \<rparr>"
  define p1 where "p1 = process_match_result (\<lambda>n. uid (n + length (mr_executions r1))) now r1 eng2"
  have ok3: "engine_ok (fst (snd p1))"
    unfolding p1_def eng2_def using b m1 by (intro engine_ok_process engine_ok_insert) auto
  obtain b2 eng4 where g2: "get_or_create_order_book (o_symbol ord) (fst (snd p1)) = (b2, eng4)"
    by (cases "get_or_create_order_book (o_symbol ord) (fst (snd p1))")
  note b2 = get_or_create_ok [OF ok3 g2]
  obtain b3 r2 where m2: "continuous_match (\<lambda>n. uid (n + drawn r1)) now b2 = Some (b3, r2)" "book_ok b3" "book_whole b3" "ob_symbol b3 = ob_symbol b2"
    using continuous_match_spec [OF b2(3,4)] by blast
  define eng5 where "eng5 = eng4 \<lparr> ee_order_books := hm_insert (o_symbol ord) b3 (ee_order_books eng4) \<rparr>"
  define p2 where "p2 = process_match_result (\<lambda>n. uid (n + drawn r1 + length (mr_executions r2))) now r2 eng5"
  have ok5: "engine_ok eng5" unfolding eng5_def using b2 m2 by (intro engine_ok_insert) auto
  have oth: "hm_get (ee_order_books eng5) s = hm_get (ee_order_books eng) s" if "s \<noteq> o_symbol ord" for s
    using that g1 g2 by (auto simp: eng5_def eng2_def p1_def get_or_create_order_book_def Let_def split: option.splits)
  have eq: "execute_order uid now ord eng =
      (if MatchResult_has_matches r2 then Some (MatchResult_merge r1 r2, ord', fst (snd p2), snd (snd p1) @ snd (snd p2))
       else Some (r1, ord', eng5, snd (snd p1)))"
    by (simp add: execute_order_def Let_def g1 m1(1) case_prod_beta eng2_def [symmetric] p1_def [symmetric] g2 m2(1)
        eng5_def [symmetric] p2_def [symmetric])
  show ?thesis
    using ok5 engine_ok_process [OF ok5] oth unfolding eq p2_def by auto
qed

theorem execute_order_total_witness:
  "\<exists>r ord' eng' tells. execute_order (\<lambda>n. ''u'') 1 sample_order (ExecutionEngine_new ''n1'') = Some (r, ord', eng', tells) \<and>
     engine_ok eng'"
proof -
  have "engine_ok (ExecutionEngine_new ''n1'')" by (simp add: engine_ok_def ExecutionEngine_new_def)
  then show ?thesis
    using execute_order_total [OF _ sample_order_amounts sample_order_active, of "ExecutionEngine_new ''n1''" "\<lambda>n. ''u''" 1]
    by (auto simp: ExecutionEngine_new_def)
qed

end
