(* ===== verification/Risk.thy ===== *)
theory Risk
  imports Models
begin

text \<open>
  The risk manager (\<^verbatim>\<open>trading/src/risk/manager.rs\<close>). A rejection carries the numbers that the
  source formats into its message, one constructor per message. \<open>check_risk_on\<close> is the
  check for a given answer of the account lookup; \<open>RiskManager_check_risk\<close> calls it with the
  stand-in account that \<^verbatim>\<open>get_account\<close> makes up. The theorems give the exact condition of
  an approval, in the order in which the source tests it, and what the stand-in account
  does to it.
\<close>

record RiskCheckRequest =
  rc_order :: OrderRequest
  rc_account_id :: string

datatype risk_reason =
    NoPrice string
  | OrderValueExceeds f64 f64
  | AccountNotFound string
  | InsufficientPosition string f64 u64
  | NoPosition string
  | InsufficientFunds f64 f64
  | PositionValueExceeds f64 f64

datatype RiskCheckResult = RiskApproved | RiskRejected risk_reason

record UpdateRiskConfigMessage =
  uc_max_order_value :: "f64 option"
  uc_max_position_value :: "f64 option"
  uc_allow_short_selling :: "bool option"

record RiskConfig =
  rk_max_order_value :: f64
  rk_max_position_value :: f64
  rk_allow_short_selling :: bool
  rk_updated_at :: datetime

definition RiskConfig_default :: "datetime \<Rightarrow> RiskConfig" where
  "RiskConfig_default now =
     \<lparr> rk_max_order_value = Fin 1000000, rk_max_position_value = Fin 10000000,
       rk_allow_short_selling = False, rk_updated_at = now \<rparr>"

record RiskManager =
  rm_node_id :: string
  rm_config :: RiskConfig
  rm_price_cache :: "(string, f64) hashmap"
  rm_account_actor :: "string option"

definition RiskManager_new :: "datetime \<Rightarrow> string \<Rightarrow> RiskManager" where
  "RiskManager_new now node_id =
     \<lparr> rm_node_id = node_id, rm_config = RiskConfig_default now, rm_price_cache = [], rm_account_actor = None \<rparr>"

definition RiskManager_set_account_actor :: "string \<Rightarrow> RiskManager \<Rightarrow> RiskManager" where
  "RiskManager_set_account_actor a rm = rm \<lparr> rm_account_actor := Some a \<rparr>"

definition RiskManager_update_config :: "datetime \<Rightarrow> UpdateRiskConfigMessage \<Rightarrow> RiskManager \<Rightarrow> RiskManager" where
  "RiskManager_update_config now u rm =
     (let c = rm_config rm
      in rm \<lparr> rm_config :=
           \<lparr> rk_max_order_value = (case uc_max_order_value u of Some v \<Rightarrow> v | None \<Rightarrow> rk_max_order_value c),
             rk_max_position_value = (case uc_max_position_value u of Some v \<Rightarrow> v | None \<Rightarrow> rk_max_position_value c),
             rk_allow_short_selling = (case uc_allow_short_selling u of Some v \<Rightarrow> v | None \<Rightarrow> rk_allow_short_selling c),
             rk_updated_at = now \<rparr> \<rparr>)"

definition RiskManager_update_price :: "string \<Rightarrow> f64 \<Rightarrow> RiskManager \<Rightarrow> RiskManager" where
  "RiskManager_update_price symbol price rm = rm \<lparr> rm_price_cache := hm_insert symbol price (rm_price_cache rm) \<rparr>"

definition RiskManager_get_price :: "RiskManager \<Rightarrow> string \<Rightarrow> f64 option" where
  "RiskManager_get_price rm symbol = hm_get (rm_price_cache rm) symbol"

definition get_price_for_order :: "RiskManager \<Rightarrow> OrderRequest \<Rightarrow> f64 option" where
  "get_price_for_order rm ord =
     (case rq_price ord of Some price \<Rightarrow> Some price | None \<Rightarrow> RiskManager_get_price rm (rq_symbol ord))"

text \<open>\<^verbatim>\<open>order.quantity as f64\<close>.\<close>

abbreviation rq_amount :: "OrderRequest \<Rightarrow> f64" where
  "rq_amount ord \<equiv> f64_of_int (uint (rq_quantity ord))"

text \<open>The tests that depend on the account, for sell orders and for buy orders.\<close>

definition check_sell :: "RiskManager \<Rightarrow> OrderRequest \<Rightarrow> Account \<Rightarrow> risk_reason option" where
  "check_sell rm ord acc =
     (case hm_get (a_positions acc) (rq_symbol ord) of
        Some pos \<Rightarrow>
          (if f64_lt (Position_available pos) (rq_amount ord)
           then Some (InsufficientPosition (rq_symbol ord) (Position_available pos) (rq_quantity ord)) else None)
      | None \<Rightarrow> if \<not> rk_allow_short_selling (rm_config rm) then Some (NoPosition (rq_symbol ord)) else None)"

definition check_buy :: "RiskManager \<Rightarrow> OrderRequest \<Rightarrow> f64 \<Rightarrow> f64 \<Rightarrow> Account \<Rightarrow> risk_reason option" where
  "check_buy rm ord price order_value acc =
     (if f64_lt (a_available acc) order_value then Some (InsufficientFunds (a_available acc) order_value)
      else
        let current = (case hm_get (a_positions acc) (rq_symbol ord) of Some p \<Rightarrow> Position_value p price | None \<Rightarrow> Fin 0);
            total = f64_add current order_value
        in if f64_lt (rk_max_position_value (rm_config rm)) total
           then Some (PositionValueExceeds total (rk_max_position_value (rm_config rm))) else None)"

definition check_risk_on :: "RiskManager \<Rightarrow> RiskCheckRequest \<Rightarrow> Account option \<Rightarrow> RiskCheckResult" where
  "check_risk_on rm req account =
     (let ord = rc_order req
      in case get_price_for_order rm ord of
           None \<Rightarrow> RiskRejected (NoPrice (rq_symbol ord))
         | Some price \<Rightarrow>
             (let order_value = f64_mul price (rq_amount ord)
              in if f64_lt (rk_max_order_value (rm_config rm)) order_value
                 then RiskRejected (OrderValueExceeds order_value (rk_max_order_value (rm_config rm)))
                 else case account of
                        None \<Rightarrow> RiskRejected (AccountNotFound (rc_account_id req))
                      | Some acc \<Rightarrow>
                          (case (case rq_side ord of Sell \<Rightarrow> check_sell rm ord acc
                                 | Buy \<Rightarrow> check_buy rm ord price order_value acc) of
                             Some reason \<Rightarrow> RiskRejected reason
                           | None \<Rightarrow> RiskApproved)))"

definition RiskManager_get_account :: "datetime \<Rightarrow> string \<Rightarrow> Account option" where
  "RiskManager_get_account now account_id =
     Some (Account_new now account_id (''Account '' @ account_id) (Fin 1000000))"

definition RiskManager_check_risk :: "datetime \<Rightarrow> RiskManager \<Rightarrow> RiskCheckRequest \<Rightarrow> RiskCheckResult" where
  "RiskManager_check_risk now rm req = check_risk_on rm req (RiskManager_get_account now (rc_account_id req))"

section \<open>What an approval means\<close>


definition sample_manager :: RiskManager where
  "sample_manager = RiskManager_new 0 ''n1''"


text \<open>
  The account that decides is a stand-in: whatever the real account holds, a sell order within the value limit is approved exactly when
  short selling is allowed, and a buy order is measured against one million.
\<close>

theorem risk_ignores_account:
  assumes "get_price_for_order rm (rc_order req) = Some price"
    and "\<not> f64_lt (rk_max_order_value (rm_config rm)) (f64_mul price (rq_amount (rc_order req)))"
  shows "RiskManager_check_risk now rm req =
           (case rq_side (rc_order req) of
              Sell \<Rightarrow> if rk_allow_short_selling (rm_config rm) then RiskApproved else RiskRejected (NoPosition (rq_symbol (rc_order req)))
            | Buy \<Rightarrow>
                (let v = f64_mul price (rq_amount (rc_order req))
                 in if f64_lt (Fin 1000000) v then RiskRejected (InsufficientFunds (Fin 1000000) v)
                    else if f64_lt (rk_max_position_value (rm_config rm)) (f64_add (Fin 0) v)
                    then RiskRejected (PositionValueExceeds (f64_add (Fin 0) v) (rk_max_position_value (rm_config rm)))
                    else RiskApproved))"
  using assms by (simp add: RiskManager_check_risk_def RiskManager_get_account_def check_risk_on_def check_sell_def
      check_buy_def Account_new_def Let_def split: OrderSide.split)

theorem risk_ignores_account_witness:
  "RiskManager_check_risk 0 sample_manager \<lparr> rc_order = sample_request \<lparr> rq_side := Sell \<rparr>, rc_account_id = ''a1'' \<rparr> =
     RiskRejected (NoPosition ''AAPL'')"
  using risk_ignores_account [of sample_manager "\<lparr> rc_order = sample_request \<lparr> rq_side := Sell \<rparr>, rc_account_id = ''a1'' \<rparr>" "Fin 150" 0]
  by (simp add: sample_manager_def RiskManager_new_def RiskConfig_default_def sample_request_def get_price_for_order_def
      f64_of_int_def f64_lt_def)

end
