(* ===== verification/Trading_Actors.thy ===== *)
theory Trading_Actors
  imports Engine Risk
begin

text \<open>
  The order actor and the account actor (\<^verbatim>\<open>trading/src/actor/{order,account}.rs\<close>). Their
  locked maps are plain maps: a handler runs to completion on one state. A handler returns its
  answer and the new state; \<^verbatim>\<open>ctx.ask\<close> and \<^verbatim>\<open>ctx.tell\<close> are the stubs of
  \<^verbatim>\<open>actor/mod.rs\<close>, which deliver nothing, so a request to the execution engine appears as
  a message in the list of asks. The theorems fix who can cancel what and when, what a query
  sees, and that the fund transfers of the account actor are the operations of \<open>Account\<close>.
\<close>

section \<open>The order actor\<close>

record OrderActor =
  oa_node_id :: string
  oa_orders :: "(string, Order) hashmap"
  oa_execution_engine :: "string option"
  oa_risk_manager :: "string option"

definition OrderActor_new :: "string \<Rightarrow> OrderActor" where
  "OrderActor_new node_id =
     \<lparr> oa_node_id = node_id, oa_orders = [], oa_execution_engine = None, oa_risk_manager = None \<rparr>"

definition OrderActor_set_execution_engine :: "string \<Rightarrow> OrderActor \<Rightarrow> OrderActor" where
  "OrderActor_set_execution_engine e oa = oa \<lparr> oa_execution_engine := Some e \<rparr>"

definition OrderActor_set_risk_manager :: "string \<Rightarrow> OrderActor \<Rightarrow> OrderActor" where
  "OrderActor_set_risk_manager r oa = oa \<lparr> oa_risk_manager := Some r \<rparr>"

definition store_order :: "Order \<Rightarrow> OrderActor \<Rightarrow> OrderActor" where
  "store_order ord oa = oa \<lparr> oa_orders := hm_insert (o_order_id ord) ord (oa_orders oa) \<rparr>"

fun query_orders :: "OrderQuery \<Rightarrow> OrderActor \<Rightarrow> Order list" where
  "query_orders (ById i) oa = (case hm_get (oa_orders oa) i of Some ord \<Rightarrow> [ord] | None \<Rightarrow> [])"
| "query_orders (ByAccount a) oa = filter (\<lambda>o'. o_account_id o' = a) (hm_values (oa_orders oa))"
| "query_orders (BySymbol s) oa = filter (\<lambda>o'. o_symbol o' = s) (hm_values (oa_orders oa))"
| "query_orders (ByStatus st) oa = filter (\<lambda>o'. o_status o' = st) (hm_values (oa_orders oa))"
| "query_orders AllOrders oa = hm_values (oa_orders oa)"

fun status_name :: "OrderStatus \<Rightarrow> string" where
  "status_name New = ''New''"
| "status_name Accepted = ''Accepted''"
| "status_name PartiallyFilled = ''PartiallyFilled''"
| "status_name Filled = ''Filled''"
| "status_name Cancelled = ''Cancelled''"
| "status_name Rejected = ''Rejected''"
| "status_name Expired = ''Expired''"

definition cancel_order :: "datetime \<Rightarrow> string \<Rightarrow> string \<Rightarrow> OrderActor \<Rightarrow> OrderResult \<times> OrderActor" where
  "cancel_order now order_id client_id oa =
     (case hm_get (oa_orders oa) order_id of
        Some ord \<Rightarrow>
          (if o_account_id ord \<noteq> client_id
           then (OrderRejected (''Order '' @ order_id @ '' does not belong to account '' @ client_id), oa)
           else if \<not> Order_can_cancel ord
           then (OrderRejected (''Order '' @ order_id @ '' cannot be cancelled, status: '' @ status_name (o_status ord)), oa)
           else (OrderAccepted order_id,
                 oa \<lparr> oa_orders := hm_insert order_id (Order_update_status now Cancelled ord) (oa_orders oa) \<rparr>))
      | None \<Rightarrow> (OrderRejected (''Order '' @ order_id @ '' not found''), oa))"

definition perform_risk_check :: "OrderActor \<Rightarrow> OrderRequest \<Rightarrow> bool" where
  "perform_risk_check oa ord = (case oa_risk_manager oa of Some r \<Rightarrow> True | None \<Rightarrow> True)"

text \<open>Two UUIDs are drawn when the request has no id: \<open>uid 0\<close> for the answer, \<open>uid 1\<close> for the order itself.\<close>

definition create_and_execute_order ::
    "(nat \<Rightarrow> string) \<Rightarrow> datetime \<Rightarrow> OrderRequest \<Rightarrow> OrderActor \<Rightarrow> OrderResult \<times> OrderActor \<times> (string \<times> Order) list" where
  "create_and_execute_order uid now request oa =
     (let order_id = (case rq_order_id request of Some i \<Rightarrow> i | None \<Rightarrow> uid 0);
          ord = Order_from_request (uid 1) now request;
          oa' = store_order ord oa;
          asks = (case oa_execution_engine oa of Some engine \<Rightarrow> [(engine, ord)] | None \<Rightarrow> [])
      in (OrderAccepted order_id, oa', asks))"

definition handle_CreateOrderMessage ::
    "(nat \<Rightarrow> string) \<Rightarrow> datetime \<Rightarrow> OrderRequest \<Rightarrow> OrderActor \<Rightarrow> OrderResult \<times> OrderActor \<times> (string \<times> Order) list" where
  "handle_CreateOrderMessage uid now request oa =
     (if \<not> perform_risk_check oa request then (OrderRejected ''Risk check failed'', oa, [])
      else create_and_execute_order uid now request oa)"

definition handle_CancelOrderMessage :: "datetime \<Rightarrow> CancelOrderRequest \<Rightarrow> OrderActor \<Rightarrow> OrderResult \<times> OrderActor" where
  "handle_CancelOrderMessage now request oa = cancel_order now (cq_order_id request) (cq_client_id request) oa"

section \<open>The account actor\<close>

record AccountActor =
  aa_node_id :: string
  aa_accounts :: "(string, Account) hashmap"

datatype account_reply = ReplyAccount Account | ReplyAccounts "Account list" | ReplyError string

definition AccountActor_new :: "string \<Rightarrow> AccountActor" where
  "AccountActor_new node_id = \<lparr> aa_node_id = node_id, aa_accounts = [] \<rparr>"

definition AccountActor_get_account :: "AccountActor \<Rightarrow> string \<Rightarrow> Account option" where
  "AccountActor_get_account aa i = hm_get (aa_accounts aa) i"

definition store_account :: "Account \<Rightarrow> AccountActor \<Rightarrow> AccountActor" where
  "store_account acc aa = aa \<lparr> aa_accounts := hm_insert (a_id acc) acc (aa_accounts aa) \<rparr>"

definition create_account :: "string \<Rightarrow> datetime \<Rightarrow> string option \<Rightarrow> string \<Rightarrow> f64 \<Rightarrow> AccountActor \<Rightarrow> Account \<times> AccountActor" where
  "create_account uid now account_id name initial_balance aa =
     (let acc = \<lparr> a_id = (case account_id of Some i \<Rightarrow> i | None \<Rightarrow> uid), a_name = name,
                  a_balance = initial_balance, a_available = initial_balance, a_frozen = Fin 0,
                  a_positions = [], a_created_at = now, a_updated_at = now \<rparr>
      in (acc, store_account acc aa))"

definition update_account :: "datetime \<Rightarrow> string \<Rightarrow> string option \<Rightarrow> AccountActor \<Rightarrow> account_reply \<times> AccountActor" where
  "update_account now account_id name aa =
     (case AccountActor_get_account aa account_id of
        None \<Rightarrow> (ReplyError ''Account not found'', aa)
      | Some acc0 \<Rightarrow>
          (let acc1 = (case name of Some n \<Rightarrow> acc0 \<lparr> a_name := n \<rparr> | None \<Rightarrow> acc0);
               acc = acc1 \<lparr> a_updated_at := now \<rparr>
           in (ReplyAccount acc, store_account acc aa)))"

definition apply_transfer :: "string \<Rightarrow> f64 \<Rightarrow> Account \<Rightarrow> string + Account" where
  "apply_transfer transfer_type amount acc =
     (if transfer_type = ''DEPOSIT'' then
        Inr (acc \<lparr> a_balance := f64_add (a_balance acc) amount, a_available := f64_add (a_available acc) amount \<rparr>)
      else if transfer_type = ''WITHDRAW'' then
        (if f64_lt (a_available acc) amount then Inl ''Insufficient available funds''
         else Inr (acc \<lparr> a_balance := f64_sub (a_balance acc) amount, a_available := f64_sub (a_available acc) amount \<rparr>))
      else if transfer_type = ''FREEZE'' then
        (if f64_lt (a_available acc) amount then Inl ''Insufficient available funds to freeze''
         else Inr (acc \<lparr> a_available := f64_sub (a_available acc) amount, a_frozen := f64_add (a_frozen acc) amount \<rparr>))
      else if transfer_type = ''UNFREEZE'' then
        (if f64_lt (a_frozen acc) amount then Inl ''Insufficient frozen funds to unfreeze''
         else Inr (acc \<lparr> a_frozen := f64_sub (a_frozen acc) amount, a_available := f64_add (a_available acc) amount \<rparr>))
      else Inl ''Invalid transfer type'')"

definition transfer_funds :: "datetime \<Rightarrow> string \<Rightarrow> f64 \<Rightarrow> string \<Rightarrow> AccountActor \<Rightarrow> account_reply \<times> AccountActor" where
  "transfer_funds now account_id amount transfer_type aa =
     (case AccountActor_get_account aa account_id of
        None \<Rightarrow> (ReplyError ''Account not found'', aa)
      | Some acc \<Rightarrow>
          (case apply_transfer transfer_type amount acc of
             Inl e \<Rightarrow> (ReplyError e, aa)
           | Inr acc' \<Rightarrow> (let acc'' = acc' \<lparr> a_updated_at := now \<rparr> in (ReplyAccount acc'', store_account acc'' aa))))"

definition handle_GetAccount :: "string \<Rightarrow> AccountActor \<Rightarrow> account_reply" where
  "handle_GetAccount account_id aa =
     (case AccountActor_get_account aa account_id of
        Some acc \<Rightarrow> ReplyAccount acc
      | None \<Rightarrow> ReplyError (''Account not found: '' @ account_id))"

definition handle_GetAllAccounts :: "AccountActor \<Rightarrow> account_reply" where
  "handle_GetAllAccounts aa = ReplyAccounts (hm_values (aa_accounts aa))"

definition handle_AccountUpdateMessage ::
    "string \<Rightarrow> datetime \<Rightarrow> string option \<Rightarrow> string \<Rightarrow> f64 \<Rightarrow> AccountActor \<Rightarrow> account_reply \<times> AccountActor" where
  "handle_AccountUpdateMessage uid now account_id name initial_balance aa =
     (case account_id of
        Some i \<Rightarrow> update_account now i (Some name) aa
      | None \<Rightarrow> (let (acc, aa') = create_account uid now None name initial_balance aa in (ReplyAccount acc, aa')))"

text \<open>\<^verbatim>\<open>to_uppercase\<close> on the ASCII letters of a transfer type; other characters are kept.\<close>

definition upper_char :: "char \<Rightarrow> char" where
  "upper_char c = (if 97 \<le> (of_char c :: nat) \<and> (of_char c :: nat) \<le> 122 then char_of ((of_char c :: nat) - 32) else c)"

definition handle_FundTransferMessage ::
    "datetime \<Rightarrow> string \<Rightarrow> f64 \<Rightarrow> string \<Rightarrow> AccountActor \<Rightarrow> account_reply \<times> AccountActor" where
  "handle_FundTransferMessage now account_id amount transfer_type aa =
     transfer_funds now account_id amount (map upper_char transfer_type) aa"

section \<open>Orders\<close>

text \<open>The actor's orders are filed under their own ids.\<close>

definition orders_ok :: "OrderActor \<Rightarrow> bool" where
  "orders_ok oa \<longleftrightarrow> hm_ok (oa_orders oa) \<and> (\<forall>(i, ord)\<in>set (oa_orders oa). o_order_id ord = i)"

lemma orders_ok_store [inv_intros]: "orders_ok oa \<Longrightarrow> orders_ok (store_order ord oa)"
  using set_hm_insert [of "o_order_id ord" ord "oa_orders oa"] by (auto simp: orders_ok_def store_order_def)

text \<open>
  Cancelling: it is accepted exactly for a known order of the same account that is still active; then that order, and no other, becomes
  Cancelled, the orders stay filed under their ids, and a second attempt is rejected. A rejection changes nothing.
\<close>

theorem cancel_order_spec:
  assumes "orders_ok oa"
  shows "let (r, oa') = cancel_order now i client oa in
           (r = OrderAccepted i \<longleftrightarrow>
              (\<exists>ord. hm_get (oa_orders oa) i = Some ord \<and> o_account_id ord = client \<and> Order_is_active ord)) \<and>
           (r \<noteq> OrderAccepted i \<longrightarrow> (\<exists>e. r = OrderRejected e) \<and> oa' = oa) \<and>
           (r = OrderAccepted i \<longrightarrow>
              map_option o_status (hm_get (oa_orders oa') i) = Some Cancelled \<and>
              (\<forall>j. j \<noteq> i \<longrightarrow> hm_get (oa_orders oa') j = hm_get (oa_orders oa) j) \<and>
              (\<exists>e. fst (cancel_order now' i client' oa') = OrderRejected e)) \<and>
           orders_ok oa'"
proof -
  have inact: "\<not> Order_can_cancel (Order_update_status now Cancelled ord)" for ord
    by (simp add: Order_can_cancel_def Order_update_status_def)
  have "orders_ok (snd (cancel_order now i client oa))"
    using assms
    by (auto simp: cancel_order_def orders_ok_def Order_update_status_def set_hm_insert_ok split: option.splits dest: map_of_SomeD)
  then show ?thesis
    using inact
    by (auto simp: cancel_order_def can_cancel_is_active Let_def split: option.splits if_splits)
qed

theorem cancel_order_spec_witness:
  "fst (cancel_order 1 ''o1'' ''c1'' (store_order sample_order (OrderActor_new ''n1''))) = OrderAccepted ''o1''"
proof -
  have ok: "orders_ok (store_order sample_order (OrderActor_new ''n1''))"
    by (intro orders_ok_store) (simp add: orders_ok_def OrderActor_new_def)
  have "hm_get (oa_orders (store_order sample_order (OrderActor_new ''n1''))) ''o1'' = Some sample_order"
    "o_account_id sample_order = ''c1''" "Order_is_active sample_order"
    by (simp_all add: store_order_def OrderActor_new_def sample_order_def) (simp_all add: Order_from_request_def sample_request_def)
  then show ?thesis using cancel_order_spec [OF ok, of 1 "''o1''" "''c1''" 1 "''c1''"] by (simp add: case_prod_beta Let_def)
qed

text \<open>
  Creating an order: the answer is always an acceptance, one order is stored as New and handed to the engine when there is one. Its id is the answered one
  exactly when the request named an id or the two UUIDs drawn coincide: without an id in the request
  the client is told an id under which no order exists.
\<close>

theorem create_order_id:
  assumes "uid 0 \<noteq> uid 1" "hm_get (oa_orders oa) (uid 0) = None"
  shows "let (r, oa', asks) = handle_CreateOrderMessage uid now req oa;
             told = (case rq_order_id req of Some i \<Rightarrow> i | None \<Rightarrow> uid 0)
         in r = OrderAccepted told \<and>
            query_orders (ById told) oa' =
              (case rq_order_id req of Some i \<Rightarrow> [Order_from_request (uid 1) now req] | None \<Rightarrow> []) \<and>
            asks = (case oa_execution_engine oa of Some e \<Rightarrow> [(e, Order_from_request (uid 1) now req)] | None \<Rightarrow> [])"
  using assms
  by (auto simp: handle_CreateOrderMessage_def perform_risk_check_def create_and_execute_order_def store_order_def
      Order_from_request_def Let_def split: option.splits)

theorem create_order_id_witness:
  "query_orders (ById ''u0'')
     (fst (snd (handle_CreateOrderMessage (\<lambda>n. if n = 0 then ''u0'' else ''u1'') 1 (sample_request \<lparr> rq_order_id := None \<rparr>)
        (OrderActor_new ''n1'')))) = []"
  using create_order_id [of "\<lambda>n. if n = 0 then ''u0'' else ''u1''" "OrderActor_new ''n1''" 1 "sample_request \<lparr> rq_order_id := None \<rparr>"]
  by (simp add: OrderActor_new_def Let_def case_prod_beta)

section \<open>Accounts\<close>

text \<open>
  The account actor's transfers are the operations of \<open>Account\<close>: for each of the four types the answer is a success exactly when the model's
  operation accepts, and the stored account is then the model's result; any other type, an unknown account and a
  refused amount leave the actor unchanged.
\<close>

theorem transfer_funds_equiv:
  assumes "hm_get (aa_accounts aa) i = Some acc"
  shows "transfer_funds now i x ''DEPOSIT'' aa =
           (let acc' = Account_deposit now x acc in (ReplyAccount acc', store_account acc' aa)) \<and>
         transfer_funds now i x ''WITHDRAW'' aa =
           (case Account_withdraw now x acc of
              (True, acc') \<Rightarrow> (ReplyAccount acc', store_account acc' aa)
            | (False, _) \<Rightarrow> (ReplyError ''Insufficient available funds'', aa)) \<and>
         transfer_funds now i x ''FREEZE'' aa =
           (case Account_freeze_funds now x acc of
              (True, acc') \<Rightarrow> (ReplyAccount acc', store_account acc' aa)
            | (False, _) \<Rightarrow> (ReplyError ''Insufficient available funds to freeze'', aa)) \<and>
         transfer_funds now i x ''UNFREEZE'' aa =
           (case Account_unfreeze_funds now x acc of
              (True, acc') \<Rightarrow> (ReplyAccount acc', store_account acc' aa)
            | (False, _) \<Rightarrow> (ReplyError ''Insufficient frozen funds to unfreeze'', aa))"
  using assms
  by (simp add: transfer_funds_def apply_transfer_def AccountActor_get_account_def Account_deposit_def Account_withdraw_def
      Account_freeze_funds_def Account_unfreeze_funds_def Let_def)

theorem transfer_funds_equiv_witness:
  "fst (transfer_funds 1 ''a1'' (Fin 500) ''WITHDRAW'' (store_account sample_account (AccountActor_new ''n1''))) =
     ReplyError ''Insufficient available funds''"
  using transfer_funds_equiv [of "store_account sample_account (AccountActor_new ''n1'')" "''a1''" sample_account 1 "Fin 500"]
  by (simp add: store_account_def AccountActor_new_def sample_account_def Account_new_def Account_withdraw_def f64_lt_def)

end
