(* ===== verification/State_Machine.thy ===== *)
theory State_Machine
  imports Models
begin

text \<open>
  The replicated state machine of the trading crate (\<^verbatim>\<open>trading/src/consensus/state_machine.rs\<close>):
  commands, the maps of orders, executions and accounts, and the numbering of new orders and executions with wrapping
  \<^verbatim>\<open>u64\<close> counters. The locale \<open>replica\<close> is the contract the consensus module needs of a state machine:
  what is observable of the state depends on the commands only, not on the clock of the
  node. The trading machine meets it for everything but the time stamps it writes.
\<close>

section \<open>Decimal numbers\<close>

text \<open>\<^verbatim>\<open>format!("{}", n)\<close>.\<close>

fun show_nat :: "nat \<Rightarrow> string" where
  "show_nat n = (if n < 10 then [char_of (48 + n)] else show_nat (n div 10) @ [char_of (48 + n mod 10)])"

declare show_nat.simps [simp del]

definition read_nat :: "string \<Rightarrow> nat" where
  "read_nat s = foldl (\<lambda>a c. 10 * a + (of_char c - 48)) 0 s"

lemma read_nat_snoc: "read_nat (s @ [c]) = 10 * read_nat s + (of_char c - 48)"
  by (simp add: read_nat_def)

lemma read_show_nat: "read_nat (show_nat n) = n"
proof (induction n rule: show_nat.induct)
  case (1 n)
  have d: "of_char (char_of (48 + k :: nat) :: char) - (48 :: nat) = k" if "k < 10" for k
    using that by (simp add: of_char_of)
  show ?case
  proof (cases "n < 10")
    case True
    then show ?thesis using d [of n] by (subst show_nat.simps) (simp add: read_nat_def)
  next
    case False
    have "show_nat n = show_nat (n div 10) @ [char_of (48 + n mod 10)]"
      using False by (subst show_nat.simps) simp
    then show ?thesis using 1 [OF False] d [of "n mod 10"] by (simp add: read_nat_snoc)
  qed
qed

lemma show_nat_inject: "show_nat m = show_nat n \<longleftrightarrow> m = n"
  by (metis read_show_nat)

section \<open>Commands and state\<close>

datatype AdminCommand =
    AddNode string string
  | RemoveNode string
  | ChangeConfig string string

datatype StateMachineCommand =
    CreateOrder OrderRequest
  | UpdateOrderStatus string OrderStatus
  | AddExecution Execution
  | UpdateAccount Account
  | Admin AdminCommand

datatype sm_error = OrderDoesNotExist string

record TradingStateMachine =
  sm_orders :: "(string, Order) hashmap"
  sm_executions :: "(string, Execution) hashmap"
  sm_accounts :: "(string, Account) hashmap"
  sm_last_applied_index :: u64
  sm_last_applied_term :: u64
  sm_next_order_id :: u64
  sm_next_execution_id :: u64

definition TradingStateMachine_new :: TradingStateMachine where
  "TradingStateMachine_new =
     \<lparr> sm_orders = [], sm_executions = [], sm_accounts = [], sm_last_applied_index = 0, sm_last_applied_term = 0,
       sm_next_order_id = 1, sm_next_execution_id = 1 \<rparr>"

definition sm_update_applied :: "u64 \<Rightarrow> u64 \<Rightarrow> TradingStateMachine \<Rightarrow> TradingStateMachine" where
  "sm_update_applied index term sm = sm \<lparr> sm_last_applied_index := index, sm_last_applied_term := term \<rparr>"

definition sm_get_order :: "TradingStateMachine \<Rightarrow> string \<Rightarrow> Order option" where
  "sm_get_order sm i = hm_get (sm_orders sm) i"

definition sm_get_all_orders :: "TradingStateMachine \<Rightarrow> Order list" where
  "sm_get_all_orders sm = hm_values (sm_orders sm)"

definition sm_get_account :: "TradingStateMachine \<Rightarrow> string \<Rightarrow> Account option" where
  "sm_get_account sm i = hm_get (sm_accounts sm) i"

definition sm_get_executions :: "TradingStateMachine \<Rightarrow> Execution list" where
  "sm_get_executions sm = hm_values (sm_executions sm)"

definition sm_order_name :: "u64 \<Rightarrow> string" where
  "sm_order_name n = ''order-'' @ show_nat (unat n)"

definition sm_exec_name :: "u64 \<Rightarrow> string" where
  "sm_exec_name n = ''exec-'' @ show_nat (unat n)"

fun sm_apply :: "datetime \<Rightarrow> StateMachineCommand \<Rightarrow> TradingStateMachine \<Rightarrow> (sm_error + unit) \<times> TradingStateMachine" where
  "sm_apply now (CreateOrder request) sm =
     (let order_id = sm_order_name (sm_next_order_id sm);
          ord = \<lparr> o_order_id = order_id, o_account_id = rq_client_id request, o_symbol = rq_symbol request,
                  o_side = rq_side request, o_order_type = rq_order_type request,
                  o_quantity = f64_of_int (uint (rq_quantity request)), o_price = rq_price request,
                  o_stop_price = None, o_status = New, o_filled_quantity = Fin 0,
                  o_created_at = now, o_updated_at = now \<rparr>
      in (Inr (), sm \<lparr> sm_next_order_id := sm_next_order_id sm + 1, sm_orders := hm_insert order_id ord (sm_orders sm) \<rparr>))"
| "sm_apply now (UpdateOrderStatus order_id new_status) sm =
     (case hm_get (sm_orders sm) order_id of
        Some ord \<Rightarrow> (Inr (), sm \<lparr> sm_orders := hm_insert order_id (ord \<lparr> o_status := new_status \<rparr>) (sm_orders sm) \<rparr>)
      | None \<Rightarrow> (Inl (OrderDoesNotExist order_id), sm))"
| "sm_apply now (AddExecution execution) sm =
     (let exec_id = sm_exec_name (sm_next_execution_id sm)
      in (Inr (), sm \<lparr> sm_next_execution_id := sm_next_execution_id sm + 1,
                       sm_executions := hm_insert exec_id (execution \<lparr> ex_execution_id := exec_id \<rparr>) (sm_executions sm) \<rparr>))"
| "sm_apply now (UpdateAccount account) sm =
     (Inr (), sm \<lparr> sm_accounts := hm_insert (a_id account) account (sm_accounts sm) \<rparr>)"
| "sm_apply now (Admin (AddNode node_id address)) sm = (Inr (), sm)"
| "sm_apply now (Admin (RemoveNode node_id)) sm = (Inr (), sm)"
| "sm_apply now (Admin (ChangeConfig key val)) sm = (Inr (), sm)"

text \<open>Snapshots are empty and restoring one does nothing.\<close>

definition sm_snapshot :: "TradingStateMachine \<Rightarrow> u8 list" where
  "sm_snapshot sm = []"

definition sm_restore_from_snapshot :: "u8 list \<Rightarrow> TradingStateMachine \<Rightarrow> TradingStateMachine" where
  "sm_restore_from_snapshot snapshot sm = sm"

section \<open>Replicas\<close>

locale replica =
  fixes exec :: "'t \<Rightarrow> 'c \<Rightarrow> 's \<Rightarrow> 's"
    and obs :: "'s \<Rightarrow> 'o"
  assumes exec_obs: "obs s = obs s' \<Longrightarrow> obs (exec t c s) = obs (exec t' c s')"
begin

text \<open>Each command is executed at the time its node reads from its own clock.\<close>

lemma runs_agree:
  "obs s = obs s' \<Longrightarrow> length ts = length cs \<Longrightarrow> length ts' = length cs \<Longrightarrow>
   obs (fold (\<lambda>(t, c). exec t c) (zip ts cs) s) = obs (fold (\<lambda>(t, c). exec t c) (zip ts' cs) s')"
proof (induction cs arbitrary: ts ts' s s')
  case (Cons c cs)
  from Cons.prems(2,3) obtain t ts1 t' ts1' where ts: "ts = t # ts1" "ts' = t' # ts1'"
    by (cases ts; cases ts'; simp)
  have "obs (exec t c s) = obs (exec t' c s')" using Cons.prems(1) by (rule exec_obs)
  from Cons.IH [OF this, of ts1 ts1'] Cons.prems(2,3) show ?case by (simp add: ts)
qed simp

end

text \<open>The observation: the state with the time stamps of the orders erased.\<close>

definition erase_times :: "Order \<Rightarrow> Order" where
  "erase_times ord = ord \<lparr> o_created_at := 0, o_updated_at := 0 \<rparr>"

definition sm_observe :: "TradingStateMachine \<Rightarrow> TradingStateMachine" where
  "sm_observe sm = sm \<lparr> sm_orders := map (\<lambda>(i, ord). (i, erase_times ord)) (sm_orders sm) \<rparr>"

lemma map_snd_update: "map (\<lambda>(i, v). (i, f v)) (hm_insert k v m) = hm_insert k (f v) (map (\<lambda>(i, v). (i, f v)) m)"
  by (induction m) auto

lemma hm_get_map_snd: "hm_get (map (\<lambda>(i, v). (i, f v)) m) k = map_option f (hm_get m k)"
  by (induction m) auto

lemma sm_observe_orders:
  "sm_observe s = sm_observe s' \<longleftrightarrow>
     map (\<lambda>(i, ord). (i, erase_times ord)) (sm_orders s) = map (\<lambda>(i, ord). (i, erase_times ord)) (sm_orders s') \<and>
     sm_executions s = sm_executions s' \<and> sm_accounts s = sm_accounts s' \<and>
     sm_last_applied_index s = sm_last_applied_index s' \<and> sm_last_applied_term s = sm_last_applied_term s' \<and>
     sm_next_order_id s = sm_next_order_id s' \<and> sm_next_execution_id s = sm_next_execution_id s'"
  by (auto simp: sm_observe_def intro!: TradingStateMachine.equality dest: arg_cong [of _ _ sm_orders] arg_cong [of _ _ sm_executions]
      arg_cong [of _ _ sm_accounts] arg_cong [of _ _ sm_last_applied_index] arg_cong [of _ _ sm_last_applied_term]
      arg_cong [of _ _ sm_next_order_id] arg_cong [of _ _ sm_next_execution_id])

lemma sm_apply_observe:
  assumes "sm_observe s = sm_observe s'"
  shows "sm_observe (snd (sm_apply t c s)) = sm_observe (snd (sm_apply t' c s'))"
proof (cases c)
  case (UpdateOrderStatus i st)
  have eq: "map_option erase_times (hm_get (sm_orders s) i) = map_option erase_times (hm_get (sm_orders s') i)"
    using assms unfolding sm_observe_orders by (metis hm_get_map_snd)
  have st: "erase_times (x \<lparr> o_status := st \<rparr>) = (erase_times x) \<lparr> o_status := st \<rparr>" for x
    by (simp add: erase_times_def)
  show ?thesis
    using assms eq unfolding sm_observe_orders UpdateOrderStatus
    by (cases "hm_get (sm_orders s) i"; cases "hm_get (sm_orders s') i") (simp_all add: map_snd_update st)
next
  case (Admin a)
  with assms show ?thesis by (cases a) simp_all
qed (use assms in \<open>auto simp: sm_observe_orders map_snd_update erase_times_def Let_def\<close>)

interpretation trading: replica "\<lambda>now c s. snd (sm_apply now c s)" sm_observe
  by unfold_locales (rule sm_apply_observe)

text \<open>
  C32. Replicas agree up to time stamps: two nodes that apply the same commands from observably equal states, each with its own clock, end in
  states with the same orders (apart from their time stamps), executions, accounts and counters.
  The time stamps do diverge: creating an order at two different times gives two different states.
\<close>

theorem replicas_agree:
  assumes "sm_observe s = sm_observe s'" "length ts = length cs" "length ts' = length cs"
  shows "sm_observe (fold (\<lambda>(t, c) s. snd (sm_apply t c s)) (zip ts cs) s) =
         sm_observe (fold (\<lambda>(t, c) s. snd (sm_apply t c s)) (zip ts' cs) s') \<and>
         (t \<noteq> t' \<longrightarrow> snd (sm_apply t (CreateOrder req) s) \<noteq> snd (sm_apply t' (CreateOrder req) s))"
proof
  show "sm_observe (fold (\<lambda>(t, c) s. snd (sm_apply t c s)) (zip ts cs) s) =
         sm_observe (fold (\<lambda>(t, c) s. snd (sm_apply t c s)) (zip ts' cs) s')"
    by (rule trading.runs_agree [OF assms])
  have "map_option o_created_at (hm_get (sm_orders (snd (sm_apply u (CreateOrder req) s))) (sm_order_name (sm_next_order_id s))) = Some u" for u
    by (simp add: Let_def)
  then show "t \<noteq> t' \<longrightarrow> snd (sm_apply t (CreateOrder req) s) \<noteq> snd (sm_apply t' (CreateOrder req) s)"
    by (metis option.inject)
qed

theorem replicas_agree_witness:
  "sm_observe (fold (\<lambda>(t, c) s. snd (sm_apply t c s)) (zip [1, 2] [CreateOrder sample_request, UpdateOrderStatus ''order-1'' Filled]) TradingStateMachine_new) =
   sm_observe (fold (\<lambda>(t, c) s. snd (sm_apply t c s)) (zip [8, 9] [CreateOrder sample_request, UpdateOrderStatus ''order-1'' Filled]) TradingStateMachine_new)"
  using replicas_agree [of TradingStateMachine_new TradingStateMachine_new "[1, 2]"
      "[CreateOrder sample_request, UpdateOrderStatus ''order-1'' Filled]" "[8, 9]"] by simp

section \<open>Numbering\<close>

definition sm_numbered :: "TradingStateMachine \<Rightarrow> bool" where
  "sm_numbered sm \<longleftrightarrow> hm_ok (sm_orders sm) \<and>
     (\<forall>(i, ord)\<in>set (sm_orders sm). o_order_id ord = i \<and> (\<exists>n. i = sm_order_name n \<and> n < sm_next_order_id sm))"

lemma sm_order_name_inject: "sm_order_name m = sm_order_name n \<longleftrightarrow> m = n"
  by (simp add: sm_order_name_def show_nat_inject word_unat_eq_iff)

lemma sm_numbered_fresh: "sm_numbered sm \<Longrightarrow> hm_get (sm_orders sm) (sm_order_name (sm_next_order_id sm)) = None"
  by (rule ccontr) (auto simp: sm_numbered_def sm_order_name_inject dest!: map_of_SomeD)

text \<open>
  Numbering: as long as the counter has not reached the last \<^verbatim>\<open>u64\<close>, a created order gets an id no stored order has,
  so nothing is overwritten and the number of orders grows by one; the other commands keep
  the numbering, and a status update fails exactly for an unknown id.
\<close>

theorem create_order_numbered:
  assumes "sm_numbered sm" "sm_next_order_id sm \<noteq> - 1"
  shows "let sm' = snd (sm_apply now (CreateOrder req) sm)
         in sm_numbered sm' \<and> length (sm_orders sm') = Suc (length (sm_orders sm)) \<and>
            (\<forall>i. hm_contains (sm_orders sm) i \<longrightarrow> hm_get (sm_orders sm') i = hm_get (sm_orders sm) i) \<and>
            sm_numbered (snd (sm_apply now (UpdateOrderStatus i st) sm)) \<and>
            ((\<exists>e. fst (sm_apply now (UpdateOrderStatus i st) sm) = Inl e) \<longleftrightarrow> hm_get (sm_orders sm) i = None)"
proof -
  let ?n = "sm_next_order_id sm"
  note fresh = sm_numbered_fresh [OF assms(1)]
  have lt: "?n < ?n + 1" using assms(2) by (rule word_less_Suc)
  have "sm_numbered (snd (sm_apply now (CreateOrder req) sm))"
    using assms(1) lt by (fastforce simp: sm_numbered_def Let_def set_hm_insert_ok intro: less_trans)
  moreover have "sm_numbered (snd (sm_apply now (UpdateOrderStatus i st) sm))"
    using assms(1) by (fastforce simp: sm_numbered_def set_hm_insert_ok split: option.splits dest: map_of_SomeD)
  ultimately show ?thesis
    using fresh by (auto simp: Let_def length_hm_insert split: option.splits)
qed

theorem create_order_numbered_witness:
  "length (sm_orders (snd (sm_apply 1 (CreateOrder sample_request) TradingStateMachine_new))) = 1"
  using create_order_numbered [of TradingStateMachine_new 1 sample_request "''x''" New]
  by (simp add: TradingStateMachine_new_def sm_numbered_def Let_def)

end
