(* ===== verification/Raft.thy ===== *)
theory Raft
  imports State_Machine
begin

text \<open>
  The Raft node of the trading crate (\<^verbatim>\<open>trading/src/consensus/raft.rs\<close>). Terms and indices are
  wrapping \<^verbatim>\<open>u64\<close> words. The two timers are the flags that a timer is pending; \<open>rnd\<close> is the election timeout drawn from the configured
  interval and \<open>now\<close> the clock in milliseconds. With a cluster manager the node sends a path and a message kind
  only: the requests it builds (\<open>vote_request\<close>, \<open>append_request\<close>) are not transmitted.
  \<open>raft_step\<close> is what the actor's handlers and its timer do; \<open>raft_any\<close> adds the private
  methods no handler calls. The theorems: at most one vote per term, the shape of the log after
  an accepted append, commits need a majority, applying is total and in order, and three
  negative results about the code as it stands.
\<close>

section \<open>Messages and state\<close>

datatype RaftNodeState = Follower | Candidate | Leader

record RaftConfig =
  cf_election_timeout_min :: u64
  cf_election_timeout_max :: u64
  cf_heartbeat_interval :: u64
  cf_replication_parallelism :: u64

definition RaftConfig_default :: RaftConfig where
  "RaftConfig_default = \<lparr> cf_election_timeout_min = 150, cf_election_timeout_max = 300,
     cf_heartbeat_interval = 50, cf_replication_parallelism = 5 \<rparr>"

record LogEntry =
  le_term :: u64
  le_index :: u64
  le_command :: StateMachineCommand

record RequestVote =
  rv_term :: u64
  rv_candidate_id :: string
  rv_last_log_index :: u64
  rv_last_log_term :: u64

record AppendEntries =
  ae_term :: u64
  ae_leader_id :: string
  ae_prev_log_index :: u64
  ae_prev_log_term :: u64
  ae_entries :: "LogEntry list"
  ae_leader_commit :: u64

record InstallSnapshot =
  is_term :: u64
  is_leader_id :: string
  is_last_included_index :: u64
  is_last_included_term :: u64
  is_data :: "u8 list"

datatype RaftRequestMessage = ReqVote RequestVote | ReqAppend AppendEntries | ReqSnapshot InstallSnapshot

datatype RaftResponseMessage =
    RequestVoteResponse u64 bool
  | AppendEntriesResponse u64 bool u64
  | InstallSnapshotResponse u64 bool

datatype ClientCommandResult =
    ClientSuccess "string option" "string option" u64
  | ClientFailure string "string option"
  | ClientRedirect string

record RaftNodeActor =
  rn_node_id :: string
  rn_current_term :: u64
  rn_voted_for :: "string option"
  rn_log :: "LogEntry list"
  rn_commit_index :: u64
  rn_last_applied :: u64
  rn_next_index :: "(string, u64) hashmap"
  rn_match_index :: "(string, u64) hashmap"
  rn_state :: RaftNodeState
  rn_current_leader_id :: "string option"
  rn_last_heartbeat :: datetime
  rn_election_timeout :: u64
  rn_config :: RaftConfig
  rn_cluster_nodes :: "string list"
  rn_state_machine :: TradingStateMachine
  rn_cluster_manager :: bool
  rn_heartbeat_timer :: bool
  rn_election_timer :: bool

type_synonym sends = "(string \<times> string) list"

definition RaftNodeActor_new :: "u64 \<Rightarrow> datetime \<Rightarrow> string \<Rightarrow> RaftConfig \<Rightarrow> RaftNodeActor" where
  "RaftNodeActor_new rnd now node_id config =
     \<lparr> rn_node_id = node_id, rn_current_term = 0, rn_voted_for = None, rn_log = [], rn_commit_index = 0,
       rn_last_applied = 0, rn_next_index = [], rn_match_index = [], rn_state = Follower,
       rn_current_leader_id = None, rn_last_heartbeat = now, rn_election_timeout = rnd, rn_config = config,
       rn_cluster_nodes = [], rn_state_machine = TradingStateMachine_new, rn_cluster_manager = False,
       rn_heartbeat_timer = False, rn_election_timer = False \<rparr>"

section \<open>Cluster membership\<close>

definition last_log_index :: "LogEntry list \<Rightarrow> u64" where
  "last_log_index lg = (if lg = [] then 0 else le_index (last lg))"

definition last_log_term :: "LogEntry list \<Rightarrow> u64" where
  "last_log_term lg = (if lg = [] then 0 else le_term (last lg))"

definition next_log_index :: "LogEntry list \<Rightarrow> u64" where
  "next_log_index lg = (if lg = [] then 1 else le_index (last lg) + 1)"

definition add_cluster_node :: "string \<Rightarrow> RaftNodeActor \<Rightarrow> bool \<times> RaftNodeActor" where
  "add_cluster_node node_id n =
     (if node_id \<notin> set (rn_cluster_nodes n) \<and> node_id \<noteq> rn_node_id n then
        (True, n \<lparr> rn_cluster_nodes := rn_cluster_nodes n @ [node_id],
                   rn_next_index := hm_insert node_id 1 (rn_next_index n),
                   rn_match_index := hm_insert node_id 0 (rn_match_index n) \<rparr>)
      else (False, n))"

definition init_progress :: "u64 \<Rightarrow> string list \<Rightarrow> RaftNodeActor \<Rightarrow> RaftNodeActor" where
  "init_progress next nodes n =
     n \<lparr> rn_next_index := foldl (\<lambda>m i. hm_insert i next m) (rn_next_index n) nodes,
         rn_match_index := foldl (\<lambda>m i. hm_insert i 0 m) (rn_match_index n) nodes \<rparr>"

definition set_cluster_nodes :: "string list \<Rightarrow> RaftNodeActor \<Rightarrow> RaftNodeActor" where
  "set_cluster_nodes nodes n0 =
     (let n = n0 \<lparr> rn_cluster_nodes := filter (\<lambda>i. i \<noteq> rn_node_id n0) nodes \<rparr>
      in if rn_state n = Leader then init_progress (next_log_index (rn_log n)) (rn_cluster_nodes n) n else n)"

section \<open>Elections\<close>

definition reset_election_timeout :: "u64 \<Rightarrow> datetime \<Rightarrow> RaftNodeActor \<Rightarrow> RaftNodeActor" where
  "reset_election_timeout rnd now n =
     n \<lparr> rn_election_timeout := rnd, rn_last_heartbeat := now, rn_election_timer := True \<rparr>"

definition raft_path :: "string \<Rightarrow> string" where
  "raft_path node_id = ''/system/raft/'' @ node_id"

definition send_all :: "RaftNodeActor \<Rightarrow> string \<Rightarrow> sends" where
  "send_all n kind = (if rn_cluster_manager n then map (\<lambda>i. (raft_path i, kind)) (rn_cluster_nodes n) else [])"

definition vote_request :: "RaftNodeActor \<Rightarrow> RequestVote" where
  "vote_request n = \<lparr> rv_term = rn_current_term n, rv_candidate_id = rn_node_id n,
     rv_last_log_index = last_log_index (rn_log n), rv_last_log_term = last_log_term (rn_log n) \<rparr>"

definition start_election :: "u64 \<Rightarrow> datetime \<Rightarrow> RaftNodeActor \<Rightarrow> RaftNodeActor \<times> sends" where
  "start_election rnd now n0 =
     (if rn_state n0 = Leader then (n0, [])
      else
        let n = n0 \<lparr> rn_state := Candidate, rn_current_term := rn_current_term n0 + 1,
                     rn_voted_for := Some (rn_node_id n0) \<rparr>;
            n' = reset_election_timeout rnd now n
        in (n', send_all n' ''raft.request_vote''))"

text \<open>The closure given to \<^verbatim>\<open>run_later\<close>: the pending timer is used up when it fires.\<close>

definition election_timer_fired :: "u64 \<Rightarrow> datetime \<Rightarrow> RaftNodeActor \<Rightarrow> RaftNodeActor \<times> sends" where
  "election_timer_fired rnd now n0 =
     (let n = n0 \<lparr> rn_election_timer := False \<rparr>
      in if rn_state n \<noteq> Leader \<and> uint (rn_election_timeout n) \<le> now - rn_last_heartbeat n
         then start_election rnd now n else (n, []))"

definition prev_term :: "LogEntry list \<Rightarrow> u64 \<Rightarrow> u64" where
  "prev_term lg prev =
     (if 0 < prev then (case find (\<lambda>e. le_index e = prev) lg of Some e \<Rightarrow> le_term e | None \<Rightarrow> 0) else 0)"

definition append_request :: "bool \<Rightarrow> RaftNodeActor \<Rightarrow> string \<Rightarrow> AppendEntries" where
  "append_request with_entries n follower =
     (let next_idx = (case hm_get (rn_next_index n) follower of Some i \<Rightarrow> i | None \<Rightarrow> 1);
          prev = next_idx - 1
      in \<lparr> ae_term = rn_current_term n, ae_leader_id = rn_node_id n, ae_prev_log_index = prev,
           ae_prev_log_term = prev_term (rn_log n) prev,
           ae_entries = (if with_entries then filter (\<lambda>e. next_idx \<le> le_index e) (rn_log n) else []),
           ae_leader_commit = rn_commit_index n \<rparr>)"

definition send_heartbeats :: "RaftNodeActor \<Rightarrow> sends" where
  "send_heartbeats n = (if rn_state n \<noteq> Leader then [] else send_all n ''raft.append_entries'')"

definition become_leader :: "RaftNodeActor \<Rightarrow> RaftNodeActor \<times> sends" where
  "become_leader n0 =
     (if rn_state n0 \<noteq> Candidate then (n0, [])
      else
        let n = n0 \<lparr> rn_state := Leader, rn_current_leader_id := Some (rn_node_id n0) \<rparr>;
            n1 = init_progress (next_log_index (rn_log n)) (rn_cluster_nodes n) n;
            n2 = n1 \<lparr> rn_election_timer := False \<rparr>
        in (n2 \<lparr> rn_heartbeat_timer := True \<rparr>, send_heartbeats n2))"

section \<open>Append entries\<close>

definition push_entry :: "LogEntry list \<times> u64 \<Rightarrow> LogEntry \<Rightarrow> LogEntry list \<times> u64" where
  "push_entry lm e =
     (case lm of (lg, m) \<Rightarrow> if list_ex (\<lambda>x. le_index x = le_index e) lg then (lg, m) else (lg @ [e], le_index e))"

definition accept_entries :: "u64 \<Rightarrow> LogEntry list \<Rightarrow> LogEntry list \<Rightarrow> LogEntry list \<times> u64" where
  "accept_entries prev entries lg =
     (if entries = [] then (lg, prev)
      else
        let (lg', m) = foldl push_entry (filter (\<lambda>e. le_index e \<le> prev) lg, prev) entries
        in (sort_key le_index lg', m))"

definition append_entries :: "datetime \<Rightarrow> AppendEntries \<Rightarrow> RaftNodeActor \<Rightarrow> RaftResponseMessage \<times> RaftNodeActor" where
  "append_entries now req n0 =
     (if ae_term req < rn_current_term n0 then (AppendEntriesResponse (rn_current_term n0) False 0, n0)
      else
        let n1 = (if rn_current_term n0 < ae_term req
                  then n0 \<lparr> rn_current_term := ae_term req, rn_state := Follower, rn_voted_for := None \<rparr> else n0);
            n2 = n1 \<lparr> rn_current_leader_id := Some (ae_leader_id req), rn_last_heartbeat := now \<rparr>;
            prev = ae_prev_log_index req;
            consistent = (prev = 0 \<or> list_ex (\<lambda>e. le_index e = prev \<and> le_term e = ae_prev_log_term req) (rn_log n2))
        in if \<not> consistent then (AppendEntriesResponse (rn_current_term n2) False 0, n2)
           else
             let (lg, m) = accept_entries prev (ae_entries req) (rn_log n2);
                 commit = (if rn_commit_index n2 < ae_leader_commit req
                           then min (ae_leader_commit req) (last_log_index lg) else rn_commit_index n2)
             in (AppendEntriesResponse (rn_current_term n2) True m,
                 n2 \<lparr> rn_log := lg, rn_commit_index := commit \<rparr>))"

section \<open>Votes\<close>

definition handle_request_vote :: "datetime \<Rightarrow> RequestVote \<Rightarrow> RaftNodeActor \<Rightarrow> RaftResponseMessage \<times> RaftNodeActor" where
  "handle_request_vote now req n0 =
     (if rv_term req < rn_current_term n0 then (RequestVoteResponse (rn_current_term n0) False, n0)
      else
        let n = (if rn_current_term n0 < rv_term req
                 then n0 \<lparr> rn_current_term := rv_term req, rn_state := Follower, rn_voted_for := None \<rparr> else n0)
        in if rn_voted_for n \<noteq> None \<and> rn_voted_for n \<noteq> Some (rv_candidate_id req)
           then (RequestVoteResponse (rn_current_term n) False, n)
           else
             let li = last_log_index (rn_log n); lt = last_log_term (rn_log n);
                 up_to_date = (lt < rv_last_log_term req \<or> rv_last_log_term req = lt \<and> li \<le> rv_last_log_index req)
             in if up_to_date
                then (RequestVoteResponse (rn_current_term n) True,
                      n \<lparr> rn_voted_for := Some (rv_candidate_id req), rn_last_heartbeat := now \<rparr>)
                else (RequestVoteResponse (rn_current_term n) False, n))"

section \<open>Applying and committing\<close>

function apply_committed_entries :: "datetime \<Rightarrow> RaftNodeActor \<Rightarrow> RaftNodeActor" where
  "apply_committed_entries now n =
     (if rn_last_applied n < rn_commit_index n then
        let i = rn_last_applied n + 1;
            n1 = n \<lparr> rn_last_applied := i \<rparr>
        in apply_committed_entries now
             (case find (\<lambda>e. le_index e = i) (rn_log n1) of
                Some e \<Rightarrow>
                  n1 \<lparr> rn_state_machine :=
                        sm_update_applied (le_index e) (le_term e) (snd (sm_apply now (le_command e) (rn_state_machine n1))) \<rparr>
              | None \<Rightarrow> n1)
      else n)"
  by auto
termination
proof (relation "measure (\<lambda>(now, n). unat (rn_commit_index n) - unat (rn_last_applied n))")
  fix now n i n1
  assume *: "rn_last_applied n < rn_commit_index n" "i = rn_last_applied n + 1" "n1 = n \<lparr> rn_last_applied := i \<rparr>"
  have "rn_last_applied n \<noteq> - 1" using *(1) by (metis not_less_iff_gr_or_eq max_word_max leD)
  then have "unat i = Suc (unat (rn_last_applied n))" using *(2) by (simp add: word_Suc_unat)
  then show "((now, case find (\<lambda>e. le_index e = i) (rn_log n1) of
                Some e \<Rightarrow>
                  n1 \<lparr> rn_state_machine :=
                        sm_update_applied (le_index e) (le_term e) (snd (sm_apply now (le_command e) (rn_state_machine n1))) \<rparr>
              | None \<Rightarrow> n1), now, n) \<in> measure (\<lambda>(now, n). unat (rn_commit_index n) - unat (rn_last_applied n))"
    using * by (auto simp: word_less_nat_alt split: option.splits)
qed simp

declare apply_committed_entries.simps [simp del]

definition replication_count :: "RaftNodeActor \<Rightarrow> u64 \<Rightarrow> nat" where
  "replication_count n i = length (filter (\<lambda>m. i \<le> m) (hm_values (rn_match_index n))) + 1"

fun commit_scan :: "datetime \<Rightarrow> LogEntry list \<Rightarrow> RaftNodeActor \<Rightarrow> RaftNodeActor" where
  "commit_scan now [] n = n"
| "commit_scan now (e # es) n =
     commit_scan now es
       (if le_term e = rn_current_term n \<and> rn_commit_index n < le_index e \<and>
           length (rn_cluster_nodes n) + 1 < replication_count n (le_index e) * 2
        then apply_committed_entries now (n \<lparr> rn_commit_index := le_index e \<rparr>) else n)"

definition replicate_log_to_follower :: "string \<Rightarrow> RaftNodeActor \<Rightarrow> sends" where
  "replicate_log_to_follower follower n =
     (if rn_state n \<noteq> Leader then []
      else if rn_cluster_manager n then [(raft_path follower, ''raft.append_entries'')] else [])"

definition handle_append_entries_response ::
    "datetime \<Rightarrow> string \<Rightarrow> RaftResponseMessage \<Rightarrow> RaftNodeActor \<Rightarrow> RaftNodeActor \<times> sends" where
  "handle_append_entries_response now follower response n =
     (case response of
        AppendEntriesResponse term success match_index \<Rightarrow>
          (if rn_current_term n < term then
             (n \<lparr> rn_current_term := term, rn_state := Follower, rn_voted_for := None, rn_current_leader_id := None,
                  rn_heartbeat_timer := False \<rparr>, [])
           else if success then
             let n1 = n \<lparr> rn_match_index := hm_insert follower match_index (rn_match_index n),
                          rn_next_index := hm_insert follower (match_index + 1) (rn_next_index n) \<rparr>
             in (commit_scan now (rn_log n1) n1, [])
           else
             let cur = (case hm_get (rn_next_index n) follower of Some i \<Rightarrow> i | None \<Rightarrow> 1)
             in if 1 < cur then
                  let n1 = n \<lparr> rn_next_index := hm_insert follower (cur - 1) (rn_next_index n) \<rparr>
                  in (n1, replicate_log_to_follower follower n1)
                else (n, []))
      | _ \<Rightarrow> (n, []))"

definition handle_client_command ::
    "datetime \<Rightarrow> StateMachineCommand \<Rightarrow> RaftNodeActor \<Rightarrow> ClientCommandResult \<times> RaftNodeActor \<times> sends" where
  "handle_client_command now command n0 =
     (if rn_state n0 \<noteq> Leader
      then (ClientRedirect (case rn_current_leader_id n0 of Some l \<Rightarrow> l | None \<Rightarrow> ''unknown''), n0, [])
      else
        let i = next_log_index (rn_log n0);
            e = \<lparr> le_term = rn_current_term n0, le_index = i, le_command = command \<rparr>;
            n = n0 \<lparr> rn_log := rn_log n0 @ [e] \<rparr>;
            ok = ClientSuccess None (Some (rn_node_id n)) i
        in if rn_cluster_nodes n = [] then (ok, apply_committed_entries now (n \<lparr> rn_commit_index := i \<rparr>), [])
           else (ok, n, concat (map (\<lambda>f. replicate_log_to_follower f n) (rn_cluster_nodes n))))"

definition handle_RaftRequestMessage ::
    "datetime \<Rightarrow> RaftRequestMessage \<Rightarrow> RaftNodeActor \<Rightarrow> RaftResponseMessage \<times> RaftNodeActor" where
  "handle_RaftRequestMessage now msg n =
     (case msg of
        ReqVote r \<Rightarrow> handle_request_vote now r n
      | ReqAppend r \<Rightarrow> append_entries now r n
      | ReqSnapshot r \<Rightarrow> (InstallSnapshotResponse (rn_current_term n) False, n))"

definition handle_ClusterMessage :: "datetime \<Rightarrow> string \<Rightarrow> RaftNodeActor \<Rightarrow> RaftNodeActor" where
  "handle_ClusterMessage now kind n =
     (if kind = ''raft.append_entries'' then n \<lparr> rn_last_heartbeat := now \<rparr> else n)"

definition RaftNodeActor_started :: "u64 \<Rightarrow> datetime \<Rightarrow> RaftNodeActor \<Rightarrow> RaftNodeActor" where
  "RaftNodeActor_started rnd now n = reset_election_timeout rnd now n"

section \<open>Runs of a node\<close>

text \<open>What reaches the node from outside: its message handlers, the membership calls and the election timer.\<close>

inductive raft_step :: "RaftNodeActor \<Rightarrow> RaftNodeActor \<Rightarrow> bool" where
  request: "raft_step n (snd (handle_RaftRequestMessage now msg n))"
| client: "raft_step n (fst (snd (handle_client_command now c n)))"
| cluster: "raft_step n (handle_ClusterMessage now kind n)"
| add_node: "raft_step n (snd (add_cluster_node i n))"
| set_nodes: "raft_step n (set_cluster_nodes is n)"
| timer: "rn_election_timer n \<Longrightarrow> rn_current_term n \<noteq> - 1 \<Longrightarrow> raft_step n (fst (election_timer_fired rnd now n))"

text \<open>With the private methods that no handler calls. As in the timer rule, the term counter has not reached its last value.\<close>

inductive raft_any :: "RaftNodeActor \<Rightarrow> RaftNodeActor \<Rightarrow> bool" where
  public: "raft_step n n' \<Longrightarrow> raft_any n n'"
| leader: "raft_any n (fst (become_leader n))"
| response: "raft_any n (fst (handle_append_entries_response now f r n))"
| election: "rn_current_term n \<noteq> - 1 \<Longrightarrow> raft_any n (fst (start_election rnd now n))"

lemma apply_committed_keeps:
  "rn_current_term (apply_committed_entries now n) = rn_current_term n \<and>
   rn_voted_for (apply_committed_entries now n) = rn_voted_for n \<and>
   rn_log (apply_committed_entries now n) = rn_log n \<and>
   rn_commit_index (apply_committed_entries now n) = rn_commit_index n \<and>
   rn_state (apply_committed_entries now n) = rn_state n \<and>
   rn_match_index (apply_committed_entries now n) = rn_match_index n \<and>
   rn_cluster_nodes (apply_committed_entries now n) = rn_cluster_nodes n \<and>
   rn_election_timer (apply_committed_entries now n) = rn_election_timer n"
proof (induction now n rule: apply_committed_entries.induct)
  case (1 now n)
  show ?case
  proof (cases "rn_last_applied n < rn_commit_index n")
    case True
    note IH = "1.IH" [OF True refl refl]
    show ?thesis using True IH by (subst (1 2 3 4 5 6 7 8) apply_committed_entries.simps) (simp add: Let_def split: option.splits)
  qed (simp add: apply_committed_entries.simps)
qed

lemma commit_scan_keeps:
  "rn_current_term (commit_scan now es n) = rn_current_term n \<and> rn_voted_for (commit_scan now es n) = rn_voted_for n \<and>
   rn_log (commit_scan now es n) = rn_log n \<and> rn_state (commit_scan now es n) = rn_state n \<and>
   rn_match_index (commit_scan now es n) = rn_match_index n \<and> rn_cluster_nodes (commit_scan now es n) = rn_cluster_nodes n \<and>
   rn_election_timer (commit_scan now es n) = rn_election_timer n"
  by (induction es arbitrary: n) (simp_all add: apply_committed_keeps)

text \<open>The term never falls, and within a term a vote that is cast stays.\<close>

definition vote_kept :: "RaftNodeActor \<Rightarrow> RaftNodeActor \<Rightarrow> bool" where
  "vote_kept n n' \<longleftrightarrow> rn_current_term n \<le> rn_current_term n' \<and>
     (rn_current_term n' = rn_current_term n \<longrightarrow> rn_voted_for n \<noteq> None \<longrightarrow> rn_voted_for n' = rn_voted_for n)"

lemma vote_kept_same: "rn_current_term n' = rn_current_term n \<Longrightarrow> rn_voted_for n' = rn_voted_for n \<Longrightarrow> vote_kept n n'"
  by (simp add: vote_kept_def)

lemma vote_kept_newer: "rn_current_term n < rn_current_term n' \<Longrightarrow> vote_kept n n'"
  by (auto simp: vote_kept_def)

lemma vote_kept_trans: "vote_kept a b \<Longrightarrow> vote_kept b c \<Longrightarrow> vote_kept a c"
  by (auto simp: vote_kept_def)

lemma vote_kept_request_vote: "vote_kept n (snd (handle_request_vote now r n))"
  by (auto simp: handle_request_vote_def vote_kept_def Let_def)

lemma vote_kept_append: "vote_kept n (snd (append_entries now r n))"
  by (auto simp: append_entries_def vote_kept_def Let_def case_prod_beta)

lemma vote_kept_election: "rn_current_term n \<noteq> - 1 \<Longrightarrow> vote_kept n (fst (start_election rnd now n))"
  using word_less_Suc [of "rn_current_term n"]
  by (auto simp: start_election_def Let_def reset_election_timeout_def intro: vote_kept_newer vote_kept_same)

lemma vote_kept_client: "vote_kept n (fst (snd (handle_client_command now c n)))"
  by (rule vote_kept_same) (simp_all add: handle_client_command_def Let_def apply_committed_keeps)

lemma vote_kept_response: "vote_kept n (fst (handle_append_entries_response now f r n))"
  by (auto simp: handle_append_entries_response_def Let_def commit_scan_keeps split: RaftResponseMessage.split
      intro: vote_kept_same vote_kept_newer)

lemma vote_kept_step: "raft_step n n' \<Longrightarrow> vote_kept n n'"
proof (induction rule: raft_step.induct)
  case (request n now msg)
  then show ?case
    by (cases msg) (simp_all add: handle_RaftRequestMessage_def vote_kept_request_vote vote_kept_append vote_kept_same)
next
  case (timer n rnd now)
  then have "vote_kept (n \<lparr> rn_election_timer := False \<rparr>) (fst (start_election rnd now (n \<lparr> rn_election_timer := False \<rparr>)))"
    by (intro vote_kept_election) simp
  moreover have "vote_kept n (n \<lparr> rn_election_timer := False \<rparr>)" by (simp add: vote_kept_same)
  ultimately show ?case by (auto simp: election_timer_fired_def Let_def intro: vote_kept_trans)
qed (auto simp: handle_ClusterMessage_def add_cluster_node_def set_cluster_nodes_def init_progress_def Let_def
    vote_kept_client intro: vote_kept_same)

lemma vote_kept_any: "raft_any n n' \<Longrightarrow> vote_kept n n'"
  by (induction rule: raft_any.induct)
    (auto simp: vote_kept_step vote_kept_response vote_kept_election become_leader_def init_progress_def Let_def intro: vote_kept_same)

interpretation raft_voter: voter rn_current_term rn_voted_for "\<lambda>n n'. raft_any n n' \<or> (\<exists>now r. n' = snd (handle_request_vote now r n))"
proof unfold_locales
  fix n n' :: RaftNodeActor
  assume "raft_any n n' \<or> (\<exists>now r. n' = snd (handle_request_vote now r n))"
  then have "vote_kept n n'" using vote_kept_any vote_kept_request_vote by blast
  then show "rn_current_term n < rn_current_term n' \<or> rn_current_term n' = rn_current_term n \<and> (rn_voted_for n = None \<or> rn_voted_for n' = rn_voted_for n)"
    by (auto simp: vote_kept_def)
qed

lemma vote_granted:
  "handle_request_vote now r n = (RequestVoteResponse t True, n') \<Longrightarrow>
   rn_voted_for n' = Some (rv_candidate_id r) \<and> rn_current_term n' = t \<and> t = rv_term r"
  by (auto simp: handle_request_vote_def Let_def split: if_splits)

text \<open>
  C10. Election safety at a node: whatever happens between two granted votes of the same term, private methods
  included, they are for the same candidate.
\<close>

theorem one_vote_per_term:
  assumes "handle_request_vote now1 r1 n = (RequestVoteResponse t True, n1)" "raft_any\<^sup>*\<^sup>* n1 n2"
    and "handle_request_vote now2 r2 n2 = (RequestVoteResponse t True, n3)"
  shows "rv_candidate_id r2 = rv_candidate_id r1"
proof -
  let ?step = "\<lambda>n n'. raft_any n n' \<or> (\<exists>now r. n' = snd (handle_request_vote now r n))"
  have "?step\<^sup>*\<^sup>* n1 n2" using assms(2) by (rule rtranclp_mono [THEN predicate2D, rotated]) auto
  moreover have "?step n2 n3" using assms(3) by (metis snd_conv)
  ultimately have "?step\<^sup>*\<^sup>* n1 n3" by (rule rtranclp.rtrancl_into_rtrancl)
  from raft_voter.one_vote [OF this] show ?thesis using vote_granted [OF assms(1)] vote_granted [OF assms(3)] by simp
qed

definition sample_node :: RaftNodeActor where
  "sample_node = RaftNodeActor_new 200 0 ''n1'' RaftConfig_default"

definition sample_vote :: RequestVote where
  "sample_vote = \<lparr> rv_term = 3, rv_candidate_id = ''n2'', rv_last_log_index = 0, rv_last_log_term = 0 \<rparr>"

theorem one_vote_per_term_witness:
  "\<exists>n1 n3. handle_request_vote 1 sample_vote sample_node = (RequestVoteResponse 3 True, n1) \<and>
     handle_request_vote 2 sample_vote n1 = (RequestVoteResponse 3 True, n3) \<and> rv_candidate_id sample_vote = ''n2''"
proof -
  let ?n1 = "snd (handle_request_vote 1 sample_vote sample_node)"
  have g1: "handle_request_vote 1 sample_vote sample_node = (RequestVoteResponse 3 True, ?n1)"
    and g2: "handle_request_vote 2 sample_vote ?n1 = (RequestVoteResponse 3 True, snd (handle_request_vote 2 sample_vote ?n1))"
    by (simp_all add: handle_request_vote_def sample_vote_def sample_node_def RaftNodeActor_new_def last_log_index_def last_log_term_def)
  from one_vote_per_term [OF g1 _ g2] have "rv_candidate_id sample_vote = rv_candidate_id sample_vote" by simp
  with g1 g2 show ?thesis by (metis RequestVote.select_convs(2) sample_vote_def)
qed

section \<open>The log\<close>

text \<open>A log in order: entry number \<open>i\<close>, counted from one, has index \<open>i\<close>. \<open>indexed k es\<close>: the entries \<open>es\<close> carry the
  indices after \<open>k\<close>.\<close>

definition indexed :: "nat \<Rightarrow> LogEntry list \<Rightarrow> bool" where
  "indexed k es \<longleftrightarrow> map (\<lambda>e. unat (le_index e)) es = [Suc k..<Suc k + length es]"

lemma indexed_Nil [simp]: "indexed k []"
  by (simp add: indexed_def)

lemma indexed_Cons [simp]: "indexed k (e # es) \<longleftrightarrow> unat (le_index e) = Suc k \<and> indexed (Suc k) es"
  unfolding indexed_def by (subst upt_conv_Cons) auto

lemma indexed_append: "indexed k (es @ fs) \<longleftrightarrow> indexed k es \<and> indexed (k + length es) fs"
  by (induction es arbitrary: k) auto

lemma indexed_set: "indexed k es \<Longrightarrow> e \<in> set es \<Longrightarrow> k < unat (le_index e) \<and> unat (le_index e) \<le> k + length es"
  by (induction es arbitrary: k) fastforce+

lemma indexed_nth: "indexed k es \<Longrightarrow> i < length es \<Longrightarrow> unat (le_index (es ! i)) = Suc (k + i)"
  by (induction es arbitrary: k i) (auto simp: nth_Cons split: nat.splits)

lemma indexed_sorted: "indexed k es \<Longrightarrow> sorted (map le_index es)"
proof (induction es arbitrary: k)
  case (Cons e es)
  then have "indexed (Suc k) es" by simp
  from Cons.IH [OF this] indexed_set [OF this] Cons.prems show ?case by (fastforce simp: word_le_nat_alt)
qed simp

lemma filter_prefix:
  assumes "indexed 0 lg" "unat p \<le> length lg"
  shows "filter (\<lambda>e. le_index e \<le> p) lg = take (unat p) lg"
proof -
  have "indexed 0 (take (unat p) lg)" "indexed (unat p) (drop (unat p) lg)"
    using assms indexed_append [of 0 "take (unat p) lg" "drop (unat p) lg"] by auto
  then have "\<forall>e\<in>set (take (unat p) lg). le_index e \<le> p" "\<forall>e\<in>set (drop (unat p) lg). \<not> le_index e \<le> p"
    using assms(2) by (auto simp: word_le_nat_alt dest!: indexed_set)
  then have "filter (\<lambda>e. le_index e \<le> p) (take (unat p) lg @ drop (unat p) lg) = take (unat p) lg"
    unfolding filter_append by (simp add: filter_id_conv filter_empty_conv)
  then show ?thesis by simp
qed

lemma push_entries:
  assumes "indexed 0 (lg @ es)"
  shows "foldl push_entry (lg, m) es = (lg @ es, if es = [] then m else le_index (last es))"
  using assms
proof (induction es arbitrary: lg m)
  case (Cons e es)
  then have "indexed 0 lg" "unat (le_index e) = Suc (length lg)" by (auto simp: indexed_append)
  then have "\<not> list_ex (\<lambda>x. le_index x = le_index e) lg"
    by (force simp: list_ex_iff dest: indexed_set)
  then have "push_entry (lg, m) e = (lg @ [e], le_index e)" by (simp add: push_entry_def)
  then show ?case using Cons.IH [of "lg @ [e]" "le_index e"] Cons.prems by simp
qed simp

lemma accept_entries_indexed:
  assumes "indexed 0 lg" "unat p \<le> length lg" "indexed (unat p) es"
  shows "fst (accept_entries p es lg) = (if es = [] then lg else take (unat p) lg @ es)"
    and "indexed 0 (fst (accept_entries p es lg))"
proof -
  have "indexed 0 (take (unat p) lg @ drop (unat p) lg)" using assms(1) by simp
  then have ok: "indexed 0 (take (unat p) lg @ es)" using assms(2,3) unfolding indexed_append by (simp add: min_absorb2)
  have "sort_key le_index (take (unat p) lg @ es) = take (unat p) lg @ es"
    by (rule sort_key_id_if_sorted) (rule indexed_sorted [OF ok])
  then show eq: "fst (accept_entries p es lg) = (if es = [] then lg else take (unat p) lg @ es)"
    using push_entries [OF ok] by (simp add: accept_entries_def filter_prefix [OF assms(1,2)])
  show "indexed 0 (fst (accept_entries p es lg))" unfolding eq using ok assms(1) by simp
qed

text \<open>Whether the log holds the entry that a request builds on.\<close>

definition holds_prev :: "LogEntry list \<Rightarrow> AppendEntries \<Rightarrow> bool" where
  "holds_prev lg req \<longleftrightarrow>
     (let k = unat (ae_prev_log_index req)
      in k = 0 \<or> (k \<le> length lg \<and> le_term (lg ! (k - 1)) = ae_prev_log_term req))"

lemma holds_prev_iff:
  assumes "indexed 0 lg"
  shows "ae_prev_log_index req = 0 \<or>
      list_ex (\<lambda>e. le_index e = ae_prev_log_index req \<and> le_term e = ae_prev_log_term req) lg \<longleftrightarrow> holds_prev lg req"
proof -
  let ?p = "ae_prev_log_index req"
  have ix: "le_index (lg ! i) = ?p \<longleftrightarrow> Suc i = unat ?p" if "i < length lg" for i
    using indexed_nth [OF assms that] by (simp add: word_unat_eq_iff)
  have "list_ex (\<lambda>e. le_index e = ?p \<and> le_term e = t) lg \<longleftrightarrow> (\<exists>i < length lg. Suc i = unat ?p \<and> le_term (lg ! i) = t)" for t
    unfolding list_ex_length using ix by blast
  also have "\<dots> t \<longleftrightarrow> 0 < unat ?p \<and> unat ?p \<le> length lg \<and> le_term (lg ! (unat ?p - 1)) = t" for t
    by (cases "unat ?p") (auto simp: Suc_le_eq)
  finally have "list_ex (\<lambda>e. le_index e = ?p \<and> le_term e = ae_prev_log_term req) lg \<longleftrightarrow>
      0 < unat ?p \<and> unat ?p \<le> length lg \<and> le_term (lg ! (unat ?p - 1)) = ae_prev_log_term req" .
  moreover have "?p = 0 \<longleftrightarrow> unat ?p = 0" by (simp add: unat_0_iff)
  ultimately show ?thesis unfolding holds_prev_def Let_def by blast
qed

text \<open>
  C25. The log after an append: on a follower whose log is in order, a request of the current or a newer term whose
  entries follow its previous index is accepted exactly when the log has the previous entry with the previous term (or there is none); then the log is the
  prefix up to that entry followed by the new entries, and still in order; a refused request leaves the log unchanged.
\<close>

theorem append_entries_log:
  assumes "indexed 0 (rn_log n)" "indexed (unat (ae_prev_log_index req)) (ae_entries req)" "rn_current_term n \<le> ae_term req"
  shows "let (r, n') = append_entries now req n
         in ((\<exists>t m. r = AppendEntriesResponse t True m) \<longleftrightarrow> holds_prev (rn_log n) req) \<and>
            rn_log n' = (if holds_prev (rn_log n) req \<and> ae_entries req \<noteq> []
                         then take (unat (ae_prev_log_index req)) (rn_log n) @ ae_entries req else rn_log n) \<and>
            indexed 0 (rn_log n')"
proof -
  define n2 where "n2 = (if rn_current_term n < ae_term req
                  then n \<lparr> rn_current_term := ae_term req, rn_state := Follower, rn_voted_for := None \<rparr> else n)
      \<lparr> rn_current_leader_id := Some (ae_leader_id req), rn_last_heartbeat := now \<rparr>"
  have lg: "rn_log n2 = rn_log n" by (simp add: n2_def)
  have nt: "\<not> ae_term req < rn_current_term n" using assms(3) by simp
  note hp = holds_prev_iff [OF assms(1), of req]
  show ?thesis
  proof (cases "holds_prev (rn_log n) req")
    case True
    then have "unat (ae_prev_log_index req) \<le> length (rn_log n)" by (auto simp: holds_prev_def Let_def)
    note acc = accept_entries_indexed [OF assms(1) this assms(2)]
    let ?acc = "accept_entries (ae_prev_log_index req) (ae_entries req) (rn_log n)"
    have "append_entries now req n = (AppendEntriesResponse (rn_current_term n2) True (snd ?acc),
        n2 \<lparr> rn_log := fst ?acc,
             rn_commit_index := (if rn_commit_index n2 < ae_leader_commit req
               then min (ae_leader_commit req) (last_log_index (fst ?acc)) else rn_commit_index n2) \<rparr>)"
      unfolding append_entries_def Let_def n2_def [symmetric] lg
      by (simp only: nt hp True if_False if_True not_True_eq_False case_prod_beta)
    then show ?thesis using True acc by (simp only: Let_def prod.case) simp
  next
    case False
    have "append_entries now req n = (AppendEntriesResponse (rn_current_term n2) False 0, n2)"
      unfolding append_entries_def Let_def n2_def [symmetric] lg
      by (simp only: nt hp False if_False if_True not_False_eq_True)
    then show ?thesis using False assms(1) by (simp add: lg)
  qed
qed

definition sample_entry :: "nat \<Rightarrow> LogEntry" where
  "sample_entry i = \<lparr> le_term = 1, le_index = of_nat i, le_command = Admin (RemoveNode ''x'') \<rparr>"

theorem append_entries_log_witness:
  "rn_log (snd (append_entries 1 \<lparr> ae_term = 1, ae_leader_id = ''n2'', ae_prev_log_index = 1, ae_prev_log_term = 1,
       ae_entries = [sample_entry 2], ae_leader_commit = 0 \<rparr> (sample_node \<lparr> rn_log := [sample_entry 1] \<rparr>))) =
   [sample_entry 1, sample_entry 2]"
  using append_entries_log [of "sample_node \<lparr> rn_log := [sample_entry 1] \<rparr>"
      "\<lparr> ae_term = 1, ae_leader_id = ''n2'', ae_prev_log_index = 1, ae_prev_log_term = 1,
         ae_entries = [sample_entry 2], ae_leader_commit = 0 \<rparr>" 1]
  by (simp add: case_prod_beta Let_def sample_entry_def sample_node_def RaftNodeActor_new_def holds_prev_def)

section \<open>Committing and applying\<close>

definition majority :: "RaftNodeActor \<Rightarrow> LogEntry \<Rightarrow> bool" where
  "majority n e \<longleftrightarrow> length (rn_cluster_nodes n) + 1 < 2 * replication_count n (le_index e)"

lemma commit_scan_commit:
  "rn_commit_index n \<le> rn_commit_index (commit_scan now es n) \<and>
   (rn_commit_index (commit_scan now es n) \<noteq> rn_commit_index n \<longrightarrow>
      (\<exists>e\<in>set es. le_term e = rn_current_term n \<and> le_index e = rn_commit_index (commit_scan now es n) \<and> majority n e))"
proof (induction es arbitrary: n)
  case (Cons e es)
  show ?case
  proof (cases "le_term e = rn_current_term n \<and> rn_commit_index n < le_index e \<and>
           length (rn_cluster_nodes n) + 1 < replication_count n (le_index e) * 2")
    case True
    define n1 where "n1 = apply_committed_entries now (n \<lparr> rn_commit_index := le_index e \<rparr>)"
    have n1: "rn_commit_index n1 = le_index e" "rn_current_term n1 = rn_current_term n" "majority n1 = majority n"
      by (simp_all add: n1_def apply_committed_keeps majority_def replication_count_def fun_eq_iff)
    have "commit_scan now (e # es) n = commit_scan now es n1" using True by (simp add: n1_def)
    then show ?thesis using Cons.IH [of n1] True n1
      by (cases "rn_commit_index (commit_scan now es n1) = rn_commit_index n1") (auto simp: majority_def mult.commute)
  next
    case False
    then show ?thesis using Cons.IH [of n] by auto
  qed
qed simp



lemma find_indexed: "indexed 0 lg \<Longrightarrow> i < length lg \<Longrightarrow> find (\<lambda>e. le_index e = p) lg = Some (lg ! i)" if "unat p = Suc i"
proof -
  assume ok: "indexed 0 lg" "i < length lg"
  have "le_index (lg ! i) = p" using indexed_nth [OF ok] that by (simp add: word_unat_eq_iff)
  moreover have "le_index (lg ! j) \<noteq> p" if "j < i" for j
    using indexed_nth [OF ok(1), of j] that ok(2) \<open>unat p = Suc i\<close> by auto
  ultimately show ?thesis using ok(2) by (auto simp: find_Some_iff)
qed

definition apply_entry :: "datetime \<Rightarrow> LogEntry \<Rightarrow> TradingStateMachine \<Rightarrow> TradingStateMachine" where
  "apply_entry now e sm = sm_update_applied (le_index e) (le_term e) (snd (sm_apply now (le_command e) sm))"

text \<open>
  Applying: on a log in order that reaches the commit index, the loop ends with everything committed applied, and the state
  machine is the old one after exactly the entries between the two indices, each once, in log order.
\<close>

theorem apply_committed_in_order:
  assumes "indexed 0 (rn_log n)" "unat (rn_commit_index n) \<le> length (rn_log n)" "rn_last_applied n \<le> rn_commit_index n"
  shows "rn_last_applied (apply_committed_entries now n) = rn_commit_index n \<and>
         rn_state_machine (apply_committed_entries now n) =
           fold (apply_entry now) (drop (unat (rn_last_applied n)) (take (unat (rn_commit_index n)) (rn_log n))) (rn_state_machine n)"
  using assms
proof (induction now n rule: apply_committed_entries.induct)
  case (1 now n)
  let ?la = "unat (rn_last_applied n)" and ?ci = "unat (rn_commit_index n)"
  show ?case
  proof (cases "rn_last_applied n < rn_commit_index n")
    case False
    then have "rn_last_applied n = rn_commit_index n" using "1.prems"(3) by simp
    then show ?thesis by (subst (1 2) apply_committed_entries.simps) simp
  next
    case True
    then have "rn_last_applied n \<noteq> - 1" by (metis not_less_iff_gr_or_eq max_word_max leD)
    then have i: "unat (rn_last_applied n + 1) = Suc ?la" by (rule word_Suc_unat)
    have lt: "?la < ?ci" using True by (simp add: word_less_nat_alt)
    then have fnd: "find (\<lambda>e. le_index e = rn_last_applied n + 1) (rn_log n) = Some (rn_log n ! ?la)"
      using "1.prems" by (intro find_indexed [OF i]) auto
    define n1 where "n1 = n \<lparr> rn_last_applied := rn_last_applied n + 1,
        rn_state_machine := apply_entry now (rn_log n ! ?la) (rn_state_machine n) \<rparr>"
    have step: "apply_committed_entries now n = apply_committed_entries now n1"
      using True by (subst apply_committed_entries.simps) (simp add: Let_def fnd n1_def apply_entry_def)
    have "rn_last_applied (apply_committed_entries now n1) = rn_commit_index n1 \<and>
         rn_state_machine (apply_committed_entries now n1) =
           fold (apply_entry now) (drop (unat (rn_last_applied n1)) (take (unat (rn_commit_index n1)) (rn_log n1))) (rn_state_machine n1)"
      using "1.IH" [OF True refl refl] "1.prems" True i lt fnd
      by (simp add: n1_def apply_entry_def [symmetric] word_le_nat_alt)
    moreover have "drop ?la (take ?ci (rn_log n)) = rn_log n ! ?la # drop (Suc ?la) (take ?ci (rn_log n))"
      using lt "1.prems"(2) by (subst Cons_nth_drop_Suc [symmetric]) auto
    ultimately show ?thesis using i unfolding step by (simp add: n1_def)
  qed
qed

theorem apply_committed_in_order_witness:
  "rn_last_applied (apply_committed_entries 1 (sample_node \<lparr> rn_log := [sample_entry 1, sample_entry 2], rn_commit_index := 2 \<rparr>)) = 2"
  using apply_committed_in_order [of "sample_node \<lparr> rn_log := [sample_entry 1, sample_entry 2], rn_commit_index := 2 \<rparr>" 1]
  by (simp add: sample_entry_def sample_node_def RaftNodeActor_new_def)

section \<open>What the handlers never do\<close>


lemma append_entries_state:
  "rn_state (snd (append_entries now r n)) \<in> {rn_state n, Follower} \<and> rn_election_timer (snd (append_entries now r n)) = rn_election_timer n"
  by (simp add: append_entries_def Let_def case_prod_beta)

lemma request_vote_state:
  "rn_state (snd (handle_request_vote now r n)) \<in> {rn_state n, Follower} \<and> rn_election_timer (snd (handle_request_vote now r n)) = rn_election_timer n"
  by (simp add: handle_request_vote_def Let_def)

lemma request_state:
  "rn_state (snd (handle_RaftRequestMessage now msg n)) \<in> {rn_state n, Follower} \<and>
   rn_election_timer (snd (handle_RaftRequestMessage now msg n)) = rn_election_timer n"
  using append_entries_state request_vote_state by (cases msg) (simp_all add: handle_RaftRequestMessage_def)

lemma client_state:
  "rn_state (fst (snd (handle_client_command now c n))) = rn_state n \<and>
   rn_election_timer (fst (snd (handle_client_command now c n))) = rn_election_timer n"
  by (simp add: handle_client_command_def Let_def apply_committed_keeps)

lemma membership_state:
  "rn_state (snd (add_cluster_node i n)) = rn_state n" "rn_election_timer (snd (add_cluster_node i n)) = rn_election_timer n"
  "rn_state (set_cluster_nodes is n) = rn_state n" "rn_election_timer (set_cluster_nodes is n) = rn_election_timer n"
  "rn_state (handle_ClusterMessage now kind n) = rn_state n" "rn_election_timer (handle_ClusterMessage now kind n) = rn_election_timer n"
  by (simp_all add: add_cluster_node_def set_cluster_nodes_def init_progress_def handle_ClusterMessage_def Let_def)

lemma step_not_leader: "raft_step n n' \<Longrightarrow> rn_state n \<noteq> Leader \<Longrightarrow> rn_state n' \<noteq> Leader"
proof (induction rule: raft_step.induct)
  case (request n now msg)
  then show ?case using request_state [of now msg n] by auto
qed (simp_all add: client_state membership_state election_timer_fired_def start_election_def reset_election_timeout_def Let_def)

text \<open>
  C40. No node ever becomes a leader: votes are not counted and no handler calls \<^verbatim>\<open>become_leader\<close>. In every
  state the actor reaches from its start it is not a leader, so every client command is answered with a redirect, to the
  last leader it heard of or to the node \<^verbatim>\<open>unknown\<close>, and changes nothing.
\<close>

theorem never_leader:
  assumes "raft_step\<^sup>*\<^sup>* (RaftNodeActor_started rnd now (RaftNodeActor_new rnd0 now0 node_id config)) n"
  shows "rn_state n \<noteq> Leader \<and>
         handle_client_command now' c n =
           (ClientRedirect (case rn_current_leader_id n of Some l \<Rightarrow> l | None \<Rightarrow> ''unknown''), n, [])"
proof -
  have "rn_state n \<noteq> Leader"
    using assms
  proof (induction rule: rtranclp_induct)
    case base
    then show ?case by (simp add: RaftNodeActor_started_def reset_election_timeout_def RaftNodeActor_new_def)
  qed (rule step_not_leader)
  then show ?thesis by (simp add: handle_client_command_def)
qed

theorem never_leader_witness:
  "rn_state (fst (election_timer_fired 200 500 (RaftNodeActor_started 200 0 sample_node))) \<noteq> Leader"
proof -
  have "raft_step (RaftNodeActor_started 200 0 sample_node) (fst (election_timer_fired 200 500 (RaftNodeActor_started 200 0 sample_node)))"
    by (rule raft_step.timer) (simp_all add: RaftNodeActor_started_def reset_election_timeout_def sample_node_def RaftNodeActor_new_def)
  then show ?thesis
    using never_leader [of 200 0 200 0 "''n1''" RaftConfig_default] unfolding sample_node_def by blast
qed

lemma step_stays_quiet:
  "raft_step n n' \<Longrightarrow> \<not> rn_election_timer n \<Longrightarrow> rn_state n = Follower \<Longrightarrow> \<not> rn_election_timer n' \<and> rn_state n' = Follower"
proof (induction rule: raft_step.induct)
  case (request n now msg)
  then show ?case using request_state [of now msg n] by auto
qed (simp_all add: client_state membership_state)

text \<open>
  One heartbeat stops elections for good: when the election timer of a follower fires and a heartbeat has arrived in the meantime, the timer is not set
  again, and no later message sets it. The node stays a follower in every state it reaches, whether or not it hears from a leader again.
\<close>

theorem elections_stop:
  assumes "rn_state n = Follower" "now - rn_last_heartbeat n < uint (rn_election_timeout n)"
    and "raft_step\<^sup>*\<^sup>* (fst (election_timer_fired rnd now n)) n'"
  shows "rn_state n' = Follower \<and> \<not> rn_election_timer n'"
  using assms(3)
proof (induction rule: rtranclp_induct)
  case base
  then show ?case using assms(1,2) by (simp add: election_timer_fired_def Let_def)
qed (use step_stays_quiet in blast)

theorem elections_stop_witness:
  "\<not> rn_election_timer (fst (election_timer_fired 200 250 (handle_ClusterMessage 100 ''raft.append_entries'' (RaftNodeActor_started 200 0 sample_node))))"
  using elections_stop [of "handle_ClusterMessage 100 ''raft.append_entries'' (RaftNodeActor_started 200 0 sample_node)" 250 200, OF _ _ rtranclp.rtrancl_refl]
  by (simp add: handle_ClusterMessage_def RaftNodeActor_started_def reset_election_timeout_def sample_node_def RaftNodeActor_new_def)

text \<open>A committed entry can be lost: a repeated append of the first entry, of the same term and leader, cuts the log back to it
  although the second entry is committed.\<close>

theorem committed_entry_lost:
  "\<exists>n req n' m. indexed 0 (rn_log n) \<and> rn_commit_index n = 2 \<and> length (rn_log n) = 2 \<and> ae_entries req = take 1 (rn_log n) \<and>
     append_entries 1 req n = (AppendEntriesResponse (rn_current_term n) True m, n') \<and> rn_commit_index n' = 2 \<and> length (rn_log n') = 1"
  by (rule exI [of _ "sample_node \<lparr> rn_current_term := 1, rn_log := [sample_entry 1, sample_entry 2], rn_commit_index := 2 \<rparr>"],
      rule exI [of _ "\<lparr> ae_term = 1, ae_leader_id = ''n2'', ae_prev_log_index = 0, ae_prev_log_term = 0,
         ae_entries = [sample_entry 1], ae_leader_commit = 2 \<rparr>"])
    (simp add: append_entries_def accept_entries_def push_entry_def sample_entry_def sample_node_def RaftNodeActor_new_def)

end
