(* ===== verification/Persistence.thy ===== *)
theory Persistence
  imports Prelude "HOL-Library.Multiset"
begin

text \<open>
  Persistence of the trading crate (\<^verbatim>\<open>trading/src/persistence/{log,storage}.rs\<close>): the log and storage
  providers, each trait as a locale with its in-memory and its file system implementation as
  interpretations. Serialisation (bincode, serde_json) is a pair of parameters \<open>ser\<close> and \<open>deser\<close>, whose round trip
  is a named hypothesis where it is used. The file system is a map from path strings to
  contents; opening a file can fail (\<open>fault\<close>), and two path strings that the operating system would resolve to the same
  file are two paths here.
\<close>

section \<open>Log entries and queries\<close>

datatype LogResult = LogSuccess | LogFailure

record LogEntry =
  lo_id :: string
  lo_timestamp :: datetime
  lo_operation_type :: string
  lo_target_id :: "string option"
  lo_details :: string
  lo_result :: LogResult

datatype LogError = LogIo | LogOther

definition LogEntry_success :: "string \<Rightarrow> datetime \<Rightarrow> string \<Rightarrow> string option \<Rightarrow> string \<Rightarrow> LogEntry" where
  "LogEntry_success uid now operation_type target_id details =
     \<lparr> lo_id = uid, lo_timestamp = now, lo_operation_type = operation_type, lo_target_id = target_id,
       lo_details = details, lo_result = LogSuccess \<rparr>"

definition LogEntry_failure :: "string \<Rightarrow> datetime \<Rightarrow> string \<Rightarrow> string option \<Rightarrow> string \<Rightarrow> LogEntry" where
  "LogEntry_failure uid now operation_type target_id details =
     \<lparr> lo_id = uid, lo_timestamp = now, lo_operation_type = operation_type, lo_target_id = target_id,
       lo_details = details, lo_result = LogFailure \<rparr>"

text \<open>The filters and the limit that both providers apply to the entries in order.\<close>

definition select_logs ::
    "string option \<Rightarrow> string option \<Rightarrow> datetime option \<Rightarrow> datetime option \<Rightarrow> nat option \<Rightarrow> LogEntry list \<Rightarrow> LogEntry list" where
  "select_logs operation_type target_id start_time end_time limit es =
     (let filtered =
        filter (\<lambda>e. case end_time of None \<Rightarrow> True | Some t \<Rightarrow> lo_timestamp e \<le> t)
         (filter (\<lambda>e. case start_time of None \<Rightarrow> True | Some t \<Rightarrow> t \<le> lo_timestamp e)
           (filter (\<lambda>e. case target_id of None \<Rightarrow> True
                        | Some i \<Rightarrow> (case lo_target_id e of None \<Rightarrow> False | Some tid \<Rightarrow> tid = i))
             (filter (\<lambda>e. case operation_type of None \<Rightarrow> True | Some op \<Rightarrow> lo_operation_type e = op) es)))
      in case limit of Some l \<Rightarrow> take l filtered | None \<Rightarrow> filtered)"

subsection \<open>In memory\<close>

record InMemoryLog =
  ml_entries :: "LogEntry list"

definition InMemoryLog_new :: InMemoryLog where
  "InMemoryLog_new = \<lparr> ml_entries = [] \<rparr>"

definition InMemoryLog_write_log :: "LogEntry \<Rightarrow> InMemoryLog \<Rightarrow> (LogError + unit) \<times> InMemoryLog" where
  "InMemoryLog_write_log e s = (Inr (), s \<lparr> ml_entries := ml_entries s @ [e] \<rparr>)"

definition InMemoryLog_query_logs ::
    "string option \<Rightarrow> string option \<Rightarrow> datetime option \<Rightarrow> datetime option \<Rightarrow> nat option \<Rightarrow> InMemoryLog \<Rightarrow> LogError + LogEntry list" where
  "InMemoryLog_query_logs op tid st en lim s = Inr (select_logs op tid st en lim (ml_entries s))"

subsection \<open>On disk\<close>

text \<open>\<^verbatim>\<open>str::lines\<close>: the pieces between line feeds, each without a final carriage return, and no empty piece after the last
  line feed.\<close>

definition nl :: char where "nl = CHR 0x0A"
definition cr :: char where "cr = CHR 0x0D"

definition strip_cr :: "string \<Rightarrow> string" where
  "strip_cr l = (if l \<noteq> [] \<and> last l = cr then butlast l else l)"

fun split_nl :: "string \<Rightarrow> string \<Rightarrow> string list" where
  "split_nl acc [] = (if acc = [] then [] else [acc])"
| "split_nl acc (c # cs) = (if c = nl then strip_cr acc # split_nl [] cs else split_nl (acc @ [c]) cs)"

definition str_lines :: "string \<Rightarrow> string list" where
  "str_lines s = split_nl [] s"

text \<open>\<^verbatim>\<open>trim().is_empty()\<close> on ASCII white space.\<close>

definition is_space :: "char \<Rightarrow> bool" where
  "is_space c = (c \<in> {CHR 0x09, CHR 0x0A, CHR 0x0B, CHR 0x0C, CHR 0x0D, CHR 0x20})"

definition blank :: "string \<Rightarrow> bool" where
  "blank l = list_all is_space l"

record FileSystemLog =
  fl_exists :: bool
  fl_content :: string

definition FileSystemLog_new :: "FileSystemLog \<Rightarrow> FileSystemLog" where
  "FileSystemLog_new disk = (if fl_exists disk then disk else \<lparr> fl_exists = True, fl_content = [] \<rparr>)"

definition load_all_logs :: "(string \<Rightarrow> LogEntry option) \<Rightarrow> FileSystemLog \<Rightarrow> LogEntry list" where
  "load_all_logs deser s =
     (if \<not> fl_exists s then []
      else List.map_filter deser (filter (\<lambda>l. \<not> blank l) (str_lines (fl_content s))))"

definition append_line :: "string \<Rightarrow> FileSystemLog \<Rightarrow> FileSystemLog" where
  "append_line l s = s \<lparr> fl_content := fl_content s @ l @ [nl] \<rparr>"

definition FileSystemLog_write_log ::
    "(LogEntry \<Rightarrow> string option) \<Rightarrow> LogEntry \<Rightarrow> FileSystemLog \<Rightarrow> (LogError + unit) \<times> FileSystemLog" where
  "FileSystemLog_write_log ser e s =
     (case ser e of None \<Rightarrow> (Inl LogOther, s) | Some l \<Rightarrow> (Inr (), append_line l s))"

definition FileSystemLog_query_logs ::
    "(string \<Rightarrow> LogEntry option) \<Rightarrow>
     string option \<Rightarrow> string option \<Rightarrow> datetime option \<Rightarrow> datetime option \<Rightarrow> nat option \<Rightarrow> FileSystemLog \<Rightarrow> LogError + LogEntry list" where
  "FileSystemLog_query_logs deser op tid st en lim s = Inr (select_logs op tid st en lim (load_all_logs deser s))"

section \<open>The log contract\<close>

text \<open>An append-only log: what is written is read back at the end.\<close>

locale append_log =
  fixes put :: "'e \<Rightarrow> 's \<Rightarrow> 's"
    and entries :: "'s \<Rightarrow> 'e list"
    and valid :: "'e \<Rightarrow> bool"
    and ok :: "'s \<Rightarrow> bool"
  assumes write_ok: "ok s \<Longrightarrow> valid e \<Longrightarrow> ok (put e s)"
    and write_entries: "ok s \<Longrightarrow> valid e \<Longrightarrow> entries (put e s) = entries s @ [e]"
begin

lemma write_all: "ok s \<Longrightarrow> \<forall>e\<in>set es. valid e \<Longrightarrow> ok (fold put es s) \<and> entries (fold put es s) = entries s @ es"
  by (induction es arbitrary: s) (simp_all add: write_ok write_entries)

end

interpretation mem_log: append_log "\<lambda>e s. snd (InMemoryLog_write_log e s)" ml_entries "\<lambda>e. True" "\<lambda>s. True"
  by unfold_locales (simp_all add: InMemoryLog_write_log_def)

text \<open>A line that survives: not blank, no line feed, no carriage return.\<close>

definition valid_line :: "string \<Rightarrow> bool" where
  "valid_line l \<longleftrightarrow> \<not> blank l \<and> nl \<notin> set l \<and> cr \<notin> set l"

definition log_lines :: "FileSystemLog \<Rightarrow> string list" where
  "log_lines s = filter (\<lambda>l. \<not> blank l) (str_lines (fl_content s))"

definition log_file_ok :: "FileSystemLog \<Rightarrow> bool" where
  "log_file_ok s \<longleftrightarrow> fl_exists s \<and> (fl_content s = [] \<or> last (fl_content s) = nl)"

lemma split_nl_line: "nl \<notin> set l \<Longrightarrow> split_nl acc (l @ nl # cs) = strip_cr (acc @ l) # split_nl [] cs"
  by (induction l arbitrary: acc) auto

lemma split_nl_append: "split_nl acc (xs @ [nl] @ ys) = split_nl acc (xs @ [nl]) @ split_nl [] ys"
  by (induction xs arbitrary: acc) auto

lemma append_line_lines:
  assumes "log_file_ok s" "valid_line l"
  shows "log_lines (append_line l s) = log_lines s @ [l]"
proof -
  have "strip_cr l = l" using assms(2) by (auto simp: strip_cr_def valid_line_def) (metis last_in_set)
  then have l: "split_nl [] (l @ [nl]) = [l]" using split_nl_line [of l "[]" "[]"] assms(2) by (simp add: valid_line_def)
  have "split_nl [] (fl_content s @ l @ [nl]) = split_nl [] (fl_content s) @ [l]"
  proof (cases "fl_content s = []")
    case False
    then obtain xs where "fl_content s = xs @ [nl]" using assms(1) by (metis log_file_ok_def append_butlast_last_id)
    then show ?thesis using split_nl_append [of "[]" xs "l @ [nl]"] l by simp
  qed (simp add: l)
  then show ?thesis using assms(2) by (simp add: log_lines_def str_lines_def append_line_def valid_line_def)
qed

interpretation file_log: append_log append_line log_lines valid_line log_file_ok
  by unfold_locales (simp_all add: append_line_lines, simp add: log_file_ok_def append_line_def)

text \<open>
  The two log providers answer alike: after writing any sequence of entries to a new log, every query gives the same answer from the
  file as from memory, provided the serialiser writes each entry as one line that is not blank and reads it back.
\<close>

theorem file_log_equiv_memory:
  assumes "\<forall>e\<in>set es. \<exists>l. ser e = Some l \<and> valid_line l \<and> deser l = Some e"
  shows "FileSystemLog_query_logs deser op tid st en lim
           (fold (\<lambda>e s. snd (FileSystemLog_write_log ser e s)) es (FileSystemLog_new \<lparr> fl_exists = False, fl_content = [] \<rparr>)) =
         InMemoryLog_query_logs op tid st en lim (fold (\<lambda>e s. snd (InMemoryLog_write_log e s)) es InMemoryLog_new)"
proof -
  define line where "line e = the (ser e)" for e
  let ?s0 = "FileSystemLog_new \<lparr> fl_exists = False, fl_content = [] \<rparr>"
  have line: "ser e = Some (line e)" "valid_line (line e)" "deser (line e) = Some e" if "e \<in> set es" for e
    using assms that by (fastforce simp: line_def)+
  have "fold (\<lambda>e s. snd (FileSystemLog_write_log ser e s)) es s = fold append_line (map line es) s" for s
    using line(1) by (induction es arbitrary: s) (simp_all add: FileSystemLog_write_log_def)
  moreover have "log_file_ok ?s0" "log_lines ?s0 = []"
    by (simp_all add: FileSystemLog_new_def log_file_ok_def log_lines_def str_lines_def)
  ultimately have "log_file_ok (fold (\<lambda>e s. snd (FileSystemLog_write_log ser e s)) es ?s0) \<and>
      log_lines (fold (\<lambda>e s. snd (FileSystemLog_write_log ser e s)) es ?s0) = map line es"
    using file_log.write_all [of ?s0 "map line es"] line(2) by simp
  moreover have "List.map_filter deser (map line es) = es"
    using line(3) by (induction es) (simp_all add: map_filter_simps)
  ultimately have "load_all_logs deser (fold (\<lambda>e s. snd (FileSystemLog_write_log ser e s)) es ?s0) = es"
    by (simp add: load_all_logs_def log_lines_def log_file_ok_def)
  then show ?thesis
    using mem_log.write_all [where s = InMemoryLog_new and es = es]
    by (simp add: FileSystemLog_query_logs_def InMemoryLog_query_logs_def InMemoryLog_new_def)
qed

text \<open>A serialiser that shows the hypotheses can hold: the entry's id alone, for entries that are determined by it.\<close>

definition id_entry :: "string \<Rightarrow> LogEntry" where
  "id_entry i = LogEntry_success i 0 ''op'' None []"

theorem file_log_equiv_memory_witness:
  "FileSystemLog_query_logs (\<lambda>l. Some (id_entry l)) None None None None (Some 1)
     (fold (\<lambda>e s. snd (FileSystemLog_write_log (\<lambda>e. Some (lo_id e)) e s)) [id_entry ''a'', id_entry ''b'']
       (FileSystemLog_new \<lparr> fl_exists = False, fl_content = [] \<rparr>)) = Inr [id_entry ''a'']"
proof -
  have "\<forall>e\<in>set [id_entry ''a'', id_entry ''b'']. \<exists>l. Some (lo_id e) = Some l \<and> valid_line l \<and> Some (id_entry l) = Some e"
    by (simp add: id_entry_def LogEntry_success_def valid_line_def blank_def is_space_def nl_def cr_def)
  from file_log_equiv_memory [OF this, of None None None None "Some 1"] show ?thesis
    by (simp add: InMemoryLog_query_logs_def InMemoryLog_write_log_def InMemoryLog_new_def select_logs_def)
qed

section \<open>Storage\<close>

datatype StorageType = StOrder | StAccount | StTrade

fun StorageType_as_str :: "StorageType \<Rightarrow> string" where
  "StorageType_as_str StOrder = ''orders''"
| "StorageType_as_str StAccount = ''accounts''"
| "StorageType_as_str StTrade = ''trades''"

datatype StorageError = StIo | StSerialization | StNotFound string | StOther

type_synonym bytes = "u8 list"
type_synonym skey = "StorageType \<times> string"

text \<open>\<^verbatim>\<open>Path::join\<close>: an absolute second part replaces the first.\<close>

definition path_join :: "string \<Rightarrow> string \<Rightarrow> string" where
  "path_join base p = (if p \<noteq> [] \<and> hd p = CHR 0x2F then p else base @ CHR 0x2F # p)"

definition not_found :: "skey \<Rightarrow> StorageError" where
  "not_found k = StNotFound (StorageType_as_str (fst k) @ '' with id '' @ snd k @ '' not found'')"

definition decode :: "(bytes \<Rightarrow> 'a option) \<Rightarrow> bytes \<Rightarrow> StorageError + 'a" where
  "decode deser b = (case deser b of Some x \<Rightarrow> Inr x | None \<Rightarrow> Inl StSerialization)"

subsection \<open>In memory\<close>

record InMemoryStorage =
  ms_data :: "(skey, bytes) hashmap"

definition InMemoryStorage_new :: InMemoryStorage where
  "InMemoryStorage_new = \<lparr> ms_data = [] \<rparr>"

definition InMemoryStorage_save ::
    "('a \<Rightarrow> bytes option) \<Rightarrow> skey \<Rightarrow> 'a \<Rightarrow> InMemoryStorage \<Rightarrow> (StorageError + unit) \<times> InMemoryStorage" where
  "InMemoryStorage_save ser k x s =
     (case ser x of None \<Rightarrow> (Inl StSerialization, s) | Some b \<Rightarrow> (Inr (), s \<lparr> ms_data := hm_insert k b (ms_data s) \<rparr>))"

definition InMemoryStorage_load :: "(bytes \<Rightarrow> 'a option) \<Rightarrow> skey \<Rightarrow> InMemoryStorage \<Rightarrow> StorageError + 'a" where
  "InMemoryStorage_load deser k s =
     (case hm_get (ms_data s) k of Some b \<Rightarrow> decode deser b | None \<Rightarrow> Inl (not_found k))"

definition InMemoryStorage_delete :: "skey \<Rightarrow> InMemoryStorage \<Rightarrow> (StorageError + unit) \<times> InMemoryStorage" where
  "InMemoryStorage_delete k s = (Inr (), s \<lparr> ms_data := hm_remove k (ms_data s) \<rparr>)"

text \<open>Deserialising stops at the first error.\<close>

fun decode_all :: "(bytes \<Rightarrow> 'a option) \<Rightarrow> bytes list \<Rightarrow> StorageError + 'a list" where
  "decode_all deser [] = Inr []"
| "decode_all deser (b # bs) =
     (case decode deser b of
        Inl e \<Rightarrow> Inl e
      | Inr x \<Rightarrow> (case decode_all deser bs of Inl e \<Rightarrow> Inl e | Inr xs \<Rightarrow> Inr (x # xs)))"

definition InMemoryStorage_list :: "(bytes \<Rightarrow> 'a option) \<Rightarrow> StorageType \<Rightarrow> InMemoryStorage \<Rightarrow> StorageError + 'a list" where
  "InMemoryStorage_list deser ty s = decode_all deser (map snd (filter (\<lambda>((t, _), _). t = ty) (ms_data s)))"

subsection \<open>On disk\<close>

record FileSystemStorage =
  fs_base_dir :: string
  fs_cache :: "(skey, bytes) hashmap"
  fs_files :: "(string, bytes) hashmap"

definition get_file_path :: "FileSystemStorage \<Rightarrow> skey \<Rightarrow> string" where
  "get_file_path s k = path_join (path_join (fs_base_dir s) (StorageType_as_str (fst k))) (snd k @ ''.bin'')"

text \<open>\<open>fault\<close> says for which paths opening, reading or removing a file fails.\<close>

definition FileSystemStorage_save ::
    "(string \<Rightarrow> bool) \<Rightarrow> ('a \<Rightarrow> bytes option) \<Rightarrow> skey \<Rightarrow> 'a \<Rightarrow> FileSystemStorage \<Rightarrow> (StorageError + unit) \<times> FileSystemStorage" where
  "FileSystemStorage_save fault ser k x s =
     (case ser x of
        None \<Rightarrow> (Inl StSerialization, s)
      | Some b \<Rightarrow>
          (let s1 = s \<lparr> fs_cache := hm_insert k b (fs_cache s) \<rparr>; p = get_file_path s k
           in if fault p then (Inl StIo, s1)
              else (Inr (), s1 \<lparr> fs_files := hm_insert p b (fs_files s1) \<rparr>)))"

definition FileSystemStorage_load ::
    "(string \<Rightarrow> bool) \<Rightarrow> (bytes \<Rightarrow> 'a option) \<Rightarrow> skey \<Rightarrow> FileSystemStorage \<Rightarrow> (StorageError + 'a) \<times> FileSystemStorage" where
  "FileSystemStorage_load fault deser k s =
     (case hm_get (fs_cache s) k of
        Some b \<Rightarrow> (decode deser b, s)
      | None \<Rightarrow>
          (let p = get_file_path s k
           in case hm_get (fs_files s) p of
                None \<Rightarrow> (Inl (not_found k), s)
              | Some b \<Rightarrow>
                  (if fault p then (Inl StIo, s)
                   else (decode deser b, s \<lparr> fs_cache := hm_insert k b (fs_cache s) \<rparr>))))"

definition FileSystemStorage_delete ::
    "(string \<Rightarrow> bool) \<Rightarrow> skey \<Rightarrow> FileSystemStorage \<Rightarrow> (StorageError + unit) \<times> FileSystemStorage" where
  "FileSystemStorage_delete fault k s =
     (let p = get_file_path s k; s1 = s \<lparr> fs_cache := hm_remove k (fs_cache s) \<rparr>
      in if hm_contains (fs_files s) p then
           (if fault p then (Inl StIo, s1) else (Inr (), s1 \<lparr> fs_files := hm_remove p (fs_files s1) \<rparr>))
         else (Inr (), s1))"

text \<open>\<^verbatim>\<open>create_dir_all\<close> of the four directories; afterwards they exist.\<close>

definition FileSystemStorage_new :: "(string \<Rightarrow> bool) \<Rightarrow> string \<Rightarrow> (string, bytes) hashmap \<Rightarrow> StorageError + FileSystemStorage" where
  "FileSystemStorage_new fault base files =
     (if fault base \<or> fault (path_join base (StorageType_as_str StOrder)) \<or> fault (path_join base (StorageType_as_str StAccount))
         \<or> fault (path_join base (StorageType_as_str StTrade))
      then Inl StIo else Inr \<lparr> fs_base_dir = base, fs_cache = [], fs_files = files \<rparr>)"

text \<open>The name of an entry of a directory, and \<^verbatim>\<open>Path::extension\<close> of a name: what follows its last dot, none when nothing precedes that dot.\<close>

definition entry_name :: "string \<Rightarrow> string \<Rightarrow> string option" where
  "entry_name dir p =
     (let n = Suc (length dir) in if take n p = dir @ [CHR 0x2F] \<and> CHR 0x2F \<notin> set (drop n p) then Some (drop n p) else None)"

definition path_extension :: "string \<Rightarrow> string option" where
  "path_extension name =
     (let ext = rev (takeWhile (\<lambda>c. c \<noteq> CHR 0x2E) (rev name))
      in if CHR 0x2E \<in> set name \<and> Suc (length ext) < length name then Some ext else None)"

fun list_entries :: "(string \<Rightarrow> bool) \<Rightarrow> (bytes \<Rightarrow> 'a option) \<Rightarrow> string \<Rightarrow> (string, bytes) hashmap \<Rightarrow> StorageError + 'a list" where
  "list_entries fault deser dir [] = Inr []"
| "list_entries fault deser dir ((p, b) # es) =
     (if Option.bind (entry_name dir p) path_extension = Some ''bin''
      then (if fault p then Inl StIo
            else case decode deser b of
                   Inl e \<Rightarrow> Inl e
                 | Inr x \<Rightarrow> (case list_entries fault deser dir es of Inl e \<Rightarrow> Inl e | Inr xs \<Rightarrow> Inr (x # xs)))
      else list_entries fault deser dir es)"

definition FileSystemStorage_list :: "(string \<Rightarrow> bool) \<Rightarrow> (bytes \<Rightarrow> 'a option) \<Rightarrow> StorageType \<Rightarrow> FileSystemStorage \<Rightarrow> StorageError + 'a list" where
  "FileSystemStorage_list fault deser ty s =
     (let dir = path_join (fs_base_dir s) (StorageType_as_str ty)
      in if fault dir then Inl StIo else list_entries fault deser dir (fs_files s))"

section \<open>The storage contract\<close>

text \<open>What the trait promises on the level of bytes, for the keys a client may use. \<open>fetch\<close> is the answer a load is made of.\<close>

locale blob_store =
  fixes put :: "'k \<Rightarrow> 'b \<Rightarrow> 's \<Rightarrow> 's"
    and del :: "'k \<Rightarrow> 's \<Rightarrow> 's"
    and fetch :: "'s \<Rightarrow> 'k \<Rightarrow> 'b option"
    and ok :: "'s \<Rightarrow> bool"
    and key :: "'k \<Rightarrow> bool"
  assumes put_ok: "ok s \<Longrightarrow> key k \<Longrightarrow> ok (put k b s)"
    and del_ok: "ok s \<Longrightarrow> key k \<Longrightarrow> ok (del k s)"
    and fetch_put: "ok s \<Longrightarrow> key k \<Longrightarrow> key k' \<Longrightarrow> fetch (put k b s) k' = (if k' = k then Some b else fetch s k')"
    and fetch_del: "ok s \<Longrightarrow> key k \<Longrightarrow> key k' \<Longrightarrow> fetch (del k s) k' = (if k' = k then None else fetch s k')"
begin

text \<open>A history of saves (\<open>Some\<close>) and deletions (\<open>None\<close>): the last operation on a key decides.\<close>

definition play :: "('k \<times> 'b option) \<Rightarrow> 's \<Rightarrow> 's" where
  "play h s = (case snd h of Some b \<Rightarrow> put (fst h) b s | None \<Rightarrow> del (fst h) s)"

lemma play_history:
  "ok s \<Longrightarrow> \<forall>h\<in>set hs. key (fst h) \<Longrightarrow> key k \<Longrightarrow>
   ok (fold play hs s) \<and>
   fetch (fold play hs s) k = (case map_of (rev hs) k of Some r \<Rightarrow> r | None \<Rightarrow> fetch s k)"
proof (induction hs rule: rev_induct)
  case (snoc h hs)
  then show ?case by (cases h; cases "snd h") (auto simp: play_def put_ok del_ok fetch_put fetch_del)
qed simp

end

text \<open>Bytes put into and taken out of the two providers, the second without faults.\<close>

definition mem_put :: "skey \<Rightarrow> bytes \<Rightarrow> InMemoryStorage \<Rightarrow> InMemoryStorage" where
  "mem_put k b s = snd (InMemoryStorage_save Some k b s)"

definition mem_del :: "skey \<Rightarrow> InMemoryStorage \<Rightarrow> InMemoryStorage" where
  "mem_del k s = snd (InMemoryStorage_delete k s)"

definition disk_put :: "skey \<Rightarrow> bytes \<Rightarrow> FileSystemStorage \<Rightarrow> FileSystemStorage" where
  "disk_put k b s = snd (FileSystemStorage_save (\<lambda>p. False) Some k b s)"

definition disk_del :: "skey \<Rightarrow> FileSystemStorage \<Rightarrow> FileSystemStorage" where
  "disk_del k s = snd (FileSystemStorage_delete (\<lambda>p. False) k s)"

definition disk_fetch :: "FileSystemStorage \<Rightarrow> skey \<Rightarrow> bytes option" where
  "disk_fetch s k = (case fst (FileSystemStorage_load (\<lambda>p. False) Some k s) of Inr b \<Rightarrow> Some b | Inl e \<Rightarrow> None)"

text \<open>The ids a client may use: those that do not start with a slash, which \<^verbatim>\<open>join\<close> would take for an absolute path.\<close>

definition plain_key :: "skey \<Rightarrow> bool" where
  "plain_key k \<longleftrightarrow> snd k = [] \<or> hd (snd k) \<noteq> CHR 0x2F"

definition cache_ok :: "FileSystemStorage \<Rightarrow> bool" where
  "cache_ok s \<longleftrightarrow> (\<forall>k b. plain_key k \<longrightarrow> hm_get (fs_cache s) k = Some b \<longrightarrow> hm_get (fs_files s) (get_file_path s k) = Some b)"

lemma cache_okD: "cache_ok s \<Longrightarrow> plain_key k \<Longrightarrow> hm_get (fs_cache s) k = Some b \<Longrightarrow> hm_get (fs_files s) (get_file_path s k) = Some b"
  unfolding cache_ok_def by blast

lemma as_str_head: "\<exists>c cs. StorageType_as_str t = c # cs \<and> c \<noteq> CHR 0x2F"
  by (cases t) auto

lemma file_path_plain:
  "plain_key k \<Longrightarrow> get_file_path s k = fs_base_dir s @ CHR 0x2F # StorageType_as_str (fst k) @ CHR 0x2F # snd k @ ''.bin''"
  using as_str_head [of "fst k"] by (cases "snd k") (auto simp: get_file_path_def path_join_def plain_key_def)

lemma as_str_inject: "StorageType_as_str t @ x = StorageType_as_str t' @ y \<Longrightarrow> t = t' \<and> x = y"
  by (cases t; cases t') auto

lemma file_path_inject: "plain_key k \<Longrightarrow> plain_key k' \<Longrightarrow> get_file_path s k = get_file_path s k' \<longleftrightarrow> k = k'"
  by (auto simp: file_path_plain prod_eq_iff dest!: as_str_inject)

lemma path_base [simp]:
  "get_file_path (s \<lparr> fs_cache := c \<rparr>) k = get_file_path s k" "get_file_path (s \<lparr> fs_files := f \<rparr>) k = get_file_path s k"
  by (simp_all add: get_file_path_def)

lemma disk_fetch_files: "cache_ok s \<Longrightarrow> plain_key k \<Longrightarrow> disk_fetch s k = hm_get (fs_files s) (get_file_path s k)"
  using cache_okD [of s k]
  by (cases "hm_get (fs_cache s) k"; cases "hm_get (fs_files s) (get_file_path s k)")
    (simp_all add: disk_fetch_def FileSystemStorage_load_def decode_def)

lemma disk_put_simps:
  "fs_files (disk_put k b s) = hm_insert (get_file_path s k) b (fs_files s)"
  "fs_cache (disk_put k b s) = hm_insert k b (fs_cache s)" "fs_base_dir (disk_put k b s) = fs_base_dir s"
  by (simp_all add: disk_put_def FileSystemStorage_save_def Let_def)

lemma disk_del_simps:
  "fs_files (disk_del k s) = hm_remove (get_file_path s k) (fs_files s)"
  "fs_cache (disk_del k s) = hm_remove k (fs_cache s)" "fs_base_dir (disk_del k s) = fs_base_dir s"
  by (simp_all add: disk_del_def FileSystemStorage_delete_def Let_def)

lemma path_same_base: "fs_base_dir s' = fs_base_dir s \<Longrightarrow> get_file_path s' k = get_file_path s k"
  by (simp add: get_file_path_def)

lemma cache_ok_put: "cache_ok s \<Longrightarrow> plain_key k \<Longrightarrow> cache_ok (disk_put k b s)"
  by (auto simp: cache_ok_def disk_put_simps path_same_base [of "disk_put k b s" s] file_path_inject)

lemma cache_ok_del: "cache_ok s \<Longrightarrow> plain_key k \<Longrightarrow> cache_ok (disk_del k s)"
  by (auto simp: cache_ok_def disk_del_simps path_same_base [of "disk_del k s" s] file_path_inject)

interpretation mem_store: blob_store mem_put mem_del "\<lambda>s. hm_get (ms_data s)" "\<lambda>s. True" "\<lambda>k. True"
  by unfold_locales (simp_all add: mem_put_def mem_del_def InMemoryStorage_save_def InMemoryStorage_delete_def)

interpretation disk_store: blob_store disk_put disk_del disk_fetch cache_ok plain_key
  by unfold_locales
    (simp_all add: cache_ok_put cache_ok_del disk_fetch_files disk_put_simps disk_del_simps path_same_base [of "disk_put k b s" s for k b s]
      path_same_base [of "disk_del k s" s for k s] file_path_inject)



text \<open>A failed save is still visible: when the file cannot be written the save reports an error, but the cache already holds the
  new bytes and a load answers with them, although the disk has the old content.\<close>

theorem failed_save_visible:
  assumes "ser x = Some b" "deser b = Some x" "fault (get_file_path s k)"
  shows "let (r, s') = FileSystemStorage_save fault ser k x s
         in r = Inl StIo \<and> fs_files s' = fs_files s \<and> fst (FileSystemStorage_load fault deser k s') = Inr x"
  using assms by (simp add: FileSystemStorage_save_def FileSystemStorage_load_def decode_def Let_def)

section \<open>Listing a directory\<close>

text \<open>Ids whose files lie in the directory of their type and have the extension that the listing looks for.\<close>

definition simple_key :: "skey \<Rightarrow> bool" where
  "simple_key k \<longleftrightarrow> snd k \<noteq> [] \<and> CHR 0x2F \<notin> set (snd k)"

lemma simple_plain: "simple_key k \<Longrightarrow> plain_key k"
  by (cases "snd k") (auto simp: simple_key_def plain_key_def)

lemma extension_bin: "i \<noteq> [] \<Longrightarrow> path_extension (i @ ''.bin'') = Some ''bin''"
  by (simp add: path_extension_def)

lemma type_dir: "path_join base (StorageType_as_str ty) = base @ CHR 0x2F # StorageType_as_str ty"
  by (cases ty) (simp_all add: path_join_def)

lemma entry_name_key:
  assumes "simple_key k"
  shows "entry_name (path_join (fs_base_dir s) (StorageType_as_str ty)) (get_file_path s k) = (if fst k = ty then Some (snd k @ ''.bin'') else None)"
  using assms unfolding file_path_plain [OF simple_plain [OF assms]] type_dir
  by (cases ty; cases "fst k") (simp_all add: entry_name_def simple_key_def)

definition files_ok :: "FileSystemStorage \<Rightarrow> bool" where
  "files_ok s \<longleftrightarrow> hm_ok (fs_files s) \<and> (\<forall>p\<in>set (hm_keys (fs_files s)). \<exists>k. simple_key k \<and> p = get_file_path s k)"

lemma files_ok_put: "files_ok s \<Longrightarrow> simple_key k \<Longrightarrow> files_ok (disk_put k b s)"
  unfolding files_ok_def path_same_base [of "disk_put k b s" s, OF disk_put_simps(3)]
  by (auto simp: disk_put_simps set_hm_insert_ok) (metis prod.collapse)

lemma files_ok_del: "files_ok s \<Longrightarrow> files_ok (disk_del k s)"
  unfolding files_ok_def path_same_base [of "disk_del k s" s, OF disk_del_simps(3)]
  by (auto simp: disk_del_simps set_hm_remove)

lemma list_entries_select:
  "list_entries (\<lambda>p. False) Some dir es = Inr (map snd (filter (\<lambda>(p, b). Option.bind (entry_name dir p) path_extension = Some ''bin'') es))"
  by (induction es) (auto simp: decode_def)

text \<open>The listing of a directory holds the bytes of exactly the ids of that type that a load finds.\<close>

lemma disk_list_fetches:
  assumes "cache_ok s" and "files_ok s"
  shows "\<exists>bs. FileSystemStorage_list (\<lambda>p. False) Some ty s = Inr bs \<and> set bs = {b. \<exists>k. simple_key k \<and> fst k = ty \<and> disk_fetch s k = Some b}"
proof -
  let ?dir = "path_join (fs_base_dir s) (StorageType_as_str ty)"
  let ?sel = "\<lambda>(p, b). Option.bind (entry_name ?dir p) path_extension = Some ''bin''"
  have sel: "?sel (get_file_path s k, b) \<longleftrightarrow> fst k = ty" if "simple_key k" for k b
    using entry_name_key [OF that, of s ty] extension_bin [of "snd k"] that by (auto simp: simple_key_def)
  have fetch: "disk_fetch s k = Some b \<longleftrightarrow> (get_file_path s k, b) \<in> set (fs_files s)" if "simple_key k" for k b
    using disk_fetch_files [OF assms(1) simple_plain [OF that]] hm_mem_get [of "fs_files s"] assms(2) by (simp add: files_ok_def)
  have "b \<in> snd ` {e \<in> set (fs_files s). ?sel e} \<longleftrightarrow> (\<exists>k. simple_key k \<and> fst k = ty \<and> disk_fetch s k = Some b)" for b
  proof
    assume "b \<in> snd ` {e \<in> set (fs_files s). ?sel e}"
    then obtain p where p: "(p, b) \<in> set (fs_files s)" "?sel (p, b)" by auto
    then obtain k where k: "simple_key k" "p = get_file_path s k" using assms(2) by (auto simp: files_ok_def)
    have "fst k = ty" by (rule iffD1 [OF sel [OF k(1)] p(2) [unfolded k(2)]])
    moreover have "disk_fetch s k = Some b" by (rule iffD2 [OF fetch [OF k(1)] p(1) [unfolded k(2)]])
    ultimately show "\<exists>k. simple_key k \<and> fst k = ty \<and> disk_fetch s k = Some b" using k(1) by blast
  next
    assume "\<exists>k. simple_key k \<and> fst k = ty \<and> disk_fetch s k = Some b"
    then obtain k where k: "simple_key k" "fst k = ty" "disk_fetch s k = Some b" by blast
    have "?sel (get_file_path s k, b)" by (rule iffD2 [OF sel [OF k(1)] k(2)])
    moreover have "(get_file_path s k, b) \<in> set (fs_files s)" by (rule iffD1 [OF fetch [OF k(1)] k(3)])
    ultimately show "b \<in> snd ` {e \<in> set (fs_files s). ?sel e}" by (metis (mono_tags, lifting) imageI mem_Collect_eq snd_conv)
  qed
  then show ?thesis by (auto simp: FileSystemStorage_list_def list_entries_select)
qed

text \<open>An object saved under the empty id is loaded but never listed: its file is called \<^verbatim>\<open>.bin\<close>, which has no extension.\<close>

theorem empty_id_not_listed:
  "let s = disk_put (ty, []) b \<lparr> fs_base_dir = base, fs_cache = [], fs_files = [] \<rparr>
   in disk_fetch s (ty, []) = Some b \<and> FileSystemStorage_list (\<lambda>p. False) Some ty s = Inr []"
proof -
  let ?s0 = "\<lparr> fs_base_dir = base, fs_cache = [], fs_files = [] \<rparr>"
  have ok: "cache_ok ?s0" "plain_key (ty, [])" by (simp_all add: cache_ok_def plain_key_def)
  have "entry_name (path_join base (StorageType_as_str ty)) (get_file_path ?s0 (ty, [])) = Some ''.bin''"
    unfolding file_path_plain [OF ok(2)] type_dir by (simp add: entry_name_def)
  moreover have "path_extension ''.bin'' = None" by (simp add: path_extension_def)
  ultimately show ?thesis
    using disk_store.fetch_put [OF ok ok(2)] by (simp add: Let_def FileSystemStorage_list_def list_entries_select disk_put_simps)
qed

end
