(* ===== verification/Snapshots.thy ===== *)
theory Snapshots
  imports Persistence
begin

text \<open>
  Snapshots of the trading system (\<^verbatim>\<open>trading/src/persistence/snapshot.rs\<close>): the snapshot and its metadata, the provider in memory, and the provider on disk with one file per snapshot, one file with all metadata
  and a cache. The codecs (bincode for snapshots, JSON for metadata) are a record of functions; \<open>fault\<close> says for which paths the file system fails.

  The lemmas show that asking for the latest snapshot never fails and gives a newest one, that both providers promise the same (the locale \<open>snapshot_store\<close>), so that they answer alike after any
  history, and what a fault in the middle of a save leaves behind.
\<close>

section \<open>Snapshots in memory\<close>

record SnapshotMetadata =
  sd_id :: string
  sd_created_at :: datetime
  sd_description :: "string option"
  sd_version :: string
  sd_node_id :: string

record SystemSnapshot =
  ss_metadata :: SnapshotMetadata
  ss_data :: string

datatype SnapshotError = SnIo | SnSerialization | SnJson | SnNotFound string | SnOther string

definition SystemSnapshot_new ::
    "('a \<Rightarrow> string option) \<Rightarrow> string \<Rightarrow> datetime \<Rightarrow> string \<Rightarrow> string option \<Rightarrow> string \<Rightarrow> 'a \<Rightarrow> SnapshotError + SystemSnapshot" where
  "SystemSnapshot_new ser uid now node_id description version x =
     (case ser x of
        None \<Rightarrow> Inl (SnOther ''Failed to serialize snapshot data'')
      | Some js \<Rightarrow> Inr \<lparr> ss_metadata = \<lparr> sd_id = uid, sd_created_at = now, sd_description = description,
                                        sd_version = version, sd_node_id = node_id \<rparr>, ss_data = js \<rparr>)"

definition SystemSnapshot_restore :: "(string \<Rightarrow> 'a option) \<Rightarrow> SystemSnapshot \<Rightarrow> SnapshotError + 'a" where
  "SystemSnapshot_restore deser s = (case deser (ss_data s) of Some x \<Rightarrow> Inr x | None \<Rightarrow> Inl SnJson)"

record InMemorySnapshot =
  im_snapshots :: "(string, SystemSnapshot) hashmap"
  im_metadata :: "SnapshotMetadata list"

definition InMemorySnapshot_new :: InMemorySnapshot where
  "InMemorySnapshot_new = \<lparr> im_snapshots = [], im_metadata = [] \<rparr>"

text \<open>\<^verbatim>\<open>sort_by(|a, b| b.created_at.cmp(&a.created_at))\<close>: stable, newest first.\<close>

definition newest_first :: "SnapshotMetadata list \<Rightarrow> SnapshotMetadata list" where
  "newest_first ms = sort_key (\<lambda>m. - sd_created_at m) ms"

definition InMemorySnapshot_save :: "SystemSnapshot \<Rightarrow> InMemorySnapshot \<Rightarrow> InMemorySnapshot" where
  "InMemorySnapshot_save sn s =
     s \<lparr> im_snapshots := hm_insert (sd_id (ss_metadata sn)) sn (im_snapshots s),
         im_metadata := newest_first (im_metadata s @ [ss_metadata sn]) \<rparr>"

definition InMemorySnapshot_load :: "string \<Rightarrow> InMemorySnapshot \<Rightarrow> SnapshotError + SystemSnapshot" where
  "InMemorySnapshot_load i s =
     (case hm_get (im_snapshots s) i of
        Some sn \<Rightarrow> Inr sn
      | None \<Rightarrow> Inl (SnNotFound (''Snapshot '' @ i @ '' not found'')))"

definition InMemorySnapshot_latest :: "InMemorySnapshot \<Rightarrow> SnapshotError + SystemSnapshot option" where
  "InMemorySnapshot_latest s =
     (case im_metadata s of
        [] \<Rightarrow> Inr None
      | m # _ \<Rightarrow>
          (case hm_get (im_snapshots s) (sd_id m) of
             Some sn \<Rightarrow> Inr (Some sn)
           | None \<Rightarrow> Inl (SnOther (''Inconsistent state: metadata references snapshot '' @ sd_id m @ '' which doesn't exist''))))"

definition InMemorySnapshot_list :: "InMemorySnapshot \<Rightarrow> SnapshotMetadata list" where
  "InMemorySnapshot_list s = im_metadata s"

definition InMemorySnapshot_delete :: "string \<Rightarrow> InMemorySnapshot \<Rightarrow> InMemorySnapshot" where
  "InMemorySnapshot_delete i s =
     s \<lparr> im_snapshots := hm_remove i (im_snapshots s), im_metadata := filter (\<lambda>m. sd_id m \<noteq> i) (im_metadata s) \<rparr>"

definition snapshots_ok :: "InMemorySnapshot \<Rightarrow> bool" where
  "snapshots_ok s \<longleftrightarrow>
     sorted (map (\<lambda>m. - sd_created_at m) (im_metadata s)) \<and> distinct (map sd_id (im_metadata s)) \<and>
     (\<forall>m. m \<in> set (im_metadata s) \<longleftrightarrow> (\<exists>sn. hm_get (im_snapshots s) (sd_id m) = Some sn \<and> ss_metadata sn = m)) \<and>
     (\<forall>i sn. hm_get (im_snapshots s) i = Some sn \<longrightarrow> sd_id (ss_metadata sn) = i)"

lemma snapshots_ok_save:
  assumes "snapshots_ok s" "hm_get (im_snapshots s) (sd_id (ss_metadata sn)) = None"
  shows "snapshots_ok (InMemorySnapshot_save sn s)"
proof -
  have new: "sd_id (ss_metadata sn) \<notin> sd_id ` set (im_metadata s)"
    using assms by (force simp: snapshots_ok_def)
  then have d: "distinct (map sd_id (im_metadata s @ [ss_metadata sn]))" using assms(1) by (auto simp: snapshots_ok_def)
  have "mset (map sd_id (newest_first (im_metadata s @ [ss_metadata sn]))) = mset (map sd_id (im_metadata s @ [ss_metadata sn]))"
    by (simp add: newest_first_def)
  then have "distinct (map sd_id (newest_first (im_metadata s @ [ss_metadata sn])))"
    using d mset_eq_imp_distinct_iff by blast
  moreover have "set (newest_first (im_metadata s @ [ss_metadata sn])) = insert (ss_metadata sn) (set (im_metadata s))"
    by (simp add: newest_first_def)
  moreover have "sorted (map (\<lambda>m. - sd_created_at m) (newest_first (im_metadata s @ [ss_metadata sn])))"
    by (simp add: newest_first_def)
  moreover have "m \<in> insert (ss_metadata sn) (set (im_metadata s)) \<longleftrightarrow>
      (\<exists>x. (if sd_id m = sd_id (ss_metadata sn) then Some sn else hm_get (im_snapshots s) (sd_id m)) = Some x \<and> ss_metadata x = m)" for m
    using assms new unfolding snapshots_ok_def by (cases "sd_id m = sd_id (ss_metadata sn)") auto
  ultimately show ?thesis
    using assms(1) by (simp add: snapshots_ok_def InMemorySnapshot_save_def)
qed

lemma snapshots_ok_delete: "snapshots_ok s \<Longrightarrow> snapshots_ok (InMemorySnapshot_delete i s)"
  by (auto simp: snapshots_ok_def InMemorySnapshot_delete_def sorted_filter [where f = "\<lambda>m. - sd_created_at m"] distinct_map_filter)

text \<open>
  The latest snapshot: in a consistent snapshot store a save under a new id and a deletion keep it consistent, and asking for the latest
  snapshot never fails; it gives a stored snapshot that no other stored one is newer than, or none when there is none.
\<close>

theorem latest_snapshot:
  assumes "snapshots_ok s"
  shows "(hm_get (im_snapshots s) (sd_id (ss_metadata sn)) = None \<longrightarrow> snapshots_ok (InMemorySnapshot_save sn s)) \<and>
         snapshots_ok (InMemorySnapshot_delete i s) \<and>
         (case InMemorySnapshot_latest s of
            Inl e \<Rightarrow> False
          | Inr None \<Rightarrow> \<forall>i. hm_get (im_snapshots s) i = None
          | Inr (Some x) \<Rightarrow> InMemorySnapshot_load (sd_id (ss_metadata x)) s = Inr x \<and>
              (\<forall>i y. hm_get (im_snapshots s) i = Some y \<longrightarrow> sd_created_at (ss_metadata y) \<le> sd_created_at (ss_metadata x)))"
proof -
  have mem: "ss_metadata y \<in> set (im_metadata s)" if "hm_get (im_snapshots s) i = Some y" for i y
    using that assms by (auto simp: snapshots_ok_def)
  have "case InMemorySnapshot_latest s of
            Inl e \<Rightarrow> False
          | Inr None \<Rightarrow> \<forall>i. hm_get (im_snapshots s) i = None
          | Inr (Some x) \<Rightarrow> InMemorySnapshot_load (sd_id (ss_metadata x)) s = Inr x \<and>
              (\<forall>i y. hm_get (im_snapshots s) i = Some y \<longrightarrow> sd_created_at (ss_metadata y) \<le> sd_created_at (ss_metadata x))"
  proof (cases "im_metadata s")
    case Nil
    then show ?thesis using mem by (auto simp: InMemorySnapshot_latest_def) (metis empty_iff empty_set not_None_eq)
  next
    case (Cons m ms)
    then have "m \<in> set (im_metadata s)" by simp
    then obtain x where x: "hm_get (im_snapshots s) (sd_id m) = Some x" "ss_metadata x = m"
      using assms unfolding snapshots_ok_def by blast
    have "sd_created_at (ss_metadata y) \<le> sd_created_at m" if "hm_get (im_snapshots s) i = Some y" for i y
      using mem [OF that] Cons assms by (auto simp: snapshots_ok_def)
    then show ?thesis using x Cons by (auto simp: InMemorySnapshot_latest_def InMemorySnapshot_load_def)
  qed
  then show ?thesis using assms snapshots_ok_save snapshots_ok_delete by blast
qed

theorem latest_snapshot_witness:
  "snapshots_ok (InMemorySnapshot_save
     \<lparr> ss_metadata = \<lparr> sd_id = ''a'', sd_created_at = 5, sd_description = None, sd_version = ''1'', sd_node_id = ''n'' \<rparr>, ss_data = [] \<rparr>
     InMemorySnapshot_new)"
  using latest_snapshot [of InMemorySnapshot_new
      "\<lparr> ss_metadata = \<lparr> sd_id = ''a'', sd_created_at = 5, sd_description = None, sd_version = ''1'', sd_node_id = ''n'' \<rparr>, ss_data = [] \<rparr>" "''a''"]
  by (simp add: snapshots_ok_def InMemorySnapshot_new_def)

section \<open>Snapshots on disk\<close>

record snap_codec =
  sc_ser :: "SystemSnapshot \<Rightarrow> bytes option"
  sc_deser :: "bytes \<Rightarrow> SystemSnapshot option"
  sc_meta_ser :: "SnapshotMetadata list \<Rightarrow> bytes option"
  sc_meta_deser :: "bytes \<Rightarrow> SnapshotMetadata list option"

record FileSystemSnapshot =
  fn_snapshot_dir :: string
  fn_cache :: "(string, SystemSnapshot) hashmap"
  fn_files :: "(string, bytes) hashmap"

definition FileSystemSnapshot_new :: "(string \<Rightarrow> bool) \<Rightarrow> string \<Rightarrow> (string, bytes) hashmap \<Rightarrow> SnapshotError + FileSystemSnapshot" where
  "FileSystemSnapshot_new fault dir files =
     (if fault dir then Inl SnIo else Inr \<lparr> fn_snapshot_dir = dir, fn_cache = [], fn_files = files \<rparr>)"

definition get_snapshot_path :: "FileSystemSnapshot \<Rightarrow> string \<Rightarrow> string" where
  "get_snapshot_path s i = path_join (fn_snapshot_dir s) (i @ ''.snap'')"

definition get_metadata_path :: "FileSystemSnapshot \<Rightarrow> string" where
  "get_metadata_path s = path_join (fn_snapshot_dir s) ''metadata.json''"

definition load_metadata :: "(string \<Rightarrow> bool) \<Rightarrow> snap_codec \<Rightarrow> FileSystemSnapshot \<Rightarrow> SnapshotError + SnapshotMetadata list" where
  "load_metadata fault cd s =
     (case hm_get (fn_files s) (get_metadata_path s) of
        None \<Rightarrow> Inr []
      | Some content \<Rightarrow>
          (if fault (get_metadata_path s) then Inl SnIo
           else case sc_meta_deser cd content of Some ms \<Rightarrow> Inr ms | None \<Rightarrow> Inl SnJson))"

definition write_file :: "(string \<Rightarrow> bool) \<Rightarrow> string \<Rightarrow> bytes \<Rightarrow> FileSystemSnapshot \<Rightarrow> (SnapshotError + unit) \<times> FileSystemSnapshot" where
  "write_file fault p b s = (if fault p then (Inl SnIo, s) else (Inr (), s \<lparr> fn_files := hm_insert p b (fn_files s) \<rparr>))"

definition save_metadata :: "(string \<Rightarrow> bool) \<Rightarrow> snap_codec \<Rightarrow> SnapshotMetadata list \<Rightarrow> FileSystemSnapshot \<Rightarrow> (SnapshotError + unit) \<times> FileSystemSnapshot" where
  "save_metadata fault cd ms s =
     (case sc_meta_ser cd ms of None \<Rightarrow> (Inl SnJson, s) | Some b \<Rightarrow> write_file fault (get_metadata_path s) b s)"

definition FileSystemSnapshot_save :: "(string \<Rightarrow> bool) \<Rightarrow> snap_codec \<Rightarrow> SystemSnapshot \<Rightarrow> FileSystemSnapshot \<Rightarrow> (SnapshotError + unit) \<times> FileSystemSnapshot" where
  "FileSystemSnapshot_save fault cd sn s =
     (let i = sd_id (ss_metadata sn) in
      case sc_ser cd sn of
        None \<Rightarrow> (Inl SnSerialization, s)
      | Some b \<Rightarrow>
          (case write_file fault (get_snapshot_path s i) b s of
             (Inl e, s1) \<Rightarrow> (Inl e, s1)
           | (Inr _, s1) \<Rightarrow>
               (let s2 = s1 \<lparr> fn_cache := hm_insert i sn (fn_cache s1) \<rparr>
                in case load_metadata fault cd s2 of
                     Inl e \<Rightarrow> (Inl e, s2)
                   | Inr ms \<Rightarrow> save_metadata fault cd (newest_first (ms @ [ss_metadata sn])) s2)))"

definition FileSystemSnapshot_load :: "(string \<Rightarrow> bool) \<Rightarrow> snap_codec \<Rightarrow> string \<Rightarrow> FileSystemSnapshot \<Rightarrow> (SnapshotError + SystemSnapshot) \<times> FileSystemSnapshot" where
  "FileSystemSnapshot_load fault cd i s =
     (case hm_get (fn_cache s) i of
        Some sn \<Rightarrow> (Inr sn, s)
      | None \<Rightarrow>
          (case hm_get (fn_files s) (get_snapshot_path s i) of
             None \<Rightarrow> (Inl (SnNotFound (''Snapshot '' @ i @ '' not found'')), s)
           | Some b \<Rightarrow>
               (if fault (get_snapshot_path s i) then (Inl SnIo, s)
                else case sc_deser cd b of
                       None \<Rightarrow> (Inl SnSerialization, s)
                     | Some sn \<Rightarrow> (Inr sn, s \<lparr> fn_cache := hm_insert i sn (fn_cache s) \<rparr>))))"

definition FileSystemSnapshot_latest :: "(string \<Rightarrow> bool) \<Rightarrow> snap_codec \<Rightarrow> FileSystemSnapshot \<Rightarrow> (SnapshotError + SystemSnapshot option) \<times> FileSystemSnapshot" where
  "FileSystemSnapshot_latest fault cd s =
     (case load_metadata fault cd s of
        Inl e \<Rightarrow> (Inl e, s)
      | Inr [] \<Rightarrow> (Inr None, s)
      | Inr (m # _) \<Rightarrow>
          (case FileSystemSnapshot_load fault cd (sd_id m) s of
             (Inl e, s') \<Rightarrow> (Inl e, s')
           | (Inr sn, s') \<Rightarrow> (Inr (Some sn), s')))"

definition FileSystemSnapshot_list :: "(string \<Rightarrow> bool) \<Rightarrow> snap_codec \<Rightarrow> FileSystemSnapshot \<Rightarrow> SnapshotError + SnapshotMetadata list" where
  "FileSystemSnapshot_list fault cd s = load_metadata fault cd s"

definition FileSystemSnapshot_delete :: "(string \<Rightarrow> bool) \<Rightarrow> snap_codec \<Rightarrow> string \<Rightarrow> FileSystemSnapshot \<Rightarrow> (SnapshotError + unit) \<times> FileSystemSnapshot" where
  "FileSystemSnapshot_delete fault cd i s =
     (let p = get_snapshot_path s i; s1 = s \<lparr> fn_cache := hm_remove i (fn_cache s) \<rparr>
      in if hm_contains (fn_files s1) p \<and> fault p then (Inl SnIo, s1)
         else let s2 = s1 \<lparr> fn_files := hm_remove p (fn_files s1) \<rparr>
              in case load_metadata fault cd s2 of
                   Inl e \<Rightarrow> (Inl e, s2)
                 | Inr ms \<Rightarrow> save_metadata fault cd (filter (\<lambda>m. sd_id m \<noteq> i) ms) s2)"

section \<open>The snapshot contract\<close>

text \<open>A history of operations and what it leaves: the list of metadata, and the snapshot under an id.\<close>

datatype snap_op = HSave SystemSnapshot | HDelete string | HLoad string

fun hist_listing :: "snap_op \<Rightarrow> SnapshotMetadata list \<Rightarrow> SnapshotMetadata list" where
  "hist_listing (HSave sn) ms = newest_first (ms @ [ss_metadata sn])"
| "hist_listing (HDelete i) ms = filter (\<lambda>m. sd_id m \<noteq> i) ms"
| "hist_listing (HLoad i) ms = ms"

fun hist_fetch :: "snap_op \<Rightarrow> (string \<Rightarrow> SystemSnapshot option) \<Rightarrow> string \<Rightarrow> SystemSnapshot option" where
  "hist_fetch (HSave sn) m = m(sd_id (ss_metadata sn) := Some sn)"
| "hist_fetch (HDelete i) m = m(i := None)"
| "hist_fetch (HLoad i) m = m"

text \<open>Ids that \<^verbatim>\<open>join\<close> does not take for absolute paths.\<close>

definition plain_id :: "string \<Rightarrow> bool" where
  "plain_id i \<longleftrightarrow> i = [] \<or> hd i \<noteq> CHR 0x2F"

fun plain_op :: "snap_op \<Rightarrow> bool" where
  "plain_op (HSave sn) = plain_id (sd_id (ss_metadata sn))"
| "plain_op (HDelete i) = plain_id i"
| "plain_op (HLoad i) = plain_id i"

locale snapshot_store =
  fixes apply_op :: "snap_op \<Rightarrow> 's \<Rightarrow> 's"
    and fetch :: "'s \<Rightarrow> string \<Rightarrow> SystemSnapshot option"
    and listing :: "'s \<Rightarrow> SnapshotMetadata list"
    and ok :: "'s \<Rightarrow> bool"
  assumes op_ok: "ok s \<Longrightarrow> plain_op h \<Longrightarrow> ok (apply_op h s)"
    and op_fetch: "ok s \<Longrightarrow> plain_op h \<Longrightarrow> plain_id i \<Longrightarrow> fetch (apply_op h s) i = hist_fetch h (fetch s) i"
    and op_listing: "ok s \<Longrightarrow> plain_op h \<Longrightarrow> listing (apply_op h s) = hist_listing h (listing s)"
begin

lemma history:
  assumes "ok s" and "\<forall>h\<in>set hs. plain_op h"
  shows "ok (fold apply_op hs s) \<and> listing (fold apply_op hs s) = fold hist_listing hs (listing s)
    \<and> (\<forall>i. plain_id i \<longrightarrow> fetch (fold apply_op hs s) i = fold hist_fetch hs (fetch s) i)"
  using assms(2)
proof (induction hs rule: rev_induct)
  case (snoc h hs)
  then have ih: "ok (fold apply_op hs s)" "listing (fold apply_op hs s) = fold hist_listing hs (listing s)"
    "\<And>i. plain_id i \<Longrightarrow> fetch (fold apply_op hs s) i = fold hist_fetch hs (fetch s) i" and h: "plain_op h" by simp_all
  have "hist_fetch h (fetch (fold apply_op hs s)) i = hist_fetch h (fold hist_fetch hs (fetch s)) i" if "plain_id i" for i
    using ih(3) [OF that] by (cases h) auto
  then show ?case using ih op_ok [OF ih(1) h] op_fetch [OF ih(1) h] op_listing [OF ih(1) h] by simp
qed (simp add: assms(1))

end

fun mem_snap_op :: "snap_op \<Rightarrow> InMemorySnapshot \<Rightarrow> InMemorySnapshot" where
  "mem_snap_op (HSave sn) s = InMemorySnapshot_save sn s"
| "mem_snap_op (HDelete i) s = InMemorySnapshot_delete i s"
| "mem_snap_op (HLoad i) s = s"

text \<open>The provider on disk without faults.\<close>

abbreviation no_fault :: "string \<Rightarrow> bool" where
  "no_fault p \<equiv> False"

fun fs_snap_op :: "snap_codec \<Rightarrow> snap_op \<Rightarrow> FileSystemSnapshot \<Rightarrow> FileSystemSnapshot" where
  "fs_snap_op cd (HSave sn) s = snd (FileSystemSnapshot_save no_fault cd sn s)"
| "fs_snap_op cd (HDelete i) s = snd (FileSystemSnapshot_delete no_fault cd i s)"
| "fs_snap_op cd (HLoad i) s = snd (FileSystemSnapshot_load no_fault cd i s)"

definition fs_fetch :: "snap_codec \<Rightarrow> FileSystemSnapshot \<Rightarrow> string \<Rightarrow> SystemSnapshot option" where
  "fs_fetch cd s i = (case fst (FileSystemSnapshot_load no_fault cd i s) of Inr sn \<Rightarrow> Some sn | Inl e \<Rightarrow> None)"

definition fs_listing :: "snap_codec \<Rightarrow> FileSystemSnapshot \<Rightarrow> SnapshotMetadata list" where
  "fs_listing cd s = (case FileSystemSnapshot_list no_fault cd s of Inr ms \<Rightarrow> ms | Inl e \<Rightarrow> [])"

text \<open>What bincode and JSON promise for these types: encoding succeeds and decoding returns what was encoded.\<close>

definition codec_ok :: "snap_codec \<Rightarrow> bool" where
  "codec_ok cd \<longleftrightarrow> (\<forall>sn. Option.bind (sc_ser cd sn) (sc_deser cd) = Some sn) \<and> (\<forall>ms. Option.bind (sc_meta_ser cd ms) (sc_meta_deser cd) = Some ms)"

definition stored :: "snap_codec \<Rightarrow> FileSystemSnapshot \<Rightarrow> string \<Rightarrow> SystemSnapshot option" where
  "stored cd s i = Option.bind (hm_get (fn_files s) (get_snapshot_path s i)) (sc_deser cd)"

definition fs_snapshots_ok :: "snap_codec \<Rightarrow> FileSystemSnapshot \<Rightarrow> bool" where
  "fs_snapshots_ok cd s \<longleftrightarrow>
     codec_ok cd \<and> (\<forall>b. hm_get (fn_files s) (get_metadata_path s) = Some b \<longrightarrow> sc_meta_deser cd b \<noteq> None)
     \<and> (\<forall>i sn. plain_id i \<longrightarrow> hm_get (fn_cache s) i = Some sn \<longrightarrow> stored cd s i = Some sn)
     \<and> (\<forall>i b. plain_id i \<longrightarrow> hm_get (fn_files s) (get_snapshot_path s i) = Some b \<longrightarrow> sc_deser cd b \<noteq> None)"

lemma snapshot_path_plain: "plain_id i \<Longrightarrow> get_snapshot_path s i = fn_snapshot_dir s @ CHR 0x2F # i @ ''.snap''"
  by (cases i) (auto simp: get_snapshot_path_def path_join_def plain_id_def)

lemma snapshot_path_inject: "plain_id i \<Longrightarrow> plain_id j \<Longrightarrow> get_snapshot_path s i = get_snapshot_path s j \<longleftrightarrow> i = j"
  by (simp add: snapshot_path_plain)

lemma metadata_path_other: "plain_id i \<Longrightarrow> get_snapshot_path s i \<noteq> get_metadata_path s"
proof -
  have "last (i @ ''.snap'') \<noteq> last ''metadata.json''" by simp
  then have "i @ ''.snap'' \<noteq> ''metadata.json''" by metis
  then show "plain_id i \<Longrightarrow> ?thesis" by (simp add: snapshot_path_plain get_metadata_path_def path_join_def)
qed

lemma snap_paths_base [simp]:
  "get_snapshot_path (s \<lparr> fn_cache := c \<rparr>) i = get_snapshot_path s i" "get_snapshot_path (s \<lparr> fn_files := f \<rparr>) i = get_snapshot_path s i"
  "get_metadata_path (s \<lparr> fn_cache := c \<rparr>) = get_metadata_path s" "get_metadata_path (s \<lparr> fn_files := f \<rparr>) = get_metadata_path s"
  by (simp_all add: get_snapshot_path_def get_metadata_path_def)

lemma fs_fetch_stored: "fs_snapshots_ok cd s \<Longrightarrow> plain_id i \<Longrightarrow> fs_fetch cd s i = stored cd s i"
  unfolding fs_snapshots_ok_def fs_fetch_def FileSystemSnapshot_load_def stored_def
  by (auto split: option.split)

lemma fs_listing_file:
  "fs_snapshots_ok cd s \<Longrightarrow> load_metadata no_fault cd s = Inr (fs_listing cd s)
    \<and> fs_listing cd s = (case hm_get (fn_files s) (get_metadata_path s) of None \<Rightarrow> [] | Some b \<Rightarrow> the (sc_meta_deser cd b))"
  by (auto simp: fs_snapshots_ok_def fs_listing_def FileSystemSnapshot_list_def load_metadata_def split: option.split)

text \<open>A state whose files differ in the metadata file and in the file of one id.\<close>

lemma fs_update_ok:
  assumes ok: "fs_snapshots_ok cd s" and i: "plain_id i" and s': "fn_snapshot_dir s' = fn_snapshot_dir s"
    and meta: "hm_get (fn_files s') (get_metadata_path s) = Some mb" "sc_meta_deser cd mb = Some ms"
    and fil: "Option.bind (hm_get (fn_files s') (get_snapshot_path s i)) (sc_deser cd) = r"
      "hm_contains (fn_files s') (get_snapshot_path s i) \<longrightarrow> r \<noteq> None"
    and others: "\<And>p. p \<noteq> get_metadata_path s \<Longrightarrow> p \<noteq> get_snapshot_path s i \<Longrightarrow> hm_get (fn_files s') p = hm_get (fn_files s) p"
    and cache: "hm_get (fn_cache s') = (hm_get (fn_cache s))(i := r)"
  shows "fs_snapshots_ok cd s' \<and> fs_listing cd s' = ms \<and> (\<forall>j. plain_id j \<longrightarrow> fs_fetch cd s' j = ((fs_fetch cd s)(i := r)) j)"
proof -
  have paths: "get_metadata_path s' = get_metadata_path s" "\<And>j. get_snapshot_path s' j = get_snapshot_path s j"
    using s' by (simp_all add: get_metadata_path_def get_snapshot_path_def)
  have f: "hm_get (fn_files s') (get_snapshot_path s j) = hm_get (fn_files s) (get_snapshot_path s j)" if "plain_id j" "j \<noteq> i" for j
    using others [OF metadata_path_other [OF that(1)]] snapshot_path_inject [OF that(1) i] that(2) by blast
  have st: "stored cd s' j = ((stored cd s)(i := r)) j" if "plain_id j" for j
    using f [OF that] fil(1) by (cases "j = i") (simp_all add: stored_def paths)
  have "sc_deser cd b \<noteq> None" if "plain_id j" "hm_get (fn_files s') (get_snapshot_path s' j) = Some b" for j b
    using that f [OF that(1)] fil ok by (cases "j = i") (auto simp: paths fs_snapshots_ok_def)
  then have ok': "fs_snapshots_ok cd s'"
    using ok meta st cache unfolding fs_snapshots_ok_def paths by (auto split: if_splits)
  moreover have "fs_listing cd s' = ms" using fs_listing_file [OF ok'] meta by (simp add: paths)
  moreover have "plain_id j \<Longrightarrow> fs_fetch cd s' j = ((fs_fetch cd s)(i := r)) j" for j
    using fs_fetch_stored [OF ok'] fs_fetch_stored [OF ok] st by (cases "j = i") simp_all
  ultimately show ?thesis by blast
qed

lemma meta_codec: "codec_ok cd \<Longrightarrow> \<exists>b. sc_meta_ser cd ms = Some b \<and> sc_meta_deser cd b = Some ms"
  unfolding codec_ok_def by (metis bind_eq_Some_conv)

lemma snap_codec_round: "codec_ok cd \<Longrightarrow> \<exists>b. sc_ser cd sn = Some b \<and> sc_deser cd b = Some sn"
  unfolding codec_ok_def by (metis bind_eq_Some_conv)

lemma fs_save_effect:
  assumes ok: "fs_snapshots_ok cd s" and i: "plain_id (sd_id (ss_metadata sn))"
  shows "fs_snapshots_ok cd (fs_snap_op cd (HSave sn) s) \<and> fs_listing cd (fs_snap_op cd (HSave sn) s) = newest_first (fs_listing cd s @ [ss_metadata sn])
    \<and> (\<forall>j. plain_id j \<longrightarrow> fs_fetch cd (fs_snap_op cd (HSave sn) s) j = ((fs_fetch cd s)(sd_id (ss_metadata sn) := Some sn)) j)"
proof -
  let ?i = "sd_id (ss_metadata sn)" and ?ms = "newest_first (fs_listing cd s @ [ss_metadata sn])"
  have cok: "codec_ok cd" using ok by (simp add: fs_snapshots_ok_def)
  obtain b mb where b: "sc_ser cd sn = Some b" "sc_deser cd b = Some sn" and mb: "sc_meta_ser cd ?ms = Some mb" "sc_meta_deser cd mb = Some ?ms"
    using meta_codec [OF cok, of ?ms] snap_codec_round [OF cok, of sn] by blast
  let ?s1 = "s \<lparr> fn_files := hm_insert (get_snapshot_path s ?i) b (fn_files s), fn_cache := hm_insert ?i sn (fn_cache s) \<rparr>"
  have "load_metadata no_fault cd ?s1 = load_metadata no_fault cd s"
    using metadata_path_other [OF i, of s] by (simp add: load_metadata_def)
  then have "load_metadata no_fault cd ?s1 = Inr (fs_listing cd s)" using fs_listing_file [OF ok] by simp
  then have op: "fs_snap_op cd (HSave sn) s = ?s1 \<lparr> fn_files := hm_insert (get_metadata_path s) mb (fn_files ?s1) \<rparr>"
    by (simp add: FileSystemSnapshot_save_def b write_file_def save_metadata_def mb Let_def)
  show ?thesis
    unfolding op by (rule fs_update_ok [OF ok i, of _ mb ?ms "Some sn"]) (use metadata_path_other [OF i, of s] b mb in auto)
qed

lemma fs_delete_effect:
  assumes ok: "fs_snapshots_ok cd s" and i: "plain_id i"
  shows "fs_snapshots_ok cd (fs_snap_op cd (HDelete i) s) \<and> fs_listing cd (fs_snap_op cd (HDelete i) s) = filter (\<lambda>m. sd_id m \<noteq> i) (fs_listing cd s)
    \<and> (\<forall>j. plain_id j \<longrightarrow> fs_fetch cd (fs_snap_op cd (HDelete i) s) j = ((fs_fetch cd s)(i := None)) j)"
proof -
  let ?ms = "filter (\<lambda>m. sd_id m \<noteq> i) (fs_listing cd s)"
  have cok: "codec_ok cd" using ok by (simp add: fs_snapshots_ok_def)
  obtain mb where mb: "sc_meta_ser cd ?ms = Some mb" "sc_meta_deser cd mb = Some ?ms" using meta_codec [OF cok, of ?ms] by blast
  let ?s1 = "s \<lparr> fn_cache := hm_remove i (fn_cache s), fn_files := hm_remove (get_snapshot_path s i) (fn_files s) \<rparr>"
  have "load_metadata no_fault cd ?s1 = load_metadata no_fault cd s"
    using metadata_path_other [OF i, of s] by (simp add: load_metadata_def)
  then have "load_metadata no_fault cd ?s1 = Inr (fs_listing cd s)" using fs_listing_file [OF ok] by simp
  then have op: "fs_snap_op cd (HDelete i) s = ?s1 \<lparr> fn_files := hm_insert (get_metadata_path s) mb (fn_files ?s1) \<rparr>"
    by (simp add: FileSystemSnapshot_delete_def write_file_def save_metadata_def mb Let_def)
  show ?thesis
    unfolding op by (rule fs_update_ok [OF ok i, of _ mb ?ms None]) (use metadata_path_other [OF i, of s] mb in auto)
qed

lemma fs_load_effect:
  assumes ok: "fs_snapshots_ok cd s" and i: "plain_id i"
  shows "fs_snapshots_ok cd (fs_snap_op cd (HLoad i) s) \<and> fs_listing cd (fs_snap_op cd (HLoad i) s) = fs_listing cd s
    \<and> (\<forall>j. plain_id j \<longrightarrow> fs_fetch cd (fs_snap_op cd (HLoad i) s) j = fs_fetch cd s j)"
proof -
  define c where "c = fn_cache (fs_snap_op cd (HLoad i) s)"
  have op: "fs_snap_op cd (HLoad i) s = s \<lparr> fn_cache := c \<rparr>"
    and c: "c = fn_cache s \<or> (\<exists>sn. stored cd s i = Some sn \<and> c = hm_insert i sn (fn_cache s))"
    by (auto simp: c_def FileSystemSnapshot_load_def stored_def split: option.split)
  have ok': "fs_snapshots_ok cd (s \<lparr> fn_cache := c \<rparr>)"
    using ok c unfolding fs_snapshots_ok_def by (auto simp: stored_def split: if_splits)
  moreover have "fs_listing cd (s \<lparr> fn_cache := c \<rparr>) = fs_listing cd s"
    by (simp add: fs_listing_def FileSystemSnapshot_list_def load_metadata_def)
  moreover have "fs_fetch cd (s \<lparr> fn_cache := c \<rparr>) j = fs_fetch cd s j" if "plain_id j" for j
    using fs_fetch_stored [OF ok' that] fs_fetch_stored [OF ok that] by (simp add: stored_def)
  ultimately show ?thesis unfolding op by blast
qed

interpretation mem_snaps: snapshot_store mem_snap_op "\<lambda>s. hm_get (im_snapshots s)" im_metadata "\<lambda>s. True"
proof
  show "hm_get (im_snapshots (mem_snap_op h s)) i = hist_fetch h (hm_get (im_snapshots s)) i" for h s i
    by (cases h) (simp_all add: InMemorySnapshot_save_def InMemorySnapshot_delete_def)
  show "im_metadata (mem_snap_op h s) = hist_listing h (im_metadata s)" for h s
    by (cases h) (simp_all add: InMemorySnapshot_save_def InMemorySnapshot_delete_def)
qed simp

interpretation disk_snaps: snapshot_store "fs_snap_op cd" "fs_fetch cd" "fs_listing cd" "fs_snapshots_ok cd" for cd
proof
  fix s h i
  assume ok: "fs_snapshots_ok cd s" and h: "plain_op h"
  show "fs_snapshots_ok cd (fs_snap_op cd h s)" and "fs_listing cd (fs_snap_op cd h s) = hist_listing h (fs_listing cd s)"
    using h fs_save_effect [OF ok] fs_delete_effect [OF ok] fs_load_effect [OF ok] by (cases h; simp)+
  show "plain_id i \<Longrightarrow> fs_fetch cd (fs_snap_op cd h s) i = hist_fetch h (fs_fetch cd s) i"
    using h fs_save_effect [OF ok] fs_delete_effect [OF ok] fs_load_effect [OF ok] by (cases h; simp)
qed

text \<open>In every history the listed snapshots are stored.\<close>

lemma hist_listed_stored:
  assumes "\<forall>h\<in>set hs. plain_op h" and "m \<in> set (fold hist_listing hs [])"
  shows "plain_id (sd_id m) \<and> fold hist_fetch hs Map.empty (sd_id m) \<noteq> None"
  using assms
proof (induction hs arbitrary: m rule: rev_induct)
  case (snoc h hs)
  then show ?case by (cases h) (auto simp: newest_first_def)
qed simp

lemma disk_latest_answer:
  assumes ok: "fs_snapshots_ok cd s" and "fs_listing cd s = [] \<or> plain_id (sd_id (hd (fs_listing cd s))) \<and> fs_fetch cd s (sd_id (hd (fs_listing cd s))) \<noteq> None"
  shows "fst (FileSystemSnapshot_latest no_fault cd s) =
    Inr (case fs_listing cd s of [] \<Rightarrow> None | m # _ \<Rightarrow> fs_fetch cd s (sd_id m))"
  using assms(2) conjunct1 [OF fs_listing_file [OF ok]]
  by (cases "fs_listing cd s") (auto simp: FileSystemSnapshot_latest_def fs_fetch_def split: prod.split sum.split)

lemma disk_load_answer:
  assumes ok: "fs_snapshots_ok cd s" and i: "plain_id i"
  shows "fst (FileSystemSnapshot_load no_fault cd i s) =
    (case fs_fetch cd s i of Some sn \<Rightarrow> Inr sn | None \<Rightarrow> Inl (SnNotFound (''Snapshot '' @ i @ '' not found'')))"
  using ok i unfolding fs_snapshots_ok_def fs_fetch_def FileSystemSnapshot_load_def by (auto split: option.split)


text \<open>A codec with these laws: strings with a mark before each character, numbers in unary.\<close>

fun enc_str :: "string \<Rightarrow> bytes" where
  "enc_str [] = [0]"
| "enc_str (c # cs) = 1 # of_nat (of_char c) # enc_str cs"

fun dec_str :: "bytes \<Rightarrow> (string \<times> bytes) option" where
  "dec_str [] = None"
| "dec_str [m] = (if m = 0 then Some ([], []) else None)"
| "dec_str (m # b # r) = (if m = 0 then Some ([], b # r) else map_option (\<lambda>(cs, r'). (char_of (unat b) # cs, r')) (dec_str r))"

fun enc_nat :: "nat \<Rightarrow> bytes" where
  "enc_nat 0 = [0]"
| "enc_nat (Suc n) = 1 # enc_nat n"

fun dec_nat :: "bytes \<Rightarrow> (nat \<times> bytes) option" where
  "dec_nat [] = None"
| "dec_nat (m # r) = (if m = 0 then Some (0, r) else map_option (\<lambda>(n, r'). (Suc n, r')) (dec_nat r))"

definition enc_meta :: "SnapshotMetadata \<Rightarrow> bytes" where
  "enc_meta m = enc_str (sd_id m) @ enc_nat (nat (sd_created_at m)) @ enc_nat (nat (- sd_created_at m))
     @ (case sd_description m of None \<Rightarrow> [0] | Some d \<Rightarrow> 1 # enc_str d) @ enc_str (sd_version m) @ enc_str (sd_node_id m)"

definition dec_opt :: "bytes \<Rightarrow> (string option \<times> bytes) option" where
  "dec_opt b = (case b of [] \<Rightarrow> None | m # r \<Rightarrow> if m = 0 then Some (None, r) else map_option (apfst Some) (dec_str r))"

definition dec_meta :: "bytes \<Rightarrow> (SnapshotMetadata \<times> bytes) option" where
  "dec_meta b0 = do {
     (i, b1) \<leftarrow> dec_str b0; (p, b2) \<leftarrow> dec_nat b1; (n, b3) \<leftarrow> dec_nat b2; (d, b4) \<leftarrow> dec_opt b3; (v, b5) \<leftarrow> dec_str b4; (k, b6) \<leftarrow> dec_str b5;
     Some (\<lparr> sd_id = i, sd_created_at = int p - int n, sd_description = d, sd_version = v, sd_node_id = k \<rparr>, b6) }"

fun enc_metas :: "SnapshotMetadata list \<Rightarrow> bytes" where
  "enc_metas [] = []"
| "enc_metas (m # ms) = enc_meta m @ enc_metas ms"

fun dec_metas :: "nat \<Rightarrow> bytes \<Rightarrow> SnapshotMetadata list option" where
  "dec_metas 0 b = Some []"
| "dec_metas (Suc k) b = do { (m, b') \<leftarrow> dec_meta b; ms \<leftarrow> dec_metas k b'; Some (m # ms) }"

definition unary_codec :: snap_codec where
  "unary_codec =
     \<lparr> sc_ser = (\<lambda>sn. Some (enc_meta (ss_metadata sn) @ enc_str (ss_data sn))),
       sc_deser = (\<lambda>b. do { (m, b') \<leftarrow> dec_meta b; (d, b'') \<leftarrow> dec_str b'; Some \<lparr> ss_metadata = m, ss_data = d \<rparr> }),
       sc_meta_ser = (\<lambda>ms. Some (enc_nat (length ms) @ enc_metas ms)),
       sc_meta_deser = (\<lambda>b. do { (k, b') \<leftarrow> dec_nat b; dec_metas k b' }) \<rparr>"

lemma byte_of_char: "char_of (unat (of_nat (of_char c) :: u8)) = c"
proof -
  have "(of_char c :: nat) < 256" by (metis nat_of_char_less_256)
  then show ?thesis by (simp add: unat_of_nat)
qed

lemma dec_enc_str [simp]: "dec_str (enc_str cs @ r) = Some (cs, r)"
proof (induction cs)
  case Nil
  show ?case by (cases r) simp_all
qed (simp add: byte_of_char)

lemma dec_enc_nat [simp]: "dec_nat (enc_nat n @ r) = Some (n, r)"
  by (induction n) simp_all

lemma dec_enc_meta [simp]: "dec_meta (enc_meta m @ r) = Some (m, r)"
  by (cases "sd_description m") (simp_all add: dec_meta_def enc_meta_def dec_opt_def)

lemma dec_enc_metas [simp]: "dec_metas (length ms) (enc_metas ms) = Some ms"
  by (induction ms) simp_all

lemma unary_codec_ok: "codec_ok unary_codec"
  using dec_enc_str [where r = "[]"] by (simp add: codec_ok_def unary_codec_def)


text \<open>A save whose metadata cannot be written reports an error but leaves the snapshot behind: it can be loaded by its id and is in no list.\<close>

theorem failed_metadata_orphan:
  assumes "sc_ser cd sn = Some b" and "fault = (\<lambda>p. p = get_metadata_path s)" and "plain_id (sd_id (ss_metadata sn))"
    and "hm_get (fn_files s) (get_metadata_path s) = None" and "sc_meta_ser cd [ss_metadata sn] = Some mb"
  shows "let (r, s') = FileSystemSnapshot_save fault cd sn s in
     r = Inl SnIo \<and> fst (FileSystemSnapshot_load fault cd (sd_id (ss_metadata sn)) s') = Inr sn \<and> FileSystemSnapshot_list fault cd s' = Inr []"
  using assms metadata_path_other [OF assms(3), of s]
  by (simp add: FileSystemSnapshot_save_def write_file_def load_metadata_def save_metadata_def newest_first_def FileSystemSnapshot_load_def FileSystemSnapshot_list_def Let_def)

end
