(* ===== verification/Cluster_Node.thy ===== *)
theory Cluster_Node
  imports Prelude
begin

text \<open>
  Cluster nodes (\<^verbatim>\<open>actix-cluster/src/node.rs\<close>): identifiers, the information a node publishes about itself, and the
  heartbeat bookkeeping that decides when a node is unreachable. A \<^verbatim>\<open>Uuid\<close> is its 128 bits; a socket address and a JSON
  value are opaque and kept as their text. The code reads two clocks: \<open>now\<close> is the monotonic one (\<^verbatim>\<open>Instant\<close>),
  \<open>wall\<close> the milliseconds since the epoch. The error of \<open>Node_update_info\<close> is \<open>InvalidOperation\<close>, without its message text.

  The lemmas show how the failure counter works: it reports a node once, at the \<open>max_heartbeat_failures\<close>-th failure in a
  row, and one heartbeat undoes everything.
\<close>

section \<open>Identifiers and node information\<close>

type_synonym NodeId = "128 word"

definition NodeId_local :: NodeId where
  "NodeId_local = 0"

definition NodeId_is_local :: "NodeId \<Rightarrow> bool" where
  "NodeId_is_local n = (n = NodeId_local)"

datatype NodeRole = Master | Worker | Peer

datatype NodeStatus = Up | Unreachable | Down | Joining | Leaving

datatype PlacementStrategy =
    Random
  | OnNode NodeId
  | RoundRobin
  | LeastLoaded
  | Redundant nat
  | LocalAffinity PlacementStrategy "string option"

text \<open>The errors of the crate (\<^verbatim>\<open>error.rs\<close>), with the payloads that are not message texts.\<close>

datatype ClusterError =
    ConnectionError | AddressParseError | IoError | DiscoveryError | SerializationError | DeserializationError
  | RoutingError | NodeAlreadyExists NodeId | NodeNotFound NodeId | ActorNotFound string | ActorAlreadyExists string
  | ActorAlreadyRegistered string | ActorRegistrationFailed string | ActorNotRegistered string | ConfigurationError
  | TimeoutError | AuthenticationError | AuthorizationError | TransportNotInitialized | RegistryNotInitialized
  | MessageSendFailed | NodeNotConnected NodeId | ConnectionFailed | MessageDeliveryFailed | RemoteActorError
  | NetworkError | MailboxError | InvalidOperation | UnknownPeer NodeId | NoMessageHandler | TransportNotAvailable
  | ProtocolError | TransportError | NoNodesAvailable | NotImplemented | NotInitialized | InvalidNodeId
  | PlacementStrategyError | InvalidNodeStatus NodeStatus | UuidParseError | MessageNotFound "128 word" | ActixError
  | MessageTimeout | UnsupportedMessageType | NodeMigrationError | TooManyReplicasRequested nat nat | ConsensusError
  | RaftError | ChannelClosed | CompressionError | DecompressionError | Other | ActorError | Timeout
  | UnsupportedTransport | TransportInitializationError | TransportConfigurationError

record NodeInfo =
  ni_id :: NodeId
  ni_name :: string
  ni_role :: NodeRole
  ni_addr :: string
  ni_status :: NodeStatus
  ni_joined_at :: "u64 option"
  ni_capabilities :: "string list"
  ni_load :: u8
  ni_metadata :: "(string, string) hashmap"

definition NodeInfo_new :: "NodeId \<Rightarrow> string \<Rightarrow> NodeRole \<Rightarrow> string \<Rightarrow> NodeInfo" where
  "NodeInfo_new i name role addr =
     \<lparr> ni_id = i, ni_name = name, ni_role = role, ni_addr = addr, ni_status = Joining, ni_joined_at = None,
       ni_capabilities = [], ni_load = 0, ni_metadata = [] \<rparr>"

definition NodeInfo_mark_up :: "int \<Rightarrow> NodeInfo \<Rightarrow> NodeInfo" where
  "NodeInfo_mark_up wall i =
     i \<lparr> ni_status := Up,
         ni_joined_at := (case ni_joined_at i of None \<Rightarrow> Some (of_int (max 0 wall)) | Some t \<Rightarrow> Some t) \<rparr>"

definition NodeInfo_mark_unreachable :: "NodeInfo \<Rightarrow> NodeInfo" where
  "NodeInfo_mark_unreachable i = i \<lparr> ni_status := Unreachable \<rparr>"

definition NodeInfo_mark_down :: "NodeInfo \<Rightarrow> NodeInfo" where
  "NodeInfo_mark_down i = i \<lparr> ni_status := Down \<rparr>"

definition NodeInfo_mark_leaving :: "NodeInfo \<Rightarrow> NodeInfo" where
  "NodeInfo_mark_leaving i = i \<lparr> ni_status := Leaving \<rparr>"

definition NodeInfo_is_up :: "NodeInfo \<Rightarrow> bool" where
  "NodeInfo_is_up i = (ni_status i = Up)"

definition NodeInfo_add_capability :: "string \<Rightarrow> NodeInfo \<Rightarrow> NodeInfo" where
  "NodeInfo_add_capability c i =
     (if c \<in> set (ni_capabilities i) then i else i \<lparr> ni_capabilities := ni_capabilities i @ [c] \<rparr>)"

definition NodeInfo_has_capability :: "string \<Rightarrow> NodeInfo \<Rightarrow> bool" where
  "NodeInfo_has_capability c i = (c \<in> set (ni_capabilities i))"

definition NodeInfo_set_load :: "u8 \<Rightarrow> NodeInfo \<Rightarrow> NodeInfo" where
  "NodeInfo_set_load l i = i \<lparr> ni_load := min l 100 \<rparr>"

definition NodeInfo_add_metadata :: "string \<Rightarrow> string \<Rightarrow> NodeInfo \<Rightarrow> NodeInfo" where
  "NodeInfo_add_metadata k v i = i \<lparr> ni_metadata := hm_insert k v (ni_metadata i) \<rparr>"

definition NodeInfo_get_metadata :: "string \<Rightarrow> NodeInfo \<Rightarrow> string option" where
  "NodeInfo_get_metadata k i = hm_get (ni_metadata i) k"

section \<open>Heartbeats\<close>

record NodeTrackingState =
  tk_last_heartbeat :: int
  tk_heartbeat_failures :: u32
  tk_max_heartbeat_failures :: u32

definition NodeTrackingState_new :: "int \<Rightarrow> u32 \<Rightarrow> NodeTrackingState" where
  "NodeTrackingState_new now m =
     \<lparr> tk_last_heartbeat = now, tk_heartbeat_failures = 0, tk_max_heartbeat_failures = m \<rparr>"

definition tk_record_heartbeat :: "int \<Rightarrow> NodeTrackingState \<Rightarrow> NodeTrackingState" where
  "tk_record_heartbeat now t = t \<lparr> tk_last_heartbeat := now, tk_heartbeat_failures := 0 \<rparr>"

definition tk_is_unreachable :: "int \<Rightarrow> int \<Rightarrow> NodeTrackingState \<Rightarrow> bool" where
  "tk_is_unreachable now timeout t =
     (timeout < max 0 (now - tk_last_heartbeat t) \<or> tk_max_heartbeat_failures t \<le> tk_heartbeat_failures t)"

definition tk_record_failure :: "NodeTrackingState \<Rightarrow> bool \<times> NodeTrackingState" where
  "tk_record_failure t =
     (let t' = t \<lparr> tk_heartbeat_failures := tk_heartbeat_failures t + 1 \<rparr>
      in (tk_max_heartbeat_failures t' \<le> tk_heartbeat_failures t', t'))"

section \<open>Nodes\<close>

record Node =
  nd_info :: NodeInfo
  nd_tracking :: NodeTrackingState

definition Node_new :: "int \<Rightarrow> NodeInfo \<Rightarrow> u32 \<Rightarrow> Node" where
  "Node_new now i m = \<lparr> nd_info = i, nd_tracking = NodeTrackingState_new now m \<rparr>"

definition Node_status :: "Node \<Rightarrow> NodeStatus" where
  "Node_status n = ni_status (nd_info n)"

definition Node_record_heartbeat :: "int \<Rightarrow> int \<Rightarrow> Node \<Rightarrow> Node" where
  "Node_record_heartbeat now wall n =
     n \<lparr> nd_tracking := tk_record_heartbeat now (nd_tracking n), nd_info := NodeInfo_mark_up wall (nd_info n) \<rparr>"

definition Node_check_timeout :: "int \<Rightarrow> int \<Rightarrow> Node \<Rightarrow> bool \<times> Node" where
  "Node_check_timeout now timeout n =
     (if tk_is_unreachable now timeout (nd_tracking n) \<and> ni_status (nd_info n) = Up
      then (True, n \<lparr> nd_info := NodeInfo_mark_unreachable (nd_info n) \<rparr>) else (False, n))"

definition Node_is_timed_out :: "int \<Rightarrow> int \<Rightarrow> Node \<Rightarrow> bool" where
  "Node_is_timed_out now timeout n =
     (tk_is_unreachable now timeout (nd_tracking n) \<and> ni_status (nd_info n) = Up)"

definition Node_record_failure :: "Node \<Rightarrow> bool \<times> Node" where
  "Node_record_failure n =
     (let (is_unreachable, t) = tk_record_failure (nd_tracking n);
          n' = n \<lparr> nd_tracking := t \<rparr>
      in if is_unreachable \<and> ni_status (nd_info n') = Up
         then (True, n' \<lparr> nd_info := NodeInfo_mark_unreachable (nd_info n') \<rparr>) else (False, n'))"

definition Node_mark_leaving :: "Node \<Rightarrow> Node" where
  "Node_mark_leaving n = n \<lparr> nd_info := NodeInfo_mark_leaving (nd_info n) \<rparr>"

definition Node_mark_down :: "Node \<Rightarrow> Node" where
  "Node_mark_down n = n \<lparr> nd_info := NodeInfo_mark_down (nd_info n) \<rparr>"

definition Node_update_info :: "NodeInfo \<Rightarrow> Node \<Rightarrow> (ClusterError + unit) \<times> Node" where
  "Node_update_info i n =
     (if ni_id (nd_info n) \<noteq> ni_id i then (Inl InvalidOperation, n) else (Inr (), n \<lparr> nd_info := i \<rparr>))"

definition Node_time_since_last_heartbeat :: "int \<Rightarrow> Node \<Rightarrow> int" where
  "Node_time_since_last_heartbeat now n = max 0 (now - tk_last_heartbeat (nd_tracking n))"

section \<open>Failures in a row\<close>

fun record_failures :: "nat \<Rightarrow> Node \<Rightarrow> bool list \<times> Node" where
  "record_failures 0 n = ([], n)"
| "record_failures (Suc k) n =
     (let (r, n1) = Node_record_failure n; (rs, n2) = record_failures k n1 in (r # rs, n2))"

lemmas node_defs =
  Node_record_failure_def tk_record_failure_def NodeInfo_mark_unreachable_def Node_record_heartbeat_def
  tk_record_heartbeat_def NodeInfo_mark_up_def Node_check_timeout_def tk_is_unreachable_def Node_status_def

lemma failures_not_up:
  "ni_status (nd_info n) \<noteq> Up \<Longrightarrow>
   fst (record_failures k n) = replicate k False \<and> nd_info (snd (record_failures k n)) = nd_info n"
  by (induction k arbitrary: n) (simp_all add: node_defs Let_def split_beta)

lemma failures_tracking:
  "unat (tk_heartbeat_failures (nd_tracking n)) + k < 2 ^ 32 \<Longrightarrow>
   unat (tk_heartbeat_failures (nd_tracking (snd (record_failures k n)))) =
     unat (tk_heartbeat_failures (nd_tracking n)) + k"
proof (induction k arbitrary: n)
  case (Suc k)
  have "tk_heartbeat_failures (nd_tracking n) \<noteq> -1"
    using Suc.prems by (intro word_not_last) simp
  then have "unat (tk_heartbeat_failures (nd_tracking n) + 1) = Suc (unat (tk_heartbeat_failures (nd_tracking n)))"
    by (rule word_Suc_unat)
  moreover have "tk_heartbeat_failures (nd_tracking (snd (Node_record_failure n))) = tk_heartbeat_failures (nd_tracking n) + 1"
    by (simp add: node_defs Let_def)
  ultimately show ?case
    using Suc.IH [of "snd (Node_record_failure n)"] Suc.prems by (simp add: Let_def split_beta)
qed simp

lemma failures_keep:
  "tk_last_heartbeat (nd_tracking (snd (record_failures k n))) = tk_last_heartbeat (nd_tracking n)
   \<and> tk_max_heartbeat_failures (nd_tracking (snd (record_failures k n))) = tk_max_heartbeat_failures (nd_tracking n)"
  by (induction k arbitrary: n) (simp_all add: node_defs Let_def split_beta)

lemma failures_up:
  assumes "ni_status (nd_info n) = Up"
    and "tk_heartbeat_failures (nd_tracking n) < tk_max_heartbeat_failures (nd_tracking n)"
    and "unat (tk_heartbeat_failures (nd_tracking n)) + k < 2 ^ 32"
  shows "fst (record_failures k n) =
           map (\<lambda>i. Suc (unat (tk_heartbeat_failures (nd_tracking n))) + i = unat (tk_max_heartbeat_failures (nd_tracking n))) [0..<k]
         \<and> nd_info (snd (record_failures k n)) =
             (if unat (tk_heartbeat_failures (nd_tracking n)) + k < unat (tk_max_heartbeat_failures (nd_tracking n))
              then nd_info n else nd_info n \<lparr> ni_status := Unreachable \<rparr>)"
  using assms
proof (induction k arbitrary: n)
  case (Suc k)
  let ?c = "tk_heartbeat_failures (nd_tracking n)" and ?m = "tk_max_heartbeat_failures (nd_tracking n)"
  have "?c \<noteq> -1" using Suc.prems(3) by (intro word_not_last) simp
  then have c: "unat (?c + 1) = Suc (unat ?c)" by (rule word_Suc_unat)
  define n1 where "n1 = snd (Node_record_failure n)"
  have n1: "tk_heartbeat_failures (nd_tracking n1) = ?c + 1" "tk_max_heartbeat_failures (nd_tracking n1) = ?m"
    by (simp_all add: n1_def node_defs Let_def)
  have r: "record_failures (Suc k) n = (fst (Node_record_failure n) # fst (record_failures k n1), snd (record_failures k n1))"
    by (simp add: n1_def Let_def split_beta)
  have up: "[0..<Suc k] = 0 # map Suc [0..<k]" by (simp add: upt_conv_Cons map_Suc_upt)
  show ?case
  proof (cases "?m \<le> ?c + 1")
    case True
    then have m: "unat ?m = Suc (unat ?c)"
      using Suc.prems(2) c by (simp add: word_le_nat_alt word_less_nat_alt)
    have "fst (Node_record_failure n)" "nd_info n1 = nd_info n \<lparr> ni_status := Unreachable \<rparr>"
      using True Suc.prems(1) by (simp_all add: n1_def node_defs Let_def)
    then show ?thesis
      using failures_not_up [of n1 k] unfolding r up by (simp add: m comp_def map_replicate_const)
  next
    case False
    then have lt: "?c + 1 < ?m" by simp
    have f: "\<not> fst (Node_record_failure n)" "nd_info n1 = nd_info n"
      using False by (simp_all add: n1_def node_defs Let_def)
    have ne: "unat ?m \<noteq> Suc (unat ?c)" using lt c by (simp add: word_less_nat_alt)
    show ?thesis
      using Suc.IH [of n1] Suc.prems lt f ne unfolding r up by (simp add: n1 c comp_def)
  qed
qed (simp add: word_less_nat_alt)

text \<open>
  C27. Failure detection: let \<open>k\<close> failures follow a heartbeat at \<open>now\<close>. They report the node exactly once, at the
  failure whose number is the configured maximum, and the node is unreachable exactly when the maximum was reached. A timeout
  check finds it newly unreachable exactly when that has not happened yet and the last heartbeat is too old. The
  next heartbeat makes it up again with no failure counted. The maximum is positive and the number of failures below
  \<open>2 ^ 32\<close>.
\<close>

theorem failure_detection:
  assumes "0 < tk_max_heartbeat_failures (nd_tracking n)" and "k < 2 ^ 32"
  shows "let m = unat (tk_max_heartbeat_failures (nd_tracking n));
             (reports, n') = record_failures k (Node_record_heartbeat now wall n);
             n'' = Node_record_heartbeat now'' wall'' n'
         in reports = map (\<lambda>i. Suc i = m) [0..<k]
            \<and> Node_status n' = (if k < m then Up else Unreachable)
            \<and> Node_is_timed_out now' timeout n' = (k < m \<and> timeout < max 0 (now' - now))
            \<and> Node_status n'' = Up \<and> tk_heartbeat_failures (nd_tracking n'') = 0"
proof -
  let ?n0 = "Node_record_heartbeat now wall n"
  let ?n' = "snd (record_failures k ?n0)"
  have n0: "ni_status (nd_info ?n0) = Up" "tk_heartbeat_failures (nd_tracking ?n0) = 0"
    "tk_max_heartbeat_failures (nd_tracking ?n0) = tk_max_heartbeat_failures (nd_tracking n)"
    "tk_last_heartbeat (nd_tracking ?n0) = now"
    by (simp_all add: node_defs)
  have u: "fst (record_failures k ?n0) = map (\<lambda>i. Suc i = unat (tk_max_heartbeat_failures (nd_tracking n))) [0..<k]"
    "nd_info ?n' = (if k < unat (tk_max_heartbeat_failures (nd_tracking n)) then nd_info ?n0
                    else nd_info ?n0 \<lparr> ni_status := Unreachable \<rparr>)"
    using failures_up [of ?n0 k] assms n0 by simp_all
  have c: "unat (tk_heartbeat_failures (nd_tracking ?n')) = k"
    using failures_tracking [of ?n0 k] assms(2) n0 by simp
  have kept: "tk_last_heartbeat (nd_tracking ?n') = now"
    "tk_max_heartbeat_failures (nd_tracking ?n') = tk_max_heartbeat_failures (nd_tracking n)"
    using failures_keep [of k ?n0] n0 by simp_all
  have "tk_max_heartbeat_failures (nd_tracking n) \<le> tk_heartbeat_failures (nd_tracking ?n') \<longleftrightarrow>
        unat (tk_max_heartbeat_failures (nd_tracking n)) \<le> k"
    using c by (simp add: word_le_nat_alt)
  then have t: "Node_is_timed_out now' timeout ?n' =
      (k < unat (tk_max_heartbeat_failures (nd_tracking n)) \<and> timeout < max 0 (now' - now))"
    using u(2) n0(1) kept by (auto simp: Node_is_timed_out_def tk_is_unreachable_def)
  show ?thesis
    using u t n0(1) by (simp add: split_beta Let_def node_defs)
qed

definition sample_node :: Node where
  "sample_node = Node_new 0 (NodeInfo_new 7 ''worker-1'' Worker ''10.0.0.7:8558'') 3"

theorem failure_detection_witness:
  "let (reports, n') = record_failures 4 (Node_record_heartbeat 10 1000 sample_node);
       n'' = Node_record_heartbeat 70 1070 n'
   in reports = [False, False, True, False] \<and> Node_status n' = Unreachable
      \<and> \<not> Node_is_timed_out 60 15 n' \<and> Node_status n'' = Up"
  using failure_detection [where n = sample_node and k = 4 and now = 10 and wall = 1000 and now' = 60 and timeout = 15
      and now'' = 70 and wall'' = 1070]
  by (simp add: sample_node_def Node_new_def NodeTrackingState_new_def Let_def split_beta upt_rec)

end
