(* ===== verification/Vector_Clock.thy ===== *)
theory Vector_Clock
  imports Cluster_Node
begin

text \<open>
  Vector clocks and conflict resolution (\<^verbatim>\<open>actix-cluster/src/sync/mod.rs\<close>). A clock is a hash map of counters, an absent
  node counting as 0. The loops of \<open>merge\<close> and \<open>compare\<close> run over the entries of the map.

  The lemmas show that the two loops of \<open>compare\<close> compute the pointwise order of the counters (so the clocks form a
  partial order on what \<open>get\<close> returns), that \<open>merge\<close> is its least upper bound, and that both resolvers satisfy
  the contract of the \<^verbatim>\<open>ConflictResolver\<close> trait stated as the locale \<open>conflict_resolver\<close>: the answer is one of the two versions,
  the remote one exactly when it is newer, so a version never replaces a newer one.
\<close>

section \<open>Vector clocks\<close>

datatype VectorClockRelation = Greater | Less | Concurrent | Equal

record VectorClock =
  vc_counters :: "(NodeId, u64) hashmap"

definition VectorClock_new :: VectorClock where
  "VectorClock_new = \<lparr> vc_counters = [] \<rparr>"

definition VectorClock_get :: "VectorClock \<Rightarrow> NodeId \<Rightarrow> u64" where
  "VectorClock_get c n = (case hm_get (vc_counters c) n of Some v \<Rightarrow> v | None \<Rightarrow> 0)"

definition VectorClock_increment :: "NodeId \<Rightarrow> VectorClock \<Rightarrow> VectorClock" where
  "VectorClock_increment n c =
     (let counter = (case hm_get (vc_counters c) n of Some v \<Rightarrow> v | None \<Rightarrow> 0)
      in c \<lparr> vc_counters := hm_insert n (counter + 1) (vc_counters c) \<rparr>)"

definition VectorClock_set :: "NodeId \<Rightarrow> u64 \<Rightarrow> VectorClock \<Rightarrow> VectorClock" where
  "VectorClock_set n v c = c \<lparr> vc_counters := hm_insert n v (vc_counters c) \<rparr>"

definition merge_entry :: "(NodeId, u64) hashmap \<Rightarrow> NodeId \<times> u64 \<Rightarrow> (NodeId, u64) hashmap" where
  "merge_entry m e =
     (case e of (n, counter) \<Rightarrow>
        hm_insert n (max (case hm_get m n of Some v \<Rightarrow> v | None \<Rightarrow> 0) counter) m)"

definition VectorClock_merge :: "VectorClock \<Rightarrow> VectorClock \<Rightarrow> VectorClock" where
  "VectorClock_merge c d = c \<lparr> vc_counters := foldl merge_entry (vc_counters c) (vc_counters d) \<rparr>"

definition compare_own :: "VectorClock \<Rightarrow> bool \<times> bool \<Rightarrow> NodeId \<times> u64 \<Rightarrow> bool \<times> bool" where
  "compare_own other gt e =
     (case gt of (self_gt, other_gt) \<Rightarrow> case e of (n, self_counter) \<Rightarrow>
        (let other_counter = VectorClock_get other n
         in if other_counter < self_counter then (True, other_gt)
            else if self_counter < other_counter then (self_gt, True)
            else (self_gt, other_gt)))"

definition compare_new :: "VectorClock \<Rightarrow> bool \<Rightarrow> NodeId \<times> u64 \<Rightarrow> bool" where
  "compare_new self other_gt e =
     (case e of (n, other_counter) \<Rightarrow>
        if \<not> hm_contains (vc_counters self) n \<and> 0 < other_counter then True else other_gt)"

definition VectorClock_compare :: "VectorClock \<Rightarrow> VectorClock \<Rightarrow> VectorClockRelation" where
  "VectorClock_compare self other =
     (let (self_gt, other_gt1) = foldl (compare_own other) (False, False) (vc_counters self);
          other_gt = foldl (compare_new self) other_gt1 (vc_counters other)
      in case (self_gt, other_gt) of
           (False, False) \<Rightarrow> Equal
         | (True, False) \<Rightarrow> Greater
         | (False, True) \<Rightarrow> Less
         | (True, True) \<Rightarrow> Concurrent)"

section \<open>Resolvers\<close>

record LastWriteWinsResolver =
  clock_drift_tolerance :: nat

definition LastWriteWinsResolver_new :: "nat \<Rightarrow> LastWriteWinsResolver" where
  "LastWriteWinsResolver_new tol = \<lparr> clock_drift_tolerance = tol \<rparr>"

text \<open>\<^verbatim>\<open>remote.duration_since(local)\<close> is \<^verbatim>\<open>Ok\<close> of the difference when it is not negative. The trait's accessors are arguments.\<close>

definition duration_since :: "int \<Rightarrow> int \<Rightarrow> int option" where
  "duration_since later earlier = (if earlier \<le> later then Some (later - earlier) else None)"

definition lww_resolve :: "('t \<Rightarrow> int) \<Rightarrow> LastWriteWinsResolver \<Rightarrow> 't \<Rightarrow> 't \<Rightarrow> 't" where
  "lww_resolve timestamp r local remote =
     (case duration_since (timestamp remote) (timestamp local) of
        Some d \<Rightarrow> if int (clock_drift_tolerance r) < d then remote else local
      | None \<Rightarrow> local)"

definition vc_resolve :: "('t \<Rightarrow> VectorClock) \<Rightarrow> 't \<Rightarrow> 't \<Rightarrow> 't" where
  "vc_resolve vector_clock local remote =
     (case VectorClock_compare (vector_clock local) (vector_clock remote) of
        Greater \<Rightarrow> local
      | Less \<Rightarrow> remote
      | Concurrent \<Rightarrow> local
      | Equal \<Rightarrow> local)"

definition custom_resolve :: "('t \<Rightarrow> 't \<Rightarrow> 't) \<Rightarrow> 't \<Rightarrow> 't \<Rightarrow> 't" where
  "custom_resolve resolver_fn local remote = resolver_fn local remote"

section \<open>What the loops compute\<close>

definition vc_ok :: "VectorClock \<Rightarrow> bool" where
  "vc_ok c = hm_ok (vc_counters c)"

definition vc_le :: "VectorClock \<Rightarrow> VectorClock \<Rightarrow> bool" where
  "vc_le c d = (\<forall>n. VectorClock_get c n \<le> VectorClock_get d n)"

lemma vc_ok_new [simp, inv_intros]: "vc_ok VectorClock_new"
  by (simp add: vc_ok_def VectorClock_new_def)

lemma vc_ok_increment [simp, inv_intros]: "vc_ok c \<Longrightarrow> vc_ok (VectorClock_increment n c)"
  by (simp add: vc_ok_def VectorClock_increment_def)

lemma vc_ok_set [simp, inv_intros]: "vc_ok c \<Longrightarrow> vc_ok (VectorClock_set n v c)"
  by (simp add: vc_ok_def VectorClock_set_def)

lemma vc_get_increment:
  "VectorClock_get (VectorClock_increment n c) k = (if k = n then VectorClock_get c n + 1 else VectorClock_get c k)"
  by (simp add: VectorClock_get_def VectorClock_increment_def)

lemma vc_get_set: "VectorClock_get (VectorClock_set n v c) k = (if k = n then v else VectorClock_get c k)"
  by (simp add: VectorClock_get_def VectorClock_set_def)

lemma hm_ok_merge_fold: "hm_ok m \<Longrightarrow> hm_ok (foldl merge_entry m es)"
  by (induction es arbitrary: m) (simp_all add: merge_entry_def split: prod.split)

lemma vc_ok_merge [simp, inv_intros]: "vc_ok c \<Longrightarrow> vc_ok (VectorClock_merge c d)"
  by (simp add: vc_ok_def VectorClock_merge_def hm_ok_merge_fold)

abbreviation cnt :: "(NodeId, u64) hashmap \<Rightarrow> NodeId \<Rightarrow> u64" where
  "cnt m n \<equiv> (case hm_get m n of Some v \<Rightarrow> v | None \<Rightarrow> 0)"

lemma cnt_merge_fold: "hm_ok es \<Longrightarrow> cnt (foldl merge_entry m es) n = max (cnt m n) (cnt es n)"
proof (induction es arbitrary: m)
  case (Cons e es)
  obtain k v where e: "e = (k, v)" by force
  have ok: "hm_ok es" and k: "hm_get es k = None"
    using Cons.prems by (auto simp: hm_ok_def e map_of_eq_None_iff)
  have "cnt (merge_entry m e) n = (if n = k then max (cnt m n) v else cnt m n)"
    by (simp add: merge_entry_def e)
  then show ?case
    using Cons.IH [OF ok, of "merge_entry m e"] k by (auto simp: e)
qed simp

lemma vc_get_merge:
  "vc_ok d \<Longrightarrow> VectorClock_get (VectorClock_merge c d) n = max (VectorClock_get c n) (VectorClock_get d n)"
  using cnt_merge_fold [of "vc_counters d" "vc_counters c" n]
  by (simp add: VectorClock_get_def VectorClock_merge_def vc_ok_def)

lemma compare_own_fold:
  "foldl (compare_own other) (s, t) es =
     (s \<or> (\<exists>(n, v)\<in>set es. VectorClock_get other n < v), t \<or> (\<exists>(n, v)\<in>set es. v < VectorClock_get other n))"
  by (induction es arbitrary: s t) (auto simp: compare_own_def Let_def split: prod.split)

lemma compare_new_fold:
  "foldl (compare_new self) t es = (t \<or> (\<exists>(n, v)\<in>set es. \<not> hm_contains (vc_counters self) n \<and> 0 < v))"
  by (induction es arbitrary: t) (auto simp: compare_new_def split: prod.split)

lemma vc_entry_get: "vc_ok c \<Longrightarrow> (n, v) \<in> set (vc_counters c) \<longleftrightarrow> hm_get (vc_counters c) n = Some v"
  by (simp add: vc_ok_def hm_mem_get)

lemma vc_get_entry [simp]: "hm_get (vc_counters c) n = Some v \<Longrightarrow> VectorClock_get c n = v"
  and vc_get_absent [simp]: "hm_get (vc_counters c) n = None \<Longrightarrow> VectorClock_get c n = 0"
  by (simp_all add: VectorClock_get_def)

lemma not_vc_le_self:
  assumes "vc_ok self"
  shows "(\<exists>(n, v)\<in>set (vc_counters self). VectorClock_get other n < v) \<longleftrightarrow> \<not> vc_le self other"
proof
  assume "\<not> vc_le self other"
  then obtain n where n: "VectorClock_get other n < VectorClock_get self n" by (auto simp: vc_le_def not_le)
  then have "hm_get (vc_counters self) n = Some (VectorClock_get self n)"
    by (auto simp: VectorClock_get_def [of self] split: option.splits)
  with assms n show "\<exists>(n, v)\<in>set (vc_counters self). VectorClock_get other n < v"
    by (metis (no_types, lifting) case_prodI vc_entry_get)
next
  assume "\<exists>(n, v)\<in>set (vc_counters self). VectorClock_get other n < v"
  then obtain n v where "VectorClock_get other n < v" "hm_get (vc_counters self) n = Some v"
    using assms by (auto simp: vc_entry_get)
  then have "VectorClock_get other n < VectorClock_get self n" by simp
  then show "\<not> vc_le self other" by (auto simp: vc_le_def not_le)
qed

lemma not_vc_le_other:
  assumes "vc_ok self" and "vc_ok other"
  shows "((\<exists>(n, v)\<in>set (vc_counters self). v < VectorClock_get other n)
          \<or> (\<exists>(n, v)\<in>set (vc_counters other). \<not> hm_contains (vc_counters self) n \<and> 0 < v)) \<longleftrightarrow> \<not> vc_le other self"
    (is "?l \<or> ?r \<longleftrightarrow> _")
proof
  assume "\<not> vc_le other self"
  then obtain n where n: "VectorClock_get self n < VectorClock_get other n" by (auto simp: vc_le_def not_le)
  show "?l \<or> ?r"
  proof (cases "hm_get (vc_counters self) n")
    case None
    then obtain v where "hm_get (vc_counters other) n = Some v" "0 < v"
      using n by (cases "hm_get (vc_counters other) n") simp_all
    with None assms(2) have "(n, v) \<in> set (vc_counters other)" "\<not> hm_contains (vc_counters self) n \<and> 0 < v"
      by (simp_all add: vc_entry_get)
    then show ?thesis by blast
  next
    case (Some v)
    with n assms(1) have "(n, v) \<in> set (vc_counters self)" "v < VectorClock_get other n"
      by (simp_all add: vc_entry_get)
    then show ?thesis by blast
  qed
next
  assume "?l \<or> ?r"
  then have "\<exists>n. VectorClock_get self n < VectorClock_get other n"
  proof
    assume ?l
    then obtain n v where "v < VectorClock_get other n" "hm_get (vc_counters self) n = Some v"
      using assms(1) by (auto simp: vc_entry_get)
    then show ?thesis by (intro exI [of _ n]) simp
  next
    assume ?r
    then obtain n v where "hm_get (vc_counters self) n = None" "hm_get (vc_counters other) n = Some v" "0 < v"
      using assms(2) by (auto simp: vc_entry_get)
    then show ?thesis by (intro exI [of _ n]) simp
  qed
  then show "\<not> vc_le other self" by (auto simp: vc_le_def not_le)
qed

lemma compare_by_order:
  assumes "vc_ok c" and "vc_ok d"
  shows "VectorClock_compare c d =
           (if vc_le c d then (if vc_le d c then Equal else Less) else (if vc_le d c then Greater else Concurrent))"
  using not_vc_le_self [OF assms(1), of d] not_vc_le_other [OF assms]
  by (simp add: VectorClock_compare_def compare_own_fold compare_new_fold split: bool.split) 

lemma vc_le_refl [simp]: "vc_le c c"
  by (simp add: vc_le_def)

lemma vc_le_trans: "vc_le c d \<Longrightarrow> vc_le d e \<Longrightarrow> vc_le c e"
  by (auto simp: vc_le_def intro: order_trans)

lemma vc_le_antisym: "vc_le c d \<Longrightarrow> vc_le d c \<Longrightarrow> VectorClock_get c = VectorClock_get d"
  by (rule ext) (simp add: vc_le_def antisym)

lemma vc_le_increment:
  "VectorClock_get c n \<noteq> - 1 \<Longrightarrow> vc_le c (VectorClock_increment n c) \<and> \<not> vc_le (VectorClock_increment n c) c"
  using word_less_Suc [of "VectorClock_get c n"]
  by (auto simp: vc_le_def vc_get_increment not_le intro!: exI [of _ n] less_imp_le)

text \<open>
  C16. Comparing clocks: on clocks with one entry per node, \<open>compare\<close> answers \<open>Equal\<close> exactly when the clocks agree at every
  node, \<open>Less\<close> and \<open>Greater\<close> for the strict pointwise order and \<open>Concurrent\<close> when neither bounds the other.
  \<open>merge\<close> is the least clock above both, and an increment gives a strictly greater clock unless the counter is the last
  \<^verbatim>\<open>u64\<close>.
\<close>

theorem vector_clock_order:
  assumes "vc_ok c" and "vc_ok d"
  shows "(VectorClock_compare c d = Equal) = (VectorClock_get c = VectorClock_get d)
     \<and> (VectorClock_compare c d = Less) = (vc_le c d \<and> VectorClock_get c \<noteq> VectorClock_get d)
     \<and> (VectorClock_compare c d = Greater) = (vc_le d c \<and> VectorClock_get c \<noteq> VectorClock_get d)
     \<and> (VectorClock_compare c d = Concurrent) = (\<not> vc_le c d \<and> \<not> vc_le d c)
     \<and> vc_le c (VectorClock_merge c d) \<and> vc_le d (VectorClock_merge c d)
     \<and> (\<forall>e. vc_le c e \<and> vc_le d e \<longrightarrow> vc_le (VectorClock_merge c d) e)
     \<and> (VectorClock_get c n \<noteq> - 1 \<longrightarrow> VectorClock_compare (VectorClock_increment n c) c = Greater)"
proof -
  have eq: "VectorClock_get c = VectorClock_get d \<longleftrightarrow> vc_le c d \<and> vc_le d c"
    using vc_le_antisym [of c d] by (metis vc_le_def order_refl)
  have m: "vc_le (VectorClock_merge c d) e \<longleftrightarrow> vc_le c e \<and> vc_le d e" for e
    using assms by (auto simp: vc_le_def vc_get_merge)
  have "VectorClock_get c n \<noteq> - 1 \<Longrightarrow> VectorClock_compare (VectorClock_increment n c) c = Greater"
    using assms vc_le_increment [of c n] by (simp add: compare_by_order)
  then show ?thesis
    using m [of "VectorClock_merge c d"] by (simp add: eq m compare_by_order assms)
qed

definition sample_clock :: "u64 \<Rightarrow> u64 \<Rightarrow> VectorClock" where
  "sample_clock a b = VectorClock_set 2 b (VectorClock_set 1 a VectorClock_new)"

theorem vector_clock_order_witness:
  "VectorClock_compare (VectorClock_increment 1 (sample_clock 3 4)) (sample_clock 3 4) = Greater
   \<and> \<not> vc_le (sample_clock 3 4) (sample_clock 5 2) \<and> VectorClock_compare (sample_clock 3 4) (sample_clock 5 2) = Concurrent"
proof -
  have c: "VectorClock_compare (sample_clock 3 4) (sample_clock 5 2) = Concurrent"
    by (simp add: sample_clock_def VectorClock_set_def VectorClock_new_def VectorClock_compare_def compare_own_def
        compare_new_def VectorClock_get_def)
  have g: "VectorClock_get (sample_clock 3 4) 1 \<noteq> - 1"
    by (simp add: sample_clock_def vc_get_set)
  have ok: "vc_ok (sample_clock a b)" for a b
    by (simp add: sample_clock_def)
  show ?thesis
    using vector_clock_order [OF ok ok, of 3 4 5 2 1] c g by simp
qed

section \<open>The contract of a resolver\<close>

locale conflict_resolver =
  fixes valid :: "'t \<Rightarrow> bool" and newer :: "'t \<Rightarrow> 't \<Rightarrow> bool" and resolve :: "'t \<Rightarrow> 't \<Rightarrow> 't"
  assumes newer_irrefl: "\<not> newer x x"
    and newer_trans: "newer x y \<Longrightarrow> newer y z \<Longrightarrow> newer x z"
    and resolve_newer: "valid l \<Longrightarrow> valid r \<Longrightarrow> resolve l r = (if newer r l then r else l)"
begin

lemma resolve_valid: "valid l \<Longrightarrow> valid r \<Longrightarrow> valid (resolve l r)"
  by (simp add: resolve_newer)

lemma resolve_keeps_maximal:
  "valid l \<Longrightarrow> list_all valid rs \<Longrightarrow>
   foldl resolve l rs \<in> set (l # rs) \<and> (foldl resolve l rs = l \<or> newer (foldl resolve l rs) l)
   \<and> (\<forall>x\<in>set (l # rs). \<not> newer x (foldl resolve l rs))"
proof (induction rs arbitrary: l)
  case (Cons r rs)
  define k where "k = resolve l r"
  have k: "k = (if newer r l then r else l)" "valid k"
    using Cons.prems by (simp_all add: k_def resolve_newer)
  have ih: "foldl resolve k rs \<in> set (k # rs)" "foldl resolve k rs = k \<or> newer (foldl resolve k rs) k"
    "\<forall>x\<in>set (k # rs). \<not> newer x (foldl resolve k rs)"
    using Cons.IH [OF k(2)] Cons.prems by simp_all
  have below: "\<not> newer x (foldl resolve k rs)" if "\<not> newer x k" for x
    using ih(2) that by (auto intro: newer_trans)
  have lr: "\<not> newer l k" "\<not> newer r k"
    using newer_irrefl newer_trans unfolding k(1) by auto
  have "foldl resolve k rs \<in> set (l # r # rs)"
    using ih(1) unfolding k(1) by (auto split: if_splits)
  moreover have "foldl resolve k rs = l \<or> newer (foldl resolve k rs) l"
    using ih(2) newer_trans unfolding k(1) by (auto split: if_splits)
  moreover have "\<forall>x\<in>set (l # r # rs). \<not> newer x (foldl resolve k rs)"
    using ih(3) below [OF lr(1)] below [OF lr(2)] by simp
  ultimately show ?case by (simp add: k_def)
qed (simp add: newer_irrefl)

end

definition lww_newer :: "('t \<Rightarrow> int) \<Rightarrow> LastWriteWinsResolver \<Rightarrow> 't \<Rightarrow> 't \<Rightarrow> bool" where
  "lww_newer timestamp r x y = (timestamp y + int (clock_drift_tolerance r) < timestamp x)"

definition vc_newer :: "('t \<Rightarrow> VectorClock) \<Rightarrow> 't \<Rightarrow> 't \<Rightarrow> bool" where
  "vc_newer clock x y = (vc_le (clock y) (clock x) \<and> \<not> vc_le (clock x) (clock y))"

interpretation lww: conflict_resolver "\<lambda>_. True" "lww_newer timestamp r" "lww_resolve timestamp r" for timestamp r
  by unfold_locales (auto simp: lww_newer_def lww_resolve_def duration_since_def)

interpretation vcr: conflict_resolver "\<lambda>x. vc_ok (clock x)" "vc_newer clock" "vc_resolve clock" for clock
  by unfold_locales
    (auto simp: vc_newer_def vc_resolve_def compare_by_order split: if_splits intro: vc_le_trans)

text \<open>
  Conflict resolution loses no newer version: let a node resolve its version against any sequence of remote ones. With either
  resolver it ends with one of these versions, the first or a newer one, and none of them is newer than
  the one kept. Newer means a greater vector clock, or a time stamp later by more than the drift tolerance.
\<close>

theorem resolve_keeps_newest:
  "(let k = foldl (lww_resolve timestamp r) l rs
    in k \<in> set (l # rs) \<and> (k = l \<or> lww_newer timestamp r k l) \<and> (\<forall>x\<in>set (l # rs). \<not> lww_newer timestamp r x k))
   \<and> (vc_ok (clock l) \<and> list_all (\<lambda>x. vc_ok (clock x)) rs \<longrightarrow>
      (let k = foldl (vc_resolve clock) l rs
       in k \<in> set (l # rs) \<and> (k = l \<or> vc_newer clock k l) \<and> (\<forall>x\<in>set (l # rs). \<not> vc_newer clock x k)))"
  using lww.resolve_keeps_maximal [where timestamp = timestamp and r = r and l = l and rs = rs]
    vcr.resolve_keeps_maximal [where clock = clock and l = l and rs = rs]
  by (simp add: Let_def list_all_iff)

theorem resolve_keeps_newest_witness:
  "foldl (vc_resolve snd) (''a'', sample_clock 1 1) [(''b'', sample_clock 2 1), (''c'', sample_clock 1 2)]
     = (''b'', sample_clock 2 1)
   \<and> \<not> vc_newer snd (''c'', sample_clock 1 2) (''b'', sample_clock 2 1)
   \<and> \<not> lww_newer fst \<lparr> clock_drift_tolerance = 5 \<rparr> (103::int, ''c'') (100, ''b'')"
proof -
  have ok: "vc_ok (sample_clock a b)" for a b by (simp add: sample_clock_def)
  have l: "foldl (vc_resolve snd) (''a'', sample_clock 1 1) [(''b'', sample_clock 2 1), (''c'', sample_clock 1 2)]
     = (''b'', sample_clock 2 1)"
    by (simp add: sample_clock_def VectorClock_set_def VectorClock_new_def VectorClock_compare_def compare_own_def
        compare_new_def VectorClock_get_def vc_resolve_def)
  have w: "foldl (lww_resolve fst \<lparr> clock_drift_tolerance = 5 \<rparr>) (100, ''b'') [(103::int, ''c'')] = (100, ''b'')"
    by (simp add: lww_resolve_def duration_since_def)
  show ?thesis
    using resolve_keeps_newest [of fst "\<lparr> clock_drift_tolerance = 5 \<rparr>" "(100, ''b'')" "[(103::int, ''c'')]"
        "\<lambda>_. VectorClock_new"]
      resolve_keeps_newest [of "\<lambda>_. 0" "\<lparr> clock_drift_tolerance = 5 \<rparr>" "(''a'', sample_clock 1 1)"
        "[(''b'', sample_clock 2 1), (''c'', sample_clock 1 2)]" snd] l w ok
    by (simp add: Let_def)
qed

end
