(* ===== verification/Placement.thy ===== *)
theory Placement
  imports Cluster_Node "HOL-Library.Multiset"
begin

text \<open>
  Actor placement (\<^verbatim>\<open>actix-cluster/src/placement.rs\<close>). The \<^verbatim>\<open>NodeSelector\<close> trait object is a pair of answers, the list of active
  nodes and what is known about a node; both may differ from call to call, so every operation takes them as an argument. The text of
  a node id comes from the \<^verbatim>\<open>uuid\<close> crate and the random index from \<^verbatim>\<open>rand\<close>: both are parameters (\<open>show_id\<close>, \<open>rnd\<close>,
  of which only \<open>rnd n < n\<close> is used). A state holds the round-robin index and the cached redundant nodes; the field
  \<^verbatim>\<open>consistent_hash_nodes\<close> is never read and is left out. \<^verbatim>\<open>nodes[0]\<close> on an empty vector panics: the result of a
  selection is \<open>None\<close> then.

  The lemmas show which nodes a selection can return and when it fails, that a round of round-robin selections
  visits every node once, that the least loaded node is least loaded, and that the nodes picked for redundancy are distinct.
\<close>

record selector =
  sel_active_nodes :: "NodeId list"
  sel_node_info :: "NodeId \<Rightarrow> NodeInfo option"

record PlacementStrategyImpl =
  ps_round_robin_index :: nat
  ps_redundant_nodes :: "(string, NodeId list) hashmap"

definition PlacementStrategyImpl_new :: PlacementStrategyImpl where
  "PlacementStrategyImpl_new = \<lparr> ps_round_robin_index = 0, ps_redundant_nodes = [] \<rparr>"

section \<open>The strategies\<close>

definition select_specific_node :: "selector \<Rightarrow> NodeId \<Rightarrow> ClusterError + NodeId" where
  "select_specific_node sel n = (if sel_node_info sel n \<noteq> None then Inr n else Inl (NodeNotFound n))"

definition select_random_node :: "(nat \<Rightarrow> nat) \<Rightarrow> selector \<Rightarrow> ClusterError + NodeId" where
  "select_random_node rnd sel =
     (let ns = sel_active_nodes sel
      in if ns = [] then Inl NoNodesAvailable else Inr (ns ! rnd (length ns)))"

definition select_round_robin_node ::
    "selector \<Rightarrow> PlacementStrategyImpl \<Rightarrow> (ClusterError + NodeId) \<times> PlacementStrategyImpl" where
  "select_round_robin_node sel st =
     (let ns = sel_active_nodes sel
      in if ns = [] then (Inl NoNodesAvailable, st)
         else (Inr (ns ! (ps_round_robin_index st mod length ns)),
               st \<lparr> ps_round_robin_index := (ps_round_robin_index st + 1) mod length ns \<rparr>))"

definition less_loaded :: "selector \<Rightarrow> NodeId \<times> u8 \<Rightarrow> NodeId \<Rightarrow> NodeId \<times> u8" where
  "less_loaded sel best n =
     (case sel_node_info sel n of
        Some i \<Rightarrow> if ni_load i < snd best then (n, ni_load i) else best
      | None \<Rightarrow> best)"

definition select_least_loaded_node :: "selector \<Rightarrow> ClusterError + NodeId" where
  "select_least_loaded_node sel =
     (let ns = sel_active_nodes sel
      in if ns = [] then Inl NoNodesAvailable
         else Inr (fst (foldl (less_loaded sel) (hd ns, - 1) ns)))"

definition hash_string :: "string \<Rightarrow> u64" where
  "hash_string s = foldl (\<lambda>h b. h * 31 + of_nat (of_char b)) 0 s"

definition hash_distance :: "u64 \<Rightarrow> u64 \<Rightarrow> u64" where
  "hash_distance node_hash hash = (if hash < node_hash then node_hash - hash else hash - node_hash)"

definition closer_node :: "(NodeId \<Rightarrow> string) \<Rightarrow> u64 \<Rightarrow> NodeId \<times> u64 \<Rightarrow> NodeId \<Rightarrow> NodeId \<times> u64" where
  "closer_node show_id hash best n =
     (let d = hash_distance (hash_string (show_id n)) hash
      in if d < snd best then (n, d) else best)"

definition select_consistent_hash_node :: "(NodeId \<Rightarrow> string) \<Rightarrow> selector \<Rightarrow> string \<Rightarrow> ClusterError + NodeId" where
  "select_consistent_hash_node show_id sel actor_path =
     (let ns = sel_active_nodes sel
      in if ns = [] then Inl NoNodesAvailable
         else Inr (fst (foldl (closer_node show_id (hash_string actor_path)) (hd ns, - 1) ns)))"

definition starts_with :: "string \<Rightarrow> string \<Rightarrow> bool" where
  "starts_with s p = (take (length p) s = p)"

definition select_locality_node :: "(NodeId \<Rightarrow> string) \<Rightarrow> selector \<Rightarrow> string \<Rightarrow> ClusterError + NodeId" where
  "select_locality_node show_id sel actor_path =
     (let ns = sel_active_nodes sel
      in if ns = [] then Inl NoNodesAvailable
         else case find (\<lambda>n. case sel_node_info sel n of Some i \<Rightarrow> starts_with actor_path (ni_name i) | None \<Rightarrow> False) ns of
                Some n \<Rightarrow> Inr n
              | None \<Rightarrow> select_consistent_hash_node show_id sel actor_path)"

text \<open>One round of the redundant selection: the search over the indices not used yet, whose state is the selected index, its
  distance and whether any unused index was seen.\<close>

definition closer_index ::
    "(NodeId \<Rightarrow> string) \<Rightarrow> NodeId list \<Rightarrow> nat list \<Rightarrow> u64 \<Rightarrow> nat \<times> u64 \<times> bool \<Rightarrow> nat \<Rightarrow> nat \<times> u64 \<times> bool" where
  "closer_index show_id ns used hash best index =
     (case best of (selected_index, closest_distance, found) \<Rightarrow>
        if index \<in> set used then best
        else let d = hash_distance (hash_string (show_id (ns ! index))) hash
             in if d < closest_distance then (index, d, True) else (selected_index, closest_distance, True))"

fun redundant_rounds ::
    "(NodeId \<Rightarrow> string) \<Rightarrow> NodeId list \<Rightarrow> u64 \<Rightarrow> nat list \<Rightarrow> nat list \<Rightarrow> ClusterError + nat list" where
  "redundant_rounds show_id ns base used [] = Inr []"
| "redundant_rounds show_id ns base used (i # rounds) =
     (case foldl (closer_index show_id ns used (base + of_nat i)) (0, - 1, False) [0..<length ns] of
        (selected_index, _, found) \<Rightarrow>
          if \<not> found then Inl InvalidOperation
          else case redundant_rounds show_id ns base (selected_index # used) rounds of
                 Inl e \<Rightarrow> Inl e
               | Inr ks \<Rightarrow> Inr (selected_index # ks))"

definition select_redundant_nodes ::
    "(NodeId \<Rightarrow> string) \<Rightarrow> selector \<Rightarrow> string \<Rightarrow> nat \<Rightarrow> ClusterError + NodeId list" where
  "select_redundant_nodes show_id sel actor_path replicas =
     (let ns = sel_active_nodes sel
      in if ns = [] then Inl NoNodesAvailable
         else if length ns < replicas then Inl InvalidOperation
         else case redundant_rounds show_id ns (hash_string actor_path) [] [0..<replicas] of
                Inl e \<Rightarrow> Inl e
              | Inr ks \<Rightarrow> Inr (map ((!) ns) ks))"

section \<open>Selecting a node\<close>

definition select_redundant ::
    "(NodeId \<Rightarrow> string) \<Rightarrow> selector \<Rightarrow> string \<Rightarrow> nat \<Rightarrow> PlacementStrategyImpl \<Rightarrow>
     (ClusterError + NodeId) option \<times> PlacementStrategyImpl" where
  "select_redundant show_id sel actor_path replicas st =
     (let ns = sel_active_nodes sel
      in if ns = [] then (Some (Inl NoNodesAvailable), st)
         else if length ns < replicas then (Some (Inl InvalidOperation), st)
         else let first = (\<lambda>nodes. case nodes of [] \<Rightarrow> None | n # _ \<Rightarrow> Some (Inr n))
              in case hm_get (ps_redundant_nodes st) actor_path of
                   Some nodes \<Rightarrow> (first nodes, st)
                 | None \<Rightarrow>
                     (case select_redundant_nodes show_id sel actor_path replicas of
                        Inl e \<Rightarrow> (Some (Inl e), st)
                      | Inr nodes \<Rightarrow>
                          (first nodes, st \<lparr> ps_redundant_nodes := hm_insert actor_path nodes (ps_redundant_nodes st) \<rparr>)))"

definition affinity_node :: "selector \<Rightarrow> string option \<Rightarrow> NodeId option" where
  "affinity_node sel grp =
     (if NodeId_local \<in> set (sel_active_nodes sel) then Some NodeId_local
      else case grp of
             None \<Rightarrow> None
           | Some group_id \<Rightarrow>
               find (\<lambda>n. case sel_node_info sel n of
                           Some i \<Rightarrow> list_ex (\<lambda>cap. starts_with cap (''/user/'' @ group_id @ ''/'')) (ni_capabilities i)
                         | None \<Rightarrow> False) (sel_active_nodes sel))"

fun select_node ::
    "(NodeId \<Rightarrow> string) \<Rightarrow> (nat \<Rightarrow> nat) \<Rightarrow> selector \<Rightarrow> string \<Rightarrow> PlacementStrategy \<Rightarrow> PlacementStrategyImpl \<Rightarrow>
     (ClusterError + NodeId) option \<times> PlacementStrategyImpl" where
  "select_node show_id rnd sel actor_path Random st = (Some (select_random_node rnd sel), st)"
| "select_node show_id rnd sel actor_path RoundRobin st =
     (let (r, st') = select_round_robin_node sel st in (Some r, st'))"
| "select_node show_id rnd sel actor_path LeastLoaded st = (Some (select_least_loaded_node sel), st)"
| "select_node show_id rnd sel actor_path (OnNode n) st = (Some (select_specific_node sel n), st)"
| "select_node show_id rnd sel actor_path (Redundant replicas) st = select_redundant show_id sel actor_path replicas st"
| "select_node show_id rnd sel actor_path (LocalAffinity fallback grp) st =
     (if sel_active_nodes sel = [] then (Some (Inl NoNodesAvailable), st)
      else case affinity_node sel grp of
             Some n \<Rightarrow> (Some (Inr n), st)
           | None \<Rightarrow> select_node show_id rnd sel actor_path fallback st)"

section \<open>Searches\<close>

lemma less_loaded_fold:
  "fst (foldl (less_loaded sel) (b, l) ns) \<in> insert b (set ns)
   \<and> snd (foldl (less_loaded sel) (b, l) ns) \<le> l
   \<and> (foldl (less_loaded sel) (b, l) ns = (b, l)
      \<or> (\<exists>i. sel_node_info sel (fst (foldl (less_loaded sel) (b, l) ns)) = Some i
             \<and> ni_load i = snd (foldl (less_loaded sel) (b, l) ns)))
   \<and> (\<forall>n\<in>set ns. \<forall>i. sel_node_info sel n = Some i \<longrightarrow> snd (foldl (less_loaded sel) (b, l) ns) \<le> ni_load i)"
proof (induction ns arbitrary: b l)
  case (Cons n ns)
  obtain b' l' where s: "less_loaded sel (b, l) n = (b', l')" by force
  have step: "l' \<le> l" "b' = b \<and> l' = l \<or> b' = n \<and> (\<exists>i. sel_node_info sel n = Some i \<and> ni_load i = l')"
    "\<forall>i. sel_node_info sel n = Some i \<longrightarrow> l' \<le> ni_load i"
    using s by (auto simp: less_loaded_def split: option.splits if_splits)
  show ?case
    using Cons.IH [of b' l'] step unfolding foldl_Cons s by (auto intro: order_trans)
qed simp

lemma closer_node_fold: "fst (foldl (closer_node show_id h) (b, d) ns) \<in> insert b (set ns)"
proof (induction ns arbitrary: b d)
  case (Cons n ns)
  show ?case
    using Cons.IH [of n "hash_distance (hash_string (show_id n)) h"] Cons.IH [of b d]
    by (auto simp: closer_node_def Let_def)
qed simp

lemma consistent_hash_active:
  "select_consistent_hash_node show_id sel p = Inr n \<Longrightarrow> n \<in> set (sel_active_nodes sel)"
  using closer_node_fold [of show_id "hash_string p" "hd (sel_active_nodes sel)" "- 1" "sel_active_nodes sel"]
  by (auto simp: select_consistent_hash_node_def Let_def split: if_splits)

lemma locality_active: "select_locality_node show_id sel p = Inr n \<Longrightarrow> n \<in> set (sel_active_nodes sel)"
  by (auto simp: select_locality_node_def Let_def split: if_splits option.splits
      dest: consistent_hash_active find_Some_mem)

abbreviation index_distance :: "(NodeId \<Rightarrow> string) \<Rightarrow> NodeId list \<Rightarrow> u64 \<Rightarrow> nat \<Rightarrow> u64" where
  "index_distance show_id ns h j \<equiv> hash_distance (hash_string (show_id (ns ! j))) h"

lemma closer_index_fold:
  "\<exists>k' d'. foldl (closer_index show_id ns used h) (k, d, f) js = (k', d', f \<or> (\<exists>j\<in>set js. j \<notin> set used))
     \<and> d' \<le> d \<and> (k' = k \<and> d' = d \<or> k' \<in> set js - set used \<and> d' = index_distance show_id ns h k')
     \<and> (\<forall>j\<in>set js - set used. d' \<le> index_distance show_id ns h j)"
proof (induction js arbitrary: k d f)
  case (Cons j js)
  let ?d = "index_distance show_id ns h j"
  consider "j \<in> set used" | "j \<notin> set used" "?d < d" | "j \<notin> set used" "d \<le> ?d" by fastforce
  then show ?case
  proof cases
    case 1
    then show ?thesis using Cons.IH [of k d f] by (auto simp: closer_index_def)
  next
    case 2
    then have "foldl (closer_index show_id ns used h) (k, d, f) (j # js) =
               foldl (closer_index show_id ns used h) (j, ?d, True) js"
      by (simp add: closer_index_def Let_def)
    with Cons.IH [of j ?d True] 2 show ?thesis by (auto intro: order_trans)
  next
    case 3
    then have "foldl (closer_index show_id ns used h) (k, d, f) (j # js) =
               foldl (closer_index show_id ns used h) (k, d, True) js"
      by (auto simp: closer_index_def Let_def)
    with Cons.IH [of k d True] 3 show ?thesis by (auto intro: order_trans)
  qed
qed simp

lemma unused_index: "length used < length ns \<Longrightarrow> \<exists>j<length ns. j \<notin> set used"
proof -
  assume "length used < length ns"
  then have "card (set used) < card {..<length ns}" using card_length [of used] by simp
  then have "\<not> {..<length ns} \<subseteq> set used"
    using card_mono [of "set used" "{..<length ns}"] by fastforce
  then show ?thesis by auto
qed

text \<open>A round picks an unused index, a closest one, as long as no distance is the last \<^verbatim>\<open>u64\<close>.\<close>

lemma redundant_round:
  assumes "length used < length ns" and "\<forall>j<length ns. index_distance show_id ns h j \<noteq> - 1"
  obtains k d where "foldl (closer_index show_id ns used h) (0, - 1, False) [0..<length ns] = (k, d, True)"
    and "k < length ns" and "k \<notin> set used"
    and "\<forall>j<length ns. j \<notin> set used \<longrightarrow> index_distance show_id ns h k \<le> index_distance show_id ns h j"
proof -
  obtain j where j: "j < length ns" "j \<notin> set used"
    using unused_index [OF assms(1)] by auto
  obtain k d where k: "foldl (closer_index show_id ns used h) (0, - 1, False) [0..<length ns] =
      (k, d, \<exists>j\<in>set [0..<length ns]. j \<notin> set used)"
    "k = 0 \<and> d = - 1 \<or> k \<in> set [0..<length ns] - set used \<and> d = index_distance show_id ns h k"
    "\<forall>j\<in>set [0..<length ns] - set used. d \<le> index_distance show_id ns h j"
    using closer_index_fold [of show_id ns used h 0 "- 1" False "[0..<length ns]"] by auto
  have "d \<le> index_distance show_id ns h j" using k(3) j by simp
  moreover have "index_distance show_id ns h j < - 1"
    using assms(2) j(1) by (simp add: word_order.not_eq_extremum)
  ultimately have "d \<noteq> - 1" by auto
  with k j show thesis by (intro that [of k d]) auto
qed

lemma redundant_rounds_distinct:
  assumes "length used + length rounds \<le> length ns"
    and "\<forall>i\<in>set rounds. \<forall>j<length ns. index_distance show_id ns (base + of_nat i) j \<noteq> - 1"
  shows "\<exists>ks. redundant_rounds show_id ns base used rounds = Inr ks \<and> length ks = length rounds
           \<and> distinct ks \<and> set ks \<subseteq> {..<length ns} - set used"
  using assms
proof (induction rounds arbitrary: used)
  case (Cons i rounds)
  obtain k d where k: "foldl (closer_index show_id ns used (base + of_nat i)) (0, - 1, False) [0..<length ns] = (k, d, True)"
    "k < length ns" "k \<notin> set used"
    by (rule redundant_round [of used ns show_id "base + of_nat i"]) (use Cons.prems in auto)
  obtain ks where "redundant_rounds show_id ns base (k # used) rounds = Inr ks" "length ks = length rounds"
    "distinct ks" "set ks \<subseteq> {..<length ns} - set (k # used)"
    using Cons.IH [of "k # used"] Cons.prems by auto
  with k show ?case by (auto intro!: exI [of _ "k # ks"])
qed simp

lemma redundant_rounds_total:
  "length used + length rounds \<le> length ns \<Longrightarrow> \<exists>ks. redundant_rounds show_id ns base used rounds = Inr ks"
proof (induction rounds arbitrary: used)
  case (Cons i rounds)
  have u: "(False \<or> (\<exists>j\<in>set [0..<length ns]. j \<notin> set used)) = True"
    using unused_index [of used ns] Cons.prems by auto
  obtain k d where "foldl (closer_index show_id ns used (base + of_nat i)) (0, - 1, False) [0..<length ns] = (k, d, True)"
    using closer_index_fold [of show_id ns used "base + of_nat i" 0 "- 1" False "[0..<length ns]"] unfolding u by blast
  with Cons.IH [of "k # used"] Cons.prems show ?case by auto
qed simp

lemma redundant_rounds_length:
  "redundant_rounds show_id ns base used rounds = Inr ks \<Longrightarrow> length ks = length rounds"
  by (induction rounds arbitrary: used ks) (auto split: prod.splits if_splits sum.splits)

lemma redundant_rounds_in:
  "redundant_rounds show_id ns base used rounds = Inr ks \<Longrightarrow> ns \<noteq> [] \<Longrightarrow> set ks \<subseteq> {..<length ns}"
proof (induction rounds arbitrary: used ks)
  case (Cons i rounds)
  obtain k d f where f: "foldl (closer_index show_id ns used (base + of_nat i)) (0, - 1, False) [0..<length ns] = (k, d, f)"
    and "k = 0 \<or> k < length ns"
    using closer_index_fold [of show_id ns used "base + of_nat i" 0 "- 1" False "[0..<length ns]"] by auto
  with Cons show ?case by (fastforce split: if_splits sum.splits)
qed simp

lemma redundant_nodes_active:
  assumes "select_redundant_nodes show_id sel p r = Inr ns"
  shows "length ns = r \<and> set ns \<subseteq> set (sel_active_nodes sel)"
proof -
  obtain ks where ks: "redundant_rounds show_id (sel_active_nodes sel) (hash_string p) [] [0..<r] = Inr ks"
    "ns = map ((!) (sel_active_nodes sel)) ks" "sel_active_nodes sel \<noteq> []"
    using assms by (auto simp: select_redundant_nodes_def Let_def split: if_splits sum.splits)
  then show ?thesis
    using redundant_rounds_length [OF ks(1)] redundant_rounds_in [OF ks(1)] by (auto intro!: nth_mem)
qed

section \<open>What a selection returns\<close>

text \<open>The strategy that decides: affinity gives way to its fallback when no affine node exists.\<close>

fun effective :: "selector \<Rightarrow> PlacementStrategy \<Rightarrow> PlacementStrategy" where
  "effective sel (LocalAffinity fallback grp) =
     (if sel_active_nodes sel = [] \<or> affinity_node sel grp \<noteq> None then LocalAffinity fallback grp
      else effective sel fallback)"
| "effective sel s = s"

lemma affinity_active: "affinity_node sel grp = Some n \<Longrightarrow> n \<in> set (sel_active_nodes sel)"
  by (auto simp: affinity_node_def split: if_splits option.splits dest: find_Some_mem)

lemma random_active:
  "rnd (length (sel_active_nodes sel)) < length (sel_active_nodes sel) \<Longrightarrow>
   select_random_node rnd sel = Inr n \<Longrightarrow> n \<in> set (sel_active_nodes sel)"
  by (auto simp: select_random_node_def Let_def split: if_splits)

lemma least_loaded_active: "select_least_loaded_node sel = Inr n \<Longrightarrow> n \<in> set (sel_active_nodes sel)"
  using less_loaded_fold [of sel "hd (sel_active_nodes sel)" "- 1" "sel_active_nodes sel"]
  by (auto simp: select_least_loaded_node_def Let_def split: if_splits)

lemma round_robin_active: "fst (select_round_robin_node sel st) = Inr n \<Longrightarrow> n \<in> set (sel_active_nodes sel)"
  by (auto simp: select_round_robin_node_def Let_def split: if_splits)

lemma redundant_active:
  "fst (select_redundant show_id sel p r st) = Some (Inr n) \<Longrightarrow>
   n \<in> set (sel_active_nodes sel) \<or> (\<exists>ns. hm_get (ps_redundant_nodes st) p = Some (n # ns))"
  by (auto simp: select_redundant_def Let_def split: if_splits option.splits sum.splits list.splits
      dest!: redundant_nodes_active)

lemma redundant_nodes_total:
  "sel_active_nodes sel \<noteq> [] \<Longrightarrow> r \<le> length (sel_active_nodes sel) \<Longrightarrow>
   \<exists>ns. select_redundant_nodes show_id sel p r = Inr ns \<and> (ns = [] \<longleftrightarrow> r = 0)"
proof -
  assume a: "sel_active_nodes sel \<noteq> []" "r \<le> length (sel_active_nodes sel)"
  obtain ks where "redundant_rounds show_id (sel_active_nodes sel) (hash_string p) [] [0..<r] = Inr ks"
    using redundant_rounds_total [of "[]" "[0..<r]" "sel_active_nodes sel" show_id "hash_string p"] a by auto
  with a have n: "select_redundant_nodes show_id sel p r = Inr (map ((!) (sel_active_nodes sel)) ks)"
    by (simp add: select_redundant_nodes_def Let_def)
  with redundant_nodes_active [OF n] show ?thesis by auto
qed

lemma redundant_panics:
  "fst (select_redundant show_id sel p r st) = None \<longleftrightarrow>
     sel_active_nodes sel \<noteq> [] \<and> r \<le> length (sel_active_nodes sel)
     \<and> (hm_get (ps_redundant_nodes st) p = Some [] \<or> hm_get (ps_redundant_nodes st) p = None \<and> r = 0)"
proof (cases "sel_active_nodes sel \<noteq> [] \<and> r \<le> length (sel_active_nodes sel)")
  case True
  then obtain ns where "select_redundant_nodes show_id sel p r = Inr ns" "ns = [] \<longleftrightarrow> r = 0"
    using redundant_nodes_total [of sel r show_id p] by auto
  with True show ?thesis by (auto simp: select_redundant_def Let_def split: option.splits list.splits)
qed (auto simp: select_redundant_def Let_def)

text \<open>
  C18. Where an actor may be placed: a returned node is active, or it is the node the strategy names and the selector
  knows, or it is the head of the redundant nodes cached for the path, whether still active or not. The selection panics exactly
  when a redundant strategy decides, for a number of replicas the cluster has, and the cached list is empty or there is none and zero
  replicas are asked for; so a request with zero replicas makes every later redundant request for that path panic. With no
  active node every strategy but a named node answers \<open>NoNodesAvailable\<close>.
\<close>

theorem placement_result:
  assumes "\<And>n. 0 < n \<Longrightarrow> rnd n < n"
  shows "(fst (select_node show_id rnd sel p s st) = Some (Inr n) \<longrightarrow>
            n \<in> set (sel_active_nodes sel) \<or> effective sel s = OnNode n \<and> sel_node_info sel n \<noteq> None
            \<or> (\<exists>r ns. effective sel s = Redundant r \<and> hm_get (ps_redundant_nodes st) p = Some (n # ns)))
     \<and> (fst (select_node show_id rnd sel p s st) = None \<longleftrightarrow>
          (\<exists>r. effective sel s = Redundant r \<and> sel_active_nodes sel \<noteq> [] \<and> r \<le> length (sel_active_nodes sel)
             \<and> (hm_get (ps_redundant_nodes st) p = Some [] \<or> hm_get (ps_redundant_nodes st) p = None \<and> r = 0)))
     \<and> (sel_active_nodes sel = [] \<and> (\<nexists>n. effective sel s = OnNode n) \<longrightarrow>
          select_node show_id rnd sel p s st = (Some (Inl NoNodesAvailable), st))"
proof (induction s)
  case Random
  have "rnd (length (sel_active_nodes sel)) < length (sel_active_nodes sel)" if "sel_active_nodes sel \<noteq> []"
    using that assms by simp
  then show ?case by (auto simp: select_random_node_def Let_def split: if_splits)
next
  case (OnNode m)
  then show ?case by (auto simp: select_specific_node_def split: if_splits)
next
  case RoundRobin
  then show ?case by (auto simp: select_round_robin_node_def Let_def split: if_splits)
next
  case LeastLoaded
  then show ?case using least_loaded_active [of sel n] by (auto simp: select_least_loaded_node_def Let_def split: if_splits)
next
  case (Redundant r)
  then show ?case
    using redundant_panics [of show_id sel p r st] redundant_active [of show_id sel p r st n]
    by (auto simp: select_redundant_def Let_def)
next
  case (LocalAffinity fallback grp)
  then show ?case by (cases "affinity_node sel grp") (auto dest: affinity_active)
qed

definition sample_selector :: selector where
  "sample_selector =
     \<lparr> sel_active_nodes = [1, 2, 3],
       sel_node_info = (\<lambda>n. if n = 0 then None
          else Some (NodeInfo_set_load (if n = 2 then 10 else 70) (NodeInfo_new n ''node'' Peer ''addr''))) \<rparr>"

theorem placement_result_witness:
  "fst (select_node (\<lambda>_. []) (\<lambda>_. 0) sample_selector ''/user/a'' (LocalAffinity (Redundant 0) None)
     PlacementStrategyImpl_new) = None
   \<and> fst (select_node (\<lambda>_. []) (\<lambda>_. 0) sample_selector ''/user/a'' (Redundant 2)
       \<lparr> ps_round_robin_index = 0, ps_redundant_nodes = [(''/user/a'', [])] \<rparr>) = None"
  using placement_result [of "\<lambda>_. 0" "\<lambda>_. []" sample_selector "''/user/a''" "LocalAffinity (Redundant 0) None" PlacementStrategyImpl_new]
    placement_result [of "\<lambda>_. 0" "\<lambda>_. []" sample_selector "''/user/a''" "Redundant 2"
      "\<lparr> ps_round_robin_index = 0, ps_redundant_nodes = [(''/user/a'', [])] \<rparr>"]
  by (simp add: sample_selector_def affinity_node_def NodeId_local_def PlacementStrategyImpl_new_def)

section \<open>Fairness and load\<close>

fun round_robin_rounds :: "nat \<Rightarrow> selector \<Rightarrow> PlacementStrategyImpl \<Rightarrow> (ClusterError + NodeId) list \<times> PlacementStrategyImpl" where
  "round_robin_rounds 0 sel st = ([], st)"
| "round_robin_rounds (Suc k) sel st =
     (let (r, st1) = select_round_robin_node sel st; (rs, st2) = round_robin_rounds k sel st1 in (r # rs, st2))"

lemma round_robin_rounds_nth:
  assumes "sel_active_nodes sel \<noteq> []"
  shows "round_robin_rounds k sel st =
    (map (\<lambda>j. Inr (sel_active_nodes sel ! ((ps_round_robin_index st + j) mod length (sel_active_nodes sel)))) [0..<k],
     if k = 0 then st
     else st \<lparr> ps_round_robin_index := (ps_round_robin_index st + k) mod length (sel_active_nodes sel) \<rparr>)"
proof (induction k arbitrary: st)
  case (Suc k)
  have up: "[0..<Suc k] = 0 # map Suc [0..<k]" by (simp add: upt_conv_Cons map_Suc_upt)
  show ?case
    using assms by (simp add: Suc select_round_robin_node_def Let_def up comp_def mod_simps del: upt_Suc)
qed simp

text \<open>
  Round robin is fair: while the \<open>n\<close> active nodes stay the same, \<open>n\<close> selections in a row return every one of them
  exactly once, in the order of the list from the current index on, and leave the index where it was modulo \<open>n\<close>.
\<close>

theorem round_robin_fair:
  assumes "sel_active_nodes sel \<noteq> []"
  shows "let n = length (sel_active_nodes sel); (rs, st') = round_robin_rounds n sel st
         in rs = map Inr (rotate (ps_round_robin_index st) (sel_active_nodes sel))
            \<and> mset rs = image_mset Inr (mset (sel_active_nodes sel))
            \<and> ps_round_robin_index st' = ps_round_robin_index st mod n"
proof -
  let ?ns = "sel_active_nodes sel" and ?i = "ps_round_robin_index st"
  have m: "map (\<lambda>j. Inr (?ns ! ((?i + j) mod length ?ns))) [0..<length ?ns] = map Inr (rotate ?i ?ns)"
    by (rule nth_equalityI) (simp_all add: nth_rotate)
  moreover have "mset (rotate ?i ?ns) = mset ?ns"
    by (simp add: rotate_drop_take) (metis append_take_drop_id mset_append union_commute)
  ultimately show ?thesis
    using assms by (simp add: round_robin_rounds_nth Let_def m del: mset_map) (simp)
qed

theorem round_robin_fair_witness:
  "fst (round_robin_rounds 3 sample_selector \<lparr> ps_round_robin_index = 1, ps_redundant_nodes = [] \<rparr>) = [Inr 2, Inr 3, Inr 1]"
  using round_robin_fair [of sample_selector "\<lparr> ps_round_robin_index = 1, ps_redundant_nodes = [] \<rparr>"]
  by (simp add: sample_selector_def Let_def split_beta numeral_3_eq_3)

text \<open>The least loaded node: no node with known load is less loaded than the selected one. Nodes nothing is known about are never
  preferred; a node at the last \<^verbatim>\<open>u8\<close> counts like them, but loads are at most 100.\<close>

theorem least_loaded_minimal:
  assumes "select_least_loaded_node sel = Inr n" and "m \<in> set (sel_active_nodes sel)" and "sel_node_info sel m = Some i"
  shows "n \<in> set (sel_active_nodes sel)
    \<and> (case sel_node_info sel n of Some j \<Rightarrow> ni_load j \<le> ni_load i | None \<Rightarrow> ni_load i = - 1)"
proof -
  let ?r = "foldl (less_loaded sel) (hd (sel_active_nodes sel), - 1) (sel_active_nodes sel)"
  have n: "n = fst ?r" and ne: "sel_active_nodes sel \<noteq> []"
    using assms(1) by (simp_all add: select_least_loaded_node_def Let_def split: if_splits)
  have f: "fst ?r \<in> insert (hd (sel_active_nodes sel)) (set (sel_active_nodes sel))" "snd ?r \<le> ni_load i"
    "?r = (hd (sel_active_nodes sel), - 1) \<or> (\<exists>j. sel_node_info sel (fst ?r) = Some j \<and> ni_load j = snd ?r)"
    using less_loaded_fold [of sel "hd (sel_active_nodes sel)" "- 1" "sel_active_nodes sel"] assms(2,3) by blast+
  have "ni_load j \<le> ni_load i" if "sel_node_info sel n = Some j" for j
    using f(2,3) that n by (auto simp: word_order.extremum_unique)
  moreover have "ni_load i = - 1" if "sel_node_info sel n = None"
    using f(2,3) that n by (auto simp: word_order.extremum_unique)
  ultimately show ?thesis
    using f(1) n ne by (auto split: option.split)
qed

section \<open>Redundant nodes\<close>

lemma redundant_nodes_distinct:
  assumes "distinct (sel_active_nodes sel)" and "0 < r" and "r \<le> length (sel_active_nodes sel)"
    and far: "\<forall>i<r. \<forall>m\<in>set (sel_active_nodes sel). hash_distance (hash_string (show_id m)) (hash_string p + of_nat i) \<noteq> - 1"
  shows "\<exists>n ns. select_redundant_nodes show_id sel p r = Inr (n # ns) \<and> length (n # ns) = r \<and> distinct (n # ns)
     \<and> set (n # ns) \<subseteq> set (sel_active_nodes sel)
     \<and> (\<forall>m\<in>set (sel_active_nodes sel). hash_distance (hash_string (show_id n)) (hash_string p)
            \<le> hash_distance (hash_string (show_id m)) (hash_string p))"
proof -
  let ?ns = "sel_active_nodes sel" and ?h = "hash_string p"
  obtain r' where r: "[0..<r] = 0 # r'" using assms(2) by (simp add: upt_conv_Cons)
  have far': "\<forall>i\<in>set [0..<r]. \<forall>j<length ?ns. index_distance show_id ?ns (?h + of_nat i) j \<noteq> - 1"
    using far by simp
  obtain ks where ks: "redundant_rounds show_id ?ns ?h [] [0..<r] = Inr ks" "length ks = r" "distinct ks"
    "set ks \<subseteq> {..<length ?ns}"
    using redundant_rounds_distinct [of "[]" "[0..<r]" ?ns show_id ?h] far' assms(3) by auto
  obtain k d where k: "foldl (closer_index show_id ?ns [] (?h + of_nat 0)) (0, - 1, False) [0..<length ?ns] = (k, d, True)"
    "k < length ?ns" "\<forall>j<length ?ns. index_distance show_id ?ns ?h k \<le> index_distance show_id ?ns ?h j"
    by (rule redundant_round [of "[]" ?ns show_id "?h + of_nat 0"]) (use assms(2,3) far' [rule_format, of 0] in auto)
  obtain ks' where hd: "ks = k # ks'"
    using ks(1) k(1) unfolding r by (auto split: sum.splits)
  have sel: "select_redundant_nodes show_id sel p r = Inr (map ((!) ?ns) ks)"
    using ks(1) assms(2,3) by (auto simp: select_redundant_nodes_def Let_def)
  have "distinct (map ((!) ?ns) ks)"
    using ks(3,4) assms(1) by (auto simp: distinct_map inj_on_def nth_eq_iff_index_eq subset_iff)
  moreover have "set (map ((!) ?ns) ks) \<subseteq> set ?ns" using ks(4) by (auto intro!: nth_mem)
  moreover have "\<forall>m\<in>set ?ns. index_distance show_id ?ns ?h k \<le> hash_distance (hash_string (show_id m)) ?h"
    using k(3) by (auto simp: in_set_conv_nth)
  ultimately show ?thesis
    using sel ks(2) unfolding hd by auto
qed

text \<open>
  Redundant placement: with \<open>r\<close> replicas, at most as many as there are distinct active nodes, a path that was not placed before
  gets \<open>r\<close> distinct active nodes; the first of them, whose hash is closest to that of the path, is
  returned and the list is stored. From then on the same node is returned for that path whatever the cluster looks like, as long as it has enough
  nodes: neither the departure of that node nor another number of replicas is noticed. Required is that no hash distance is the last
  \<^verbatim>\<open>u64\<close>, with which the search starts.
\<close>

theorem redundant_placement:
  assumes "distinct (sel_active_nodes sel)" and "0 < r" and "r \<le> length (sel_active_nodes sel)"
    and "hm_get (ps_redundant_nodes st) p = None"
    and "\<forall>i<r. \<forall>m\<in>set (sel_active_nodes sel). hash_distance (hash_string (show_id m)) (hash_string p + of_nat i) \<noteq> - 1"
    and "0 < r'" and "r' \<le> length (sel_active_nodes sel')"
  shows "\<exists>n ns st'. select_node show_id rnd sel p (Redundant r) st = (Some (Inr n), st')
     \<and> hm_get (ps_redundant_nodes st') p = Some (n # ns) \<and> length (n # ns) = r \<and> distinct (n # ns)
     \<and> set (n # ns) \<subseteq> set (sel_active_nodes sel)
     \<and> (\<forall>m\<in>set (sel_active_nodes sel). hash_distance (hash_string (show_id n)) (hash_string p)
            \<le> hash_distance (hash_string (show_id m)) (hash_string p))
     \<and> select_node show_id rnd sel' p (Redundant r') st' = (Some (Inr n), st')"
proof -
  obtain n ns where n: "select_redundant_nodes show_id sel p r = Inr (n # ns)" "length (n # ns) = r" "distinct (n # ns)"
    "set (n # ns) \<subseteq> set (sel_active_nodes sel)"
    "\<forall>m\<in>set (sel_active_nodes sel). hash_distance (hash_string (show_id n)) (hash_string p)
            \<le> hash_distance (hash_string (show_id m)) (hash_string p)"
    using redundant_nodes_distinct [OF assms(1-3,5)] by blast
  define st' where "st' = st \<lparr> ps_redundant_nodes := hm_insert p (n # ns) (ps_redundant_nodes st) \<rparr>"
  have "select_node show_id rnd sel p (Redundant r) st = (Some (Inr n), st')"
    using assms(2-4) n(1) by (auto simp: select_redundant_def Let_def st'_def)
  moreover have "select_node show_id rnd sel' p (Redundant r') st' = (Some (Inr n), st')"
    using assms(6,7) by (auto simp: select_redundant_def Let_def st'_def)
  moreover have "hm_get (ps_redundant_nodes st') p = Some (n # ns)" by (simp add: st'_def)
  ultimately show ?thesis using n(2-5) by blast
qed

theorem redundant_placement_witness:
  "\<exists>n ns st'. select_node (\<lambda>n. if n = 1 then ''x'' else if n = 2 then ''k'' else ''b'') (\<lambda>_. 0) sample_selector ''m''
       (Redundant 2) PlacementStrategyImpl_new = (Some (Inr n), st')
     \<and> hm_get (ps_redundant_nodes st') ''m'' = Some (n # ns) \<and> length (n # ns) = 2 \<and> distinct (n # ns)
     \<and> select_node (\<lambda>n. if n = 1 then ''x'' else if n = 2 then ''k'' else ''b'') (\<lambda>_. 0)
         \<lparr> sel_active_nodes = [9], sel_node_info = (\<lambda>_. None) \<rparr> ''m'' (Redundant 1) st' = (Some (Inr n), st')"
proof -
  have two: "(\<forall>i<2. P i) \<longleftrightarrow> P 0 \<and> P (1::nat)" for P by (auto simp: less_2_cases_iff)
  show ?thesis
    using redundant_placement [of sample_selector 2 PlacementStrategyImpl_new "''m''"
        "\<lambda>n. if n = 1 then ''x'' else if n = 2 then ''k'' else ''b''" 1 "\<lparr> sel_active_nodes = [9], sel_node_info = (\<lambda>_. None) \<rparr>" "\<lambda>_. 0"]
    by (auto simp: two sample_selector_def PlacementStrategyImpl_new_def hash_string_def hash_distance_def
        simp del: select_node.simps)
qed

end
