(* ===== verification/Mpsc_Queue.thy ===== *)
theory Mpsc_Queue
  imports Prelude
begin

text \<open>
  The multi-producer, single-consumer queue under every mailbox (\<^verbatim>\<open>actix/src/address/queue.rs\<close>). Nodes live in an explicit heap,
  a finite map from addresses to nodes, so that reading or writing a freed node is visible: it is the result \<open>None\<close>, as is a
  failed \<^verbatim>\<open>assert!\<close>. \<open>push\<close> is two atomic actions, the swap of the head and the link from the previous head, and another thread can
  run in between. The step relation \<open>mpsc_step\<close> interleaves the actions of any number of producers and
  of the one consumer; it is the sequentially consistent reading of the code (the release and acquire orderings of the atomics are not modelled
  separately).

  The invariant \<open>mpsc_inv\<close> describes the chain of nodes from the tail to the head, with a gap wherever a producer is between its two
  actions. From it follow memory safety, first-in first-out order across producers, and what the three answers of \<open>pop\<close> mean.
\<close>

section \<open>The queue\<close>

type_synonym addr = nat

datatype 'a PopResult = Data 'a | Empty | Inconsistent

record 'a QueueNode =
  qn_next :: "addr option"
  qn_value :: "'a option"

record 'a Queue =
  q_heap :: "(addr, 'a QueueNode) hashmap"
  q_head :: addr
  q_tail :: addr

definition QueueNode_new :: "'a option \<Rightarrow> 'a QueueNode" where
  "QueueNode_new v = \<lparr> qn_next = None, qn_value = v \<rparr>"

text \<open>The allocator returns some address that is not in use; sequential runs use this one.\<close>

definition fresh_addr :: "(addr, 'n) hashmap \<Rightarrow> addr" where
  "fresh_addr h = foldr (\<lambda>a m. max (Suc a) m) (hm_keys h) 0"

definition Queue_new :: "'a Queue" where
  "Queue_new = (let stub = fresh_addr ([] :: (addr, 'a QueueNode) hashmap)
                in \<lparr> q_heap = [(stub, QueueNode_new None)], q_head = stub, q_tail = stub \<rparr>)"

definition push_swap :: "addr \<Rightarrow> 'a \<Rightarrow> 'a Queue \<Rightarrow> addr \<times> 'a Queue" where
  "push_swap n t q = (q_head q, q \<lparr> q_heap := hm_insert n (QueueNode_new (Some t)) (q_heap q), q_head := n \<rparr>)"

definition push_link :: "addr \<Rightarrow> addr \<Rightarrow> 'a Queue \<Rightarrow> 'a Queue option" where
  "push_link prev n q =
     (case hm_get (q_heap q) prev of
        None \<Rightarrow> None
      | Some nd \<Rightarrow> Some (q \<lparr> q_heap := hm_insert prev (nd \<lparr> qn_next := Some n \<rparr>) (q_heap q) \<rparr>))"

definition push :: "'a \<Rightarrow> 'a Queue \<Rightarrow> 'a Queue option" where
  "push t q =
     (let n = fresh_addr (q_heap q); (prev, q1) = push_swap n t q in push_link prev n q1)"

definition pop :: "'a Queue \<Rightarrow> ('a PopResult \<times> 'a Queue) option" where
  "pop q =
     (case hm_get (q_heap q) (q_tail q) of
        None \<Rightarrow> None
      | Some tail \<Rightarrow>
          (case qn_next tail of
             Some n \<Rightarrow>
               (case hm_get (q_heap q) n of
                  None \<Rightarrow> None
                | Some nxt \<Rightarrow>
                    (case (qn_value tail, qn_value nxt) of
                       (None, Some ret) \<Rightarrow>
                         Some (Data ret,
                           q \<lparr> q_tail := n,
                               q_heap := hm_remove (q_tail q) (hm_insert n (nxt \<lparr> qn_value := None \<rparr>) (q_heap q)) \<rparr>)
                     | _ \<Rightarrow> None))
           | None \<Rightarrow> Some (if q_head q = q_tail q then Empty else Inconsistent, q)))"

partial_function (option) pop_spin :: "'a Queue \<Rightarrow> ('a option \<times> 'a Queue) option" where
  "pop_spin q =
     (case pop q of
        None \<Rightarrow> None
      | Some (r, q') \<Rightarrow>
          (case r of
             Empty \<Rightarrow> Some (None, q')
           | Data t \<Rightarrow> Some (Some t, q')
           | Inconsistent \<Rightarrow> pop_spin q'))"

partial_function (option) drop_nodes :: "addr option \<Rightarrow> (addr, 'a QueueNode) hashmap \<Rightarrow> (addr, 'a QueueNode) hashmap option" where
  "drop_nodes cur h =
     (case cur of
        None \<Rightarrow> Some h
      | Some a \<Rightarrow> (case hm_get h a of None \<Rightarrow> None | Some nd \<Rightarrow> drop_nodes (qn_next nd) (hm_remove a h)))"

definition Queue_drop :: "'a Queue \<Rightarrow> (addr, 'a QueueNode) hashmap option" where
  "Queue_drop q = drop_nodes (Some (q_tail q)) (q_heap q)"

declare pop_spin.simps [code] drop_nodes.simps [code]

section \<open>Producers and the consumer\<close>

text \<open>A state of the concurrent system: the queue, for every producer between its two actions the link it owes, and the values
  pushed (in the order of the swaps) and popped so far.\<close>

record 'a mpsc =
  mq_queue :: "'a Queue"
  mq_pending :: "(nat, addr \<times> addr) hashmap"
  mq_pushed :: "'a list"
  mq_popped :: "'a list"

definition mpsc_init :: "'a mpsc" where
  "mpsc_init = \<lparr> mq_queue = Queue_new, mq_pending = [], mq_pushed = [], mq_popped = [] \<rparr>"

inductive mpsc_step :: "'a mpsc \<Rightarrow> 'a mpsc \<Rightarrow> bool" where
  step_swap: "hm_get (mq_pending s) tid = None \<Longrightarrow> n \<notin> dom (hm_get (q_heap (mq_queue s))) \<Longrightarrow>
     push_swap n t (mq_queue s) = (prev, q') \<Longrightarrow>
     mpsc_step s (s \<lparr> mq_queue := q', mq_pending := hm_insert tid (prev, n) (mq_pending s), mq_pushed := mq_pushed s @ [t] \<rparr>)"
| step_link: "hm_get (mq_pending s) tid = Some (prev, n) \<Longrightarrow> push_link prev n (mq_queue s) = Some q' \<Longrightarrow>
     mpsc_step s (s \<lparr> mq_queue := q', mq_pending := hm_remove tid (mq_pending s) \<rparr>)"
| step_pop: "pop (mq_queue s) = Some (r, q') \<Longrightarrow>
     mpsc_step s (s \<lparr> mq_queue := q', mq_popped := mq_popped s @ (case r of Data v \<Rightarrow> [v] | _ \<Rightarrow> []) \<rparr>)"

section \<open>The chain of nodes\<close>

abbreviation qnd :: "'a Queue \<Rightarrow> addr \<Rightarrow> 'a QueueNode" where
  "qnd q a \<equiv> the (hm_get (q_heap q) a)"

abbreviation links :: "'b list \<Rightarrow> ('b \<times> 'b) list" where
  "links ns \<equiv> zip ns (tl ns)"

text \<open>The chain \<open>ns\<close> of a queue whose links \<open>owed\<close> are still missing.\<close>

definition chain :: "addr list \<Rightarrow> (addr \<times> addr) set \<Rightarrow> 'a Queue \<Rightarrow> bool" where
  "chain ns owed q \<longleftrightarrow>
     hm_ok (q_heap q) \<and> ns \<noteq> [] \<and> distinct ns \<and> dom (hm_get (q_heap q)) = set ns
     \<and> q_tail q = hd ns \<and> q_head q = last ns
     \<and> qn_value (qnd q (hd ns)) = None \<and> (\<forall>x\<in>set (tl ns). qn_value (qnd q x) \<noteq> None)
     \<and> qn_next (qnd q (last ns)) = None
     \<and> (\<forall>(p, n)\<in>set (links ns). qn_next (qnd q p) = (if (p, n) \<in> owed then None else Some n))
     \<and> owed \<subseteq> set (links ns)"

definition contents :: "addr list \<Rightarrow> 'a Queue \<Rightarrow> 'a list" where
  "contents ns q = map (\<lambda>x. the (qn_value (qnd q x))) (tl ns)"

definition mpsc_inv :: "addr list \<Rightarrow> 'a mpsc \<Rightarrow> bool" where
  "mpsc_inv ns s \<longleftrightarrow>
     chain ns (set (hm_values (mq_pending s))) (mq_queue s) \<and> hm_ok (mq_pending s)
     \<and> distinct (hm_values (mq_pending s)) \<and> mq_pushed s = mq_popped s @ contents ns (mq_queue s)"

lemma links_snoc: "ns \<noteq> [] \<Longrightarrow> links (ns @ [n]) = links ns @ [(last ns, n)]"
  by (induction ns rule: list_nonempty_induct) (auto simp: neq_Nil_conv)

lemma links_fst: "(p, n) \<in> set (links ns) \<Longrightarrow> p \<in> set (butlast ns) \<and> n \<in> set (tl ns)"
proof (induction ns)
  case (Cons a ns)
  then show ?case by (cases ns) auto
qed simp

lemma links_unique: "distinct ns \<Longrightarrow> (p, n) \<in> set (links ns) \<Longrightarrow> (p, n') \<in> set (links ns) \<Longrightarrow> n' = n"
  by (auto simp: in_set_zip nth_eq_iff_index_eq)

lemma links_not_last: "distinct ns \<Longrightarrow> (p, n) \<in> set (links ns) \<Longrightarrow> p \<noteq> last ns \<and> p \<in> set ns \<and> n \<in> set ns \<and> n \<noteq> hd ns"
proof -
  assume d: "distinct ns" and l: "(p, n) \<in> set (links ns)"
  then have ne: "ns \<noteq> []" and "p \<in> set (butlast ns)" "n \<in> set (tl ns)" using links_fst [OF l] by auto
  moreover have "distinct (butlast ns @ [last ns])" "distinct (hd ns # tl ns)" using d ne by simp_all
  ultimately show ?thesis using in_set_butlastD [of p ns] by (cases ns) auto
qed

lemma chain_swap:
  assumes "chain ns owed q" and "n \<notin> dom (hm_get (q_heap q))" and "push_swap n t q = (prev, q')"
  shows "chain (ns @ [n]) (insert (prev, n) owed) q' \<and> contents (ns @ [n]) q' = contents ns q @ [t]"
proof -
  have ns: "ns \<noteq> []" "distinct ns" "dom (hm_get (q_heap q)) = set ns" and prev: "prev = last ns"
    and q': "q' = q \<lparr> q_heap := hm_insert n (QueueNode_new (Some t)) (q_heap q), q_head := n \<rparr>"
    using assms(1,3) by (simp_all add: chain_def push_swap_def)
  have n: "n \<notin> set ns" using assms(2) ns(3) by simp
  have new: "(p, n) \<notin> owed" for p
    using assms(1) n links_not_last [OF ns(2)] by (auto simp: chain_def)
  have old: "qnd q' x = qnd q x" if "x \<in> set ns" for x using that n by (auto simp: q')
  have "qn_next (qnd q' p) = (if (p, m) \<in> insert (prev, n) owed then None else Some m)"
    if "(p, m) \<in> set (links (ns @ [n]))" for p m
  proof -
    have c: "(p, m) \<in> set (links ns) \<or> (p, m) = (last ns, n)"
      using that unfolding links_snoc [OF ns(1)] by auto
    then show ?thesis
    proof
      assume l: "(p, m) \<in> set (links ns)"
      then have "p \<in> set ns" "m \<noteq> n" using links_not_last [OF ns(2) l] n by auto
      then show ?thesis using assms(1) l old by (auto simp: chain_def)
    next
      assume "(p, m) = (last ns, n)"
      then show ?thesis using assms(1) ns(1) old prev by (auto simp: chain_def)
    qed
  qed
  moreover have "contents (ns @ [n]) q' = contents ns q @ [t]"
    using ns(1) n by (auto simp: contents_def q' QueueNode_new_def dest: list.set_sel(2))
  moreover have "\<forall>x\<in>set (tl (ns @ [n])). qn_value (qnd q' x) \<noteq> None"
    using assms(1) ns(1) n by (auto simp: chain_def q' QueueNode_new_def)
  moreover have "insert (prev, n) owed \<subseteq> set (links (ns @ [n]))"
    using assms(1) prev unfolding links_snoc [OF ns(1)] by (auto simp: chain_def)
  moreover have "qn_value (qnd q' (hd (ns @ [n]))) = None"
    using assms(1) ns(1) old [of "hd ns"] by (simp add: chain_def)
  ultimately show ?thesis
    using assms(1) ns n unfolding chain_def
    by (intro conjI ballI) (auto simp: q' QueueNode_new_def dom_hm_insert simp del: tl_append2)
qed

lemma chain_link:
  assumes "chain ns owed q" and "(prev, n) \<in> owed"
  shows "\<exists>q'. push_link prev n q = Some q' \<and> chain ns (owed - {(prev, n)}) q' \<and> contents ns q' = contents ns q"
proof -
  have ns: "ns \<noteq> []" "distinct ns" "dom (hm_get (q_heap q)) = set ns" and l: "(prev, n) \<in> set (links ns)"
    using assms by (auto simp: chain_def)
  have p: "prev \<in> set ns" "prev \<noteq> last ns" using links_not_last [OF ns(2) l] by auto
  then obtain nd where nd: "hm_get (q_heap q) prev = Some nd" using ns(3) by blast
  define q' where "q' = q \<lparr> q_heap := hm_insert prev (nd \<lparr> qn_next := Some n \<rparr>) (q_heap q) \<rparr>"
  have v: "qn_value (qnd q' x) = qn_value (qnd q x)" for x by (simp add: q'_def nd)
  have nx: "qn_next (qnd q' x) = (if x = prev then Some n else qn_next (qnd q x))" for x by (simp add: q'_def)
  have "qn_next (qnd q' a) = (if (a, m) \<in> owed - {(prev, n)} then None else Some m)" if "(a, m) \<in> set (links ns)" for a m
    using assms(1) that links_unique [OF ns(2) l, of m] by (auto simp: nx chain_def)
  moreover have "dom (hm_get (q_heap q')) = set ns" using ns(3) p by (auto simp: q'_def dom_hm_insert)
  ultimately have "chain ns (owed - {(prev, n)}) q'"
    using assms(1) p by (auto simp: chain_def v nx) (simp_all add: q'_def)
  moreover have "push_link prev n q = Some q'" by (simp add: push_link_def nd q'_def)
  moreover have "contents ns q' = contents ns q" by (simp add: contents_def v)
  ultimately show ?thesis by blast
qed

text \<open>What the consumer sees: the chain starts with the stub, and the answer depends on the first link only.\<close>

lemma chain_pop_data:
  assumes "chain (a # n # ns) owed q" and "(a, n) \<notin> owed"
  shows "\<exists>q'. pop q = Some (Data (hd (contents (a # n # ns) q)), q') \<and> chain (n # ns) owed q'
            \<and> contents (n # ns) q' = tl (contents (a # n # ns) q)"
proof -
  have ds: "distinct (a # n # ns)" and dom: "dom (hm_get (q_heap q)) = set (a # n # ns)"
    and ta: "q_tail q = a" using assms(1) by (simp_all add: chain_def)
  obtain ta nn where nd: "hm_get (q_heap q) a = Some ta" "hm_get (q_heap q) n = Some nn"
    using dom by (metis domD list.set_intros(1,2))
  have v: "qn_value ta = None" "qn_next ta = Some n" using assms nd by (auto simp: chain_def)
  have "qn_value nn \<noteq> None" using assms(1) nd by (simp add: chain_def)
  then obtain w where w: "qn_value nn = Some w" by blast
  define q' where "q' = q \<lparr> q_tail := n, q_heap := hm_remove a (hm_insert n (nn \<lparr> qn_value := None \<rparr>) (q_heap q)) \<rparr>"
  have p: "pop q = Some (Data w, q')" by (simp add: pop_def \<open>q_tail q = a\<close> nd v w q'_def)
  have nx: "qn_next (qnd q' x) = qn_next (qnd q x)" if "x \<in> set (n # ns)" for x
    using that ds nd by (auto simp: q'_def)
  have vs: "qn_value (qnd q' x) = (if x = n then None else qn_value (qnd q x))" if "x \<in> set (n # ns)" for x
    using that ds nd by (auto simp: q'_def)
  have ow: "owed \<subseteq> set (links (n # ns))" using assms by (auto simp: chain_def)
  have "chain (n # ns) owed q'"
    unfolding chain_def
  proof (intro conjI)
    show "dom (hm_get (q_heap q')) = set (n # ns)" using dom ds by (auto simp: q'_def dom_hm_insert dom_hm_remove)
    show "\<forall>(p, m)\<in>set (links (n # ns)). qn_next (qnd q' p) = (if (p, m) \<in> owed then None else Some m)"
    proof (intro ballI, clarify)
      fix p m assume pm: "(p, m) \<in> set (links (n # ns))"
      then have "p \<in> set (n # ns)" by (rule set_zip_leftD)
      moreover have "qn_next (qnd q p) = (if (p, m) \<in> owed then None else Some m)"
        using assms(1) pm by (auto simp: chain_def)
      ultimately show "qn_next (qnd q' p) = (if (p, m) \<in> owed then None else Some m)" by (simp only: nx)
    qed
    show "qn_next (qnd q' (last (n # ns))) = None"
      using assms(1) nx [of "last (n # ns)"] by (simp add: chain_def del: last.simps) (simp add: chain_def)
    show "\<forall>x\<in>set (tl (n # ns)). qn_value (qnd q' x) \<noteq> None"
      using assms(1) ds vs by (auto simp: chain_def)
  qed (use assms(1) ds vs ow in \<open>simp_all add: chain_def q'_def\<close>)
  moreover have "contents (n # ns) q' = tl (contents (a # n # ns) q)"
    using ds vs by (auto simp: contents_def)
  moreover have "hd (contents (a # n # ns) q) = w" using nd w by (simp add: contents_def)
  ultimately show ?thesis using p by auto
qed

lemma chain_pop_owed:
  assumes "chain (a # n # ns) owed q" and "(a, n) \<in> owed"
  shows "pop q = Some (Inconsistent, q)"
proof -
  have "hm_get (q_heap q) a \<noteq> None" using assms(1) by (auto simp: chain_def dom_def)
  moreover have "q_head q \<noteq> q_tail q"
    using assms(1) last_in_set [of "n # ns"] unfolding chain_def by (metis distinct.simps(2) last_ConsR list.distinct(1) list.sel(1))
  moreover have "qn_next (qnd q a) = None" "q_tail q = a" using assms by (auto simp: chain_def)
  ultimately show ?thesis by (auto simp: pop_def)
qed

lemma chain_pop_empty: "chain [a] owed q \<Longrightarrow> pop q = Some (Empty, q)"
  by (auto simp: chain_def pop_def dom_def split: option.splits)

lemma chain_cases:
  assumes "chain ns owed q"
  obtains a where "ns = [a]" | a n ns' where "ns = a # n # ns'" "(a, n) \<in> owed"
    | a n ns' where "ns = a # n # ns'" "(a, n) \<notin> owed"
  using assms by (cases ns; cases "tl ns") (auto simp: chain_def)

section \<open>Every interleaving\<close>

lemma chain_new: "chain [0] {} Queue_new" "contents [0] Queue_new = []"
  by (simp_all add: chain_def contents_def Queue_new_def fresh_addr_def QueueNode_new_def hm_ok_def)

lemma values_insert:
  "hm_ok m \<Longrightarrow> hm_get m k = None \<Longrightarrow> set (hm_values (hm_insert k v m)) = insert v (set (hm_values m))
   \<and> (v \<notin> set (hm_values m) \<and> distinct (hm_values m) \<longrightarrow> distinct (hm_values (hm_insert k v m)))"
  by (induction m) (auto simp: hm_ok_def split: if_splits)

lemma values_remove:
  "hm_ok m \<Longrightarrow> distinct (hm_values m) \<Longrightarrow> hm_get m k = Some v \<Longrightarrow>
   set (hm_values (hm_remove k m)) = set (hm_values m) - {v} \<and> distinct (hm_values (hm_remove k m))"
proof (induction m)
  case (Cons p m)
  show ?case
  proof (cases "fst p = k")
    case True
    then have "hm_get m k = None" using Cons.prems(1) by (auto simp: hm_ok_def map_of_eq_None_iff)
    then show ?thesis using Cons.prems True by auto
  next
    case False
    then have g: "hm_get m k = Some v" using Cons.prems(3) by (auto split: if_splits)
    then have "v \<in> set (hm_values m)" by (force dest: map_of_SomeD)
    then have "v \<noteq> snd p" using Cons.prems(2) by (simp del: set_map) metis
    with Cons.IH Cons.prems g False show ?thesis by (auto simp: hm_ok_def)
  qed
qed simp

lemma inv_init: "mpsc_inv [0] mpsc_init"
  by (simp add: mpsc_inv_def mpsc_init_def chain_new)

lemma inv_pop:
  assumes "mpsc_inv ns s"
  obtains "ns = [hd ns]" "pop (mq_queue s) = Some (Empty, mq_queue s)" "mq_popped s = mq_pushed s"
  | "mq_pending s \<noteq> []" "pop (mq_queue s) = Some (Inconsistent, mq_queue s)" "mq_popped s \<noteq> mq_pushed s"
  | v q' ns' where "pop (mq_queue s) = Some (Data v, q')" "mq_pushed s = mq_popped s @ v # contents ns' q'"
      "chain ns' (set (hm_values (mq_pending s))) q'"
proof -
  have c: "chain ns (set (hm_values (mq_pending s))) (mq_queue s)" and p: "mq_pushed s = mq_popped s @ contents ns (mq_queue s)"
    using assms by (simp_all add: mpsc_inv_def)
  from c show thesis
  proof (cases rule: chain_cases)
    case (1 a)
    then show ?thesis using c p chain_pop_empty [of a] by (intro that(1)) (auto simp: contents_def)
  next
    case (2 a n ns')
    then show ?thesis using c p chain_pop_owed [of a n ns'] by (intro that(2)) (auto simp: contents_def)
  next
    case (3 a n ns')
    then obtain q' where "pop (mq_queue s) = Some (Data (hd (contents ns (mq_queue s))), q')"
      "chain (n # ns') (set (hm_values (mq_pending s))) q'" "contents (n # ns') q' = tl (contents ns (mq_queue s))"
      using chain_pop_data [of a n ns'] c by blast
    moreover have "contents ns (mq_queue s) \<noteq> []" using 3(1) by (simp add: contents_def)
    ultimately show ?thesis using p by (intro that(3) [of "hd (contents ns (mq_queue s))" q' "n # ns'"]) simp_all
  qed
qed

lemma inv_step:
  assumes "mpsc_step s s'" and "mpsc_inv ns s"
  shows "\<exists>ns'. mpsc_inv ns' s'"
  using assms(1)
proof cases
  case (step_swap tid n t prev q')
  note 1 = step_swap
  have "chain (ns @ [n]) (insert (prev, n) (set (hm_values (mq_pending s)))) q'"
    "contents (ns @ [n]) q' = contents ns (mq_queue s) @ [t]"
    using chain_swap [OF _ 1(3,4)] assms(2) by (auto simp: mpsc_inv_def)
  moreover have "n \<notin> set ns" and "(prev, n) \<notin> set (hm_values (mq_pending s))"
    using assms(2) 1(3) links_not_last [of ns] by (auto simp: mpsc_inv_def chain_def)
  ultimately show ?thesis
    using assms(2) values_insert [OF _ 1(2), of "(prev, n)"]
    by (intro exI [of _ "ns @ [n]"]) (simp add: mpsc_inv_def 1(1))
next
  case (step_link tid prev n q')
  note 2 = step_link
  have owed: "(prev, n) \<in> set (hm_values (mq_pending s))"
    using 2(2) by (force dest: map_of_SomeD)
  have c: "chain ns (set (hm_values (mq_pending s)) - {(prev, n)}) q'" "contents ns q' = contents ns (mq_queue s)"
    using chain_link [OF _ owed, of ns "mq_queue s"] assms(2) 2(3) by (auto simp: mpsc_inv_def)
  show ?thesis
    using assms(2) c values_remove [OF _ _ 2(2)] by (intro exI [of _ ns]) (simp add: mpsc_inv_def 2(1))
next
  case (step_pop r q')
  from assms(2) show ?thesis
  proof (cases rule: inv_pop)
    case (3 v q'' ns')
    with assms(2) step_pop show ?thesis
      by (intro exI [of _ ns']) (auto simp: mpsc_inv_def)
  qed (use assms(2) step_pop in \<open>auto simp: mpsc_inv_def intro!: exI [of _ ns]\<close>)
qed

lemma inv_reachable: "mpsc_step\<^sup>*\<^sup>* mpsc_init s \<Longrightarrow> \<exists>ns. mpsc_inv ns s"
  by (induction rule: rtranclp_induct) (auto intro: inv_init dest: inv_step)

lemma drop_nodes_chain:
  "hm_ok h \<Longrightarrow> distinct ns \<Longrightarrow> dom (hm_get h) = set ns \<Longrightarrow> ns \<noteq> [] \<Longrightarrow>
   (\<forall>(p, n)\<in>set (links ns). qn_next (the (hm_get h p)) = Some n) \<Longrightarrow> qn_next (the (hm_get h (last ns))) = None \<Longrightarrow>
   drop_nodes (Some (hd ns)) h = Some []"
proof (induction ns arbitrary: h rule: induct_list012)
  case (2 a h)
  then obtain nd where nd: "hm_get h a = Some nd" by auto
  have "hm_remove a h = []" using 2(3) by (cases "hm_remove a h") (auto simp: dom_hm_remove dest!: arg_cong [of _ _ "\<lambda>h. dom (hm_get h)"])
  with 2(6) nd show ?case by (simp add: drop_nodes.simps [of "Some a"] drop_nodes.simps [of None])
next
  case (3 a b ns h)
  obtain nd where nd: "hm_get h a = Some nd" using 3(5) by auto
  have keep: "hm_get (hm_remove a h) x = hm_get h x" if "x \<in> set (b # ns)" for x
    using that 3(4) by auto
  have lk: "\<forall>(p, n)\<in>set (links (b # ns)). qn_next (the (hm_get (hm_remove a h) p)) = Some n"
  proof (intro ballI, clarify)
    fix p n assume pn: "(p, n) \<in> set (links (b # ns))"
    then have "p \<in> set (b # ns)" by (rule set_zip_leftD)
    moreover have "qn_next (the (hm_get h p)) = Some n" using 3(7) pn by auto
    ultimately show "qn_next (the (hm_get (hm_remove a h) p)) = Some n" by (simp only: keep)
  qed
  have dom: "dom (hm_get (hm_remove a h)) = set (b # ns)" using 3(4,5) by (auto simp: dom_hm_remove)
  have "qn_next (the (hm_get (hm_remove a h) (last (b # ns)))) = None"
    using 3(8) unfolding keep [OF last_in_set [of "b # ns", OF list.distinct(2)]] by simp
  then have "drop_nodes (Some (hd (b # ns))) (hm_remove a h) = Some []"
    using 3(2) [OF hm_ok_remove [OF 3(3)] _ dom _ lk] 3(4) by simp
  moreover have "qn_next nd = Some b" using 3(7) nd by simp
  ultimately show ?case using nd by (simp add: drop_nodes.simps [of "Some a"])
qed simp

lemma chain_drop: "chain ns {} q \<Longrightarrow> Queue_drop q = Some []"
  unfolding Queue_drop_def chain_def by (elim conjE) (simp add: drop_nodes_chain)



section \<open>The queue of one thread\<close>

text \<open>Where no push is half done the queue is a plain one. The interface below is what the channels use of it.\<close>

definition queue_rep :: "'a Queue \<Rightarrow> 'a list \<Rightarrow> bool" where
  "queue_rep q xs \<longleftrightarrow> (\<exists>ns. chain ns {} q \<and> contents ns q = xs)"

locale fifo_queue =
  fixes rep :: "'q \<Rightarrow> 'a list \<Rightarrow> bool" and emp :: 'q and enq :: "'a \<Rightarrow> 'q \<Rightarrow> 'q option"
    and deq :: "'q \<Rightarrow> ('a option \<times> 'q) option"
  assumes rep_emp: "rep emp []"
    and enq_rep: "rep q xs \<Longrightarrow> \<exists>q'. enq x q = Some q' \<and> rep q' (xs @ [x])"
    and deq_Nil: "rep q [] \<Longrightarrow> deq q = Some (None, q)"
    and deq_Cons: "rep q (x # xs) \<Longrightarrow> \<exists>q'. deq q = Some (Some x, q') \<and> rep q' xs"
begin

lemma rep_unique: "rep q xs \<Longrightarrow> rep q ys \<Longrightarrow> xs = ys"
proof (induction xs arbitrary: q ys)
  case Nil
  then show ?case using deq_Nil deq_Cons by (cases ys) fastforce+
next
  case (Cons x xs)
  obtain q' where q': "deq q = Some (Some x, q')" "rep q' xs" using deq_Cons [OF Cons.prems(1)] by blast
  then obtain zs where "ys = x # zs" using deq_Nil deq_Cons Cons.prems(2) by (cases ys) fastforce+
  with q' Cons show ?case using deq_Cons [of q x zs] by fastforce
qed

lemma enq_total: "rep q xs \<Longrightarrow> enq x q \<noteq> None"
  using enq_rep by fastforce

lemma deq_total: "rep q xs \<Longrightarrow> \<exists>q'. deq q = Some (if xs = [] then None else Some (hd xs), q') \<and> rep q' (tl xs)"
  using deq_Nil deq_Cons by (cases xs) fastforce+

end

lemma fresh_addr_bound: "a \<in> set (hm_keys h) \<Longrightarrow> a < fresh_addr h"
  by (induction h) (auto simp: fresh_addr_def less_max_iff_disj)

lemma fresh_addr_fresh: "fresh_addr h \<notin> dom (hm_get h)"
  using fresh_addr_bound [of "fresh_addr h" h] by (auto simp: dom_map_of_conv_image_fst)

lemma push_rep: "queue_rep q xs \<Longrightarrow> \<exists>q'. push x q = Some q' \<and> queue_rep q' (xs @ [x])"
proof -
  assume "queue_rep q xs"
  then obtain ns where ns: "chain ns {} q" "contents ns q = xs" by (auto simp: queue_rep_def)
  let ?n = "fresh_addr (q_heap q)"
  obtain prev q1 where s: "push_swap ?n x q = (prev, q1)" by force
  have "chain (ns @ [?n]) {(prev, ?n)} q1" "contents (ns @ [?n]) q1 = xs @ [x]"
    using chain_swap [OF ns(1) fresh_addr_fresh s] ns(2) by auto
  with chain_link [of "ns @ [?n]" "{(prev, ?n)}" q1 prev ?n] show ?thesis
    by (auto simp: push_def s queue_rep_def)
qed

lemma pop_spin_rep:
  "queue_rep q [] \<Longrightarrow> pop_spin q = Some (None, q)"
  "queue_rep q (x # xs) \<Longrightarrow> \<exists>q'. pop_spin q = Some (Some x, q') \<and> queue_rep q' xs"
proof -
  assume "queue_rep q []"
  then obtain ns where c: "chain ns {} q" "contents ns q = []" by (auto simp: queue_rep_def)
  then obtain a where "chain [a] {} q" by (cases ns) (auto simp: contents_def chain_def)
  then show "pop_spin q = Some (None, q)" by (simp add: pop_spin.simps [of q] chain_pop_empty)
next
  assume "queue_rep q (x # xs)"
  then obtain ns0 where c0: "chain ns0 {} q" "contents ns0 q = x # xs" by (auto simp: queue_rep_def)
  then obtain a n ns where c: "chain (a # n # ns) {} q" "contents (a # n # ns) q = x # xs"
    by (cases ns0; cases "tl ns0") (simp_all add: contents_def)
  show "\<exists>q'. pop_spin q = Some (Some x, q') \<and> queue_rep q' xs"
    using chain_pop_data [OF c(1)] by (auto simp: pop_spin.simps [of q] c(2) queue_rep_def)
qed

interpretation mq: fifo_queue queue_rep Queue_new push pop_spin
proof
  show "queue_rep Queue_new []" using chain_new by (auto simp: queue_rep_def)
qed (simp_all add: push_rep pop_spin_rep)

end
