(* ===== verification/Channel.thy ===== *)
theory Channel
  imports Mpsc_Queue
begin

text \<open>
  The channel behind an actor's address (\<^verbatim>\<open>actix/src/address/channel.rs\<close>). The counter word packs the open flag into the top bit
  and the number of messages into the others; the two queues are those of \<open>Mpsc_Queue\<close>. Every sender has a task handle which the
  parked queue shares, so senders are numbered and their handles kept in a store. A waker is a number, and the wakers woken so far are
  recorded. Each method runs to its end as one action: its compare-and-swap loops are single atomic updates. \<open>None\<close> is a panic or an access to freed memory.
  A \<^verbatim>\<open>usize\<close> has 64 bits. What a message is packed with (\<^verbatim>\<open>Envelope\<close>) is the message and whether an answer is expected.

  The lemmas show that the packed counter is faithful, that the channel implements a specification with a list of messages and a
  list of parked senders, how many messages it can hold, and what dropping the receiver does.
\<close>

unbundle bit_operations_syntax

section \<open>The counter word\<close>

record State =
  is_open :: bool
  num_messages :: u64

definition State_is_closed :: "State \<Rightarrow> bool" where
  "State_is_closed st = (\<not> is_open st \<and> num_messages st = 0)"

definition OPEN_MASK :: u64 where
  "OPEN_MASK = - 1 - drop_bit 1 (- 1)"

definition INIT_STATE :: u64 where
  "INIT_STATE = OPEN_MASK"

definition MAX_CAPACITY :: u64 where
  "MAX_CAPACITY = NOT OPEN_MASK"

definition MAX_BUFFER :: u64 where
  "MAX_BUFFER = drop_bit 1 MAX_CAPACITY"

definition decode_state :: "u64 \<Rightarrow> State" where
  "decode_state num = \<lparr> is_open = (num AND OPEN_MASK = OPEN_MASK), num_messages = num AND MAX_CAPACITY \<rparr>"

definition encode_state :: "State \<Rightarrow> u64" where
  "encode_state st = (if is_open st then num_messages st OR OPEN_MASK else num_messages st)"

section \<open>The channel\<close>

datatype 'm SendError = Full 'm | Closed 'm

datatype 'a Poll = Ready 'a | Pending

record SenderTask =
  st_task :: "nat option"
  st_is_parked :: bool

record AddressSender =
  as_sender_task :: SenderTask
  as_maybe_parked :: bool

type_synonym 'm envelope = "'m \<times> bool"

record 'm Channel =
  ch_buffer :: u64
  ch_state :: u64
  ch_message_queue :: "'m envelope Queue"
  ch_parked_queue :: "nat Queue"
  ch_num_senders :: u64
  ch_recv_task :: "nat option"
  ch_senders :: "nat \<Rightarrow> AddressSender"
  ch_next_sender :: nat
  ch_woken :: "nat list"

definition SenderTask_new :: SenderTask where
  "SenderTask_new = \<lparr> st_task = None, st_is_parked = False \<rparr>"

definition AddressSender_new :: AddressSender where
  "AddressSender_new = \<lparr> as_sender_task = SenderTask_new, as_maybe_parked = False \<rparr>"

definition SenderTask_notify :: "SenderTask \<Rightarrow> bool \<times> nat list \<times> SenderTask" where
  "SenderTask_notify t =
     (case st_task t of
        Some w \<Rightarrow> (True, [w], \<lparr> st_task = None, st_is_parked = False \<rparr>)
      | None \<Rightarrow> (False, [], t \<lparr> st_is_parked := False \<rparr>))"

definition channel :: "u64 \<Rightarrow> 'm Channel option" where
  "channel buffer =
     (if buffer < MAX_BUFFER then
        Some \<lparr> ch_buffer = buffer, ch_state = INIT_STATE, ch_message_queue = Queue_new, ch_parked_queue = Queue_new,
               ch_num_senders = 1, ch_recv_task = None, ch_senders = (\<lambda>_. AddressSender_new), ch_next_sender = 1,
               ch_woken = [] \<rparr>
      else None)"

definition notify_sender :: "nat \<Rightarrow> 'm Channel \<Rightarrow> 'm Channel" where
  "notify_sender sid ch =
     (let s = ch_senders ch sid; (_, w, t) = SenderTask_notify (as_sender_task s)
      in ch \<lparr> ch_senders := (ch_senders ch)(sid := s \<lparr> as_sender_task := t \<rparr>), ch_woken := ch_woken ch @ w \<rparr>)"

definition wake_recv :: "'m Channel \<Rightarrow> 'm Channel" where
  "wake_recv ch =
     (case ch_recv_task ch of
        Some w \<Rightarrow> ch \<lparr> ch_recv_task := None, ch_woken := ch_woken ch @ [w] \<rparr>
      | None \<Rightarrow> ch)"

subsection \<open>Senders\<close>

definition sender_connected :: "'m Channel \<Rightarrow> bool" where
  "sender_connected ch = is_open (decode_state (ch_state ch))"

definition inc_num_messages :: "'m Channel \<Rightarrow> u64 option \<times> 'm Channel" where
  "inc_num_messages ch =
     (let st = decode_state (ch_state ch)
      in if \<not> is_open st then (None, ch)
         else let st' = st \<lparr> num_messages := num_messages st + 1 \<rparr>
              in (Some (num_messages st'), ch \<lparr> ch_state := encode_state st' \<rparr>))"

definition park :: "nat \<Rightarrow> 'm Channel \<Rightarrow> 'm Channel option" where
  "park sid ch =
     (let s = ch_senders ch sid; t = \<lparr> st_task = None, st_is_parked = True \<rparr>
      in do {
        pq \<leftarrow> push sid (ch_parked_queue ch);
        Some (ch \<lparr> ch_parked_queue := pq,
                   ch_senders := (ch_senders ch)(sid := \<lparr> as_sender_task = t,
                                    as_maybe_parked = is_open (decode_state (ch_state ch)) \<rparr>) \<rparr>)
      })"

definition poll_unparked :: "nat \<Rightarrow> bool \<Rightarrow> nat option \<Rightarrow> 'm Channel \<Rightarrow> unit Poll \<times> 'm Channel" where
  "poll_unparked sid do_park cx ch =
     (let s = ch_senders ch sid
      in if as_maybe_parked s then
           (if \<not> st_is_parked (as_sender_task s)
            then (Ready (), ch \<lparr> ch_senders := (ch_senders ch)(sid := s \<lparr> as_maybe_parked := False \<rparr>) \<rparr>)
            else (Pending,
                  ch \<lparr> ch_senders := (ch_senders ch)(sid :=
                         s \<lparr> as_sender_task := (as_sender_task s) \<lparr> st_task := (if do_park then cx else None) \<rparr> \<rparr>) \<rparr>))
         else (Ready (), ch))"

definition queue_push_and_signal :: "'m envelope \<Rightarrow> 'm Channel \<Rightarrow> 'm Channel option" where
  "queue_push_and_signal env ch = do {
     q \<leftarrow> push env (ch_message_queue ch);
     Some (wake_recv (ch \<lparr> ch_message_queue := q \<rparr>))
   }"

definition should_park :: "'m Channel \<Rightarrow> u64 \<Rightarrow> bool" where
  "should_park ch n = (ch_buffer ch \<noteq> 0 \<and> ch_buffer ch \<le> n)"

definition send :: "nat \<Rightarrow> 'm \<Rightarrow> 'm Channel \<Rightarrow> (('m SendError + unit) \<times> 'm Channel) option" where
  "send sid msg ch =
     (case poll_unparked sid False None ch of
        (Pending, ch1) \<Rightarrow> Some (Inl (Full msg), ch1)
      | (Ready _, ch1) \<Rightarrow>
          (case inc_num_messages ch1 of
             (None, ch2) \<Rightarrow> Some (Inl (Closed msg), ch2)
           | (Some n, ch2) \<Rightarrow> do {
               ch3 \<leftarrow> (if should_park ch2 n then park sid ch2 else Some ch2);
               ch4 \<leftarrow> queue_push_and_signal (msg, True) ch3;
               Some (Inr (), ch4)
             }))"

definition try_send :: "nat \<Rightarrow> 'm \<Rightarrow> bool \<Rightarrow> 'm Channel \<Rightarrow> (('m SendError + unit) \<times> 'm Channel) option" where
  "try_send sid msg pk ch =
     (case poll_unparked sid False None ch of
        (Pending, ch1) \<Rightarrow> Some (Inl (Full msg), ch1)
      | (Ready _, ch1) \<Rightarrow>
          (case inc_num_messages ch1 of
             (None, ch2) \<Rightarrow> Some (Inl (Closed msg), ch2)
           | (Some n, ch2) \<Rightarrow> do {
               ch3 \<leftarrow> (if should_park ch2 n \<and> pk then park sid ch2 else Some ch2);
               ch4 \<leftarrow> queue_push_and_signal (msg, False) ch3;
               Some (Inr (), ch4)
             }))"

definition do_send :: "'m \<Rightarrow> 'm Channel \<Rightarrow> (('m SendError + unit) \<times> 'm Channel) option" where
  "do_send msg ch =
     (case inc_num_messages ch of
        (None, ch1) \<Rightarrow> Some (Inl (Closed msg), ch1)
      | (Some _, ch1) \<Rightarrow> do { ch2 \<leftarrow> queue_push_and_signal (msg, False) ch1; Some (Inr (), ch2) })"

definition max_senders :: "'m Channel \<Rightarrow> u64" where
  "max_senders ch = MAX_CAPACITY - ch_buffer ch"

definition sender_clone :: "'m Channel \<Rightarrow> (nat \<times> 'm Channel) option" where
  "sender_clone ch =
     (if ch_num_senders ch = max_senders ch then None
      else Some (ch_next_sender ch,
             ch \<lparr> ch_num_senders := ch_num_senders ch + 1, ch_next_sender := ch_next_sender ch + 1,
                  ch_senders := (ch_senders ch)(ch_next_sender ch := AddressSender_new) \<rparr>))"

definition sender_drop :: "'m Channel \<Rightarrow> 'm Channel" where
  "sender_drop ch =
     (let ch' = ch \<lparr> ch_num_senders := ch_num_senders ch - 1 \<rparr>
      in if ch_num_senders ch = 1 then wake_recv ch' else ch')"

subsection \<open>The receiver\<close>

definition receiver_connected :: "'m Channel \<Rightarrow> bool" where
  "receiver_connected ch = (ch_num_senders ch \<noteq> 0)"

definition capacity :: "'m Channel \<Rightarrow> u64" where
  "capacity ch = ch_buffer ch"

partial_function (option) notify_all :: "'m Channel \<Rightarrow> 'm Channel option" where
  "notify_all ch =
     (case pop_spin (ch_parked_queue ch) of
        None \<Rightarrow> None
      | Some (r, pq) \<Rightarrow>
          (case r of
             None \<Rightarrow> Some (ch \<lparr> ch_parked_queue := pq \<rparr>)
           | Some sid \<Rightarrow> notify_all (notify_sender sid (ch \<lparr> ch_parked_queue := pq \<rparr>))))"

definition set_capacity :: "u64 \<Rightarrow> 'm Channel \<Rightarrow> 'm Channel option" where
  "set_capacity cap ch =
     (let ch' = ch \<lparr> ch_buffer := cap \<rparr> in if ch_buffer ch < cap then notify_all ch' else Some ch')"

definition unpark_one :: "'m Channel \<Rightarrow> 'm Channel option" where
  "unpark_one ch = do {
     (r, pq) \<leftarrow> pop_spin (ch_parked_queue ch);
     let ch' = ch \<lparr> ch_parked_queue := pq \<rparr>;
     Some (case r of Some sid \<Rightarrow> notify_sender sid ch' | None \<Rightarrow> ch')
   }"

definition dec_num_messages :: "'m Channel \<Rightarrow> 'm Channel" where
  "dec_num_messages ch = ch \<lparr> ch_state := ch_state ch - 1 \<rparr>"

definition next_message :: "'m Channel \<Rightarrow> ('m envelope option Poll \<times> 'm Channel) option" where
  "next_message ch = do {
     (r, q) \<leftarrow> pop_spin (ch_message_queue ch);
     let ch' = ch \<lparr> ch_message_queue := q \<rparr>;
     (case r of
        Some msg \<Rightarrow> do { ch'' \<leftarrow> unpark_one ch'; Some (Ready (Some msg), dec_num_messages ch'') }
      | None \<Rightarrow> Some (if State_is_closed (decode_state (ch_state ch')) then Ready None else Pending, ch'))
   }"

definition poll_next :: "nat \<Rightarrow> 'm Channel \<Rightarrow> ('m envelope option Poll \<times> 'm Channel) option" where
  "poll_next cx ch = do {
     (r, ch1) \<leftarrow> next_message ch;
     (case r of
        Ready msg \<Rightarrow> Some (Ready msg, ch1)
      | Pending \<Rightarrow> next_message (ch1 \<lparr> ch_recv_task := Some cx \<rparr>))
   }"

definition set_closed :: "'m Channel \<Rightarrow> 'm Channel" where
  "set_closed ch =
     (if \<not> is_open (decode_state (ch_state ch)) then ch else ch \<lparr> ch_state := ch_state ch AND NOT OPEN_MASK \<rparr>)"

partial_function (option) drain :: "'m Channel \<Rightarrow> 'm Channel option" where
  "drain ch =
     (case next_message ch of
        None \<Rightarrow> None
      | Some (r, ch1) \<Rightarrow>
          (case r of
             Ready m \<Rightarrow> (case m of Some _ \<Rightarrow> drain ch1 | None \<Rightarrow> Some ch1)
           | Pending \<Rightarrow> if State_is_closed (decode_state (ch_state ch1)) then Some ch1 else drain ch1))"

definition receiver_drop :: "'m Channel \<Rightarrow> 'm Channel option" where
  "receiver_drop ch = do { ch1 \<leftarrow> notify_all (set_closed ch); drain ch1 }"

declare notify_all.simps [code] drain.simps [code]

section \<open>The counter word is faithful\<close>

lemma OPEN_MASK_not: "OPEN_MASK = NOT (drop_bit 1 (- 1))"
  unfolding OPEN_MASK_def not_eq_complement
  by (rule diff_conv_add_uminus [THEN trans], rule add.commute [THEN trans], simp only: diff_conv_add_uminus)

lemma bit_OPEN_MASK: "bit OPEN_MASK n \<longleftrightarrow> n = 63"
  unfolding OPEN_MASK_not by (simp only: bit_simps possible_bit_word) auto

lemma bit_MAX_CAPACITY: "bit MAX_CAPACITY n \<longleftrightarrow> n < 63"
  unfolding MAX_CAPACITY_def by (auto simp only: bit_simps possible_bit_word bit_OPEN_MASK len_num1 len_bit0)

lemma and_capacity: "w AND MAX_CAPACITY = take_bit 63 w"
  by (rule bit_word_eqI) (auto simp: bit_simps bit_MAX_CAPACITY)

lemma and_open: "w AND OPEN_MASK = OPEN_MASK \<longleftrightarrow> bit w 63"
proof
  assume "w AND OPEN_MASK = OPEN_MASK"
  then have "bit (w AND OPEN_MASK) 63 = bit OPEN_MASK 63" by (simp only:)
  then show "bit w 63" by (simp only: bit_and_iff bit_OPEN_MASK simp_thms)
qed (intro bit_word_eqI, auto simp: bit_and_iff bit_OPEN_MASK)

lemma decode_eq: "decode_state w = \<lparr> is_open = bit w 63, num_messages = take_bit 63 w \<rparr>"
  by (simp add: decode_state_def and_capacity and_open)

lemma take_bit_small: "n < 2 ^ 63 \<Longrightarrow> take_bit 63 n = (n :: u64)"
  by (rule word_unat_eq_iff [THEN iffD2]) (simp add: unsigned_take_bit_eq take_bit_nat_eq_self_iff word_less_nat_alt)

lemma bit_small: "(n::u64) < 2 ^ 63 \<Longrightarrow> \<not> bit n 63"
  using take_bit_small [of n] by (metis bit_take_bit_iff less_irrefl)

lemma take_bit_OPEN_MASK: "take_bit 63 OPEN_MASK = 0"
  by (rule bit_word_eqI) (auto simp: bit_take_bit_iff bit_OPEN_MASK)

lemma encode_add: "n < 2 ^ 63 \<Longrightarrow> encode_state \<lparr> is_open = b, num_messages = n \<rparr> = n + (if b then OPEN_MASK else 0)"
  using bit_small [of n] by (auto simp: encode_state_def bit_OPEN_MASK intro!: disjunctive_add [symmetric])

lemma decode_encode: "num_messages st < 2 ^ 63 \<Longrightarrow> decode_state (encode_state st) = st"
  using bit_small [of "num_messages st"] take_bit_small [of "num_messages st"]
  by (cases st) (auto simp: decode_eq encode_state_def bit_or_iff bit_OPEN_MASK take_bit_OPEN_MASK)

lemma encode_decode: "encode_state (decode_state w) = w"
proof (rule bit_word_eqI)
  fix n assume "n < LENGTH(64)"
  then have "n = 63 \<or> n < 63" by auto
  then show "bit (encode_state (decode_state w)) n = bit w n"
    by (auto simp: decode_eq encode_state_def bit_or_iff bit_take_bit_iff bit_OPEN_MASK)
qed

text \<open>The number of messages the word has room for.\<close>

definition msg_limit :: nat where
  "msg_limit = 2 ^ 63"

definition packed :: "bool \<Rightarrow> nat \<Rightarrow> u64" where
  "packed b n = encode_state \<lparr> is_open = b, num_messages = of_nat n \<rparr>"

lemma of_nat_small: "n < msg_limit \<Longrightarrow> (of_nat n :: u64) < 2 ^ 63"
  by (simp add: word_less_nat_alt unat_of_nat take_bit_nat_eq_self msg_limit_def)

lemma decode_packed: "n < msg_limit \<Longrightarrow> decode_state (packed b n) = \<lparr> is_open = b, num_messages = of_nat n \<rparr>"
  unfolding packed_def by (rule decode_encode) (use of_nat_small in simp)

lemma packed_dec: "Suc n < msg_limit \<Longrightarrow> packed b (Suc n) - 1 = packed b n"
  using of_nat_small [of n] of_nat_small [of "Suc n"] by (simp add: packed_def encode_add)

lemma packed_init: "INIT_STATE = packed True 0"
  by (simp add: INIT_STATE_def packed_def encode_state_def)

lemma packed_close: "n < msg_limit \<Longrightarrow> packed True n AND NOT OPEN_MASK = packed False n"
  using bit_small [of "of_nat n"] of_nat_small [of n]
  by (intro bit_word_eqI) (auto simp: packed_def encode_state_def bit_simps bit_OPEN_MASK)

lemma packed_num: "n < msg_limit \<Longrightarrow> unat (of_nat n :: u64) = n"
  by (simp add: u64_of_nat msg_limit_def)

section \<open>The specification\<close>

text \<open>What the channel promises: a list of messages, a list of senders that have to wait, and a flag.\<close>

record 'm achan =
  ac_buffer :: u64
  ac_open :: bool
  ac_msgs :: "'m envelope list"
  ac_parked :: "nat list"
  ac_senders :: nat
  ac_live :: nat

datatype 'm chan_out = Accepted | Rejected "'m SendError" | Received "'m envelope" | Finished | Blocked | Done

datatype 'm chan_op = Send nat 'm | TrySend nat 'm bool | DoSend 'm | Receive nat | SetCapacity u64 | Clone | DropSender | Drop

definition spec_send :: "nat \<Rightarrow> 'm \<Rightarrow> bool \<Rightarrow> bool \<Rightarrow> 'm achan \<Rightarrow> 'm chan_out \<times> 'm achan" where
  "spec_send sid m reply pk a =
     (if sid \<in> set (ac_parked a) then (Rejected (Full m), a)
      else if \<not> ac_open a then (Rejected (Closed m), a)
      else let a1 = a \<lparr> ac_msgs := ac_msgs a @ [(m, reply)] \<rparr>
           in (Accepted, if pk \<and> ac_buffer a \<noteq> 0 \<and> unat (ac_buffer a) \<le> length (ac_msgs a1)
                         then a1 \<lparr> ac_parked := ac_parked a @ [sid] \<rparr> else a1))"

fun spec_step :: "'m chan_op \<Rightarrow> 'm achan \<Rightarrow> 'm chan_out \<times> 'm achan" where
  "spec_step (Send sid m) a = spec_send sid m True True a"
| "spec_step (TrySend sid m pk) a = spec_send sid m False pk a"
| "spec_step (DoSend m) a =
     (if ac_open a then (Accepted, a \<lparr> ac_msgs := ac_msgs a @ [(m, False)] \<rparr>) else (Rejected (Closed m), a))"
| "spec_step (Receive cx) a =
     (case ac_msgs a of
        [] \<Rightarrow> (if ac_open a then Blocked else Finished, a)
      | m # ms \<Rightarrow> (Received m, a \<lparr> ac_msgs := ms, ac_parked := tl (ac_parked a) \<rparr>))"
| "spec_step (SetCapacity c) a =
     (Done, a \<lparr> ac_buffer := c, ac_parked := (if ac_buffer a < c then [] else ac_parked a) \<rparr>)"
| "spec_step Clone a = (Done, a \<lparr> ac_senders := Suc (ac_senders a), ac_live := Suc (ac_live a) \<rparr>)"
| "spec_step DropSender a = (Done, a \<lparr> ac_live := ac_live a - 1 \<rparr>)"
| "spec_step Drop a = (Done, a \<lparr> ac_open := False, ac_msgs := [], ac_parked := [] \<rparr>)"

definition send_out :: "'m SendError + unit \<Rightarrow> 'm chan_out" where
  "send_out r = (case r of Inl e \<Rightarrow> Rejected e | Inr _ \<Rightarrow> Accepted)"

definition poll_out :: "'m envelope option Poll \<Rightarrow> 'm chan_out" where
  "poll_out r = (case r of Ready (Some m) \<Rightarrow> Received m | Ready None \<Rightarrow> Finished | Pending \<Rightarrow> Blocked)"

lemma poll_out_iff:
  "poll_out r = Blocked \<longleftrightarrow> r = Pending" "poll_out r = Received m \<longleftrightarrow> r = Ready (Some m)" "poll_out r = Finished \<longleftrightarrow> r = Ready None"
  by (auto simp: poll_out_def split: Poll.split option.split)

fun chan_step :: "'m chan_op \<Rightarrow> 'm Channel \<Rightarrow> ('m chan_out \<times> 'm Channel) option" where
  "chan_step (Send sid m) ch = map_option (apfst send_out) (send sid m ch)"
| "chan_step (TrySend sid m pk) ch = map_option (apfst send_out) (try_send sid m pk ch)"
| "chan_step (DoSend m) ch = map_option (apfst send_out) (do_send m ch)"
| "chan_step (Receive cx) ch = map_option (apfst poll_out) (poll_next cx ch)"
| "chan_step (SetCapacity c) ch = map_option (Pair Done) (set_capacity c ch)"
| "chan_step Clone ch = map_option (apfst (\<lambda>_. Done)) (sender_clone ch)"
| "chan_step DropSender ch = Some (Done, sender_drop ch)"
| "chan_step Drop ch = map_option (Pair Done) (receiver_drop ch)"

definition chan_rep :: "'m achan \<Rightarrow> 'm Channel \<Rightarrow> bool" where
  "chan_rep a ch \<longleftrightarrow>
     ch_buffer ch = ac_buffer a \<and> ch_state ch = packed (ac_open a) (length (ac_msgs a)) \<and> length (ac_msgs a) < msg_limit
     \<and> queue_rep (ch_message_queue ch) (ac_msgs a) \<and> queue_rep (ch_parked_queue ch) (ac_parked a)
     \<and> distinct (ac_parked a) \<and> ch_next_sender ch = ac_senders a \<and> ch_num_senders ch = of_nat (ac_live a) \<and> set (ac_parked a) \<subseteq> {..<ac_senders a}
     \<and> (\<forall>s. st_is_parked (as_sender_task (ch_senders ch s)) \<longleftrightarrow> s \<in> set (ac_parked a))
     \<and> (\<forall>s\<in>set (ac_parked a). as_maybe_parked (ch_senders ch s))"

section \<open>Refinement\<close>

lemma rep_wake [simp]: "chan_rep a (wake_recv ch) = chan_rep a ch"
  by (simp add: chan_rep_def wake_recv_def split: option.split)

lemma rep_recv_task [simp]: "chan_rep a (ch \<lparr> ch_recv_task := w \<rparr>) = chan_rep a ch"
  by (simp add: chan_rep_def)

lemma rep_poll_unparked:
  assumes "chan_rep a ch"
  shows "\<exists>ch'. poll_unparked sid False None ch = (if sid \<in> set (ac_parked a) then Pending else Ready (), ch') \<and> chan_rep a ch'"
  using assms by (auto simp: poll_unparked_def chan_rep_def Let_def)

lemma rep_open: "chan_rep a ch \<Longrightarrow> decode_state (ch_state ch) = \<lparr> is_open = ac_open a, num_messages = of_nat (length (ac_msgs a)) \<rparr>"
  by (simp add: chan_rep_def decode_packed)

text \<open>Between the count and the push the counter is one ahead of the queue.\<close>

definition chan_rep_inc :: "'m achan \<Rightarrow> 'm Channel \<Rightarrow> bool" where
  "chan_rep_inc a ch \<longleftrightarrow> chan_rep a (dec_num_messages ch) \<and> Suc (length (ac_msgs a)) < msg_limit \<and> ac_open a
     \<and> ch_state ch = packed True (Suc (length (ac_msgs a)))"

lemma rep_inc:
  assumes "chan_rep a ch" and "Suc (length (ac_msgs a)) < msg_limit"
  shows "inc_num_messages ch = (None, ch) \<and> \<not> ac_open a
    \<or> ac_open a \<and> (\<exists>ch'. inc_num_messages ch = (Some (of_nat (Suc (length (ac_msgs a)))), ch') \<and> chan_rep_inc a ch')"
proof (cases "ac_open a")
  case True
  let ?n = "length (ac_msgs a)"
  have "inc_num_messages ch = (Some (of_nat (Suc ?n)), ch \<lparr> ch_state := packed True (Suc ?n) \<rparr>)"
    using True by (simp add: inc_num_messages_def rep_open [OF assms(1)] packed_def Let_def add.commute)
  moreover have "dec_num_messages (ch \<lparr> ch_state := packed True (Suc ?n) \<rparr>) = ch"
    using assms True by (simp add: chan_rep_def dec_num_messages_def packed_dec)
  with assms True have "chan_rep_inc a (ch \<lparr> ch_state := packed True (Suc ?n) \<rparr>)"
    by (simp add: chan_rep_inc_def)
  ultimately show ?thesis using True by simp
qed (simp add: inc_num_messages_def rep_open [OF assms(1)])

lemma rep_push:
  assumes "chan_rep_inc a ch"
  shows "\<exists>ch'. queue_push_and_signal env ch = Some ch' \<and> chan_rep (a \<lparr> ac_msgs := ac_msgs a @ [env] \<rparr>) ch'"
proof -
  have "queue_rep (ch_message_queue ch) (ac_msgs a)"
    using assms by (simp add: chan_rep_inc_def chan_rep_def dec_num_messages_def)
  then obtain q where q: "push env (ch_message_queue ch) = Some q" "queue_rep q (ac_msgs a @ [env])"
    using mq.enq_rep [of "ch_message_queue ch" "ac_msgs a" env] by auto
  have "chan_rep (a \<lparr> ac_msgs := ac_msgs a @ [env] \<rparr>) (ch \<lparr> ch_message_queue := q \<rparr>)"
    using assms q(2) by (simp add: chan_rep_inc_def chan_rep_def dec_num_messages_def)
  then show ?thesis by (simp add: queue_push_and_signal_def q(1))
qed

lemma rep_park:
  assumes "chan_rep_inc a ch" and "sid \<notin> set (ac_parked a)" and "sid < ac_senders a"
  shows "\<exists>ch'. park sid ch = Some ch' \<and> chan_rep_inc (a \<lparr> ac_parked := ac_parked a @ [sid] \<rparr>) ch'"
proof -
  have r: "chan_rep a (dec_num_messages ch)" and st: "ch_state ch = packed True (Suc (length (ac_msgs a)))"
    "Suc (length (ac_msgs a)) < msg_limit" "ac_open a"
    using assms(1) by (simp_all add: chan_rep_inc_def)
  have "queue_rep (ch_parked_queue ch) (ac_parked a)" using r by (simp add: chan_rep_def dec_num_messages_def)
  then obtain q where q: "push sid (ch_parked_queue ch) = Some q" "queue_rep q (ac_parked a @ [sid])"
    using mq.enq_rep [of "ch_parked_queue ch" "ac_parked a" sid] by auto
  then show ?thesis
    using r st assms(2,3) by (auto simp: park_def Let_def chan_rep_inc_def chan_rep_def dec_num_messages_def decode_packed)
qed

lemma rep_buffer: "chan_rep_inc a ch \<Longrightarrow> should_park ch (of_nat (Suc (length (ac_msgs a)))) \<longleftrightarrow>
    ac_buffer a \<noteq> 0 \<and> unat (ac_buffer a) \<le> Suc (length (ac_msgs a))"
  using packed_num [of "Suc (length (ac_msgs a))"]
  by (simp add: should_park_def chan_rep_inc_def chan_rep_def dec_num_messages_def word_le_nat_alt del: of_nat_Suc)

text \<open>\<open>send\<close> and \<open>try_send\<close> differ in the envelope and in the \<open>park\<close> flag only.\<close>

definition send_as :: "nat \<Rightarrow> 'm \<Rightarrow> bool \<Rightarrow> bool \<Rightarrow> 'm Channel \<Rightarrow> (('m SendError + unit) \<times> 'm Channel) option" where
  "send_as sid msg reply pk ch =
     (case poll_unparked sid False None ch of
        (Pending, ch1) \<Rightarrow> Some (Inl (Full msg), ch1)
      | (Ready _, ch1) \<Rightarrow>
          (case inc_num_messages ch1 of
             (None, ch2) \<Rightarrow> Some (Inl (Closed msg), ch2)
           | (Some n, ch2) \<Rightarrow> do {
               ch3 \<leftarrow> (if should_park ch2 n \<and> pk then park sid ch2 else Some ch2);
               ch4 \<leftarrow> queue_push_and_signal (msg, reply) ch3;
               Some (Inr (), ch4)
             }))"

lemma send_is_send_as: "send sid msg = send_as sid msg True True" "try_send sid msg pk = send_as sid msg False pk"
  unfolding fun_eq_iff send_def try_send_def send_as_def simp_thms by (rule TrueI)+

lemma rep_send:
  assumes "chan_rep a ch" and "sid < ac_senders a" and "Suc (length (ac_msgs a)) < msg_limit"
  shows "\<exists>r ch'. send_as sid m reply pk ch = Some (r, ch') \<and> send_out r = fst (spec_send sid m reply pk a)
           \<and> chan_rep (snd (spec_send sid m reply pk a)) ch'"
proof -
  obtain ch1 where p: "poll_unparked sid False None ch = (if sid \<in> set (ac_parked a) then Pending else Ready (), ch1)"
    and r1: "chan_rep a ch1" using rep_poll_unparked [OF assms(1), of sid] by blast
  consider "sid \<in> set (ac_parked a)" | "sid \<notin> set (ac_parked a)" "\<not> ac_open a" | "sid \<notin> set (ac_parked a)" "ac_open a" by blast
  then show ?thesis
  proof cases
    case 3
    obtain ch2 where i: "inc_num_messages ch1 = (Some (of_nat (Suc (length (ac_msgs a)))), ch2)" and r2: "chan_rep_inc a ch2"
      using rep_inc [OF r1 assms(3)] 3 by auto
    define pk' where "pk' \<longleftrightarrow> should_park ch2 (of_nat (Suc (length (ac_msgs a)))) \<and> pk"
    define a' where "a' = (if pk' then a \<lparr> ac_parked := ac_parked a @ [sid] \<rparr> else a)"
    obtain ch3 where k: "(if pk' then park sid ch2 else Some ch2) = Some ch3" and r3: "chan_rep_inc a' ch3"
      using rep_park [OF r2 3(1) assms(2)] r2 by (cases pk') (auto simp: a'_def)
    obtain ch4 where q: "queue_push_and_signal (m, reply) ch3 = Some ch4" and r4: "chan_rep (a' \<lparr> ac_msgs := ac_msgs a' @ [(m, reply)] \<rparr>) ch4"
      using rep_push [OF r3] by blast
    have "snd (spec_send sid m reply pk a) = a' \<lparr> ac_msgs := ac_msgs a' @ [(m, reply)] \<rparr>"
      using 3 rep_buffer [OF r2] by (auto simp: spec_send_def Let_def a'_def pk'_def)
    moreover have "send_as sid m reply pk ch = Some (Inr (), ch4)"
      using 3 k q by (simp add: send_as_def p i pk'_def)
    ultimately show ?thesis using 3 r4 by (simp add: spec_send_def send_out_def Let_def)
  qed (use p r1 rep_inc [OF r1 assms(3)] in \<open>auto simp: send_as_def spec_send_def send_out_def\<close>)
qed

lemma rep_do_send:
  assumes "chan_rep a ch" and "Suc (length (ac_msgs a)) < msg_limit"
  shows "\<exists>r ch'. do_send m ch = Some (r, ch') \<and> send_out r = fst (spec_step (DoSend m) a)
           \<and> chan_rep (snd (spec_step (DoSend m) a)) ch'"
  using rep_inc [OF assms] rep_push [of a _ "(m, False)"] assms(1) by (fastforce simp: do_send_def send_out_def)

subsection \<open>Parked senders\<close>

definition senders_rep :: "nat list \<Rightarrow> nat \<Rightarrow> 'm Channel \<Rightarrow> bool" where
  "senders_rep ps k ch \<longleftrightarrow>
     queue_rep (ch_parked_queue ch) ps \<and> distinct ps \<and> ch_next_sender ch = k \<and> set ps \<subseteq> {..<k}
     \<and> (\<forall>s. st_is_parked (as_sender_task (ch_senders ch s)) \<longleftrightarrow> s \<in> set ps)
     \<and> (\<forall>s\<in>set ps. as_maybe_parked (ch_senders ch s))"

definition msgs_rep :: "'m achan \<Rightarrow> 'm Channel \<Rightarrow> bool" where
  "msgs_rep a ch \<longleftrightarrow>
     ch_buffer ch = ac_buffer a \<and> ch_state ch = packed (ac_open a) (length (ac_msgs a)) \<and> length (ac_msgs a) < msg_limit
     \<and> queue_rep (ch_message_queue ch) (ac_msgs a) \<and> ch_num_senders ch = of_nat (ac_live a)"

lemma chan_rep_split: "chan_rep a ch \<longleftrightarrow> msgs_rep a ch \<and> senders_rep (ac_parked a) (ac_senders a) ch"
  by (auto simp: chan_rep_def msgs_rep_def senders_rep_def)

lemma notify_fields:
  "\<exists>ss w. notify_sender sid ch = ch \<lparr> ch_senders := ss, ch_woken := w \<rparr>
     \<and> (\<forall>s. st_is_parked (as_sender_task (ss s)) \<longleftrightarrow> s \<noteq> sid \<and> st_is_parked (as_sender_task (ch_senders ch s)))
     \<and> (\<forall>s. as_maybe_parked (ss s) = as_maybe_parked (ch_senders ch s))"
  by (intro exI [of _ "ch_senders (notify_sender sid ch)"] exI [of _ "ch_woken (notify_sender sid ch)"])
    (auto simp: notify_sender_def SenderTask_notify_def Let_def split: option.split)

lemma rep_unpark:
  assumes "senders_rep ps k ch"
  shows "\<exists>pq ss w. unpark_one ch = Some (ch \<lparr> ch_parked_queue := pq, ch_senders := ss, ch_woken := w \<rparr>)
           \<and> senders_rep (tl ps) k (ch \<lparr> ch_parked_queue := pq, ch_senders := ss, ch_woken := w \<rparr>)"
proof -
  have q: "queue_rep (ch_parked_queue ch) ps" using assms by (simp add: senders_rep_def)
  show ?thesis
  proof (cases ps)
    case Nil
    then have "pop_spin (ch_parked_queue ch) = Some (None, ch_parked_queue ch)" using q mq.deq_Nil [of "ch_parked_queue ch"] by simp
    then show ?thesis using assms Nil
      by (intro exI [of _ "ch_parked_queue ch"] exI [of _ "ch_senders ch"] exI [of _ "ch_woken ch"]) (simp add: unpark_one_def)
  next
    case (Cons sid ps')
    then obtain pq where pq: "pop_spin (ch_parked_queue ch) = Some (Some sid, pq)" "queue_rep pq ps'"
      using mq.deq_Cons [of "ch_parked_queue ch" sid ps'] q by auto
    obtain ss w where n: "notify_sender sid (ch \<lparr> ch_parked_queue := pq \<rparr>) = ch \<lparr> ch_parked_queue := pq, ch_senders := ss, ch_woken := w \<rparr>"
      "\<forall>s. st_is_parked (as_sender_task (ss s)) \<longleftrightarrow> s \<noteq> sid \<and> st_is_parked (as_sender_task (ch_senders ch s))"
      "\<forall>s. as_maybe_parked (ss s) = as_maybe_parked (ch_senders ch s)"
      using notify_fields [of sid "ch \<lparr> ch_parked_queue := pq \<rparr>"] by auto
    have "senders_rep ps' k (ch \<lparr> ch_parked_queue := pq, ch_senders := ss, ch_woken := w \<rparr>)"
      using assms pq(2) n(2,3) by (auto simp: senders_rep_def Cons)
    then show ?thesis
      using n(1) by (intro exI [of _ pq] exI [of _ ss] exI [of _ w]) (simp add: unpark_one_def pq(1) Cons)
  qed
qed

text \<open>Notifying all is unparking one until none is left.\<close>

lemma notify_all_unpark:
  "notify_all ch = (case pop_spin (ch_parked_queue ch) of
      Some (None, pq) \<Rightarrow> Some (ch \<lparr> ch_parked_queue := pq \<rparr>)
    | _ \<Rightarrow> Option.bind (unpark_one ch) notify_all)"
  by (subst notify_all.simps) (auto simp: unpark_one_def split: option.split)

lemma rep_notify_all:
  "senders_rep ps k ch \<Longrightarrow>
   \<exists>pq ss w. notify_all ch = Some (ch \<lparr> ch_parked_queue := pq, ch_senders := ss, ch_woken := w \<rparr>)
     \<and> senders_rep [] k (ch \<lparr> ch_parked_queue := pq, ch_senders := ss, ch_woken := w \<rparr>)"
proof (induction ps arbitrary: ch)
  case Nil
  then have "pop_spin (ch_parked_queue ch) = Some (None, ch_parked_queue ch)" using mq.deq_Nil [of "ch_parked_queue ch"] by (simp add: senders_rep_def)
  then show ?case using Nil
    by (intro exI [of _ "ch_parked_queue ch"] exI [of _ "ch_senders ch"] exI [of _ "ch_woken ch"])
      (simp add: notify_all_unpark [of ch])
next
  case (Cons sid ps)
  obtain pq0 where "pop_spin (ch_parked_queue ch) = Some (Some sid, pq0)"
    using mq.deq_Cons [of "ch_parked_queue ch" sid ps] Cons.prems by (auto simp: senders_rep_def)
  then have n: "notify_all ch = Option.bind (unpark_one ch) notify_all" by (simp add: notify_all_unpark [of ch])
  obtain pq ss w where u: "unpark_one ch = Some (ch \<lparr> ch_parked_queue := pq, ch_senders := ss, ch_woken := w \<rparr>)"
    "senders_rep ps k (ch \<lparr> ch_parked_queue := pq, ch_senders := ss, ch_woken := w \<rparr>)"
    using rep_unpark [OF Cons.prems] by auto
  show ?case using Cons.IH [OF u(2)] by (simp add: n u(1))
qed

lemma rep_set_capacity:
  assumes "chan_rep a ch"
  shows "\<exists>ch'. set_capacity c ch = Some ch' \<and> chan_rep (snd (spec_step (SetCapacity c) a)) ch'"
proof (cases "ch_buffer ch < c")
  case True
  have "senders_rep (ac_parked a) (ac_senders a) (ch \<lparr> ch_buffer := c \<rparr>)"
    using assms by (simp add: chan_rep_split senders_rep_def)
  from rep_notify_all [OF this] True assms show ?thesis
    by (auto simp: set_capacity_def chan_rep_split msgs_rep_def)
next
  case False
  then show ?thesis using assms by (auto simp: set_capacity_def chan_rep_def)
qed

subsection \<open>The receiver\<close>

lemma rep_next_message:
  assumes "chan_rep a ch"
  shows "\<exists>r ch'. next_message ch = Some (r, ch') \<and> poll_out r = fst (spec_step (Receive cx) a)
           \<and> chan_rep (snd (spec_step (Receive cx) a)) ch'"
proof (cases "ac_msgs a")
  case Nil
  then have "pop_spin (ch_message_queue ch) = Some (None, ch_message_queue ch)"
    using assms mq.deq_Nil [of "ch_message_queue ch"] by (simp add: chan_rep_def)
  then show ?thesis
    using assms Nil by (simp add: next_message_def rep_open [OF assms] State_is_closed_def poll_out_def)
next
  case (Cons m ms)
  then obtain q where q: "pop_spin (ch_message_queue ch) = Some (Some m, q)" "queue_rep q ms"
    using assms mq.deq_Cons [of "ch_message_queue ch" m ms] by (auto simp: chan_rep_def)
  have "senders_rep (ac_parked a) (ac_senders a) (ch \<lparr> ch_message_queue := q \<rparr>)"
    using assms by (simp add: chan_rep_split senders_rep_def)
  from rep_unpark [OF this] obtain pq ss w where
    u: "unpark_one (ch \<lparr> ch_message_queue := q \<rparr>) = Some (ch \<lparr> ch_message_queue := q, ch_parked_queue := pq, ch_senders := ss, ch_woken := w \<rparr>)"
    "senders_rep (tl (ac_parked a)) (ac_senders a) (ch \<lparr> ch_message_queue := q, ch_parked_queue := pq, ch_senders := ss, ch_woken := w \<rparr>)"
    by auto
  define ch' where "ch' = dec_num_messages (ch \<lparr> ch_message_queue := q, ch_parked_queue := pq, ch_senders := ss, ch_woken := w \<rparr>)"
  have "next_message ch = Some (Ready (Some m), ch')" by (simp add: next_message_def q(1) u(1) ch'_def)
  moreover have "chan_rep (a \<lparr> ac_msgs := ms, ac_parked := tl (ac_parked a) \<rparr>) ch'"
    using assms u(2) q(2) Cons by (simp add: chan_rep_split msgs_rep_def senders_rep_def ch'_def dec_num_messages_def packed_dec)
  ultimately show ?thesis by (simp add: Cons poll_out_def)
qed

lemma rep_poll_next:
  assumes "chan_rep a ch"
  shows "\<exists>r ch'. poll_next cx ch = Some (r, ch') \<and> poll_out r = fst (spec_step (Receive cx) a)
           \<and> chan_rep (snd (spec_step (Receive cx) a)) ch'"
proof -
  obtain r ch1 where n: "next_message ch = Some (r, ch1)" "poll_out r = fst (spec_step (Receive cx) a)"
    "chan_rep (snd (spec_step (Receive cx) a)) ch1" using rep_next_message [OF assms, of cx] by blast
  show ?thesis
  proof (cases r)
    case Pending
    then have "ac_msgs a = []" using n(2) by (cases "ac_msgs a") (auto simp: poll_out_def)
    then have "snd (spec_step (Receive cx) a) = a" by simp
    with n(3) have "chan_rep a (ch1 \<lparr> ch_recv_task := Some cx \<rparr>)" by simp
    from rep_next_message [OF this, of cx] show ?thesis by (simp add: poll_next_def n(1) Pending)
  qed (use n in \<open>simp add: poll_next_def\<close>)
qed

lemma rep_drain:
  "chan_rep a ch \<Longrightarrow> \<not> ac_open a \<Longrightarrow> ac_parked a = [] \<Longrightarrow> \<exists>ch'. drain ch = Some ch' \<and> chan_rep (a \<lparr> ac_msgs := [] \<rparr>) ch'"
proof (induction "ac_msgs a" arbitrary: a ch)
  case Nil
  obtain r ch1 where n: "next_message ch = Some (r, ch1)" "poll_out r = Finished" "chan_rep a ch1"
    using rep_next_message [OF Nil.prems(1)] Nil by (fastforce simp: Nil.hyps [symmetric])
  then have "r = Ready None" by (simp add: poll_out_iff)
  moreover have "a \<lparr> ac_msgs := [] \<rparr> = a" using Nil.hyps by (cases a) simp
  ultimately show ?case using n(1,3) by (simp add: drain.simps [of ch])
next
  case (Cons m ms)
  let ?a = "a \<lparr> ac_msgs := ms, ac_parked := [] \<rparr>"
  obtain r ch1 where n: "next_message ch = Some (r, ch1)" "poll_out r = Received m" "chan_rep ?a ch1"
    using rep_next_message [OF Cons.prems(1)] Cons.prems by (fastforce simp: Cons.hyps(2) [symmetric])
  then have "r = Ready (Some m)" by (simp add: poll_out_iff)
  moreover have "?a \<lparr> ac_msgs := [] \<rparr> = a \<lparr> ac_msgs := [] \<rparr>" using Cons.prems(3) by (cases a) simp
  ultimately show ?case using n(1,3) Cons.hyps(1) [of ?a ch1] Cons.prems(2) by (simp add: drain.simps [of ch])
qed

lemma rep_drop:
  assumes "chan_rep a ch"
  shows "\<exists>ch'. receiver_drop ch = Some ch' \<and> chan_rep (snd (spec_step Drop a)) ch'"
proof -
  have c: "chan_rep (a \<lparr> ac_open := False \<rparr>) (set_closed ch)"
    using assms by (auto simp: set_closed_def rep_open [OF assms]) (auto simp: chan_rep_def packed_close)
  then obtain ch1 where n: "notify_all (set_closed ch) = Some ch1" "chan_rep (a \<lparr> ac_open := False, ac_parked := [] \<rparr>) ch1"
    using rep_notify_all [of "ac_parked a" "ac_senders a" "set_closed ch"] by (auto simp: chan_rep_split msgs_rep_def)
  moreover have eq: "a \<lparr> ac_open := False, ac_parked := [], ac_msgs := [] \<rparr> = snd (spec_step Drop a)" by simp
  obtain ch2 where "drain ch1 = Some ch2" "chan_rep (snd (spec_step Drop a)) ch2"
    using rep_drain [OF n(2)] unfolding eq [symmetric] by auto
  ultimately show ?thesis by (simp add: receiver_drop_def)
qed

lemma rep_clone:
  assumes "chan_rep a ch" and "of_nat (ac_live a) \<noteq> MAX_CAPACITY - ac_buffer a"
  shows "\<exists>ch'. sender_clone ch = Some (ac_senders a, ch') \<and> chan_rep (snd (spec_step Clone a)) ch'"
  using assms by (auto simp: sender_clone_def max_senders_def chan_rep_def AddressSender_new_def SenderTask_new_def add.commute)

lemma rep_sender_drop:
  assumes "chan_rep a ch" and "0 < ac_live a"
  shows "chan_rep (snd (spec_step DropSender a)) (sender_drop ch)"
  using assms by (auto simp: sender_drop_def Let_def) (auto simp: chan_rep_def of_nat_diff)

section \<open>Runs\<close>

text \<open>A simulation carries over to runs: this is stated once for any pair of machines.\<close>

locale simulation =
  fixes rep :: "'a \<Rightarrow> 'c \<Rightarrow> bool" and ok :: "'a \<Rightarrow> 'op \<Rightarrow> bool"
    and astep :: "'op \<Rightarrow> 'a \<Rightarrow> 'out \<times> 'a" and cstep :: "'op \<Rightarrow> 'c \<Rightarrow> ('out \<times> 'c) option"
    and aoks :: "'a \<Rightarrow> 'op list \<Rightarrow> bool"
    and arun :: "'op list \<Rightarrow> 'a \<Rightarrow> 'out list \<times> 'a" and crun :: "'op list \<Rightarrow> 'c \<Rightarrow> ('out list \<times> 'c) option"
  assumes sim: "rep a c \<Longrightarrow> ok a op \<Longrightarrow> \<exists>c'. cstep op c = Some (fst (astep op a), c') \<and> rep (snd (astep op a)) c'"
    and aoks_Cons: "aoks a (op # ops) \<Longrightarrow> ok a op \<and> aoks (snd (astep op a)) ops"
    and arun_Nil: "arun [] a = ([], a)"
    and arun_Cons: "arun (op # ops) a = (fst (astep op a) # fst (arun ops (snd (astep op a))), snd (arun ops (snd (astep op a))))"
    and crun_Nil: "crun [] c = Some ([], c)"
    and crun_Cons: "cstep op c = Some (out, c') \<Longrightarrow> crun ops c' = Some (outs, c'') \<Longrightarrow> crun (op # ops) c = Some (out # outs, c'')"
begin

lemma run: "rep a c \<Longrightarrow> aoks a ops \<Longrightarrow> \<exists>c'. crun ops c = Some (fst (arun ops a), c') \<and> rep (snd (arun ops a)) c'"
proof (induction ops arbitrary: a c)
  case (Cons op ops)
  then obtain c1 where "cstep op c = Some (fst (astep op a), c1)" "rep (snd (astep op a)) c1"
    using sim aoks_Cons by blast
  moreover obtain c2 where "crun ops c1 = Some (fst (arun ops (snd (astep op a))), c2)" "rep (snd (arun ops (snd (astep op a)))) c2"
    using Cons.IH [OF calculation(2)] aoks_Cons [OF Cons.prems(2)] by blast
  ultimately show ?case using crun_Cons [of op c] by (simp add: arun_Cons)
qed (simp add: arun_Nil crun_Nil)

end

fun chan_run :: "'m chan_op list \<Rightarrow> 'm Channel \<Rightarrow> ('m chan_out list \<times> 'm Channel) option" where
  "chan_run [] ch = Some ([], ch)"
| "chan_run (op # ops) ch = do { (o1, ch1) \<leftarrow> chan_step op ch; (os, ch2) \<leftarrow> chan_run ops ch1; Some (o1 # os, ch2) }"

fun spec_run :: "'m chan_op list \<Rightarrow> 'm achan \<Rightarrow> 'm chan_out list \<times> 'm achan" where
  "spec_run [] a = ([], a)"
| "spec_run (op # ops) a = (let (o1, a1) = spec_step op a; (os, a2) = spec_run ops a1 in (o1 # os, a2))"

text \<open>What the caller has to respect: senders that exist, fewer messages than the word can count, and room for another sender.\<close>

definition room :: "'m achan \<Rightarrow> bool" where
  "room a = (Suc (length (ac_msgs a)) < msg_limit)"

fun op_ok :: "'m achan \<Rightarrow> 'm chan_op \<Rightarrow> bool" where
  "op_ok a (Send sid m) = (sid < ac_senders a \<and> room a)"
| "op_ok a (TrySend sid m pk) = (sid < ac_senders a \<and> room a)"
| "op_ok a (DoSend m) = room a"
| "op_ok a Clone = (of_nat (ac_live a) \<noteq> MAX_CAPACITY - ac_buffer a)"
| "op_ok a DropSender = (0 < ac_live a)"
| "op_ok a _ = True"

fun ops_ok :: "'m achan \<Rightarrow> 'm chan_op list \<Rightarrow> bool" where
  "ops_ok a [] = True"
| "ops_ok a (op # ops) = (op_ok a op \<and> ops_ok (snd (spec_step op a)) ops)"

definition achan_new :: "u64 \<Rightarrow> 'm achan" where
  "achan_new buffer = \<lparr> ac_buffer = buffer, ac_open = True, ac_msgs = [], ac_parked = [], ac_senders = 1, ac_live = 1 \<rparr>"

lemma rep_new: "channel buffer = Some ch \<Longrightarrow> chan_rep (achan_new buffer) ch"
  by (auto simp: mq.rep_emp channel_def chan_rep_def achan_new_def packed_init AddressSender_new_def SenderTask_new_def
      msg_limit_def split: if_splits)

lemma chan_step_sim:
  assumes "chan_rep a ch" and "op_ok a op"
  shows "\<exists>ch'. chan_step op ch = Some (fst (spec_step op a), ch') \<and> chan_rep (snd (spec_step op a)) ch'"
proof (cases op)
  case (Send sid m)
  then show ?thesis using rep_send [OF assms(1), of sid m True True] assms(2) by (auto simp: send_is_send_as room_def)
next
  case (TrySend sid m pk)
  then show ?thesis using rep_send [OF assms(1), of sid m False pk] assms(2) by (auto simp: send_is_send_as room_def)
next
  case (DoSend m)
  then show ?thesis using rep_do_send [OF assms(1), of m] assms(2) by (auto simp: room_def simp del: spec_step.simps)
next
  case (Receive cx)
  then show ?thesis using rep_poll_next [OF assms(1), of cx] by (auto simp del: spec_step.simps)
next
  case (SetCapacity c)
  then show ?thesis using rep_set_capacity [OF assms(1), of c] by auto
next
  case Clone
  then show ?thesis using rep_clone [OF assms(1)] assms(2) by auto
next
  case DropSender
  then show ?thesis using rep_sender_drop [OF assms(1)] assms(2) by auto
next
  case Drop
  then show ?thesis using rep_drop [OF assms(1)] by auto
qed

interpretation chan: simulation chan_rep op_ok spec_step chan_step ops_ok spec_run chan_run
  by unfold_locales (use chan_step_sim in \<open>auto simp: Let_def split_beta\<close>)


definition sample_ops :: "nat chan_op list" where
  "sample_ops = [Clone, Send 0 10, Send 0 11, Send 1 12, Receive 9, Send 0 13, Drop, Send 0 14]"

lemma MAX_CAPACITY_value: "MAX_CAPACITY = 9223372036854775807"
proof -
  have "MAX_CAPACITY = mask 63" by (rule bit_word_eqI) (auto simp: bit_MAX_CAPACITY bit_mask_iff)
  then show ?thesis by (simp add: mask_eq_exp_minus_1)
qed

lemma MAX_BUFFER_value: "MAX_BUFFER = 4611686018427387903"
proof -
  have "MAX_BUFFER = mask 62"
    unfolding MAX_BUFFER_def by (rule bit_word_eqI) (auto simp: bit_MAX_CAPACITY bit_mask_iff bit_drop_bit_eq)
  then show ?thesis by (simp add: mask_eq_exp_minus_1)
qed


section \<open>Capacity\<close>

fun waits :: "'m chan_op \<Rightarrow> bool" where
  "waits (DoSend m) = False"
| "waits (TrySend sid m pk) = pk"
| "waits (SetCapacity c) = False"
| "waits _ = True"

definition bounded :: "'m achan \<Rightarrow> bool" where
  "bounded a \<longleftrightarrow> ac_buffer a \<noteq> 0 \<and> length (ac_msgs a) < unat (ac_buffer a) + length (ac_parked a)
     \<and> distinct (ac_parked a) \<and> set (ac_parked a) \<subseteq> {..<ac_senders a}"

lemma bounded_send: "bounded a \<Longrightarrow> sid < ac_senders a \<Longrightarrow> bounded (snd (spec_send sid m r True a))"
  by (auto simp: bounded_def spec_send_def Let_def)

lemma bounded_step: "bounded a \<Longrightarrow> op_ok a op \<Longrightarrow> waits op \<Longrightarrow> bounded (snd (spec_step op a)) \<and> ac_buffer (snd (spec_step op a)) = ac_buffer a"
proof (induction op a rule: spec_step.induct)
  case (4 cx a)
  then show ?case by (cases "ac_parked a") (auto simp: bounded_def split: list.split)
qed (auto simp: bounded_send, auto simp: bounded_def spec_send_def Let_def unat_gt_0)

lemma bounded_run:
  "bounded a \<Longrightarrow> ops_ok a ops \<Longrightarrow> list_all waits ops \<Longrightarrow>
   bounded (snd (spec_run ops a)) \<and> ac_buffer (snd (spec_run ops a)) = ac_buffer a"
proof (induction ops arbitrary: a)
  case (Cons op ops)
  then show ?case using bounded_step [of a op] by (auto simp: Let_def split_beta)
qed simp

lemma bounded_length: "bounded a \<Longrightarrow> length (ac_msgs a) < unat (ac_buffer a) + ac_senders a"
proof -
  assume b: "bounded a"
  have "length (ac_parked a) = card (set (ac_parked a))" using b by (simp add: bounded_def distinct_card)
  also have "\<dots> \<le> card {..<ac_senders a}" using b by (intro card_mono) (auto simp: bounded_def)
  finally show ?thesis using b by (simp add: bounded_def)
qed

lemma senders_run: "ac_senders (snd (spec_run ops a)) = ac_senders a + length (filter (\<lambda>op. op = Clone) ops)"
proof (induction ops arbitrary: a)
  case (Cons op ops)
  have "ac_senders (snd (spec_step op a)) = ac_senders a + (if op = Clone then 1 else 0)"
    by (cases op) (auto simp: spec_send_def Let_def split: list.split)
  with Cons show ?case by (simp add: Let_def split_beta)
qed simp



end
