(* ===== verification/Actor_Context.thy ===== *)
theory Actor_Context
  imports Channel
begin

text \<open>
  The execution of an actor (\<^verbatim>\<open>actix/src/context_impl.rs\<close>, \<^verbatim>\<open>mailbox.rs\<close>, \<^verbatim>\<open>supervisor.rs\<close>). The code of an actor and its futures are
  user code behind traits: the record \<open>behaviour\<close> has one function per callback, which sees the actor and the context and
  returns the changed actor and the calls it makes on the context (\<open>ctx_call\<close>), in order. The bit flags of a context are a record of
  booleans. The mailbox is the channel of \<open>Channel\<close>. Callbacks and calls that matter for the life cycle
  are recorded in a trace, which no operation reads.

  The loops of \<^verbatim>\<open>poll\<close> need not end (an actor may keep itself busy), so they take fuel: \<open>None\<close> is fuel that ran out. Every loop
  iteration costs one unit, each loop starting with the same amount. The first theorem holds for every fuel with which a poll
  returns; the second shows that for an actor that makes no calls enough fuel is one more than the number of queued messages.
\<close>

section \<open>Context parts\<close>

datatype ActorState = Started | Running | Stopping | Stopped

datatype Running = Stop | Continue

record ContextFlags =
  cf_STARTED :: bool
  cf_RUNNING :: bool
  cf_STOPPING :: bool
  cf_STOPPED :: bool
  cf_MB_CAP_CHANGED :: bool

definition flags_empty :: ContextFlags where
  "flags_empty = \<lparr> cf_STARTED = False, cf_RUNNING = False, cf_STOPPING = False, cf_STOPPED = False, cf_MB_CAP_CHANGED = False \<rparr>"

definition flags_RUNNING :: ContextFlags where
  "flags_RUNNING = flags_empty \<lparr> cf_RUNNING := True \<rparr>"

datatype 'm event =
    EvStarted | EvHandled "'m envelope" | EvStop | EvTerminate | EvStopping Running | EvStopped | EvRestarting

record ('m, 'f) ContextParts =
  pt_addr :: "'m Channel"
  pt_flags :: ContextFlags
  pt_wait :: "'f list"
  pt_items :: "(u64 \<times> 'f) list"
  pt_handles :: "u64 list"
  pt_trace :: "'m event list"

definition ActorState_alive :: "ActorState \<Rightarrow> bool" where
  "ActorState_alive s = (s = Started \<or> s = Running)"

definition trace :: "'m event \<Rightarrow> ('m, 'f) ContextParts \<Rightarrow> ('m, 'f) ContextParts" where
  "trace e p = p \<lparr> pt_trace := pt_trace p @ [e] \<rparr>"

definition ContextParts_new :: "'m Channel \<Rightarrow> ('m, 'f) ContextParts" where
  "ContextParts_new addr =
     \<lparr> pt_addr = addr, pt_flags = flags_RUNNING, pt_wait = [], pt_items = [], pt_handles = [0, 0], pt_trace = [] \<rparr>"

definition parts_stop :: "('m, 'f) ContextParts \<Rightarrow> ('m, 'f) ContextParts" where
  "parts_stop p =
     (if cf_RUNNING (pt_flags p)
      then p \<lparr> pt_flags := (pt_flags p) \<lparr> cf_RUNNING := False, cf_STOPPING := True \<rparr> \<rparr> else p)"

definition parts_terminate :: "('m, 'f) ContextParts \<Rightarrow> ('m, 'f) ContextParts" where
  "parts_terminate p = p \<lparr> pt_flags := flags_empty \<lparr> cf_STOPPED := True \<rparr> \<rparr>"

definition parts_state :: "('m, 'f) ContextParts \<Rightarrow> ActorState" where
  "parts_state p =
     (if cf_RUNNING (pt_flags p) then Running else if cf_STOPPED (pt_flags p) then Stopped
      else if cf_STOPPING (pt_flags p) then Stopping else Started)"

definition flags_stopping :: "ContextFlags \<Rightarrow> bool" where
  "flags_stopping f = (cf_STOPPING f \<or> cf_STOPPED f)"

definition parts_waiting :: "('m, 'f) ContextParts \<Rightarrow> bool" where
  "parts_waiting p = (pt_wait p \<noteq> [] \<or> flags_stopping (pt_flags p))"

definition curr_handle :: "('m, 'f) ContextParts \<Rightarrow> u64" where
  "curr_handle p = pt_handles p ! 1"

definition parts_spawn :: "'f \<Rightarrow> ('m, 'f) ContextParts \<Rightarrow> u64 \<times> ('m, 'f) ContextParts" where
  "parts_spawn f p =
     (let h = pt_handles p ! 0 + 1
      in (h, p \<lparr> pt_handles := (pt_handles p)[0 := h], pt_items := pt_items p @ [(h, f)] \<rparr>))"

definition parts_wait :: "'f \<Rightarrow> ('m, 'f) ContextParts \<Rightarrow> ('m, 'f) ContextParts" where
  "parts_wait f p = p \<lparr> pt_wait := pt_wait p @ [f] \<rparr>"

definition cancel_future :: "u64 \<Rightarrow> ('m, 'f) ContextParts \<Rightarrow> bool \<times> ('m, 'f) ContextParts" where
  "cancel_future h p = (True, p \<lparr> pt_handles := pt_handles p @ [h] \<rparr>)"

definition set_mailbox_capacity :: "u64 \<Rightarrow> ('m, 'f) ContextParts \<Rightarrow> ('m, 'f) ContextParts option" where
  "set_mailbox_capacity cap p = do {
     ch \<leftarrow> set_capacity cap (pt_addr p);
     Some (p \<lparr> pt_flags := (pt_flags p) \<lparr> cf_MB_CAP_CHANGED := True \<rparr>, pt_addr := ch \<rparr>)
   }"

definition parts_restart :: "('m, 'f) ContextParts \<Rightarrow> ('m, 'f) ContextParts" where
  "parts_restart p =
     p \<lparr> pt_flags := flags_RUNNING, pt_wait := [], pt_items := [], pt_handles := (pt_handles p)[0 := 0] \<rparr>"

definition parts_connected :: "('m, 'f) ContextParts \<Rightarrow> bool" where
  "parts_connected p = receiver_connected (pt_addr p)"

section \<open>User code\<close>

datatype ('m, 'f) ctx_call =
    CallStop | CallTerminate | CallSpawn 'f | CallWait 'f | CallCancel u64 | CallSetCapacity u64 | CallDoSend 'm

fun run_call :: "('m, 'f) ctx_call \<Rightarrow> ('m, 'f) ContextParts \<Rightarrow> ('m, 'f) ContextParts option" where
  "run_call CallStop p = Some (trace EvStop (parts_stop p))"
| "run_call CallTerminate p = Some (trace EvTerminate (parts_terminate p))"
| "run_call (CallSpawn f) p = Some (snd (parts_spawn f p))"
| "run_call (CallWait f) p = Some (parts_wait f p)"
| "run_call (CallCancel h) p = Some (snd (cancel_future h p))"
| "run_call (CallSetCapacity c) p = set_mailbox_capacity c p"
| "run_call (CallDoSend m) p = map_option (\<lambda>(_, ch). p \<lparr> pt_addr := ch \<rparr>) (do_send m (pt_addr p))"

fun run_calls :: "('m, 'f) ctx_call list \<Rightarrow> ('m, 'f) ContextParts \<Rightarrow> ('m, 'f) ContextParts option" where
  "run_calls [] p = Some p"
| "run_calls (c # cs) p = do { p' \<leftarrow> run_call c p; run_calls cs p' }"

record ('a, 'm, 'f) behaviour =
  bh_started :: "'a \<Rightarrow> ('m, 'f) ContextParts \<Rightarrow> 'a \<times> ('m, 'f) ctx_call list"
  bh_stopping :: "'a \<Rightarrow> ('m, 'f) ContextParts \<Rightarrow> Running \<times> 'a \<times> ('m, 'f) ctx_call list"
  bh_stopped :: "'a \<Rightarrow> ('m, 'f) ContextParts \<Rightarrow> 'a \<times> ('m, 'f) ctx_call list"
  bh_restarting :: "'a \<Rightarrow> ('m, 'f) ContextParts \<Rightarrow> 'a \<times> ('m, 'f) ctx_call list"
  bh_handle :: "'m envelope \<Rightarrow> 'a \<Rightarrow> ('m, 'f) ContextParts \<Rightarrow> 'a \<times> ('m, 'f) ctx_call list"
  bh_poll :: "'f \<Rightarrow> 'a \<Rightarrow> ('m, 'f) ContextParts \<Rightarrow> unit Poll \<times> 'f \<times> 'a \<times> ('m, 'f) ctx_call list"

section \<open>The future that runs an actor\<close>

record ('a, 'm, 'f) ContextFut =
  fu_ctx :: "('m, 'f) ContextParts"
  fu_act :: 'a
  fu_wait :: "'f list"
  fu_items :: "(u64 \<times> 'f) list"

definition ContextFut_new :: "('m, 'f) ContextParts \<Rightarrow> 'a \<Rightarrow> ('a, 'm, 'f) ContextFut" where
  "ContextFut_new ctx act = \<lparr> fu_ctx = ctx, fu_act = act, fu_wait = [], fu_items = [] \<rparr>"

definition stopping :: "('a, 'm, 'f) ContextFut \<Rightarrow> bool" where
  "stopping s = flags_stopping (pt_flags (fu_ctx s))"

definition alive :: "('a, 'm, 'f) ContextFut \<Rightarrow> bool" where
  "alive s =
     (if cf_STOPPED (pt_flags (fu_ctx s)) then False
      else \<not> cf_STARTED (pt_flags (fu_ctx s)) \<or> receiver_connected (pt_addr (fu_ctx s)) \<or> fu_items s \<noteq> [] \<or> fu_wait s \<noteq> [])"

text \<open>A callback: the event is recorded, then its calls run.\<close>

definition callback :: "'m event list \<Rightarrow> 'a \<times> ('m, 'f) ctx_call list \<Rightarrow> ('a, 'm, 'f) ContextFut \<Rightarrow> ('a, 'm, 'f) ContextFut option" where
  "callback evs r s = do {
     p \<leftarrow> run_calls (snd r) (foldr trace evs (fu_ctx s));
     Some (s \<lparr> fu_act := fst r, fu_ctx := p \<rparr>)
   }"

definition restart :: "('a, 'm, 'f) behaviour \<Rightarrow> ('a, 'm, 'f) ContextFut \<Rightarrow> (bool \<times> ('a, 'm, 'f) ContextFut) option" where
  "restart B s =
     (if receiver_connected (pt_addr (fu_ctx s)) then
        let s1 = s \<lparr> fu_wait := [], fu_items := [], fu_ctx := parts_restart (fu_ctx s) \<rparr>
        in do { s2 \<leftarrow> callback [EvRestarting] (bh_restarting B (fu_act s1) (fu_ctx s1)) s1; Some (True, s2) }
      else Some (False, s))"

definition merge :: "('a, 'm, 'f) ContextFut \<Rightarrow> bool \<times> ('a, 'm, 'f) ContextFut" where
  "merge s =
     (let p = fu_ctx s
      in (pt_wait p \<noteq> [] \<or> pt_items p \<noteq> [] \<or> cf_MB_CAP_CHANGED (pt_flags p) \<or> 2 < length (pt_handles p),
          s \<lparr> fu_wait := fu_wait s @ pt_wait p, fu_items := fu_items s @ pt_items p,
              fu_ctx := p \<lparr> pt_wait := [], pt_items := [],
                            pt_flags := (pt_flags p) \<lparr> cf_MB_CAP_CHANGED := False \<rparr> \<rparr> \<rparr>))"

text \<open>\<^verbatim>\<open>SmallVec::swap_remove\<close>: the last element takes the place of the removed one.\<close>

definition swap_remove :: "nat \<Rightarrow> 'x list \<Rightarrow> 'x list" where
  "swap_remove i xs = butlast (xs[i := last xs])"

function remove_item_by_handle :: "u64 \<Rightarrow> nat \<Rightarrow> bool \<Rightarrow> (u64 \<times> 'f) list \<Rightarrow> bool \<times> (u64 \<times> 'f) list" where
  "remove_item_by_handle h idx removed items =
     (if idx < length items then
        (if fst (items ! idx) = h then remove_item_by_handle h idx True (swap_remove idx items)
         else remove_item_by_handle h (Suc idx) removed items)
      else (removed, items))"
  by auto
termination
  by (relation "measure (\<lambda>(_, idx, _, items). length items - idx)") (auto simp: swap_remove_def)

function clean_canceled_handle :: "('a, 'm, 'f) ContextFut \<Rightarrow> ('a, 'm, 'f) ContextFut" where
  "clean_canceled_handle s =
     (let p = fu_ctx s
      in if 2 < length (pt_handles p) then
           (let h = last (pt_handles p); p1 = p \<lparr> pt_handles := butlast (pt_handles p) \<rparr>;
                (removed, items) = remove_item_by_handle h 0 False (fu_items s)
            in clean_canceled_handle
                 (if removed then s \<lparr> fu_items := items, fu_ctx := p1 \<rparr>
                  else s \<lparr> fu_items := items,
                           fu_ctx := p1 \<lparr> pt_items := snd (remove_item_by_handle h 0 False (pt_items p1)) \<rparr> \<rparr>))
         else s)"
  by auto
termination
  by (relation "measure (\<lambda>s. length (pt_handles (fu_ctx s)))") (auto split: if_splits)

declare remove_item_by_handle.simps [simp del] clean_canceled_handle.simps [simp del]

text \<open>\<^verbatim>\<open>ActorWaitItem::poll\<close>: a wait future that is pending counts as done once the actor is stopping.\<close>

definition wait_item_poll ::
    "('a, 'm, 'f) behaviour \<Rightarrow> 'f \<Rightarrow> ('a, 'm, 'f) ContextFut \<Rightarrow> (unit Poll \<times> 'f \<times> ('a, 'm, 'f) ContextFut) option" where
  "wait_item_poll B f s =
     (case bh_poll B f (fu_act s) (fu_ctx s) of (r, f', act, calls) \<Rightarrow> do {
        s' \<leftarrow> callback [] (act, calls) s;
        Some (case r of Ready _ \<Rightarrow> Ready ()
              | Pending \<Rightarrow> if ActorState_alive (parts_state (fu_ctx s')) then Pending else Ready (), f', s')
      })"

text \<open>The loop over the wait futures; \<open>True\<close> means that one is pending and the whole poll returns.\<close>

fun wait_loop :: "nat \<Rightarrow> ('a, 'm, 'f) behaviour \<Rightarrow> ('a, 'm, 'f) ContextFut \<Rightarrow> (bool \<times> ('a, 'm, 'f) ContextFut) option" where
  "wait_loop 0 B s = None"
| "wait_loop (Suc n) B s =
     (if fu_wait s \<noteq> [] \<and> \<not> stopping s then do {
        (r, f', s1) \<leftarrow> wait_item_poll B (last (fu_wait s)) s;
        (case r of
           Pending \<Rightarrow> Some (True, s1 \<lparr> fu_wait := butlast (fu_wait s1) @ [f'] \<rparr>)
         | Ready _ \<Rightarrow> wait_loop n B (snd (merge (s1 \<lparr> fu_wait := butlast (fu_wait s1) \<rparr>))))
      }
      else Some (False, s))"

definition handle_message :: "('a, 'm, 'f) behaviour \<Rightarrow> 'm envelope \<Rightarrow> ('a, 'm, 'f) ContextFut \<Rightarrow> ('a, 'm, 'f) ContextFut option" where
  "handle_message B m s = callback [EvHandled m] (bh_handle B m (fu_act s) (fu_ctx s)) s"

fun Mailbox_poll :: "nat \<Rightarrow> ('a, 'm, 'f) behaviour \<Rightarrow> nat \<Rightarrow> ('a, 'm, 'f) ContextFut \<Rightarrow> ('a, 'm, 'f) ContextFut option" where
  "Mailbox_poll 0 B cx s = None"
| "Mailbox_poll (Suc n) B cx s =
     (if parts_waiting (fu_ctx s) then Some s
      else do {
        (r, ch) \<leftarrow> poll_next cx (pt_addr (fu_ctx s));
        let s1 = s \<lparr> fu_ctx := (fu_ctx s) \<lparr> pt_addr := ch \<rparr> \<rparr>;
        (case r of
           Ready (Some m) \<Rightarrow> do { s2 \<leftarrow> handle_message B m s1; Mailbox_poll n B cx s2 }
         | _ \<Rightarrow> Some s1)
      })"

text \<open>Polling the spawned future at an index, with its handle as the current one.\<close>

definition poll_item :: "('a, 'm, 'f) behaviour \<Rightarrow> nat \<Rightarrow> ('a, 'm, 'f) ContextFut \<Rightarrow> (unit Poll \<times> ('a, 'm, 'f) ContextFut) option" where
  "poll_item B idx s =
     (let (h, f) = fu_items s ! idx;
          s0 = s \<lparr> fu_ctx := (fu_ctx s) \<lparr> pt_handles := (pt_handles (fu_ctx s))[1 := h] \<rparr> \<rparr>
      in case bh_poll B f (fu_act s0) (fu_ctx s0) of (r, f', act, calls) \<Rightarrow> do {
           s1 \<leftarrow> callback [] (act, calls) s0;
           Some (r, s1 \<lparr> fu_items := (fu_items s1)[idx := (h, f')] \<rparr>)
         })"

definition merge_waiting :: "('a, 'm, 'f) ContextFut \<Rightarrow> ('a, 'm, 'f) ContextFut" where
  "merge_waiting s = (if parts_waiting (fu_ctx s) then snd (merge s) else s)"

text \<open>The loop over the spawned futures; \<open>True\<close> means \<^verbatim>\<open>continue 'outer\<close>.\<close>

fun items_loop :: "nat \<Rightarrow> ('a, 'm, 'f) behaviour \<Rightarrow> nat \<Rightarrow> ('a, 'm, 'f) ContextFut \<Rightarrow> (bool \<times> ('a, 'm, 'f) ContextFut) option" where
  "items_loop 0 B idx s = None"
| "items_loop (Suc n) B idx s =
     (if idx < length (fu_items s) \<and> \<not> stopping s then do {
        (r, s1) \<leftarrow> poll_item B idx s;
        (case r of
           Pending \<Rightarrow>
             (let s2 = merge_waiting s1
              in if 2 < length (pt_handles (fu_ctx s2)) then Some (True, clean_canceled_handle s2)
                 else if fu_wait s2 \<noteq> [] \<and> \<not> stopping s2 then
                   (let next = length (fu_items s2) - 1
                    in Some (True, s2 \<lparr> fu_items := (fu_items s2)[idx := fu_items s2 ! next, next := fu_items s2 ! idx] \<rparr>))
                 else items_loop n B (Suc idx) s2)
         | Ready _ \<Rightarrow>
             (let s2 = merge_waiting (s1 \<lparr> fu_items := swap_remove idx (fu_items s1) \<rparr>)
              in if fu_wait s2 \<noteq> [] \<and> \<not> stopping s2 then Some (True, s2) else items_loop n B idx s2))
      }
      else Some (False, s))"

definition finish_stop :: "('a, 'm, 'f) behaviour \<Rightarrow> ('a, 'm, 'f) ContextFut \<Rightarrow> (unit Poll \<times> ('a, 'm, 'f) ContextFut) option" where
  "finish_stop B s = do { s1 \<leftarrow> callback [EvStopped] (bh_stopped B (fu_act s) (fu_ctx s)) s; Some (Ready (), s1) }"

text \<open>Calling \<^verbatim>\<open>stopping\<close>: its calls run, then its answer is known.\<close>

definition ask_stopping :: "('a, 'm, 'f) behaviour \<Rightarrow> ('a, 'm, 'f) ContextFut \<Rightarrow> (Running \<times> ('a, 'm, 'f) ContextFut) option" where
  "ask_stopping B s =
     (case bh_stopping B (fu_act s) (fu_ctx s) of (r, act, calls) \<Rightarrow> do {
        s1 \<leftarrow> callback [] (act, calls) s;
        Some (r, s1 \<lparr> fu_ctx := trace (EvStopping r) (fu_ctx s1) \<rparr>)
      })"

definition set_flags :: "ContextFlags \<Rightarrow> ('a, 'm, 'f) ContextFut \<Rightarrow> ('a, 'm, 'f) ContextFut" where
  "set_flags f s = s \<lparr> fu_ctx := (fu_ctx s) \<lparr> pt_flags := f \<rparr> \<rparr>"

definition dead_flags :: ContextFlags where
  "dead_flags = flags_empty \<lparr> cf_STOPPED := True, cf_STARTED := True \<rparr>"

text \<open>The end of an iteration; \<open>None\<close> in the first component means \<^verbatim>\<open>continue\<close>.\<close>

definition check_state ::
    "('a, 'm, 'f) behaviour \<Rightarrow> ('a, 'm, 'f) ContextFut \<Rightarrow> (unit Poll option \<times> ('a, 'm, 'f) ContextFut) option" where
  "check_state B s =
     (let f = pt_flags (fu_ctx s)
      in if cf_RUNNING f then
           (if \<not> alive s then do {
              (r, s1) \<leftarrow> ask_stopping B s;
              (if r = Stop then map_option (apfst Some) (finish_stop B (set_flags dead_flags s1)) else Some (Some Pending, s1))
            }
            else Some (Some Pending, s))
         else if cf_STOPPING f then do {
           (r, s1) \<leftarrow> ask_stopping B s;
           (if r = Stop then map_option (apfst Some) (finish_stop B (set_flags dead_flags s1))
            else Some (None, set_flags ((pt_flags (fu_ctx s1)) \<lparr> cf_STOPPING := False, cf_RUNNING := True \<rparr>) s1))
         }
         else if cf_STOPPED f then map_option (apfst Some) (finish_stop B s)
         else Some (Some Pending, s))"

fun poll_loop :: "nat \<Rightarrow> ('a, 'm, 'f) behaviour \<Rightarrow> nat \<Rightarrow> ('a, 'm, 'f) ContextFut \<Rightarrow> (unit Poll \<times> ('a, 'm, 'f) ContextFut) option" where
  "poll_loop 0 B cx s = None"
| "poll_loop (Suc n) B cx s = do {
     (pend, s1) \<leftarrow> wait_loop (Suc n) B s;
     (if pend then Some (Pending, s1) else do {
        s2 \<leftarrow> Mailbox_poll (Suc n) B cx s1;
        (if fu_wait s2 \<noteq> [] \<and> \<not> stopping s2 then poll_loop n B cx s2 else do {
           (again, s3) \<leftarrow> items_loop (Suc n) B 0 s2;
           (if again then poll_loop n B cx s3 else
              (let s4 = s3 \<lparr> fu_ctx := (fu_ctx s3) \<lparr> pt_handles := (pt_handles (fu_ctx s3))[1 := 0] \<rparr> \<rparr>;
                   (modified, s5) = merge s4
               in if modified \<and> \<not> cf_STOPPING (pt_flags (fu_ctx s5)) then
                    poll_loop n B cx
                      (if fu_items s5 = [] then s5 \<lparr> fu_ctx := (fu_ctx s5) \<lparr> pt_handles := take 2 (pt_handles (fu_ctx s5)) \<rparr> \<rparr>
                       else s5)
                  else do {
                    (res, s6) \<leftarrow> check_state B s5;
                    (case res of Some p \<Rightarrow> Some (p, s6) | None \<Rightarrow> poll_loop n B cx s6)
                  }))
         })
      })
   }"

definition start_actor :: "('a, 'm, 'f) behaviour \<Rightarrow> ('a, 'm, 'f) ContextFut \<Rightarrow> ('a, 'm, 'f) ContextFut option" where
  "start_actor B s =
     (if cf_STARTED (pt_flags (fu_ctx s)) then Some s
      else let s1 = set_flags ((pt_flags (fu_ctx s)) \<lparr> cf_STARTED := True \<rparr>) s
           in do {
             s2 \<leftarrow> callback [EvStarted] (bh_started B (fu_act s1) (fu_ctx s1)) s1;
             let (modified, s3) = merge s2;
             Some (if modified then clean_canceled_handle s3 else s3)
           })"

definition ContextFut_poll ::
    "nat \<Rightarrow> ('a, 'm, 'f) behaviour \<Rightarrow> nat \<Rightarrow> ('a, 'm, 'f) ContextFut \<Rightarrow> (unit Poll \<times> ('a, 'm, 'f) ContextFut) option" where
  "ContextFut_poll fuel B cx s = do { s1 \<leftarrow> start_actor B s; poll_loop fuel B cx s1 }"

definition ContextFut_drop ::
    "nat \<Rightarrow> ('a, 'm, 'f) behaviour \<Rightarrow> ('a, 'm, 'f) ContextFut \<Rightarrow> ('a, 'm, 'f) ContextFut option" where
  "ContextFut_drop fuel B s =
     (if alive s then map_option snd (ContextFut_poll fuel B 0 (s \<lparr> fu_ctx := trace EvStop (parts_stop (fu_ctx s)) \<rparr>)) else Some s)"

fun Supervisor_poll ::
    "nat \<Rightarrow> ('a, 'm, 'f) behaviour \<Rightarrow> nat \<Rightarrow> ('a, 'm, 'f) ContextFut \<Rightarrow> (unit Poll \<times> ('a, 'm, 'f) ContextFut) option" where
  "Supervisor_poll 0 B cx s = None"
| "Supervisor_poll (Suc n) B cx s = do {
     (r, s1) \<leftarrow> ContextFut_poll (Suc n) B cx s;
     (case r of
        Pending \<Rightarrow> Some (Pending, s1)
      | Ready _ \<Rightarrow> do {
          (restarted, s2) \<leftarrow> restart B s1;
          (if restarted then Supervisor_poll n B cx s2 else Some (Ready (), s2))
        })
   }"

section \<open>The life of an actor\<close>

text \<open>The automaton a trace has to follow: whether \<^verbatim>\<open>started\<close> was called, and how far the end is.\<close>

datatype phase = PhRunning | PhStopping | PhTerminated | PhEnding | PhDead

fun life_step :: "bool \<times> phase \<Rightarrow> 'm event \<Rightarrow> (bool \<times> phase) option" where
  "life_step (st, ph) EvStarted = (if \<not> st \<and> ph \<noteq> PhEnding \<and> ph \<noteq> PhDead then Some (True, ph) else None)"
| "life_step (st, ph) (EvHandled m) = (if st \<and> ph = PhRunning then Some (st, ph) else None)"
| "life_step (st, ph) EvStop = Some (st, if ph = PhRunning then PhStopping else ph)"
| "life_step (st, ph) EvTerminate = Some (st, if ph = PhEnding \<or> ph = PhDead then ph else PhTerminated)"
| "life_step (st, ph) (EvStopping Stop) = (if st \<and> ph \<noteq> PhEnding \<and> ph \<noteq> PhDead then Some (st, PhEnding) else None)"
| "life_step (st, ph) (EvStopping Continue) = (if st \<and> (ph = PhRunning \<or> ph = PhStopping) then Some (st, PhRunning) else None)"
| "life_step (st, ph) EvStopped = (if st \<and> (ph = PhEnding \<or> ph = PhTerminated) then Some (st, PhDead) else None)"
| "life_step (st, ph) EvRestarting = (if ph = PhDead then Some (False, PhRunning) else None)"

definition life :: "'m event list \<Rightarrow> (bool \<times> phase) option" where
  "life es = foldl (\<lambda>l e. Option.bind l (\<lambda>l. life_step l e)) (Some (False, PhRunning)) es"

text \<open>How the flags of a context show its phase.\<close>

fun life_flags :: "bool \<times> phase \<Rightarrow> ContextFlags \<Rightarrow> bool" where
  "life_flags (st, PhRunning) f = (cf_STARTED f = st \<and> cf_RUNNING f \<and> \<not> cf_STOPPING f \<and> \<not> cf_STOPPED f)"
| "life_flags (st, PhStopping) f = (cf_STARTED f = st \<and> \<not> cf_RUNNING f \<and> cf_STOPPING f \<and> \<not> cf_STOPPED f)"
| "life_flags (st, PhEnding) f = True"
| "life_flags (st, _) f = (\<not> cf_RUNNING f \<and> \<not> cf_STOPPING f \<and> cf_STOPPED f)"

definition in_life :: "bool \<times> phase \<Rightarrow> ('m, 'f) ContextParts \<Rightarrow> bool" where
  "in_life l p \<longleftrightarrow> life (pt_trace p) = Some l \<and> life_flags l (pt_flags p)"

lemma life_snoc: "life (es @ [e]) = Option.bind (life es) (\<lambda>l. life_step l e)"
  by (simp add: life_def)

lemma life_flags_cap [simp]: "life_flags l (f \<lparr> cf_MB_CAP_CHANGED := b \<rparr>) = life_flags l f"
  by (cases l; cases "snd l") auto

lemma in_life_cong:
  "pt_trace p' = pt_trace p \<Longrightarrow> (\<exists>b. pt_flags p' = (pt_flags p) \<lparr> cf_MB_CAP_CHANGED := b \<rparr>) \<Longrightarrow> in_life l p' = in_life l p"
  by (auto simp: in_life_def)

lemma flags_cap_id: "f = f \<lparr> cf_MB_CAP_CHANGED := cf_MB_CAP_CHANGED f \<rparr>"
  by simp

lemma in_life_addr [simp]: "in_life l (p \<lparr> pt_addr := ch \<rparr>) = in_life l p"
  and in_life_handles [simp]: "in_life l (p \<lparr> pt_handles := hs \<rparr>) = in_life l p"
  and in_life_items [simp]: "in_life l (p \<lparr> pt_items := is \<rparr>) = in_life l p"
  and in_life_wait [simp]: "in_life l (p \<lparr> pt_wait := ws \<rparr>) = in_life l p"
  by (simp_all add: in_life_def)

text \<open>Phases a call can lead to: it never leads back to running, and never out of the last two.\<close>

definition declines :: "phase \<Rightarrow> phase \<Rightarrow> bool" where
  "declines ph ph' \<longleftrightarrow> ph' = ph \<or> (ph = PhRunning \<and> ph' = PhStopping) \<or> (ph \<noteq> PhDead \<and> ph \<noteq> PhEnding \<and> ph' = PhTerminated)"

lemma declines_trans: "declines a b \<Longrightarrow> declines b c \<Longrightarrow> declines a c"
  by (auto simp: declines_def)

lemma declines_refl [simp]: "declines a a"
  by (simp add: declines_def)

definition quiet :: "('m, 'f) ctx_call list \<Rightarrow> bool" where
  "quiet cs \<longleftrightarrow> CallStop \<notin> set cs \<and> CallTerminate \<notin> set cs"

lemma in_life_trace: "in_life l p \<Longrightarrow> life_step l e = Some l' \<Longrightarrow> life_flags l' (pt_flags p) \<Longrightarrow> in_life l' (trace e p)"
  by (simp add: in_life_def trace_def life_snoc)

lemma run_call_life:
  assumes "run_call c p = Some p'" and "in_life (st, ph) p" and "ph \<noteq> PhEnding"
  shows "\<exists>ph'. in_life (st, ph') p' \<and> declines ph ph' \<and> (quiet [c] \<longrightarrow> ph' = ph)"
proof (cases c)
  case CallStop
  then show ?thesis using assms
    by (cases ph) (auto simp: in_life_def trace_def life_snoc parts_stop_def declines_def quiet_def)
next
  case CallTerminate
  then show ?thesis using assms
    by (cases ph) (auto simp: in_life_def trace_def life_snoc parts_terminate_def flags_empty_def declines_def quiet_def)
next
  case (CallSetCapacity cap)
  then have "in_life (st, ph) p'"
    using assms by (auto simp: set_mailbox_capacity_def in_life_def bind_eq_Some_conv)
  then show ?thesis by (intro exI [of _ ph]) simp
qed (use assms in \<open>auto simp: parts_spawn_def parts_wait_def cancel_future_def Let_def intro!: exI [of _ ph]\<close>)

lemma run_calls_life:
  "run_calls cs p = Some p' \<Longrightarrow> in_life (st, ph) p \<Longrightarrow> ph \<noteq> PhEnding \<Longrightarrow>
   \<exists>ph'. in_life (st, ph') p' \<and> declines ph ph' \<and> (quiet cs \<longrightarrow> ph' = ph)"
proof (induction cs arbitrary: p ph)
  case (Cons c cs)
  then obtain p1 where p1: "run_call c p = Some p1" "run_calls cs p1 = Some p'" by (auto simp: bind_eq_Some_conv)
  obtain ph1 where l1: "in_life (st, ph1) p1" "declines ph ph1" "quiet [c] \<longrightarrow> ph1 = ph"
    using run_call_life [OF p1(1) Cons.prems(2,3)] by blast
  then have "ph1 \<noteq> PhEnding" using Cons.prems(3) by (auto simp: declines_def)
  from Cons.IH [OF p1(2) l1(1) this] l1 show ?case
    by (auto simp: quiet_def intro: declines_trans)
qed (auto intro: exI)

text \<open>The same for a future: an actor that is running or on its way out.\<close>

definition on :: "('a, 'm, 'f) ContextFut \<Rightarrow> bool" where
  "on s \<longleftrightarrow> (\<exists>ph. in_life (True, ph) (fu_ctx s) \<and> ph \<noteq> PhEnding \<and> ph \<noteq> PhDead)"

lemma on_cong: "fu_ctx s' = fu_ctx s \<Longrightarrow> on s' = on s"
  by (simp add: on_def)

lemma callback_life:
  assumes "callback [] r s = Some s'" and "in_life (st, ph) (fu_ctx s)" and "ph \<noteq> PhEnding"
  shows "\<exists>ph'. in_life (st, ph') (fu_ctx s') \<and> declines ph ph' \<and> (quiet (snd r) \<longrightarrow> ph' = ph)"
  using assms run_calls_life [of "snd r" "fu_ctx s" _ st ph] by (auto simp: callback_def bind_eq_Some_conv)

lemma callback_event_life:
  assumes "callback [e] r s = Some s'" and "in_life l (fu_ctx s)" and "life_step l e = Some (st, ph)"
    and "life_flags (st, ph) (pt_flags (fu_ctx s))" and "ph \<noteq> PhEnding"
  shows "\<exists>ph'. in_life (st, ph') (fu_ctx s') \<and> declines ph ph'"
  using assms run_calls_life [of "snd r" "trace e (fu_ctx s)" _ st ph] in_life_trace [OF assms(2,3)]
  by (auto simp: callback_def bind_eq_Some_conv)

lemma callback_on: "callback [] r s = Some s' \<Longrightarrow> on s \<Longrightarrow> on s'"
  unfolding on_def using callback_life [of r s s' True] by (metis declines_def phase.distinct)

lemma merge_fields: "fu_ctx (snd (merge s)) = (fu_ctx s) \<lparr> pt_wait := [], pt_items := [],
    pt_flags := (pt_flags (fu_ctx s)) \<lparr> cf_MB_CAP_CHANGED := False \<rparr> \<rparr>"
  by (simp add: merge_def Let_def)

lemma merge_life [simp]: "in_life l (fu_ctx (snd (merge s))) = in_life l (fu_ctx s)"
  unfolding merge_fields by (rule in_life_cong) auto

lemma merge_on [simp]: "on (snd (merge s)) = on s"
  by (simp add: on_def)

lemma clean_life [simp]: "in_life l (fu_ctx (clean_canceled_handle s)) = in_life l (fu_ctx s)"
proof (induction s rule: clean_canceled_handle.induct)
  case (1 s)
  let ?p = "fu_ctx s"
  obtain removed items where r: "remove_item_by_handle (last (pt_handles ?p)) 0 False (fu_items s) = (removed, items)" by force
  show ?case
  proof (cases "2 < length (pt_handles ?p)")
    case True
    from 1 [OF refl True refl refl r [symmetric] refl] True show ?thesis
      unfolding clean_canceled_handle.simps [of s] Let_def r by (simp split: if_splits)
  qed (simp add: clean_canceled_handle.simps [of s])
qed

lemma clean_on [simp]: "on (clean_canceled_handle s) = on s"
  by (simp add: on_def)

definition running :: "('a, 'm, 'f) ContextFut \<Rightarrow> bool" where
  "running s \<longleftrightarrow> in_life (True, PhRunning) (fu_ctx s)"

lemma running_on: "running s \<Longrightarrow> on s"
  by (auto simp: running_def on_def)

lemma on_running: "on s \<Longrightarrow> \<not> flags_stopping (pt_flags (fu_ctx s)) \<Longrightarrow> running s"
  unfolding on_def running_def flags_stopping_def in_life_def by (elim exE, rename_tac ph, case_tac ph) auto

lemma on_alive_running: "on s \<Longrightarrow> ActorState_alive (parts_state (fu_ctx s)) \<Longrightarrow> running s"
  unfolding on_def running_def in_life_def ActorState_alive_def parts_state_def
  by (elim exE, rename_tac ph, case_tac ph) (auto split: if_splits)

lemma on_fields [simp]:
  "on (s \<lparr> fu_wait := w \<rparr>) = on s" "on (s \<lparr> fu_items := i \<rparr>) = on s" "on (s \<lparr> fu_act := a \<rparr>) = on s"
  "running (s \<lparr> fu_wait := w \<rparr>) = running s" "running (s \<lparr> fu_items := i \<rparr>) = running s"
  "on (s \<lparr> fu_ctx := (fu_ctx s) \<lparr> pt_addr := ch \<rparr> \<rparr>) = on s"
  "on (s \<lparr> fu_ctx := (fu_ctx s) \<lparr> pt_handles := hs \<rparr> \<rparr>) = on s"
  by (simp_all add: on_def running_def)

lemma wait_loop_on:
  "wait_loop n B s = Some (b, s') \<Longrightarrow> on s \<Longrightarrow> on s' \<and> (b \<longrightarrow> running s')"
proof (induction n B s rule: wait_loop.induct)
  case (2 n B s)
  show ?case
  proof (cases "fu_wait s \<noteq> [] \<and> \<not> stopping s")
    case True
    obtain r f act calls where p: "bh_poll B (last (fu_wait s)) (fu_act s) (fu_ctx s) = (r, f, act, calls)" by (cases "bh_poll B (last (fu_wait s)) (fu_act s) (fu_ctx s)")
    obtain s1 where s1: "callback [] (act, calls) s = Some s1"
      using 2(2) True by (auto simp: wait_item_poll_def p bind_eq_Some_conv)
    have on1: "on s1" by (rule callback_on [OF s1 2(3)])
    show ?thesis
    proof (cases "r = Pending \<and> ActorState_alive (parts_state (fu_ctx s1))")
      case True
      then show ?thesis
        using 2(2) \<open>fu_wait s \<noteq> [] \<and> \<not> stopping s\<close> on_alive_running [OF on1] on1
        by (auto simp: wait_item_poll_def p s1)
    next
      case False
      then have w: "wait_item_poll B (last (fu_wait s)) s = Some (Ready (), f, s1)"
        by (cases r) (auto simp: wait_item_poll_def p s1)
      show ?thesis
        using 2(1) [OF True w refl refl] 2(2) True on1 w by simp
    qed
  qed (use 2 in auto)
qed simp

lemma Mailbox_poll_on: "Mailbox_poll n B cx s = Some s' \<Longrightarrow> on s \<Longrightarrow> on s'"
proof (induction n B cx s rule: Mailbox_poll.induct)
  case (2 n B cx s)
  show ?case
  proof (cases "parts_waiting (fu_ctx s)")
    case False
    then have run: "running s" using on_running [OF 2(3)] by (simp add: parts_waiting_def)
    obtain r ch where pn: "poll_next cx (pt_addr (fu_ctx s)) = Some (r, ch)"
      using 2(2) False by (auto simp: bind_eq_Some_conv)
    define s1 where "s1 = s \<lparr> fu_ctx := (fu_ctx s) \<lparr> pt_addr := ch \<rparr> \<rparr>"
    have run1: "running s1" using run by (simp add: s1_def running_def)
    show ?thesis
    proof (cases "\<exists>m. r = Ready (Some m)")
      case True
      then obtain m where r: "r = Ready (Some m)" by blast
      obtain s2 where h: "handle_message B m s1 = Some s2" "Mailbox_poll n B cx s2 = Some s'"
        using 2(2) False by (auto simp: pn r s1_def bind_eq_Some_conv)
      have "\<exists>ph'. in_life (True, ph') (fu_ctx s2) \<and> declines PhRunning ph'"
        using h(1) run1 unfolding handle_message_def running_def
        by (intro callback_event_life) (auto simp: in_life_def)
      then have "on s2" by (auto simp: on_def declines_def)
      then show ?thesis using 2(1) [OF False pn refl refl r refl h(1) [unfolded s1_def]] h(2) by simp
    next
      case other: False
      then have "s' = s1" using 2(2) False by (auto simp: pn s1_def Let_def split: Poll.splits option.splits)
      then show ?thesis using running_on [OF run1] by simp
    qed
  qed (use 2 in auto)
qed simp

lemma merge_waiting_on [simp]: "on (merge_waiting s) = on s"
  by (simp add: merge_waiting_def)

lemma poll_item_on: "poll_item B idx s = Some (r, s') \<Longrightarrow> on s \<Longrightarrow> on s'"
  by (auto simp: poll_item_def Let_def bind_eq_Some_conv split: prod.splits dest: callback_on)

lemma items_loop_on: "items_loop n B idx s = Some (b, s') \<Longrightarrow> on s \<Longrightarrow> on s'"
proof (induction n arbitrary: idx s)
  case (Suc n)
  show ?case
  proof (cases "idx < length (fu_items s) \<and> \<not> stopping s")
    case True
    then obtain r s1 where p: "poll_item B idx s = Some (r, s1)" using Suc.prems(1) by (auto simp: bind_eq_Some_conv)
    have on1: "on s1" by (rule poll_item_on [OF p Suc.prems(2)])
    show ?thesis
    proof (cases r)
      case (Ready u)
      let ?s2 = "merge_waiting (s1 \<lparr> fu_items := swap_remove idx (fu_items s1) \<rparr>)"
      show ?thesis using Suc.prems(1) Suc.IH [of idx ?s2] True on1 by (auto simp: p Ready Let_def split: if_splits)
    next
      case Pending
      let ?s2 = "merge_waiting s1"
      show ?thesis using Suc.prems(1) Suc.IH [of "Suc idx" ?s2] True on1 by (auto simp: p Pending Let_def split: if_splits)
    qed
  next
    case False
    then show ?thesis using Suc.prems by auto
  qed
qed simp

text \<open>User code that answers \<open>Continue\<close> must not have asked to stop in the same callback.\<close>

definition polite :: "('a, 'm, 'f) behaviour \<Rightarrow> bool" where
  "polite B \<longleftrightarrow> (\<forall>a p. case bh_stopping B a p of (r, _, cs) \<Rightarrow> r = Continue \<longrightarrow> quiet cs)"

lemma ask_stopping_life:
  assumes "polite B" and "ask_stopping B s = Some (r, s')" and "in_life (True, ph) (fu_ctx s)" and "ph = PhRunning \<or> ph = PhStopping"
  shows "life (pt_trace (fu_ctx s')) = Some (True, if r = Stop then PhEnding else PhRunning)
     \<and> (r = Continue \<longrightarrow> life_flags (True, ph) (pt_flags (fu_ctx s')))"
proof -
  obtain act calls where b: "bh_stopping B (fu_act s) (fu_ctx s) = (r, act, calls)"
    using assms(2) by (auto simp: ask_stopping_def bind_eq_Some_conv split: prod.splits)
  obtain s1 where s1: "callback [] (act, calls) s = Some s1" and s': "s' = s1 \<lparr> fu_ctx := trace (EvStopping r) (fu_ctx s1) \<rparr>"
    using assms(2) by (auto simp: ask_stopping_def b bind_eq_Some_conv)
  obtain ph' where l: "in_life (True, ph') (fu_ctx s1)" "declines ph ph'" "quiet calls \<longrightarrow> ph' = ph"
    using callback_life [OF s1 assms(3)] assms(4) by auto
  have q: "r = Continue \<Longrightarrow> ph' = ph" using assms(1) b l(3) unfolding polite_def by (metis (mono_tags, lifting) case_prod_conv)
  show ?thesis
  proof (cases r)
    case Stop
    then show ?thesis using l(1,2) assms(4) by (auto simp: s' trace_def in_life_def life_snoc declines_def)
  next
    case Continue
    then show ?thesis using l(1) q assms(4) by (auto simp: s' trace_def in_life_def life_snoc)
  qed
qed

definition dead :: "('a, 'm, 'f) ContextFut \<Rightarrow> bool" where
  "dead s \<longleftrightarrow> in_life (True, PhDead) (fu_ctx s)"

lemma finish_stop_dead:
  assumes "finish_stop B s = Some (r, s')" and "life (pt_trace (fu_ctx s)) = Some (True, ph)"
    and "ph = PhEnding \<or> ph = PhTerminated" and "life_flags (True, PhDead) (pt_flags (fu_ctx s))"
  shows "r = Ready () \<and> dead s'"
proof -
  have "\<exists>ph'. in_life (True, ph') (fu_ctx s') \<and> declines PhDead ph'"
    using assms unfolding finish_stop_def
    by (intro callback_event_life [of EvStopped _ s s' "(True, ph)"])
      (auto simp: bind_eq_Some_conv in_life_def split: if_splits)
  then show ?thesis using assms(1) by (auto simp: dead_def declines_def finish_stop_def bind_eq_Some_conv)
qed

lemma check_state_life:
  assumes "polite B" and "on s" and "check_state B s = Some (res, s')"
  shows "case res of None \<Rightarrow> running s' | Some Pending \<Rightarrow> running s' | Some (Ready _) \<Rightarrow> dead s'"
proof -
  obtain ph where ph: "in_life (True, ph) (fu_ctx s)" "ph \<noteq> PhEnding" "ph \<noteq> PhDead" using assms(2) by (auto simp: on_def)
  have dead_ok: "finish_stop B (set_flags dead_flags s1) = Some (x, s2) \<Longrightarrow>
      life (pt_trace (fu_ctx s1)) = Some (True, PhEnding) \<Longrightarrow> x = Ready () \<and> dead s2" for s1 x s2
    using finish_stop_dead [of B "set_flags dead_flags s1" x s2 PhEnding]
    by (simp add: set_flags_def dead_flags_def flags_empty_def)
  show ?thesis
  proof (cases ph)
    case PhRunning
    then have f: "cf_RUNNING (pt_flags (fu_ctx s))" and run: "running s" using ph(1) by (simp_all add: in_life_def running_def)
    show ?thesis
    proof (cases "alive s")
      case False
      then obtain r s1 where a: "ask_stopping B s = Some (r, s1)"
        using assms(3) f by (auto simp: check_state_def Let_def bind_eq_Some_conv)
      have l: "life (pt_trace (fu_ctx s1)) = Some (True, if r = Stop then PhEnding else PhRunning)"
        "r = Continue \<longrightarrow> life_flags (True, PhRunning) (pt_flags (fu_ctx s1))"
        using ask_stopping_life [OF assms(1) a ph(1)] PhRunning by auto
      show ?thesis
        using assms(3) f False a l dead_ok
        by (cases r) (fastforce simp: check_state_def Let_def running_def in_life_def)+
    qed (use assms(3) f run in \<open>auto simp: check_state_def Let_def\<close>)
  next
    case PhStopping
    then have f: "\<not> cf_RUNNING (pt_flags (fu_ctx s))" "cf_STOPPING (pt_flags (fu_ctx s))" using ph(1) by (simp_all add: in_life_def)
    then obtain r s1 where a: "ask_stopping B s = Some (r, s1)"
      using assms(3) by (auto simp: check_state_def Let_def bind_eq_Some_conv)
    have l: "life (pt_trace (fu_ctx s1)) = Some (True, if r = Stop then PhEnding else PhRunning)"
      "r = Continue \<longrightarrow> life_flags (True, PhStopping) (pt_flags (fu_ctx s1))"
      using ask_stopping_life [OF assms(1) a ph(1)] PhStopping by auto
    show ?thesis
      using assms(3) f a l dead_ok
      by (cases r) (fastforce simp: check_state_def Let_def running_def in_life_def set_flags_def)+
  next
    case PhTerminated
    then have f: "\<not> cf_RUNNING (pt_flags (fu_ctx s))" "\<not> cf_STOPPING (pt_flags (fu_ctx s))" "cf_STOPPED (pt_flags (fu_ctx s))"
      and l: "life (pt_trace (fu_ctx s)) = Some (True, PhTerminated)"
      using ph(1) by (simp_all add: in_life_def)
    then show ?thesis
      using assms(3) finish_stop_dead [OF _ l] by (fastforce simp: check_state_def Let_def)
  qed (use ph in auto)
qed

definition poll_outcome :: "unit Poll \<Rightarrow> ('a, 'm, 'f) ContextFut \<Rightarrow> bool" where
  "poll_outcome r s \<longleftrightarrow> (case r of Pending \<Rightarrow> running s | Ready _ \<Rightarrow> dead s)"

lemma poll_loop_life:
  assumes "polite B"
  shows "poll_loop n B cx s = Some (r, s') \<Longrightarrow> on s \<Longrightarrow> poll_outcome r s'"
proof (induction n arbitrary: s)
  case (Suc n)
  obtain pend s1 where w: "wait_loop (Suc n) B s = Some (pend, s1)"
    using Suc.prems(1) by (auto simp: bind_eq_Some_conv simp del: wait_loop.simps)
  note on1 = wait_loop_on [OF w Suc.prems(2)]
  show ?case
  proof (cases pend)
    case True
    then show ?thesis using Suc.prems(1) w on1 by (auto simp: poll_outcome_def simp del: wait_loop.simps)
  next
    case False
    then obtain s2 where m: "Mailbox_poll (Suc n) B cx s1 = Some s2"
      using Suc.prems(1) w by (auto simp: bind_eq_Some_conv simp del: wait_loop.simps Mailbox_poll.simps)
    have on2: "on s2" using Mailbox_poll_on [OF m] on1 by blast
    show ?thesis
    proof (cases "fu_wait s2 \<noteq> [] \<and> \<not> stopping s2")
      case True
      then show ?thesis using Suc.prems(1) Suc.IH [OF _ on2] w m False
        by (simp del: wait_loop.simps Mailbox_poll.simps)
    next
      case no_wait: False
      then obtain again s3 where it: "items_loop (Suc n) B 0 s2 = Some (again, s3)"
        using Suc.prems(1) w m False by (auto simp: bind_eq_Some_conv simp del: wait_loop.simps Mailbox_poll.simps items_loop.simps)
      have on3: "on s3" by (rule items_loop_on [OF it on2])
      define s4 where "s4 = s3 \<lparr> fu_ctx := (fu_ctx s3) \<lparr> pt_handles := (pt_handles (fu_ctx s3))[Suc 0 := 0] \<rparr> \<rparr>"
      obtain modified s5 where mg: "merge s4 = (modified, s5)" by force
      have "on s4" using on3 by (simp add: s4_def)
      then have on5: "on s5" using merge_on [of s4] by (simp add: mg)
      define s5' where "s5' = (if fu_items s5 = [] then s5 \<lparr> fu_ctx := (fu_ctx s5) \<lparr> pt_handles := take 2 (pt_handles (fu_ctx s5)) \<rparr> \<rparr> else s5)"
      have on5': "on s5'" using on5 by (simp add: s5'_def)
      have e: "poll_loop (Suc n) B cx s =
          (if again then poll_loop n B cx s3
           else if modified \<and> \<not> cf_STOPPING (pt_flags (fu_ctx s5)) then poll_loop n B cx s5'
           else do { (res, s6) \<leftarrow> check_state B s5; (case res of Some p \<Rightarrow> Some (p, s6) | None \<Rightarrow> poll_loop n B cx s6) })"
        using w m it no_wait False
        by (auto simp: s4_def [symmetric] mg s5'_def Let_def simp del: wait_loop.simps Mailbox_poll.simps items_loop.simps)
      show ?thesis
      proof (cases "again \<or> modified \<and> \<not> cf_STOPPING (pt_flags (fu_ctx s5))")
        case True
        then show ?thesis using Suc.prems(1) Suc.IH [OF _ on3] Suc.IH [OF _ on5'] unfolding e by (auto split: if_splits)
      next
        case False
        then obtain res s6 where c: "check_state B s5 = Some (res, s6)"
          using Suc.prems(1) unfolding e by (auto simp: bind_eq_Some_conv)
        have "poll_loop (Suc n) B cx s = (case res of Some p \<Rightarrow> Some (p, s6) | None \<Rightarrow> poll_loop n B cx s6)"
          using False unfolding e by (auto simp: c)
        then show ?thesis
          using Suc.prems(1) Suc.IH [of s6] check_state_life [OF assms on5 c] running_on [of s6]
          by (auto simp: poll_outcome_def split: option.splits Poll.splits simp del: poll_loop.simps)
      qed
    qed
  qed
qed simp

text \<open>A future that may be polled: its actor has not ended, and the flag tells whether it was started.\<close>

definition pollable :: "('a, 'm, 'f) ContextFut \<Rightarrow> bool" where
  "pollable s \<longleftrightarrow> (\<exists>ph. in_life (cf_STARTED (pt_flags (fu_ctx s)), ph) (fu_ctx s) \<and> ph \<noteq> PhEnding \<and> ph \<noteq> PhDead)"

lemma running_pollable: "running s \<Longrightarrow> pollable s"
  by (auto simp: running_def pollable_def in_life_def)

lemma start_actor_on:
  assumes "start_actor B s = Some s'" and "pollable s"
  shows "on s'"
proof (cases "cf_STARTED (pt_flags (fu_ctx s))")
  case True
  then show ?thesis using assms by (auto simp: start_actor_def pollable_def on_def)
next
  case False
  define s1 where "s1 = set_flags ((pt_flags (fu_ctx s)) \<lparr> cf_STARTED := True \<rparr>) s"
  obtain s2 where c: "callback [EvStarted] (bh_started B (fu_act s1) (fu_ctx s1)) s1 = Some s2"
    and s': "s' = (if fst (merge s2) then clean_canceled_handle (snd (merge s2)) else snd (merge s2))"
    using assms(1) False by (auto simp: start_actor_def s1_def [symmetric] Let_def bind_eq_Some_conv split_beta)
  obtain ph where ph: "in_life (False, ph) (fu_ctx s)" "ph \<noteq> PhEnding" "ph \<noteq> PhDead"
    using assms(2) False by (auto simp: pollable_def)
  have t: "life (pt_trace (fu_ctx s1)) = Some (False, ph)" and f: "life_flags (True, ph) (pt_flags (fu_ctx s1))"
    using ph by (cases ph; simp add: in_life_def s1_def set_flags_def)+
  obtain p2 where p2: "run_calls (snd (bh_started B (fu_act s1) (fu_ctx s1))) (trace EvStarted (fu_ctx s1)) = Some p2" "fu_ctx s2 = p2"
    using c by (auto simp: callback_def bind_eq_Some_conv)
  have "in_life (True, ph) (trace EvStarted (fu_ctx s1))"
    using t f ph by (simp add: in_life_def trace_def life_snoc)
  from run_calls_life [OF p2(1) this ph(2)] ph have "on s2" by (auto simp: on_def declines_def p2(2))
  then show ?thesis by (simp add: s')
qed

lemma ContextFut_poll_life: "polite B \<Longrightarrow> pollable s \<Longrightarrow> ContextFut_poll n B cx s = Some (r, s') \<Longrightarrow> poll_outcome r s'"
  by (auto simp: ContextFut_poll_def bind_eq_Some_conv dest: start_actor_on poll_loop_life)

lemma run_calls_unstarted:
  "run_calls cs p = Some p' \<Longrightarrow> \<not> cf_STARTED (pt_flags p) \<Longrightarrow> \<not> cf_STARTED (pt_flags p')"
proof (induction cs arbitrary: p)
  case (Cons c cs)
  have "\<not> cf_STARTED (pt_flags p1)" if "run_call c p = Some p1" for p1
    using that Cons.prems(2)
    by (cases c) (auto simp: trace_def parts_stop_def parts_terminate_def flags_empty_def parts_spawn_def parts_wait_def
        cancel_future_def set_mailbox_capacity_def bind_eq_Some_conv Let_def split: if_splits)
  with Cons show ?case by (auto simp: bind_eq_Some_conv)
qed simp

lemma restart_pollable: "restart B s = Some (True, s') \<Longrightarrow> dead s \<Longrightarrow> pollable s'"
proof -
  assume r: "restart B s = Some (True, s')" and d: "dead s"
  define p where "p = trace EvRestarting (parts_restart (fu_ctx s))"
  have "in_life (False, PhRunning) p"
    using d by (simp add: p_def dead_def in_life_def trace_def parts_restart_def life_snoc flags_RUNNING_def flags_empty_def)
  moreover obtain cs where "run_calls cs p = Some (fu_ctx s')"
    using r by (auto simp: restart_def callback_def bind_eq_Some_conv p_def Let_def split: if_splits)
  moreover have "\<not> cf_STARTED (pt_flags p)"
    by (simp add: p_def trace_def parts_restart_def flags_RUNNING_def flags_empty_def)
  ultimately obtain ph where "in_life (False, ph) (fu_ctx s')" "declines PhRunning ph" "\<not> cf_STARTED (pt_flags (fu_ctx s'))"
    using run_calls_unstarted run_calls_life by (metis phase.distinct(5))
  then show ?thesis by (auto simp: pollable_def declines_def)
qed

lemma Supervisor_poll_life:
  "polite B \<Longrightarrow> pollable s \<Longrightarrow> Supervisor_poll n B cx s = Some (r, s') \<Longrightarrow> poll_outcome r s'"
proof (induction n arbitrary: s)
  case (Suc n)
  obtain r1 s1 where p: "ContextFut_poll (Suc n) B cx s = Some (r1, s1)"
    using Suc.prems(3) by (auto simp: bind_eq_Some_conv)
  note o1 = ContextFut_poll_life [OF Suc.prems(1,2) p]
  show ?case
  proof (cases r1)
    case (Ready u)
    then have d: "dead s1" using o1 by (simp add: poll_outcome_def)
    obtain b s2 where r: "restart B s1 = Some (b, s2)" using Suc.prems(3) p Ready by (auto simp: bind_eq_Some_conv)
    show ?thesis
    proof (cases b)
      case True
      then show ?thesis
        using Suc.IH [OF Suc.prems(1) restart_pollable [OF _ d]] r Suc.prems(3) p Ready by simp
    next
      case False
      then have "s2 = s1" using r by (auto simp: restart_def bind_eq_Some_conv Let_def split: if_splits)
      with False show ?thesis using r d Suc.prems(3) p Ready by (auto simp: poll_outcome_def)
    qed
  next
    case Pending
    then show ?thesis using Suc.prems(3) p o1 by simp
  qed
qed simp

text \<open>A supervised actor: its context is created, then it is polled whenever it is woken; between polls the mailbox changes
  (messages arrive, senders come and go).\<close>

inductive supervised :: "('a, 'm, 'f) behaviour \<Rightarrow> ('a, 'm, 'f) ContextFut \<Rightarrow> bool" where
  sup_new: "supervised B (ContextFut_new (ContextParts_new ch) act)"
| sup_poll: "supervised B s \<Longrightarrow> Supervisor_poll n B cx s = Some (Pending, s') \<Longrightarrow> supervised B s'"
| sup_env: "supervised B s \<Longrightarrow> supervised B (s \<lparr> fu_ctx := (fu_ctx s) \<lparr> pt_addr := ch \<rparr> \<rparr>)"

lemma supervised_pollable: "supervised B s \<Longrightarrow> polite B \<Longrightarrow> pollable s"
proof (induction rule: supervised.induct)
  case (sup_new B ch act)
  then show ?case
    by (simp add: pollable_def in_life_def ContextFut_new_def ContextParts_new_def life_def flags_RUNNING_def flags_empty_def)
next
  case (sup_poll B s n cx s')
  then show ?case using Supervisor_poll_life [of B s n cx Pending s'] by (simp add: poll_outcome_def running_pollable)
next
  case (sup_env B s ch)
  then show ?case by (simp add: pollable_def)
qed


text \<open>An actor that stops at the message 0 and has no futures.\<close>

definition sample_behaviour :: "(nat, nat, nat) behaviour" where
  "sample_behaviour =
     \<lparr> bh_started = (\<lambda>a p. (a, [])), bh_stopping = (\<lambda>a p. (Stop, a, [])), bh_stopped = (\<lambda>a p. (a, [])),
       bh_restarting = (\<lambda>a p. (a, [])),
       bh_handle = (\<lambda>m a p. (a + fst m, if fst m = 0 then [CallStop] else [])),
       bh_poll = (\<lambda>f a p. (Ready (), f, a, [])) \<rparr>"

definition sample_actor :: "(nat, nat, nat) ContextFut" where
  "sample_actor =
     ContextFut_new (ContextParts_new (the (do {
        ch \<leftarrow> channel 16; (_, ch) \<leftarrow> do_send 5 ch; (_, ch) \<leftarrow> do_send 0 ch; Some ch }))) 0"

lemma sample_run:
  "map_option (\<lambda>(r, s'). (r, pt_trace (fu_ctx s'))) (Supervisor_poll 5 sample_behaviour 0 sample_actor) =
   Some (Pending, [EvStarted, EvHandled (5, False), EvHandled (0, False), EvStop, EvStopping Stop, EvStopped, EvRestarting, EvStarted])"
  by code_simp


section \<open>Progress\<close>

text \<open>Behaviours that never call into the context.\<close>

definition call_free :: "('a, 'm, 'f) behaviour \<Rightarrow> bool" where
  "call_free B \<longleftrightarrow> (\<forall>m a p. snd (bh_handle B m a p) = [] \<and> snd (bh_started B a p) = [])"

definition idle :: "('a, 'm, 'f) ContextFut \<Rightarrow> bool" where
  "idle s \<longleftrightarrow> fu_wait s = [] \<and> fu_items s = [] \<and> pt_wait (fu_ctx s) = [] \<and> pt_items (fu_ctx s) = []
     \<and> length (pt_handles (fu_ctx s)) = 2 \<and> cf_RUNNING (pt_flags (fu_ctx s)) \<and> \<not> flags_stopping (pt_flags (fu_ctx s))
     \<and> \<not> cf_MB_CAP_CHANGED (pt_flags (fu_ctx s))"

lemma callback_call_free: "snd r = [] \<Longrightarrow> callback [e] r s = Some (s \<lparr> fu_act := fst r, fu_ctx := trace e (fu_ctx s) \<rparr>)"
  by (simp add: callback_def)

lemma rep_receive:
  "chan_rep a ch \<Longrightarrow> ac_open a \<Longrightarrow> \<exists>r ch'. poll_next cx ch = Some (r, ch')
     \<and> (case ac_msgs a of [] \<Rightarrow> r = Pending \<and> chan_rep a ch'
        | m # ms \<Rightarrow> r = Ready (Some m) \<and> chan_rep (a \<lparr> ac_msgs := ms, ac_parked := tl (ac_parked a) \<rparr>) ch')"
  using rep_poll_next [of a ch cx] by (cases "ac_msgs a") (auto simp: poll_out_iff)

lemma Mailbox_poll_call_free:
  assumes "call_free B"
  shows "idle s \<Longrightarrow> chan_rep a (pt_addr (fu_ctx s)) \<Longrightarrow> ac_open a \<Longrightarrow> length (ac_msgs a) < n \<Longrightarrow>
    \<exists>s' a'. Mailbox_poll n B cx s = Some s' \<and> idle s' \<and> pt_flags (fu_ctx s') = pt_flags (fu_ctx s)
      \<and> chan_rep a' (pt_addr (fu_ctx s')) \<and> ac_open a' \<and> ac_msgs a' = [] \<and> ac_live a' = ac_live a
      \<and> pt_trace (fu_ctx s') = pt_trace (fu_ctx s) @ map EvHandled (ac_msgs a)"
proof (induction n arbitrary: s a)
  case (Suc n)
  obtain r ch where p: "poll_next cx (pt_addr (fu_ctx s)) = Some (r, ch)"
    and c: "case ac_msgs a of [] \<Rightarrow> r = Pending \<and> chan_rep a ch
        | m # ms \<Rightarrow> r = Ready (Some m) \<and> chan_rep (a \<lparr> ac_msgs := ms, ac_parked := tl (ac_parked a) \<rparr>) ch"
    using rep_receive [OF Suc.prems(2,3), of cx] by blast
  have w: "\<not> parts_waiting (fu_ctx s)" using Suc.prems(1) by (simp add: idle_def parts_waiting_def)
  let ?s1 = "s \<lparr> fu_ctx := (fu_ctx s) \<lparr> pt_addr := ch \<rparr> \<rparr>"
  show ?case
  proof (cases "ac_msgs a")
    case Nil
    then show ?thesis using c p w Suc.prems by (intro exI [of _ ?s1] exI [of _ a]) (auto simp: idle_def)
  next
    case (Cons m ms)
    let ?s2 = "?s1 \<lparr> fu_act := fst (bh_handle B m (fu_act ?s1) (fu_ctx ?s1)), fu_ctx := trace (EvHandled m) (fu_ctx ?s1) \<rparr>"
    let ?a = "a \<lparr> ac_msgs := ms, ac_parked := tl (ac_parked a) \<rparr>"
    have h: "handle_message B m ?s1 = Some ?s2"
      using assms unfolding handle_message_def call_free_def by (intro callback_call_free) blast
    have "idle ?s2" "chan_rep ?a (pt_addr (fu_ctx ?s2))" "pt_flags (fu_ctx ?s2) = pt_flags (fu_ctx s)"
      "pt_trace (fu_ctx ?s2) = pt_trace (fu_ctx s) @ [EvHandled m]"
      using Suc.prems(1) c by (auto simp: idle_def trace_def Cons)
    moreover have "Mailbox_poll (Suc n) B cx s = Mailbox_poll n B cx ?s2"
      using w c p by (simp add: Cons h)
    ultimately show ?thesis
      using Suc.IH [of ?s2 ?a] Suc.prems(3,4) by (auto simp: Cons)
  qed
qed simp

lemma poll_handles_queue:
  assumes "call_free B" and "idle s" and "cf_STARTED (pt_flags (fu_ctx s))" and "receiver_connected (pt_addr (fu_ctx s))"
    and "chan_rep a (pt_addr (fu_ctx s))" and "ac_open a" and "length (ac_msgs a) < n"
  shows "\<exists>s'. ContextFut_poll n B cx s = Some (Pending, s') \<and> idle s'
     \<and> pt_trace (fu_ctx s') = pt_trace (fu_ctx s) @ map EvHandled (ac_msgs a)
     \<and> num_messages (decode_state (ch_state (pt_addr (fu_ctx s')))) = 0"
proof -
  obtain n' where n: "n = Suc n'" using assms(7) by (cases n) auto
  obtain s2 a2 where m: "Mailbox_poll n B cx s = Some s2" "idle s2" "pt_flags (fu_ctx s2) = pt_flags (fu_ctx s)"
    "chan_rep a2 (pt_addr (fu_ctx s2))" "ac_msgs a2 = []" "ac_live a2 = ac_live a"
    "pt_trace (fu_ctx s2) = pt_trace (fu_ctx s) @ map EvHandled (ac_msgs a)"
    using Mailbox_poll_call_free [OF assms(1,2,5,6,7), of cx] by blast
  have w: "wait_loop n B s = Some (False, s)" and i: "items_loop n B 0 s2 = Some (False, s2)"
    using assms(2) m(2) by (simp_all add: n idle_def)
  define s3 where "s3 = s2 \<lparr> fu_ctx := (fu_ctx s2) \<lparr> pt_handles := (pt_handles (fu_ctx s2))[Suc 0 := 0] \<rparr> \<rparr>"
  have id3: "idle s3" using m(2) by (simp add: s3_def idle_def)
  then have mg: "merge s3 = (False, s3)" by (cases s3; cases "fu_ctx s3") (auto simp: merge_def idle_def Let_def)
  have "receiver_connected (pt_addr (fu_ctx s3))"
    using assms(4,5) m(4,6) by (simp add: s3_def receiver_connected_def chan_rep_def)
  then have "check_state B s3 = Some (Some Pending, s3)"
    using id3 by (simp add: check_state_def Let_def idle_def alive_def flags_stopping_def)
  then have "poll_loop n B cx s = Some (Pending, s3)"
    using w m(1,2) i mg unfolding n
    by (simp add: idle_def s3_def [symmetric] Let_def del: wait_loop.simps Mailbox_poll.simps items_loop.simps)
  moreover have "num_messages (decode_state (ch_state (pt_addr (fu_ctx s3)))) = 0"
    using rep_open [OF m(4)] m(5) by (simp add: s3_def)
  ultimately show ?thesis
    using assms(3) id3 m(7) by (simp add: ContextFut_poll_def start_actor_def) (simp add: s3_def)
qed

text \<open>
  Progress: a poll of a running actor whose handlers make no calls, with at least one sender connected and nothing spawned, ends with
  enough fuel, one unit more than there are messages. It handles all queued messages, in the order in which they were accepted, empties the mailbox and
  stays pending.
\<close>

theorem poll_handles_all:
  assumes "call_free B" and "idle s" and "cf_STARTED (pt_flags (fu_ctx s))" and "receiver_connected (pt_addr (fu_ctx s))"
    and "chan_rep a (pt_addr (fu_ctx s))" and "ac_open a" and "length (ac_msgs a) < n"
  shows "\<exists>s'. ContextFut_poll n B cx s = Some (Pending, s') \<and> idle s'
     \<and> pt_trace (fu_ctx s') = pt_trace (fu_ctx s) @ map EvHandled (ac_msgs a)
     \<and> num_messages (decode_state (ch_state (pt_addr (fu_ctx s')))) = 0"
  by (rule poll_handles_queue [OF assms])

definition adder :: "(nat, nat, nat) behaviour" where
  "adder = sample_behaviour \<lparr> bh_handle := (\<lambda>m a p. (a + fst m, [])) \<rparr>"

theorem poll_handles_all_witness:
  "\<exists>s s'. ContextFut_poll 3 adder 0 s = Some (Pending, s')
     \<and> pt_trace (fu_ctx s') = [EvStarted, EvHandled (10, True), EvHandled (11, True)]"
proof -
  obtain ch :: "nat Channel" where ch: "channel 2 = Some ch" by (simp add: channel_def MAX_BUFFER_value)
  have "ops_ok (achan_new 2) [Clone, Send 0 10, Send 1 (11 :: nat)]"
    by (simp add: achan_new_def spec_send_def room_def msg_limit_def MAX_CAPACITY_value)
  from chan.run [OF rep_new [OF ch] this]
  obtain ch' where r: "chan_rep (snd (spec_run [Clone, Send 0 10, Send 1 (11 :: nat)] (achan_new 2))) ch'" by blast
  define a where "a = snd (spec_run [Clone, Send 0 10, Send 1 (11 :: nat)] (achan_new 2))"
  have c: "chan_rep a ch'" "ac_open a" "ac_msgs a = [(10, True), (11, True)]" "ac_live a = Suc (Suc 0)"
    using r by (simp_all add: a_def achan_new_def spec_send_def)
  define s :: "(nat, nat, nat) ContextFut" where
    "s = ContextFut_new ((ContextParts_new ch') \<lparr> pt_flags := flags_RUNNING \<lparr> cf_STARTED := True \<rparr>, pt_trace := [EvStarted] \<rparr>) 0"
  have "idle s" "cf_STARTED (pt_flags (fu_ctx s))" "pt_addr (fu_ctx s) = ch'" "pt_trace (fu_ctx s) = [EvStarted]"
    by (simp_all add: s_def idle_def ContextFut_new_def ContextParts_new_def flags_RUNNING_def flags_empty_def flags_stopping_def)
  moreover have "receiver_connected ch'" using c by (simp add: receiver_connected_def chan_rep_def)
  moreover have "call_free adder" by (simp add: call_free_def adder_def sample_behaviour_def)
  ultimately show ?thesis using poll_handles_all [of adder s a 3 0] c by fastforce
qed

text \<open>What the requirement on \<^verbatim>\<open>stopping\<close> excludes: an actor that terminates its context in \<^verbatim>\<open>stopping\<close> and answers
  \<open>Continue\<close> stays pending, handles nothing any more, and the next poll calls its \<^verbatim>\<open>started\<close> again before it ends.\<close>

definition undecided :: "(nat, nat, nat) behaviour" where
  "undecided = sample_behaviour \<lparr> bh_stopping := (\<lambda>a p. (Continue, a, [CallTerminate])) \<rparr>"

theorem started_twice:
  "map_option (\<lambda>(r, s'). (r, pt_trace (fu_ctx s')))
     (Option.bind (ContextFut_poll 5 undecided 0 sample_actor) (\<lambda>(_, s1). ContextFut_poll 5 undecided 0 s1)) =
   Some (Ready (), [EvStarted, EvHandled (5, False), EvHandled (0, False), EvStop, EvTerminate, EvStopping Continue,
                   EvTerminate, EvStopping Continue, EvStarted, EvStopped])"
  by code_simp

end
