(* ===== verification/Cluster_Messages.thy ===== *)
theory Cluster_Messages
  imports Cluster_Node
begin

text \<open>
  The messages of the cluster: envelopes and actor paths (\<^verbatim>\<open>message/mod.rs\<close>, \<^verbatim>\<open>message/envelope.rs\<close>),
  acknowledgements (\<^verbatim>\<open>message/delivery.rs\<close>), and the messages of the wire protocol (\<^verbatim>\<open>transport.rs\<close>) with the payloads that
  \<^verbatim>\<open>broker.rs\<close> and \<^verbatim>\<open>master.rs\<close> contribute. A payload is a list of bytes. An operation that draws a random \<^verbatim>\<open>Uuid\<close> or reads
  a clock takes the value as an argument. The components that exchange these messages are in the theories that import this one.
\<close>

section \<open>Envelopes and paths\<close>

type_synonym Uuid = "128 word"
type_synonym bytes = "u8 list"

datatype DeliveryGuarantee = AtMostOnce | AtLeastOnce | ExactlyOnce

datatype MessageType = ActorMessageType | SystemControl | Discovery | Ping | Pong | Custom string

record ActorPath =
  ap_node_id :: NodeId
  ap_path :: string

definition ActorPath_new :: "NodeId \<Rightarrow> string \<Rightarrow> ActorPath" where
  "ActorPath_new n p = \<lparr> ap_node_id = n, ap_path = p \<rparr>"

definition ActorPath_local :: "string \<Rightarrow> ActorPath" where
  "ActorPath_local p = \<lparr> ap_node_id = NodeId_local, ap_path = p \<rparr>"

definition ActorPath_is_local :: "NodeId \<Rightarrow> ActorPath \<Rightarrow> bool" where
  "ActorPath_is_local local_node p = (ap_node_id p = local_node \<or> NodeId_is_local (ap_node_id p))"

record MessageEnvelope =
  me_message_id :: Uuid
  me_sender_node :: NodeId
  me_target_node :: NodeId
  me_target_actor :: string
  me_timestamp :: u64
  me_message_type :: MessageType
  me_delivery_guarantee :: DeliveryGuarantee
  me_payload :: bytes
  me_compressed :: bool

definition MessageEnvelope_new ::
  "Uuid \<Rightarrow> int \<Rightarrow> NodeId \<Rightarrow> NodeId \<Rightarrow> string \<Rightarrow> MessageType \<Rightarrow> DeliveryGuarantee \<Rightarrow> bytes \<Rightarrow> MessageEnvelope" where
  "MessageEnvelope_new uid wall sender target actor ty dg payload =
     \<lparr> me_message_id = uid, me_sender_node = sender, me_target_node = target, me_target_actor = actor,
       me_timestamp = of_int (max 0 wall), me_message_type = ty, me_delivery_guarantee = dg, me_payload = payload,
       me_compressed = False \<rparr>"

definition create_ack :: "Uuid \<Rightarrow> int \<Rightarrow> MessageEnvelope \<Rightarrow> MessageEnvelope" where
  "create_ack uid wall e =
     MessageEnvelope_new uid wall (me_target_node e) (me_sender_node e) ''system'' Pong AtMostOnce []"

definition create_ping :: "Uuid \<Rightarrow> int \<Rightarrow> NodeId \<Rightarrow> NodeId \<Rightarrow> MessageEnvelope" where
  "create_ping uid wall from_node to_node =
     MessageEnvelope_new uid wall from_node to_node ''system'' Ping AtMostOnce []"

definition new_compressed ::
  "Uuid \<Rightarrow> int \<Rightarrow> NodeId \<Rightarrow> NodeId \<Rightarrow> string \<Rightarrow> MessageType \<Rightarrow> DeliveryGuarantee \<Rightarrow> bytes \<Rightarrow> MessageEnvelope" where
  "new_compressed uid wall sender target actor ty dg payload =
     MessageEnvelope_new uid wall sender target actor ty dg payload \<lparr> me_compressed := True \<rparr>"

definition set_compressed :: "bool \<Rightarrow> MessageEnvelope \<Rightarrow> MessageEnvelope" where
  "set_compressed b e = e \<lparr> me_compressed := b \<rparr>"

section \<open>Acknowledgements\<close>

datatype AckStatus = AckPending | Delivered | AckFailed string | Expired

record MessageAcknowledgement =
  ma_message_id :: string
  ma_sender :: NodeId
  ma_receiver :: NodeId
  ma_timestamp :: int
  ma_status :: AckStatus

definition MessageAcknowledgement_new :: "int \<Rightarrow> string \<Rightarrow> NodeId \<Rightarrow> NodeId \<Rightarrow> MessageAcknowledgement" where
  "MessageAcknowledgement_new now mid sender receiver =
     \<lparr> ma_message_id = mid, ma_sender = sender, ma_receiver = receiver, ma_timestamp = now, ma_status = AckPending \<rparr>"

definition mark_delivered :: "MessageAcknowledgement \<Rightarrow> MessageAcknowledgement" where
  "mark_delivered a = a \<lparr> ma_status := Delivered \<rparr>"

definition mark_failed :: "string \<Rightarrow> MessageAcknowledgement \<Rightarrow> MessageAcknowledgement" where
  "mark_failed reason a = a \<lparr> ma_status := AckFailed reason \<rparr>"

definition mark_expired :: "MessageAcknowledgement \<Rightarrow> MessageAcknowledgement" where
  "mark_expired a = a \<lparr> ma_status := Expired \<rparr>"

definition ack_is_expired :: "int \<Rightarrow> int \<Rightarrow> MessageAcknowledgement \<Rightarrow> bool" where
  "ack_is_expired now timeout a =
     (case ma_status a of AckPending \<Rightarrow> timeout < max 0 (now - ma_timestamp a) | _ \<Rightarrow> False)"

section \<open>Payloads of the broker and of the master election\<close>

record BrokerMessage =
  bm_topic :: string
  bm_payload :: bytes
  bm_id :: Uuid
  bm_source_node :: NodeId
  bm_timestamp :: u64
  bm_sequence :: u64
  bm_delivery_guarantee :: DeliveryGuarantee

record MessageAck =
  ak_message_id :: Uuid
  ak_topic :: string
  ak_node_id :: NodeId
  ak_timestamp :: u64

record SubscriptionOptions =
  so_delivery_guarantee :: DeliveryGuarantee
  so_buffer_size :: nat
  so_persistent :: bool
  so_ttl :: "u64 option"

definition SubscriptionOptions_default :: SubscriptionOptions where
  "SubscriptionOptions_default =
     \<lparr> so_delivery_guarantee = AtMostOnce, so_buffer_size = 100, so_persistent = False, so_ttl = None \<rparr>"

record ElectionMessage =
  em_candidate_id :: NodeId
  em_priority :: u32
  em_round :: u64

record MasterState =
  mst_master_id :: NodeId
  mst_backup_masters :: "NodeId list"
  mst_last_update :: u64
  mst_version :: u64

section \<open>Messages of the wire protocol\<close>

datatype TransportMessage =
    TActorMessage MessageEnvelope
  | TBrokerMessage BrokerMessage
  | THeartbeat NodeInfo
  | TElection ElectionMessage
  | TMasterState MasterState
  | TStatusUpdate NodeId string
  | TAck Uuid
  | TClose
  | THandshake NodeInfo
  | TActorDiscoveryRequest NodeId string
  | TActorDiscoveryResponse string "NodeId list"
  | TBrokerSubscribe string NodeId SubscriptionOptions
  | TBrokerUnsubscribe string NodeId
  | TBrokerAck MessageAck
  | TSubscribe string SubscriptionOptions
  | TEnvelope MessageEnvelope
  | TConsensus bytes

lemma create_ack_swaps:
  "me_sender_node (create_ack uid wall e) = me_target_node e" "me_target_node (create_ack uid wall e) = me_sender_node e"
  "me_message_type (create_ack uid wall e) = Pong" "me_delivery_guarantee (create_ack uid wall e) = AtMostOnce"
  by (simp_all add: create_ack_def MessageEnvelope_new_def)

end
