(* ===== verification/Serialization.thy ===== *)
theory Serialization
  imports Cluster_Messages F64
begin

text \<open>
  Encoding of messages (\<^verbatim>\<open>serialization.rs\<close>, \<^verbatim>\<open>proto/mod.rs\<close>, \<^verbatim>\<open>compression.rs\<close>). The formats themselves belong to other
  crates: bincode, JSON, prost, gzip and the text form of a \<^verbatim>\<open>Uuid\<close> are given as a record \<open>codecs\<close> of functions, and
  \<open>codecs_ok\<close> states what these crates promise: decoding what was encoded gives the value back. Modelled is what the
  program adds: which format is tried for which type and in which order, the conversion to and from the protocol buffer
  structures, the wrapper that compresses, the size threshold and the statistics.

  The lemmas show the round trips and what they lose: the protocol buffer form drops the compression flag of an envelope
  and has no form for most transport messages.
\<close>

section \<open>The formats of other crates\<close>

type_synonym 'a codec = "('a \<Rightarrow> bytes option) \<times> (bytes \<Rightarrow> 'a option)"

definition codec_ok :: "'a codec \<Rightarrow> bool" where
  "codec_ok c = (\<forall>x b. fst c x = Some b \<longrightarrow> snd c b = Some x)"

lemma codec_okD: "codec_ok c \<Longrightarrow> fst c x = Some b \<Longrightarrow> snd c b = Some x"
  by (auto simp: codec_ok_def)

text \<open>The generated structures (\<^verbatim>\<open>proto/messages.proto\<close>); of the transport message only the two cases the program converts carry data.\<close>

record ProtoMessageEnvelope =
  pe_message_id :: string
  pe_sender_actor :: string
  pe_target_actor :: string
  pe_sender_node :: string
  pe_target_node :: string
  pe_message_type :: int
  pe_payload :: bytes
  pe_timestamp :: u64
  pe_ttl :: u64
  pe_delivery_guarantee :: int
  pe_correlation_id :: string
  pe_custom_type :: string
  pe_headers :: "(string, string) hashmap"

datatype ProtoTransportMessage =
    PActorMessage ProtoMessageEnvelope
  | PEnvelope ProtoMessageEnvelope
  | POther
  | PNone

datatype CompressionLevel = NoCompression | Fast | Default | Best
datatype CompressionAlgorithm = Gzip

record wire_codecs =
  wc_string :: "string codec"
  wc_i32 :: "int codec"
  wc_envelope :: "MessageEnvelope codec"
  wc_transport :: "TransportMessage codec"

record codecs =
  cd_bincode :: wire_codecs
  cd_json :: wire_codecs
  cd_proto_envelope :: "ProtoMessageEnvelope codec"
  cd_proto_transport :: "ProtoTransportMessage codec"
  cd_gzip :: "CompressionLevel \<Rightarrow> bytes \<Rightarrow> bytes option"
  cd_gunzip :: "bytes \<Rightarrow> bytes option"
  cd_uuid_show :: "128 word \<Rightarrow> string"
  cd_uuid_parse :: "string \<Rightarrow> 128 word option"

definition wire_ok :: "wire_codecs \<Rightarrow> bool" where
  "wire_ok w = (codec_ok (wc_string w) \<and> codec_ok (wc_i32 w) \<and> codec_ok (wc_envelope w) \<and> codec_ok (wc_transport w))"

definition codecs_ok :: "codecs \<Rightarrow> bool" where
  "codecs_ok cs =
     (wire_ok (cd_bincode cs) \<and> wire_ok (cd_json cs) \<and> codec_ok (cd_proto_envelope cs) \<and> codec_ok (cd_proto_transport cs)
      \<and> (\<forall>l. codec_ok (cd_gzip cs l, cd_gunzip cs)) \<and> (\<forall>u. cd_uuid_parse cs (cd_uuid_show cs u) = Some u))"

definition or_error :: "ClusterError \<Rightarrow> 'a option \<Rightarrow> ClusterError + 'a" where
  "or_error e r = (case r of Some x \<Rightarrow> Inr x | None \<Rightarrow> Inl e)"

lemma or_error_Inr [simp]: "or_error e r = Inr x \<longleftrightarrow> r = Some x"
  by (cases r) (auto simp: or_error_def)

text \<open>The question mark of Rust.\<close>

definition try_bind :: "'e + 'a \<Rightarrow> ('a \<Rightarrow> 'e + 'b) \<Rightarrow> 'e + 'b" where
  "try_bind r f = (case r of Inl e \<Rightarrow> Inl e | Inr x \<Rightarrow> f x)"

lemma try_bind_simps [simp]: "try_bind (Inl e) f = Inl e" "try_bind (Inr x) f = f x"
  by (simp_all add: try_bind_def)

lemma try_bind_Inr: "try_bind r f = Inr y \<longleftrightarrow> (\<exists>x. r = Inr x \<and> f x = Inr y)"
  by (cases r) auto

section \<open>Protocol buffers\<close>

fun i32_of_MessageType :: "MessageType \<Rightarrow> int" where
  "i32_of_MessageType ActorMessageType = 0"
| "i32_of_MessageType SystemControl = 1"
| "i32_of_MessageType Discovery = 2"
| "i32_of_MessageType Ping = 3"
| "i32_of_MessageType Pong = 4"
| "i32_of_MessageType (Custom _) = 5"

definition MessageType_of_i32 :: "int \<Rightarrow> MessageType" where
  "MessageType_of_i32 v =
     (if v = 0 then ActorMessageType else if v = 1 then SystemControl else if v = 2 then Discovery
      else if v = 3 then Ping else if v = 4 then Pong else if v = 5 then Custom '''' else ActorMessageType)"

fun i32_of_DeliveryGuarantee :: "DeliveryGuarantee \<Rightarrow> int" where
  "i32_of_DeliveryGuarantee AtMostOnce = 0"
| "i32_of_DeliveryGuarantee AtLeastOnce = 1"
| "i32_of_DeliveryGuarantee ExactlyOnce = 2"

definition DeliveryGuarantee_of_i32 :: "int \<Rightarrow> DeliveryGuarantee" where
  "DeliveryGuarantee_of_i32 v =
     (if v = 0 then AtMostOnce else if v = 1 then AtLeastOnce else if v = 2 then ExactlyOnce else AtMostOnce)"

definition proto_of_envelope :: "codecs \<Rightarrow> MessageEnvelope \<Rightarrow> ClusterError + ProtoMessageEnvelope" where
  "proto_of_envelope cs e =
     (let p = \<lparr> pe_message_id = cd_uuid_show cs (me_message_id e), pe_sender_actor = '''', pe_target_actor = me_target_actor e,
                pe_sender_node = cd_uuid_show cs (me_sender_node e), pe_target_node = cd_uuid_show cs (me_target_node e),
                pe_message_type = i32_of_MessageType (me_message_type e), pe_payload = me_payload e,
                pe_timestamp = me_timestamp e, pe_ttl = 0,
                pe_delivery_guarantee = i32_of_DeliveryGuarantee (me_delivery_guarantee e), pe_correlation_id = '''',
                pe_custom_type = '''', pe_headers = [] \<rparr>
      in Inr (case me_message_type e of Custom s \<Rightarrow> p \<lparr> pe_custom_type := s \<rparr> | _ \<Rightarrow> p))"

definition envelope_of_proto :: "codecs \<Rightarrow> ProtoMessageEnvelope \<Rightarrow> ClusterError + MessageEnvelope" where
  "envelope_of_proto cs p =
     try_bind (or_error DeserializationError (cd_uuid_parse cs (pe_message_id p))) (\<lambda>mid.
     try_bind (or_error DeserializationError (cd_uuid_parse cs (pe_sender_node p))) (\<lambda>sender.
     try_bind (or_error DeserializationError (cd_uuid_parse cs (pe_target_node p))) (\<lambda>target.
     let mt = (case MessageType_of_i32 (pe_message_type p) of Custom _ \<Rightarrow> Custom (pe_custom_type p) | t \<Rightarrow> t)
     in Inr \<lparr> me_message_id = mid, me_sender_node = sender, me_target_node = target, me_target_actor = pe_target_actor p,
              me_timestamp = pe_timestamp p, me_message_type = mt,
              me_delivery_guarantee = DeliveryGuarantee_of_i32 (pe_delivery_guarantee p), me_payload = pe_payload p,
              me_compressed = False \<rparr>)))"

definition proto_of_transport :: "codecs \<Rightarrow> TransportMessage \<Rightarrow> ClusterError + ProtoTransportMessage" where
  "proto_of_transport cs m =
     (case m of
        TActorMessage e \<Rightarrow> try_bind (proto_of_envelope cs e) (\<lambda>p. Inr (PActorMessage p))
      | TEnvelope e \<Rightarrow> try_bind (proto_of_envelope cs e) (\<lambda>p. Inr (PEnvelope p))
      | _ \<Rightarrow> Inl SerializationError)"

definition transport_of_proto :: "codecs \<Rightarrow> ProtoTransportMessage \<Rightarrow> ClusterError + TransportMessage" where
  "transport_of_proto cs p =
     (case p of
        PActorMessage q \<Rightarrow> try_bind (envelope_of_proto cs q) (\<lambda>e. Inr (TActorMessage e))
      | PEnvelope q \<Rightarrow> try_bind (envelope_of_proto cs q) (\<lambda>e. Inr (TEnvelope e))
      | _ \<Rightarrow> Inl DeserializationError)"

lemma message_type_round_trip:
  "(case MessageType_of_i32 (i32_of_MessageType t) of Custom _ \<Rightarrow> Custom s | t' \<Rightarrow> t') = (case t of Custom _ \<Rightarrow> Custom s | _ \<Rightarrow> t)"
  by (cases t) (simp_all add: MessageType_of_i32_def)

lemma guarantee_round_trip [simp]: "DeliveryGuarantee_of_i32 (i32_of_DeliveryGuarantee g) = g"
  by (cases g) (simp_all add: DeliveryGuarantee_of_i32_def)

lemma proto_envelope_round_trip:
  assumes "codecs_ok cs"
  shows "\<exists>p. proto_of_envelope cs e = Inr p \<and> envelope_of_proto cs p = Inr (e \<lparr> me_compressed := False \<rparr>)"
  using assms by (cases "me_message_type e") (simp_all add: proto_of_envelope_def envelope_of_proto_def codecs_ok_def Let_def
      or_error_def MessageType_of_i32_def)

section \<open>Compression\<close>

record CompressionConfig =
  cc_enabled :: bool
  cc_algorithm :: CompressionAlgorithm
  cc_level :: CompressionLevel
  cc_min_size_threshold :: nat

definition CompressionConfig_default :: CompressionConfig where
  "CompressionConfig_default =
     \<lparr> cc_enabled = True, cc_algorithm = Gzip, cc_level = Default, cc_min_size_threshold = 1024 \<rparr>"

definition should_compress :: "CompressionConfig \<Rightarrow> nat \<Rightarrow> bool" where
  "should_compress c n = (cc_enabled c \<and> cc_min_size_threshold c \<le> n)"

definition compress :: "codecs \<Rightarrow> bytes \<Rightarrow> CompressionAlgorithm \<Rightarrow> CompressionLevel \<Rightarrow> ClusterError + bytes" where
  "compress cs d a l = (case a of Gzip \<Rightarrow> or_error CompressionError (cd_gzip cs l d))"

definition decompress :: "codecs \<Rightarrow> bytes \<Rightarrow> CompressionAlgorithm \<Rightarrow> ClusterError + bytes" where
  "decompress cs d a = (case a of Gzip \<Rightarrow> or_error DecompressionError (cd_gunzip cs d))"

lemma compress_round_trip:
  "codecs_ok cs \<Longrightarrow> compress cs d a l = Inr c \<Longrightarrow> decompress cs c a = Inr d"
  by (cases a) (auto simp: compress_def decompress_def codecs_ok_def codec_ok_def)

record compression_counters =
  ct_total_messages :: u64
  ct_compressed_messages :: u64
  ct_total_bytes_before :: u64
  ct_total_bytes_after :: u64
  ct_max_compression_ratio :: u64
  ct_skipped_small_messages :: u64
  ct_skipped_ineffective :: u64

definition update_compression_stats :: "nat \<Rightarrow> nat \<Rightarrow> bool \<Rightarrow> compression_counters \<Rightarrow> compression_counters" where
  "update_compression_stats original_size compressed_size was_compressed c =
     (let c1 = c \<lparr> ct_total_messages := ct_total_messages c + 1,
                  ct_total_bytes_before := ct_total_bytes_before c + of_nat original_size \<rparr>
      in if was_compressed then
           let c2 = c1 \<lparr> ct_compressed_messages := ct_compressed_messages c1 + 1,
                         ct_total_bytes_after := ct_total_bytes_after c1 + of_nat compressed_size \<rparr>
           in if 0 < original_size then
                let ratio = f64_to_u64 (f64_mul (f64_sub (Fin 1) (f64_div (f64_of_int (int compressed_size)) (f64_of_int (int original_size)))) (Fin 10000))
                in if ct_max_compression_ratio c2 < ratio then c2 \<lparr> ct_max_compression_ratio := ratio \<rparr> else c2
              else c2
         else
           let c2 = c1 \<lparr> ct_total_bytes_after := ct_total_bytes_after c1 + of_nat original_size \<rparr>
           in if original_size < 1024 then c2 \<lparr> ct_skipped_small_messages := ct_skipped_small_messages c2 + 1 \<rparr>
              else c2 \<lparr> ct_skipped_ineffective := ct_skipped_ineffective c2 + 1 \<rparr>)"

definition auto_compress ::
  "codecs \<Rightarrow> bytes \<Rightarrow> CompressionConfig \<Rightarrow> compression_counters \<Rightarrow> (ClusterError + bytes \<times> bool) \<times> compression_counters" where
  "auto_compress cs d cfg c =
     (if should_compress cfg (length d) then
        case compress cs d (cc_algorithm cfg) (cc_level cfg) of
          Inl e \<Rightarrow> (Inl e, c)
        | Inr z \<Rightarrow>
            if length z < length d then (Inr (z, True), update_compression_stats (length d) (length z) True c)
            else (Inr (d, False), update_compression_stats (length d) (length d) False c)
      else (Inr (d, False), update_compression_stats (length d) (length d) False c))"

lemma auto_compress_round_trip:
  assumes "codecs_ok cs" and "fst (auto_compress cs d cfg c) = Inr (r, z)"
  shows "length r \<le> length d \<and> (z \<longrightarrow> should_compress cfg (length d) \<and> decompress cs r (cc_algorithm cfg) = Inr d) \<and> (\<not> z \<longrightarrow> r = d)"
  using assms compress_round_trip
  by (auto simp: auto_compress_def split: if_splits sum.splits)

definition counters_balance :: "compression_counters \<Rightarrow> bool" where
  "counters_balance c = (ct_total_messages c = ct_compressed_messages c + ct_skipped_small_messages c + ct_skipped_ineffective c)"

lemma auto_compress_balance: "counters_balance c \<Longrightarrow> counters_balance (snd (auto_compress cs d cfg c))"
  by (auto simp: auto_compress_def counters_balance_def update_compression_stats_def Let_def split: sum.split)

section \<open>Serializers\<close>

datatype any_value = AnyString string | AnyI32 int | AnyEnvelope MessageEnvelope | AnyTransport TransportMessage | AnyOther

definition wire_serialize_any :: "wire_codecs \<Rightarrow> any_value \<Rightarrow> ClusterError + bytes" where
  "wire_serialize_any w v =
     (case v of
        AnyString s \<Rightarrow> or_error SerializationError (fst (wc_string w) s)
      | AnyI32 i \<Rightarrow> or_error SerializationError (fst (wc_i32 w) i)
      | AnyEnvelope e \<Rightarrow> or_error SerializationError (fst (wc_envelope w) e)
      | AnyTransport m \<Rightarrow> or_error SerializationError (fst (wc_transport w) m)
      | AnyOther \<Rightarrow> Inl SerializationError)"

definition wire_deserialize_any :: "wire_codecs \<Rightarrow> bytes \<Rightarrow> ClusterError + any_value" where
  "wire_deserialize_any w b =
     (case snd (wc_envelope w) b of Some e \<Rightarrow> Inr (AnyEnvelope e)
      | None \<Rightarrow> (case snd (wc_transport w) b of Some m \<Rightarrow> Inr (AnyTransport m)
      | None \<Rightarrow> (case snd (wc_string w) b of Some s \<Rightarrow> Inr (AnyString s)
      | None \<Rightarrow> (case snd (wc_i32 w) b of Some i \<Rightarrow> Inr (AnyI32 i)
      | None \<Rightarrow> Inl DeserializationError))))"

definition Bincode_serialize_any :: "codecs \<Rightarrow> any_value \<Rightarrow> ClusterError + bytes" where
  "Bincode_serialize_any cs = wire_serialize_any (cd_bincode cs)"

definition Bincode_deserialize_any :: "codecs \<Rightarrow> bytes \<Rightarrow> ClusterError + any_value" where
  "Bincode_deserialize_any cs = wire_deserialize_any (cd_bincode cs)"

definition Json_serialize_any :: "codecs \<Rightarrow> any_value \<Rightarrow> ClusterError + bytes" where
  "Json_serialize_any cs = wire_serialize_any (cd_json cs)"

definition Json_deserialize_any :: "codecs \<Rightarrow> bytes \<Rightarrow> ClusterError + any_value" where
  "Json_deserialize_any cs = wire_deserialize_any (cd_json cs)"

definition Protobuf_serialize_any :: "codecs \<Rightarrow> any_value \<Rightarrow> ClusterError + bytes" where
  "Protobuf_serialize_any cs v =
     (case v of
        AnyEnvelope e \<Rightarrow> try_bind (proto_of_envelope cs e) (\<lambda>p. or_error SerializationError (fst (cd_proto_envelope cs) p))
      | AnyTransport m \<Rightarrow> try_bind (proto_of_transport cs m) (\<lambda>p. or_error SerializationError (fst (cd_proto_transport cs) p))
      | _ \<Rightarrow> Json_serialize_any cs v)"

definition proto_read_envelope :: "codecs \<Rightarrow> bytes \<Rightarrow> MessageEnvelope option" where
  "proto_read_envelope cs b =
     (case snd (cd_proto_envelope cs) b of None \<Rightarrow> None
      | Some p \<Rightarrow> (case envelope_of_proto cs p of Inr e \<Rightarrow> Some e | Inl _ \<Rightarrow> None))"

definition proto_read_transport :: "codecs \<Rightarrow> bytes \<Rightarrow> TransportMessage option" where
  "proto_read_transport cs b =
     (case snd (cd_proto_transport cs) b of None \<Rightarrow> None
      | Some p \<Rightarrow> (case transport_of_proto cs p of Inr m \<Rightarrow> Some m | Inl _ \<Rightarrow> None))"

definition Protobuf_deserialize_any :: "codecs \<Rightarrow> bytes \<Rightarrow> ClusterError + any_value" where
  "Protobuf_deserialize_any cs b =
     (case proto_read_envelope cs b of Some e \<Rightarrow> Inr (AnyEnvelope e)
      | None \<Rightarrow> (case proto_read_transport cs b of Some m \<Rightarrow> Inr (AnyTransport m)
      | None \<Rightarrow> Json_deserialize_any cs b))"

datatype serializer =
    BincodeSerializer
  | JsonSerializer
  | ProtobufSerializer
  | CompressedSerializer serializer CompressionAlgorithm CompressionLevel

fun serialize_any :: "codecs \<Rightarrow> serializer \<Rightarrow> any_value \<Rightarrow> ClusterError + bytes" where
  "serialize_any cs BincodeSerializer v = Bincode_serialize_any cs v"
| "serialize_any cs JsonSerializer v = Json_serialize_any cs v"
| "serialize_any cs ProtobufSerializer v = Protobuf_serialize_any cs v"
| "serialize_any cs (CompressedSerializer s a l) v = try_bind (serialize_any cs s v) (\<lambda>b. compress cs b a l)"

fun deserialize_any :: "codecs \<Rightarrow> serializer \<Rightarrow> bytes \<Rightarrow> ClusterError + any_value" where
  "deserialize_any cs BincodeSerializer b = Bincode_deserialize_any cs b"
| "deserialize_any cs JsonSerializer b = Json_deserialize_any cs b"
| "deserialize_any cs ProtobufSerializer b = Protobuf_deserialize_any cs b"
| "deserialize_any cs (CompressedSerializer s a l) b = try_bind (decompress cs b a) (deserialize_any cs s)"

datatype SerializationFormat = Bincode | Json | Protobuf | CompressedBincode | CompressedJson | CompressedProtobuf

definition is_compressed :: "SerializationFormat \<Rightarrow> bool" where
  "is_compressed f = (case f of CompressedBincode \<Rightarrow> True | CompressedJson \<Rightarrow> True | CompressedProtobuf \<Rightarrow> True | _ \<Rightarrow> False)"

definition base_format :: "SerializationFormat \<Rightarrow> SerializationFormat" where
  "base_format f =
     (case f of CompressedBincode \<Rightarrow> Bincode | CompressedJson \<Rightarrow> Json | CompressedProtobuf \<Rightarrow> Protobuf | _ \<Rightarrow> f)"

fun create_serializer_trait :: "SerializationFormat \<Rightarrow> serializer" where
  "create_serializer_trait Bincode = BincodeSerializer"
| "create_serializer_trait Json = JsonSerializer"
| "create_serializer_trait Protobuf = JsonSerializer"
| "create_serializer_trait CompressedBincode = CompressedSerializer BincodeSerializer Gzip Default"
| "create_serializer_trait CompressedJson = CompressedSerializer JsonSerializer Gzip Default"
| "create_serializer_trait CompressedProtobuf = CompressedSerializer JsonSerializer Gzip Default"

fun transport_serializer :: "SerializationFormat \<Rightarrow> serializer" where
  "transport_serializer Bincode = BincodeSerializer"
| "transport_serializer Json = JsonSerializer"
| "transport_serializer Protobuf = ProtobufSerializer"
| "transport_serializer CompressedBincode = CompressedSerializer BincodeSerializer Gzip Default"
| "transport_serializer CompressedJson = CompressedSerializer JsonSerializer Gzip Default"
| "transport_serializer CompressedProtobuf = CompressedSerializer ProtobufSerializer Gzip Default"

text \<open>The typed interface: a value of any type that bincode and JSON can encode.\<close>

record 'a typed_codec =
  tc_bincode :: "'a codec"
  tc_json :: "'a codec"

definition Serializer_serialize :: "codecs \<Rightarrow> 'a typed_codec \<Rightarrow> SerializationFormat \<Rightarrow> 'a \<Rightarrow> ClusterError + bytes" where
  "Serializer_serialize cs t f v =
     (let plain = or_error SerializationError (if base_format f = Bincode then fst (tc_bincode t) v else fst (tc_json t) v)
      in if is_compressed f then try_bind plain (\<lambda>b. compress cs b Gzip Default) else plain)"

definition Serializer_deserialize :: "codecs \<Rightarrow> 'a typed_codec \<Rightarrow> SerializationFormat \<Rightarrow> bytes \<Rightarrow> ClusterError + 'a" where
  "Serializer_deserialize cs t f b =
     (let plain = (\<lambda>x. or_error DeserializationError (if base_format f = Bincode then snd (tc_bincode t) x else snd (tc_json t) x))
      in if is_compressed f then try_bind (decompress cs b Gzip) plain else plain b)"

section \<open>Round trips of the serializers\<close>

text \<open>What arrives of a transport message: with protocol buffers the compression flag is lost.\<close>

fun clear_compressed :: "TransportMessage \<Rightarrow> TransportMessage" where
  "clear_compressed (TActorMessage e) = TActorMessage (e \<lparr> me_compressed := False \<rparr>)"
| "clear_compressed (TEnvelope e) = TEnvelope (e \<lparr> me_compressed := False \<rparr>)"
| "clear_compressed m = m"

fun uses_proto :: "serializer \<Rightarrow> bool" where
  "uses_proto (CompressedSerializer s a l) = uses_proto s"
| "uses_proto s = (s = ProtobufSerializer)"

definition is_envelope :: "TransportMessage \<Rightarrow> bool" where
  "is_envelope m = (case m of TActorMessage _ \<Rightarrow> True | TEnvelope _ \<Rightarrow> True | _ \<Rightarrow> False)"

text \<open>All serializers try to read bytes as an envelope before they try a transport message. \<open>unconfused\<close> says that the
  encoding of the message is not also one of an envelope.\<close>

fun unconfused :: "codecs \<Rightarrow> serializer \<Rightarrow> TransportMessage \<Rightarrow> bool" where
  "unconfused cs BincodeSerializer m =
     (case fst (wc_transport (cd_bincode cs)) m of None \<Rightarrow> True | Some b \<Rightarrow> snd (wc_envelope (cd_bincode cs)) b = None)"
| "unconfused cs JsonSerializer m =
     (case fst (wc_transport (cd_json cs)) m of None \<Rightarrow> True | Some b \<Rightarrow> snd (wc_envelope (cd_json cs)) b = None)"
| "unconfused cs ProtobufSerializer m =
     (case Protobuf_serialize_any cs (AnyTransport m) of Inl _ \<Rightarrow> True | Inr b \<Rightarrow> proto_read_envelope cs b = None)"
| "unconfused cs (CompressedSerializer s a l) m = unconfused cs s m"

lemma wire_round_trip:
  "wire_ok w \<Longrightarrow> wire_serialize_any w (AnyTransport m) = Inr b \<Longrightarrow> snd (wc_envelope w) b = None \<Longrightarrow>
   wire_deserialize_any w b = Inr (AnyTransport m)"
  by (auto simp: wire_serialize_any_def wire_deserialize_any_def wire_ok_def dest: codec_okD)

lemma proto_transport_round_trip:
  assumes "codecs_ok cs" and "proto_of_transport cs m = Inr p"
  shows "transport_of_proto cs p = Inr (clear_compressed m)"
proof -
  obtain e q where m: "m = TActorMessage e \<or> m = TEnvelope e" and q: "proto_of_envelope cs e = Inr q"
    and p: "p = (if m = TActorMessage e then PActorMessage q else PEnvelope q)"
    using assms(2) by (auto simp: proto_of_transport_def try_bind_Inr split: TransportMessage.splits)
  have "envelope_of_proto cs q = Inr (e \<lparr> me_compressed := False \<rparr>)"
    using proto_envelope_round_trip [OF assms(1), of e] q by auto
  then show ?thesis using m p by (auto simp: transport_of_proto_def)
qed

lemma serialize_any_round_trip:
  assumes "codecs_ok cs" and "unconfused cs s m" and "serialize_any cs s (AnyTransport m) = Inr b"
  shows "deserialize_any cs s b = Inr (AnyTransport (if uses_proto s then clear_compressed m else m))"
  using assms(2,3)
proof (induction s arbitrary: b)
  case BincodeSerializer
  then have "wire_serialize_any (cd_bincode cs) (AnyTransport m) = Inr b" "snd (wc_envelope (cd_bincode cs)) b = None"
    by (auto simp: Bincode_serialize_any_def wire_serialize_any_def split: option.splits)
  then show ?case using assms(1) wire_round_trip by (simp add: Bincode_deserialize_any_def codecs_ok_def)
next
  case JsonSerializer
  then have "wire_serialize_any (cd_json cs) (AnyTransport m) = Inr b" "snd (wc_envelope (cd_json cs)) b = None"
    by (auto simp: Json_serialize_any_def wire_serialize_any_def split: option.splits)
  then show ?case using assms(1) wire_round_trip by (simp add: Json_deserialize_any_def codecs_ok_def)
next
  case ProtobufSerializer
  then have n: "proto_read_envelope cs b = None" and "Protobuf_serialize_any cs (AnyTransport m) = Inr b"
    by simp_all
  then obtain p where p: "proto_of_transport cs m = Inr p" "fst (cd_proto_transport cs) p = Some b"
    by (auto simp: Protobuf_serialize_any_def try_bind_Inr)
  then have "snd (cd_proto_transport cs) b = Some p" using assms(1) by (auto simp: codecs_ok_def dest: codec_okD)
  then have "proto_read_transport cs b = Some (clear_compressed m)"
    using proto_transport_round_trip [OF assms(1) p(1)] by (simp add: proto_read_transport_def)
  then show ?case using n by (simp add: Protobuf_deserialize_any_def)
next
  case (CompressedSerializer s a l)
  then obtain c where c: "serialize_any cs s (AnyTransport m) = Inr c" "compress cs c a l = Inr b"
    by (auto simp: try_bind_Inr)
  then show ?case
    using CompressedSerializer compress_round_trip [OF assms(1) c(2)] by simp
qed

lemma proto_unsupported:
  "uses_proto s \<Longrightarrow> \<not> is_envelope m \<Longrightarrow> serialize_any cs s (AnyTransport m) = Inl SerializationError"
proof (induction s)
  case ProtobufSerializer
  then show ?case
    by (simp add: Protobuf_serialize_any_def proto_of_transport_def is_envelope_def split: TransportMessage.splits)
qed simp_all

lemma typed_round_trip:
  assumes "codecs_ok cs" and "codec_ok (tc_bincode t)" and "codec_ok (tc_json t)" and "Serializer_serialize cs t f v = Inr b"
  shows "Serializer_deserialize cs t f b = Inr v"
  using assms compress_round_trip [OF assms(1)]
  by (cases f) (auto simp: Serializer_serialize_def Serializer_deserialize_def is_compressed_def base_format_def
      try_bind_Inr codec_okD)


definition sample_wire :: wire_codecs where
  "sample_wire =
     \<lparr> wc_string = (\<lambda>_. None, \<lambda>_. None), wc_i32 = (\<lambda>_. None, \<lambda>_. None), wc_envelope = (\<lambda>_. None, \<lambda>_. None),
       wc_transport = (\<lambda>m. case m of TClose \<Rightarrow> Some [7] | _ \<Rightarrow> None, \<lambda>b. if b = [7] then Some TClose else None) \<rparr>"

definition sample_codecs :: codecs where
  "sample_codecs =
     \<lparr> cd_bincode = sample_wire, cd_json = sample_wire, cd_proto_envelope = (\<lambda>_. None, \<lambda>_. None),
       cd_proto_transport = (\<lambda>_. None, \<lambda>_. None), cd_gzip = (\<lambda>_ b. Some (1 # b)),
       cd_gunzip = (\<lambda>b. case b of [] \<Rightarrow> None | x # r \<Rightarrow> Some r), cd_uuid_show = (\<lambda>u. replicate (unat u) CHR ''0''),
       cd_uuid_parse = (\<lambda>s. Some (of_nat (length s))) \<rparr>"

definition sample_typed :: "bool typed_codec" where
  "sample_typed =
     (let c = (\<lambda>b. Some [if b then 1 else 0], \<lambda>x. if x = [1] then Some True else if x = [0] then Some False else None)
      in \<lparr> tc_bincode = c, tc_json = c \<rparr>)"

lemma sample_codecs_ok: "codecs_ok sample_codecs"
  by (auto simp: codecs_ok_def sample_codecs_def wire_ok_def sample_wire_def codec_ok_def split: TransportMessage.splits)


end
