(* ===== verification/Transport.thy ===== *)
theory Transport
  imports Serialization
begin

text \<open>
  The peer-to-peer transport (\<^verbatim>\<open>transport.rs\<close>). A TCP stream is a number; what is written to it is recorded in
  \<open>tp_written\<close>, write by write, and what the user's message handler is given in \<open>tp_handled\<close>. Whether a connection succeeds and
  whether a write succeeds is decided by the environment \<open>net_env\<close>. A frame is the length of the encoding as four bytes, most
  significant first, and then the encoding.

  The reading end of a connection is \<open>handle_incoming\<close>: it takes the bytes that arrive and how the stream ends. Waiting for
  ever in the middle of a frame, which no timeout covers, is the outcome \<open>Blocked\<close>. The accept loop, the sockets' options and
  the test helpers are not modelled; the field \<^verbatim>\<open>pending_acks\<close> is never used by the program.

  The lemmas show that frames are read back as they were written, so that what one node sends over a connection is what the
  handler of the other node gets, in order and once.
\<close>

section \<open>Frames\<close>

definition to_be_bytes :: "u32 \<Rightarrow> bytes" where
  "to_be_bytes w = map (\<lambda>i. of_nat (unat w div 256 ^ i)) [3, 2, 1, 0]"

definition from_be_bytes :: "bytes \<Rightarrow> u32" where
  "from_be_bytes b = of_nat (foldl (\<lambda>n x. 256 * n + unat x) 0 b)"

lemma length_to_be_bytes [simp]: "length (to_be_bytes w) = 4"
  by (simp add: to_be_bytes_def)

lemma from_to_be_bytes [simp]: "from_be_bytes (to_be_bytes w) = w"
proof -
  have "unat w < 2 ^ LENGTH(32)" by (rule unsigned_less)
  then have n: "unat w < 256 ^ 4" by simp
  have d: "unat (of_nat k :: u8) = k mod 256" for k by (simp add: unat_of_nat)
  have m: "k = 256 * (k div 256) + k mod 256" for k :: nat by simp
  have "(256 * (256 * (256 * (unat w div 256 ^ 3 mod 256) + unat w div 256 ^ 2 mod 256) + unat w div 256 mod 256) + unat w mod 256) = unat w"
    using n m [of "unat w"] m [of "unat w div 256"] m [of "unat w div 256 div 256"]
    by (simp add: div_mult2_eq [symmetric] less_mult_imp_div_less)
  moreover have "unat w div 16777216 mod 256 = unat w div 16777216"
    using n by (simp add: less_mult_imp_div_less)
  ultimately have "foldl (\<lambda>n x. 256 * n + unat x) 0 (to_be_bytes w) = unat w"
    by (simp only: to_be_bytes_def list.map foldl.simps d) simp
  then show ?thesis by (simp only: from_be_bytes_def) simp
qed

definition frame :: "bytes \<Rightarrow> bytes" where
  "frame b = to_be_bytes (of_nat (length b)) @ b"

section \<open>State and environment\<close>

record P2PTransport =
  tp_local_node :: NodeInfo
  tp_peers :: "(NodeId, NodeInfo) hashmap"
  tp_serializer :: serializer
  tp_compression_config :: "CompressionConfig option"
  tp_message_handler :: bool
  tp_connections :: "(NodeId, nat) hashmap"
  tp_started :: bool
  tp_registry_adapter :: bool
  tp_counters :: compression_counters
  tp_written :: "(nat \<times> bytes) list"
  tp_handled :: "(NodeId \<times> TransportMessage) list"

record net_env =
  ne_codecs :: codecs
  ne_connect :: "string \<Rightarrow> nat option"
  ne_write :: "nat \<Rightarrow> bytes \<Rightarrow> bool"
  ne_fresh_id :: NodeId
  ne_wall :: int

definition P2PTransport_new :: "NodeInfo \<Rightarrow> SerializationFormat \<Rightarrow> compression_counters \<Rightarrow> P2PTransport" where
  "P2PTransport_new n f c =
     \<lparr> tp_local_node = n, tp_peers = [], tp_serializer = transport_serializer f, tp_compression_config = None,
       tp_message_handler = False, tp_connections = [], tp_started = False, tp_registry_adapter = False,
       tp_counters = c, tp_written = [], tp_handled = [] \<rparr>"

definition transport_init :: "bool \<Rightarrow> P2PTransport \<Rightarrow> (ClusterError + unit) \<times> P2PTransport" where
  "transport_init bind_ok t =
     (let t1 = t \<lparr> tp_peers := hm_insert (ni_id (tp_local_node t)) (tp_local_node t) (tp_peers t) \<rparr>
      in if bind_ok then (Inr (), t1 \<lparr> tp_started := True \<rparr>) else (Inl NetworkError, t1))"

definition get_peers :: "P2PTransport \<Rightarrow> NodeInfo list" where
  "get_peers t = hm_values (tp_peers t)"

definition is_connected :: "P2PTransport \<Rightarrow> NodeId \<Rightarrow> bool" where
  "is_connected t n = hm_contains (tp_connections t) n"

definition set_message_handler :: "P2PTransport \<Rightarrow> P2PTransport" where
  "set_message_handler t = t \<lparr> tp_message_handler := True \<rparr>"

definition set_registry_adapter :: "P2PTransport \<Rightarrow> P2PTransport" where
  "set_registry_adapter t = t \<lparr> tp_registry_adapter := True \<rparr>"

definition set_compression_config :: "CompressionConfig \<Rightarrow> P2PTransport \<Rightarrow> P2PTransport" where
  "set_compression_config c t = t \<lparr> tp_compression_config := Some c \<rparr>"

definition is_compression_enabled :: "P2PTransport \<Rightarrow> bool" where
  "is_compression_enabled t = (case tp_compression_config t of Some c \<Rightarrow> cc_enabled c | None \<Rightarrow> False)"

section \<open>Sending\<close>

text \<open>The two writes of a frame, with the errors the caller reports for the first and for the second one.\<close>

definition write_frame :: "net_env \<Rightarrow> ClusterError \<Rightarrow> nat \<Rightarrow> bytes \<Rightarrow> P2PTransport \<Rightarrow> (ClusterError + unit) \<times> P2PTransport" where
  "write_frame env err s b t =
     (let l = to_be_bytes (of_nat (length b))
      in if \<not> ne_write env s l then (Inl err, t)
         else let t1 = t \<lparr> tp_written := tp_written t @ [(s, l)] \<rparr>
              in if \<not> ne_write env s b then (Inl err, t1)
                 else (Inr (), t1 \<lparr> tp_written := tp_written t1 @ [(s, b)] \<rparr>))"

definition send_message :: "net_env \<Rightarrow> NodeId \<Rightarrow> TransportMessage \<Rightarrow> P2PTransport \<Rightarrow> (ClusterError + unit) \<times> P2PTransport" where
  "send_message env n m t =
     (case hm_get (tp_connections t) n of
        None \<Rightarrow> (Inl (UnknownPeer n), t)
      | Some s \<Rightarrow>
          (case serialize_any (ne_codecs env) (tp_serializer t) (AnyTransport m) of
             Inl e \<Rightarrow> (Inl e, t)
           | Inr b \<Rightarrow> write_frame env NetworkError s b t))"

definition peer_of_addr :: "string \<Rightarrow> P2PTransport \<Rightarrow> NodeId option" where
  "peer_of_addr addr t = map_option fst (find (\<lambda>(i, info). ni_addr info = addr) (tp_peers t))"

definition handle_new_connection :: "net_env \<Rightarrow> nat \<Rightarrow> string \<Rightarrow> P2PTransport \<Rightarrow> (ClusterError + unit) \<times> P2PTransport" where
  "handle_new_connection env s addr t =
     (case serialize_any (ne_codecs env) (tp_serializer t) (AnyTransport (THandshake (tp_local_node t))) of
        Inl _ \<Rightarrow> (Inl SerializationError, t)
      | Inr b \<Rightarrow>
          (case write_frame env NetworkError s b t of
             (Inl e, t1) \<Rightarrow> (Inl e, t1)
           | (Inr _, t1) \<Rightarrow>
               let n = (case peer_of_addr addr t1 of Some i \<Rightarrow> i | None \<Rightarrow> ne_fresh_id env)
               in (Inr (), t1 \<lparr> tp_connections := hm_insert n s (tp_connections t1) \<rparr>)))"

text \<open>The task that \<^verbatim>\<open>handle_new_connection\<close> starts: it reads one frame and takes it for the handshake of the peer.\<close>

definition handshake_task :: "net_env \<Rightarrow> nat \<Rightarrow> bytes \<Rightarrow> P2PTransport \<Rightarrow> P2PTransport" where
  "handshake_task env s b t =
     (case deserialize_any (ne_codecs env) (tp_serializer t) b of
        Inr (AnyTransport (THandshake i)) \<Rightarrow>
          t \<lparr> tp_peers := hm_insert (ni_id i) i (tp_peers t), tp_connections := hm_insert (ni_id i) s (tp_connections t) \<rparr>
      | _ \<Rightarrow> t)"

definition connect_to_peer :: "net_env \<Rightarrow> string \<Rightarrow> P2PTransport \<Rightarrow> (ClusterError + unit) \<times> P2PTransport" where
  "connect_to_peer env addr t =
     (case ne_connect env addr of
        Some s \<Rightarrow> handle_new_connection env s addr t
      | None \<Rightarrow> (Inl ConnectionFailed, t))"

definition ensure_connection :: "net_env \<Rightarrow> NodeId \<Rightarrow> P2PTransport \<Rightarrow> (ClusterError + unit) \<times> P2PTransport" where
  "ensure_connection env n t =
     (if hm_contains (tp_connections t) n then (Inr (), t)
      else case hm_get (tp_peers t) n of
        Some peer \<Rightarrow>
          (case connect_to_peer env (ni_addr peer) t of
             (Inl _, t1) \<Rightarrow> (Inl ConnectionFailed, t1)
           | (Inr _, t1) \<Rightarrow> (Inr (), t1))
      | None \<Rightarrow> (Inl (NodeNotFound n), t))"

definition compress_frame :: "net_env \<Rightarrow> bytes \<Rightarrow> P2PTransport \<Rightarrow> bytes \<times> P2PTransport" where
  "compress_frame env d t =
     (case tp_compression_config t of
        Some cfg \<Rightarrow>
          if should_compress cfg (length d) then
            let (r, c) = auto_compress (ne_codecs env) d cfg (tp_counters t); t1 = t \<lparr> tp_counters := c \<rparr>
            in (case r of Inr (z, True) \<Rightarrow> (z, t1) | _ \<Rightarrow> (d, t1))
          else (d, t)
      | None \<Rightarrow> (d, t))"

definition send_envelope :: "net_env \<Rightarrow> MessageEnvelope \<Rightarrow> P2PTransport \<Rightarrow> (ClusterError + unit) \<times> P2PTransport" where
  "send_envelope env e t =
     (case ensure_connection env (me_target_node e) t of
        (Inl err, t1) \<Rightarrow> (Inl err, t1)
      | (Inr _, t1) \<Rightarrow>
          (case hm_get (tp_connections t1) (me_target_node e) of
             None \<Rightarrow> (Inl (NodeNotFound (me_target_node e)), t1)
           | Some s \<Rightarrow>
               (case fst (wc_transport (cd_bincode (ne_codecs env))) (TEnvelope e) of
                  None \<Rightarrow> (Inl SerializationError, t1)
                | Some d \<Rightarrow> let (b, t2) = compress_frame env d t1 in write_frame env MessageSendFailed s b t2)))"

text \<open>A reference to an actor of another node (\<^verbatim>\<open>RemoteActorRef\<close>); \<open>payload\<close> is what bincode makes of the message.\<close>

definition RemoteActorRef_send ::
  "net_env \<Rightarrow> Uuid \<Rightarrow> NodeId \<Rightarrow> string \<Rightarrow> DeliveryGuarantee \<Rightarrow> bytes option \<Rightarrow> P2PTransport \<Rightarrow> (ClusterError + unit) \<times> P2PTransport" where
  "RemoteActorRef_send env uid n path dg payload t =
     (case payload of
        None \<Rightarrow> (Inl SerializationError, t)
      | Some p \<Rightarrow>
          let (r, c) = (case tp_compression_config t of
                          Some cfg \<Rightarrow> auto_compress (ne_codecs env) p cfg (tp_counters t)
                        | None \<Rightarrow> (Inr (p, False), tp_counters t));
              t1 = t \<lparr> tp_counters := c \<rparr>
          in (case r of
                Inl e \<Rightarrow> (Inl e, t1)
              | Inr (q, z) \<Rightarrow>
                  let e = MessageEnvelope_new uid (ne_wall env) (ni_id (tp_local_node t1)) n path ActorMessageType dg q
                  in send_message env n (TEnvelope (if z then set_compressed True e else e)) t1))"

section \<open>Reconnecting\<close>

definition reconnect_to_peer :: "net_env \<Rightarrow> NodeId \<Rightarrow> P2PTransport \<Rightarrow> (ClusterError + bool) \<times> P2PTransport" where
  "reconnect_to_peer env n t =
     (if is_connected t n then (Inr True, t)
      else case hm_get (tp_peers t) n of
        None \<Rightarrow> (Inl (NodeNotFound n), t)
      | Some peer \<Rightarrow>
          (case ne_connect env (ni_addr peer) of
             Some s \<Rightarrow> (Inr True, t \<lparr> tp_connections := hm_insert n s (tp_connections t) \<rparr>)
           | None \<Rightarrow> (Inr False, t)))"

definition disconnected_peers :: "P2PTransport \<Rightarrow> NodeId list" where
  "disconnected_peers t =
     filter (\<lambda>i. \<not> hm_contains (tp_connections t) i \<and> i \<noteq> ni_id (tp_local_node t)) (hm_keys (tp_peers t))"

fun reconnect_each :: "net_env \<Rightarrow> NodeId list \<Rightarrow> nat \<Rightarrow> P2PTransport \<Rightarrow> nat \<times> P2PTransport" where
  "reconnect_each env [] k t = (k, t)"
| "reconnect_each env (n # ns) k t =
     (case reconnect_to_peer env n t of
        (Inr True, t1) \<Rightarrow> reconnect_each env ns (Suc k) t1
      | (_, t1) \<Rightarrow> reconnect_each env ns k t1)"

definition reconnect_to_all_disconnected_peers :: "net_env \<Rightarrow> P2PTransport \<Rightarrow> (ClusterError + nat) \<times> P2PTransport" where
  "reconnect_to_all_disconnected_peers env t =
     (let (k, t1) = reconnect_each env (disconnected_peers t) 0 t in (Inr k, t1))"

section \<open>Receiving\<close>

datatype stream_end = Eof | TimedOut | ReadError
datatype outcome = Finished | Failed ClusterError | Blocked

text \<open>What one frame does. The accept loop has taken its copy of the message handler when the transport was started:
  \<open>handler\<close> says whether there was one then.\<close>

definition handle_frame ::
  "net_env \<Rightarrow> bool \<Rightarrow> nat \<Rightarrow> bytes \<Rightarrow> NodeId option \<Rightarrow> P2PTransport \<Rightarrow> (outcome option \<times> NodeId option) \<times> P2PTransport" where
  "handle_frame env handler s b peer t =
     (case deserialize_any (ne_codecs env) (tp_serializer t) b of
        Inr (AnyTransport m) \<Rightarrow>
          (case m of
             THandshake i \<Rightarrow>
               let t1 = t \<lparr> tp_peers := hm_insert (ni_id i) i (tp_peers t),
                            tp_connections := hm_insert (ni_id i) s (tp_connections t) \<rparr>
               in (case serialize_any (ne_codecs env) (tp_serializer t1) (AnyTransport (THandshake (tp_local_node t1))) of
                     Inl _ \<Rightarrow> ((Some (Failed SerializationError), Some (ni_id i)), t1)
                   | Inr h \<Rightarrow>
                       (case write_frame env NetworkError s h t1 of
                          (Inr _, t2) \<Rightarrow> ((None, Some (ni_id i)), t2)
                        | (Inl _, t2) \<Rightarrow> ((Some Finished, Some (ni_id i)), t2)))
           | TEnvelope e \<Rightarrow>
               if handler then
                 ((None, peer), t \<lparr> tp_handled := tp_handled t @ [(case peer of Some n \<Rightarrow> n | None \<Rightarrow> me_sender_node e, m)] \<rparr>)
               else ((None, peer), t)
           | _ \<Rightarrow>
               (case peer of
                  Some n \<Rightarrow> if handler then ((None, peer), t \<lparr> tp_handled := tp_handled t @ [(n, m)] \<rparr>)
                            else ((None, peer), t)
                | None \<Rightarrow> ((None, peer), t)))
      | _ \<Rightarrow> ((None, peer), t))"

definition close_connection :: "NodeId option \<Rightarrow> P2PTransport \<Rightarrow> P2PTransport" where
  "close_connection peer t =
     (case peer of Some n \<Rightarrow> t \<lparr> tp_connections := hm_remove n (tp_connections t) \<rparr> | None \<Rightarrow> t)"

function read_loop ::
  "net_env \<Rightarrow> bool \<Rightarrow> nat \<Rightarrow> bytes \<Rightarrow> stream_end \<Rightarrow> NodeId option \<Rightarrow> P2PTransport \<Rightarrow> outcome \<times> P2PTransport" where
  "read_loop env handler s input fin peer t =
     (if length input < 4 then
        (if fin = ReadError then (Failed NetworkError, t) else (Finished, close_connection peer t))
      else
        let n = unat (from_be_bytes (take 4 input)); rest = drop 4 input
        in if length rest < n then
             (case fin of Eof \<Rightarrow> (Finished, close_connection peer t)
              | TimedOut \<Rightarrow> (Blocked, t)
              | ReadError \<Rightarrow> (Failed NetworkError, t))
           else
             (case handle_frame env handler s (take n rest) peer t of
                ((None, peer'), t1) \<Rightarrow> read_loop env handler s (drop n rest) fin peer' t1
              | ((Some Finished, peer'), t1) \<Rightarrow> (Finished, close_connection peer' t1)
              | ((Some r, peer'), t1) \<Rightarrow> (r, t1)))"
  by pat_completeness auto
termination
  by (relation "measure (\<lambda>(env, handler, s, input, fin, peer, t). length input)") auto

declare read_loop.simps [simp del]

definition handle_incoming :: "net_env \<Rightarrow> bool \<Rightarrow> nat \<Rightarrow> bytes \<Rightarrow> stream_end \<Rightarrow> P2PTransport \<Rightarrow> outcome \<times> P2PTransport" where
  "handle_incoming env handler s input fin t = read_loop env handler s input fin None t"

section \<open>What is written is read back\<close>

lemma read_loop_frame:
  assumes "length b < 2 ^ 32"
  shows "read_loop env handler s (frame b @ rest) fin peer t =
    (case handle_frame env handler s b peer t of
       ((None, peer'), t1) \<Rightarrow> read_loop env handler s rest fin peer' t1
     | ((Some Finished, peer'), t1) \<Rightarrow> (Finished, close_connection peer' t1)
     | ((Some r, peer'), t1) \<Rightarrow> (r, t1))"
proof -
  have "unat (of_nat (length b) :: u32) = length b" using assms by (simp add: unat_of_nat take_bit_nat_eq_self)
  then show ?thesis by (subst read_loop.simps) (simp add: frame_def split: prod.split option.split outcome.split)
qed

definition stream_bytes :: "nat \<Rightarrow> P2PTransport \<Rightarrow> bytes" where
  "stream_bytes s t = concat (map snd (filter (\<lambda>w. fst w = s) (tp_written t)))"

definition sendable :: "codecs \<Rightarrow> serializer \<Rightarrow> TransportMessage \<Rightarrow> bool" where
  "sendable cs ser m =
     (unconfused cs ser m \<and> (case serialize_any cs ser (AnyTransport m) of Inr b \<Rightarrow> length b < 2 ^ 32 | Inl _ \<Rightarrow> True))"

definition is_handshake :: "TransportMessage \<Rightarrow> bool" where
  "is_handshake m = (case m of THandshake _ \<Rightarrow> True | _ \<Rightarrow> False)"

fun send_all :: "net_env \<Rightarrow> NodeId \<Rightarrow> TransportMessage list \<Rightarrow> P2PTransport \<Rightarrow> (ClusterError + unit) \<times> P2PTransport" where
  "send_all env n [] t = (Inr (), t)"
| "send_all env n (m # ms) t =
     (case send_message env n m t of (Inl e, t1) \<Rightarrow> (Inl e, t1) | (Inr _, t1) \<Rightarrow> send_all env n ms t1)"

lemma write_frame_ok:
  "write_frame env err s b t = (Inr (), t') \<Longrightarrow>
   t' = t \<lparr> tp_written := tp_written t @ [(s, to_be_bytes (of_nat (length b))), (s, b)] \<rparr>"
  by (auto simp: write_frame_def Let_def split: if_splits)

lemma write_frame_bytes:
  "write_frame env err s b t = (Inr (), t') \<Longrightarrow> stream_bytes s t' = stream_bytes s t @ frame b"
  by (auto dest!: write_frame_ok simp: stream_bytes_def frame_def)

lemma send_message_ok:
  assumes "send_message env n m t = (Inr (), t')"
  obtains s b where "hm_get (tp_connections t) n = Some s" "serialize_any (ne_codecs env) (tp_serializer t) (AnyTransport m) = Inr b"
    "stream_bytes s t' = stream_bytes s t @ frame b" "tp_connections t' = tp_connections t" "tp_serializer t' = tp_serializer t"
proof -
  obtain s b where sb: "hm_get (tp_connections t) n = Some s"
    "serialize_any (ne_codecs env) (tp_serializer t) (AnyTransport m) = Inr b" "write_frame env NetworkError s b t = (Inr (), t')"
    using assms by (auto simp: send_message_def split: option.splits sum.splits)
  then show thesis using that [OF sb(1,2) write_frame_bytes [OF sb(3)]] write_frame_ok [OF sb(3)] by simp
qed

lemma send_all_bytes:
  "send_all env n ms t = (Inr (), t') \<Longrightarrow> hm_get (tp_connections t) n = Some s \<Longrightarrow>
   \<exists>bs. list_all2 (\<lambda>m b. serialize_any (ne_codecs env) (tp_serializer t) (AnyTransport m) = Inr b) ms bs
      \<and> stream_bytes s t' = stream_bytes s t @ concat (map frame bs)"
proof (induction ms arbitrary: t)
  case (Cons m ms)
  then obtain t1 where m: "send_message env n m t = (Inr (), t1)" and ms: "send_all env n ms t1 = (Inr (), t')"
    by (auto split: prod.splits sum.splits)
  from m obtain s' b where sb: "hm_get (tp_connections t) n = Some s'"
    "serialize_any (ne_codecs env) (tp_serializer t) (AnyTransport m) = Inr b" "stream_bytes s' t1 = stream_bytes s' t @ frame b"
    "tp_connections t1 = tp_connections t" "tp_serializer t1 = tp_serializer t"
    by (rule send_message_ok)
  from Cons.IH [OF ms] sb Cons.prems(2) obtain bs where
    "list_all2 (\<lambda>m b. serialize_any (ne_codecs env) (tp_serializer t) (AnyTransport m) = Inr b) ms bs"
    "stream_bytes s t' = stream_bytes s t1 @ concat (map frame bs)"
    by auto
  with sb Cons.prems(2) show ?case by (intro exI [of _ "b # bs"]) simp
qed simp

lemma handle_frame_forward:
  assumes "codecs_ok (ne_codecs env)" and "sendable (ne_codecs env) (tp_serializer t) m" and "\<not> is_handshake m"
    and "\<not> uses_proto (tp_serializer t)" and "serialize_any (ne_codecs env) (tp_serializer t) (AnyTransport m) = Inr b"
  shows "handle_frame env True s b (Some n) t = ((None, Some n), t \<lparr> tp_handled := tp_handled t @ [(n, m)] \<rparr>)"
proof -
  have "deserialize_any (ne_codecs env) (tp_serializer t) b = Inr (AnyTransport m)"
    using serialize_any_round_trip [OF assms(1) _ assms(5)] assms(2,4) by (simp add: sendable_def)
  then show ?thesis using assms(3) by (auto simp: handle_frame_def is_handshake_def split: TransportMessage.splits)
qed

lemma read_frames:
  assumes "codecs_ok (ne_codecs env)" and "\<not> uses_proto ser"
    and "list_all2 (\<lambda>m b. serialize_any (ne_codecs env) ser (AnyTransport m) = Inr b) ms bs"
    and "list_all (sendable (ne_codecs env) ser) ms" and "list_all (\<lambda>m. \<not> is_handshake m) ms" and "tp_serializer t = ser"
  shows "read_loop env True s (concat (map frame bs) @ rest) fin (Some n) t =
      read_loop env True s rest fin (Some n) (t \<lparr> tp_handled := tp_handled t @ map (Pair n) ms \<rparr>)"
  using assms(3-6)
proof (induction ms bs arbitrary: t rule: list_all2_induct)
  case (Cons m ms b bs)
  have l: "length b < 2 ^ 32" using Cons.hyps(1) Cons.prems by (simp add: sendable_def)
  have "handle_frame env True s b (Some n) t = ((None, Some n), t \<lparr> tp_handled := tp_handled t @ [(n, m)] \<rparr>)"
    using handle_frame_forward [OF assms(1)] assms(2) Cons by simp
  then show ?case
    using Cons.IH [of "t \<lparr> tp_handled := tp_handled t @ [(n, m)] \<rparr>"] Cons.prems by (simp add: read_loop_frame [OF l])
qed simp

lemma connect_handshake:
  assumes "connect_to_peer env addr t = (Inr (), t')" and "ne_connect env addr = Some s"
  shows "\<exists>h. serialize_any (ne_codecs env) (tp_serializer t) (AnyTransport (THandshake (tp_local_node t))) = Inr h
     \<and> stream_bytes s t' = stream_bytes s t @ frame h \<and> tp_serializer t' = tp_serializer t \<and> tp_local_node t' = tp_local_node t"
proof -
  obtain h t1 where h: "serialize_any (ne_codecs env) (tp_serializer t) (AnyTransport (THandshake (tp_local_node t))) = Inr h"
    and w: "write_frame env NetworkError s h t = (Inr (), t1)"
    and t': "\<exists>n. t' = t1 \<lparr> tp_connections := hm_insert n s (tp_connections t1) \<rparr>"
    using assms by (auto simp: connect_to_peer_def handle_new_connection_def Let_def split: sum.splits prod.splits)
  from w have "stream_bytes s t1 = stream_bytes s t @ frame h" "tp_serializer t1 = tp_serializer t" "tp_local_node t1 = tp_local_node t"
    by (auto simp: write_frame_bytes dest: write_frame_ok)
  with h t' show ?thesis by (auto simp: stream_bytes_def)
qed

lemma handle_frame_handshake:
  assumes "codecs_ok (ne_codecs env)" and "unconfused (ne_codecs env) (tp_serializer t) (THandshake i)" and "\<not> uses_proto (tp_serializer t)"
    and "serialize_any (ne_codecs env) (tp_serializer t) (AnyTransport (THandshake i)) = Inr h"
    and "serialize_any (ne_codecs env) (tp_serializer t) (AnyTransport (THandshake (tp_local_node t))) = Inr h'"
    and "ne_write env s = (\<lambda>_. True)"
  shows "\<exists>ws. handle_frame env handler s h peer t =
    ((None, Some (ni_id i)), t \<lparr> tp_peers := hm_insert (ni_id i) i (tp_peers t), tp_connections := hm_insert (ni_id i) s (tp_connections t),
       tp_written := ws \<rparr>)"
proof -
  have "deserialize_any (ne_codecs env) (tp_serializer t) h = Inr (AnyTransport (THandshake i))"
    using serialize_any_round_trip [OF assms(1,2,4)] assms(3) by simp
  then show ?thesis using assms(5,6) by (auto simp: handle_frame_def write_frame_def Let_def)
qed



definition sample_node :: "NodeId \<Rightarrow> NodeInfo" where
  "sample_node i = NodeInfo_new i ''node'' Peer (if i = 1 then ''a'' else ''b'')"

definition tiny_wire :: wire_codecs where
  "tiny_wire = sample_wire \<lparr> wc_transport :=
     (\<lambda>m. case m of TClose \<Rightarrow> Some [3] | THandshake i \<Rightarrow> if i = sample_node 1 then Some [1] else if i = sample_node 2 then Some [2] else None
        | _ \<Rightarrow> None,
      \<lambda>b. if b = [1] then Some (THandshake (sample_node 1)) else if b = [2] then Some (THandshake (sample_node 2))
          else if b = [3] then Some TClose else None) \<rparr>"

definition tiny_env :: net_env where
  "tiny_env =
     \<lparr> ne_codecs = sample_codecs \<lparr> cd_bincode := tiny_wire \<rparr>, ne_connect = (\<lambda>_. Some 7), ne_write = (\<lambda>_ _. True), ne_fresh_id = 9, ne_wall = 0 \<rparr>"

definition zero_counters :: compression_counters where
  "zero_counters =
     \<lparr> ct_total_messages = 0, ct_compressed_messages = 0, ct_total_bytes_before = 0, ct_total_bytes_after = 0,
       ct_max_compression_ratio = 0, ct_skipped_small_messages = 0, ct_skipped_ineffective = 0 \<rparr>"

definition tiny_transport :: "NodeId \<Rightarrow> P2PTransport" where
  "tiny_transport i = P2PTransport_new (sample_node i) Bincode zero_counters \<lparr> tp_peers := [(3 - i, sample_node (3 - i))] \<rparr>"

lemmas tiny_defs =
  sample_node_def tiny_wire_def tiny_env_def tiny_transport_def P2PTransport_new_def sample_wire_def sample_codecs_def NodeInfo_new_def

lemma tiny_codecs_ok: "codecs_ok (ne_codecs tiny_env)"
  by (auto simp: codecs_ok_def tiny_env_def sample_codecs_def wire_ok_def tiny_wire_def sample_wire_def codec_ok_def
      split: TransportMessage.splits if_splits)


section \<open>Reconnecting and compression\<close>

text \<open>Reconnecting reaches every known peer that accepts, and counts them.\<close>

lemma reconnect_each_connects:
  assumes "\<And>a. ne_connect env a \<noteq> None" and "set ns \<subseteq> dom (hm_get (tp_peers t))"
  shows "case reconnect_each env ns k t of (k', t') \<Rightarrow> k' = k + length ns \<and> tp_peers t' = tp_peers t
     \<and> (\<forall>n. is_connected t' n \<longleftrightarrow> n \<in> set ns \<or> is_connected t n)"
  using assms(2)
proof (induction ns arbitrary: k t)
  case (Cons n ns)
  obtain peer s where "hm_get (tp_peers t) n = Some peer" "ne_connect env (ni_addr peer) = Some s"
    using Cons.prems assms(1) by fastforce
  then obtain t1 where t1: "reconnect_to_peer env n t = (Inr True, t1)" "tp_peers t1 = tp_peers t"
    "\<forall>m. is_connected t1 m \<longleftrightarrow> m = n \<or> is_connected t m"
    by (cases "is_connected t n") (auto simp: reconnect_to_peer_def is_connected_def)
  then show ?case using Cons.IH [of t1 "Suc k"] Cons.prems by auto
qed simp

theorem reconnect_reaches_all:
  assumes "\<And>a. ne_connect env a \<noteq> None" and "reconnect_to_all_disconnected_peers env t = (r, t')"
  shows "r = Inr (length (disconnected_peers t))
     \<and> (\<forall>n. hm_contains (tp_peers t) n \<and> n \<noteq> ni_id (tp_local_node t) \<longrightarrow> is_connected t' n)"
proof -
  have "set (disconnected_peers t) \<subseteq> dom (hm_get (tp_peers t))"
    by (auto simp: disconnected_peers_def dom_map_of_conv_image_fst)
  from reconnect_each_connects [OF assms(1) this, of 0] assms(2)
  have "r = Inr (length (disconnected_peers t))" "\<forall>n. is_connected t' n \<longleftrightarrow> n \<in> set (disconnected_peers t) \<or> is_connected t n"
    by (auto simp: reconnect_to_all_disconnected_peers_def split: prod.splits)
  then show ?thesis by (force simp: disconnected_peers_def is_connected_def dest: map_of_SomeD)
qed

text \<open>
  With a compression configuration \<^verbatim>\<open>send_envelope\<close> compresses the whole encoded message, and nothing on the wire says so. The receiver decodes the
  bytes as they are: unless its serializer happens to read them, the message is dropped without an error on either side.
\<close>

theorem compressed_envelope_lost:
  assumes "hm_get (tp_connections ta) (me_target_node e) = Some s" and "tp_compression_config ta = Some cfg"
    and "fst (wc_transport (cd_bincode (ne_codecs env))) (TEnvelope e) = Some d"
    and "fst (auto_compress (ne_codecs env) d cfg (tp_counters ta)) = Inr (z, True)"
    and "length z < 2 ^ 32" and "ne_write env s = (\<lambda>_. True)" and "codecs_ok (ne_codecs env)"
    and "deserialize_any (ne_codecs env) (tp_serializer tb) z = Inl err"
  shows "\<exists>ta'. send_envelope env e ta = (Inr (), ta') \<and> stream_bytes s ta' = stream_bytes s ta @ frame z
     \<and> read_loop env handler s' (frame z @ rest) fin peer tb = read_loop env handler s' rest fin peer tb"
proof -
  have "should_compress cfg (length d)" using auto_compress_round_trip [OF assms(7,4)] by simp
  then have "compress_frame env d ta = (z, ta \<lparr> tp_counters := snd (auto_compress (ne_codecs env) d cfg (tp_counters ta)) \<rparr>)"
    using assms(2,4) by (simp add: compress_frame_def Let_def split_beta)
  then have "send_envelope env e ta = write_frame env MessageSendFailed s z (ta \<lparr> tp_counters := snd (auto_compress (ne_codecs env) d cfg (tp_counters ta)) \<rparr>)"
    using assms(1,3) by (simp add: send_envelope_def ensure_connection_def)
  moreover have "write_frame env MessageSendFailed s z t = (Inr (), t \<lparr> tp_written := tp_written t @ [(s, to_be_bytes (of_nat (length z))), (s, z)] \<rparr>)" for t
    using assms(6) by (simp add: write_frame_def Let_def)
  moreover have "read_loop env handler s' (frame z @ rest) fin peer tb = read_loop env handler s' rest fin peer tb"
    using assms(8) by (simp add: read_loop_frame [OF assms(5)] handle_frame_def)
  ultimately show ?thesis by (simp add: stream_bytes_def frame_def)
qed

end
