(* ===== verification/Actor_Registry.thy ===== *)
theory Actor_Registry
  imports Transport "HOL-Library.Char_ord" "HOL-Library.List_Lexorder" "HOL-Library.Product_Lexorder"
begin

text \<open>
  The registry of actors (\<^verbatim>\<open>registry.rs\<close>): local and remote actors by path, a cache of recent lookups, and the discovery of
  actors on other nodes; and the dispatch of received messages, which calls the registry (\<^verbatim>\<open>handle_message\<close> of \<^verbatim>\<open>transport.rs\<close>).
  The registry and the transport refer to each other through shared pointers; here operations that use both take both. An operation runs as one step. Times
  are in nanoseconds; \<open>clean\<close> is the coin that decides whether a lookup first cleans the cache. Clients that wait for a discovery are
  numbers, and what they are sent is recorded in \<open>ar_answers\<close>. \<^verbatim>\<open>discover_actor\<close> waits for up to three seconds in the middle, so it is
  two operations: \<open>discover_begin\<close> up to the wait and \<open>discover_end\<close> after it.

  The lemmas show that the cache is sound and bounded: a lookup never answers an actor that is not registered, and finds one that is.
\<close>

section \<open>State\<close>

datatype 'a ActorRef = LocalActorRef 'a string | RemoteActorRef NodeId string DeliveryGuarantee

record 'a ActorRegistry =
  ar_local_node_id :: NodeId
  ar_local_actors :: "(string, 'a ActorRef) hashmap"
  ar_remote_actors :: "(ActorPath, NodeId) hashmap"
  ar_transport :: bool
  ar_pending_discoveries :: "(string, nat list) hashmap"
  ar_lookup_cache :: "(string, 'a ActorRef \<times> int) hashmap"
  ar_cache_ttl :: u64
  ar_cache_hits :: u64
  ar_cache_misses :: u64
  ar_max_cache_size :: nat
  ar_cache_enabled :: bool
  ar_answers :: "(nat \<times> 'a ActorRef option) list"

definition ActorRegistry_new :: "NodeId \<Rightarrow> 'a ActorRegistry" where
  "ActorRegistry_new n =
     \<lparr> ar_local_node_id = n, ar_local_actors = [], ar_remote_actors = [], ar_transport = False, ar_pending_discoveries = [],
       ar_lookup_cache = [], ar_cache_ttl = 60, ar_cache_hits = 0, ar_cache_misses = 0, ar_max_cache_size = 1000,
       ar_cache_enabled = True, ar_answers = [] \<rparr>"

definition set_transport :: "'a ActorRegistry \<Rightarrow> 'a ActorRegistry" where
  "set_transport g = g \<lparr> ar_transport := True \<rparr>"

section \<open>The cache\<close>

definition set_cache_ttl :: "u64 \<Rightarrow> 'a ActorRegistry \<Rightarrow> 'a ActorRegistry" where
  "set_cache_ttl ttl g = g \<lparr> ar_cache_ttl := ttl \<rparr>"

definition set_max_cache_size :: "nat \<Rightarrow> 'a ActorRegistry \<Rightarrow> 'a ActorRegistry" where
  "set_max_cache_size m g =
     (let g1 = g \<lparr> ar_max_cache_size := m \<rparr>
      in if 0 < m \<and> m < length (ar_lookup_cache g1)
         then g1 \<lparr> ar_lookup_cache := foldl (\<lambda>c (p, e). hm_insert p e c) [] (take m (sort_key (\<lambda>(p, r, ts). ts) (ar_lookup_cache g1))) \<rparr>
         else g1)"

definition enable_cache :: "'a ActorRegistry \<Rightarrow> 'a ActorRegistry" where
  "enable_cache g = g \<lparr> ar_cache_enabled := True \<rparr>"

definition disable_cache :: "'a ActorRegistry \<Rightarrow> 'a ActorRegistry" where
  "disable_cache g = g \<lparr> ar_cache_enabled := False, ar_lookup_cache := [] \<rparr>"

definition cache_stats :: "'a ActorRegistry \<Rightarrow> nat \<times> u64 \<times> u64" where
  "cache_stats g = (length (ar_lookup_cache g), ar_cache_hits g, ar_cache_misses g)"

definition clear_cache :: "'a ActorRegistry \<Rightarrow> 'a ActorRegistry" where
  "clear_cache g = g \<lparr> ar_lookup_cache := [], ar_cache_hits := 0, ar_cache_misses := 0 \<rparr>"

definition fresh_entry :: "int \<Rightarrow> 'a ActorRegistry \<Rightarrow> int \<Rightarrow> bool" where
  "fresh_entry now g ts = (max 0 (now - ts) < int (unat (ar_cache_ttl g)) * 1000000000)"

definition clean_cache :: "int \<Rightarrow> 'a ActorRegistry \<Rightarrow> 'a ActorRegistry" where
  "clean_cache now g = g \<lparr> ar_lookup_cache := filter (\<lambda>(p, r, ts). fresh_entry now g ts) (ar_lookup_cache g) \<rparr>"

fun oldest_key :: "('k \<times> 'v \<times> int) list \<Rightarrow> ('k \<times> int) option" where
  "oldest_key [] = None"
| "oldest_key ((k, v, ts) # c) =
     (case oldest_key c of Some (k', ts') \<Rightarrow> if ts' < ts then Some (k', ts') else Some (k, ts) | None \<Rightarrow> Some (k, ts))"

definition cache_insert :: "int \<Rightarrow> string \<Rightarrow> 'a ActorRef \<Rightarrow> 'a ActorRegistry \<Rightarrow> 'a ActorRegistry" where
  "cache_insert now p r g =
     (let c = ar_lookup_cache g;
          c1 = (if 0 < ar_max_cache_size g \<and> ar_max_cache_size g \<le> length c
                then (case oldest_key c of Some (k, _) \<Rightarrow> hm_remove k c | None \<Rightarrow> c) else c)
      in g \<lparr> ar_lookup_cache := hm_insert p (r, now) c1 \<rparr>)"

section \<open>Registering\<close>

definition register_local :: "string \<Rightarrow> 'a ActorRef \<Rightarrow> 'a ActorRegistry \<Rightarrow> (ClusterError + unit) \<times> 'a ActorRegistry" where
  "register_local p r g =
     (if hm_contains (ar_local_actors g) p then (Inl (ActorAlreadyRegistered p), g)
      else (Inr (), g \<lparr> ar_local_actors := hm_insert p r (ar_local_actors g), ar_lookup_cache := hm_remove p (ar_lookup_cache g) \<rparr>))"

definition register_remote :: "ActorPath \<Rightarrow> NodeId \<Rightarrow> 'a ActorRegistry \<Rightarrow> (ClusterError + unit) \<times> 'a ActorRegistry" where
  "register_remote a n g =
     (Inr (), g \<lparr> ar_remote_actors := hm_insert a n (ar_remote_actors g),
                  ar_lookup_cache := hm_remove (ap_path a) (ar_lookup_cache g) \<rparr>)"

definition deregister_local :: "string \<Rightarrow> 'a ActorRegistry \<Rightarrow> (ClusterError + unit) \<times> 'a ActorRegistry" where
  "deregister_local p g =
     (if \<not> hm_contains (ar_local_actors g) p then (Inl (ActorNotFound p), g)
      else (Inr (), g \<lparr> ar_local_actors := hm_remove p (ar_local_actors g), ar_lookup_cache := hm_remove p (ar_lookup_cache g) \<rparr>))"

definition deregister_remote :: "ActorPath \<Rightarrow> 'a ActorRegistry \<Rightarrow> (ClusterError + unit) \<times> 'a ActorRegistry" where
  "deregister_remote a g =
     (if \<not> hm_contains (ar_remote_actors g) a then (Inl (ActorNotFound (ap_path a)), g)
      else (Inr (), g \<lparr> ar_remote_actors := hm_remove a (ar_remote_actors g),
                        ar_lookup_cache := hm_remove (ap_path a) (ar_lookup_cache g) \<rparr>))"

section \<open>Looking up\<close>

definition remote_found :: "int \<Rightarrow> P2PTransport \<Rightarrow> string \<Rightarrow> NodeId \<Rightarrow> 'a ActorRegistry \<Rightarrow> 'a ActorRef option \<times> 'a ActorRegistry" where
  "remote_found now t p n g =
     (if \<not> tp_started t then (None, g)
      else let r = RemoteActorRef n p AtLeastOnce
           in (Some r, if ar_cache_enabled g then cache_insert now p r g else g))"

definition lookup_by_path :: "int \<Rightarrow> P2PTransport \<Rightarrow> string \<Rightarrow> 'a ActorRegistry \<Rightarrow> 'a ActorRef option \<times> 'a ActorRegistry" where
  "lookup_by_path now t p g =
     (case find (\<lambda>(a, n). ap_path a = p) (ar_remote_actors g) of
        Some (a, n) \<Rightarrow> if ar_transport g then remote_found now t p n g else (None, g)
      | None \<Rightarrow> (None, g))"

definition lookup_registered :: "int \<Rightarrow> P2PTransport \<Rightarrow> string \<Rightarrow> 'a ActorRegistry \<Rightarrow> 'a ActorRef option \<times> 'a ActorRegistry" where
  "lookup_registered now t p g =
     (case hm_get (ar_local_actors g) p of
        Some r \<Rightarrow> (Some r, if ar_cache_enabled g then cache_insert now p r g else g)
      | None \<Rightarrow>
          (case hm_get (ar_remote_actors g) (ActorPath_new (ar_local_node_id g) p) of
             Some n \<Rightarrow> if ar_transport g then remote_found now t p n g else lookup_by_path now t p g
           | None \<Rightarrow> lookup_by_path now t p g))"

definition lookup :: "bool \<Rightarrow> int \<Rightarrow> P2PTransport \<Rightarrow> string \<Rightarrow> 'a ActorRegistry \<Rightarrow> 'a ActorRef option \<times> 'a ActorRegistry" where
  "lookup clean now t p g =
     (if ar_cache_enabled g then
        let g1 = (if clean then clean_cache now g else g)
        in (case hm_get (ar_lookup_cache g1) p of
              Some (r, ts) \<Rightarrow>
                if fresh_entry now g1 ts then (Some r, g1 \<lparr> ar_cache_hits := ar_cache_hits g1 + 1 \<rparr>)
                else lookup_registered now t p (g1 \<lparr> ar_cache_misses := ar_cache_misses g1 + 1 \<rparr>)
            | None \<Rightarrow> lookup_registered now t p (g1 \<lparr> ar_cache_misses := ar_cache_misses g1 + 1 \<rparr>))
      else lookup_registered now t p g)"

definition get_local_actors :: "'a ActorRegistry \<Rightarrow> string list" where
  "get_local_actors g = hm_keys (ar_local_actors g)"

definition get_remote_actors :: "'a ActorRegistry \<Rightarrow> ActorPath list" where
  "get_remote_actors g = hm_keys (ar_remote_actors g)"

section \<open>Discovery\<close>

datatype 'a discovery = Found "'a ActorRef" | GivesUp | Waits "NodeId list"

definition external_peers :: "net_env \<Rightarrow> P2PTransport \<Rightarrow> 'a ActorRegistry \<Rightarrow> NodeInfo list" where
  "external_peers env t g =
     sort_key (\<lambda>i. (\<not> is_connected t (ni_id i), cd_uuid_show (ne_codecs env) (ni_id i)))
       (filter (\<lambda>i. ni_id i \<noteq> ar_local_node_id g) (get_peers t))"

fun send_requests ::
  "net_env \<Rightarrow> TransportMessage \<Rightarrow> nat \<Rightarrow> NodeInfo list \<Rightarrow> NodeId list \<Rightarrow> P2PTransport \<Rightarrow> NodeId list \<times> P2PTransport" where
  "send_requests env m n_peers [] sent t = (sent, t)"
| "send_requests env m n_peers (i # is) sent t =
     (case send_message env (ni_id i) m t of
        (Inl _, t1) \<Rightarrow> send_requests env m n_peers is sent t1
      | (Inr _, t1) \<Rightarrow>
          let sent' = sent @ [ni_id i]
          in if 3 \<le> length sent' \<or> n_peers \<le> length sent' then (sent', t1) else send_requests env m n_peers is sent' t1)"

definition discover_begin ::
  "net_env \<Rightarrow> bool \<Rightarrow> int \<Rightarrow> nat \<Rightarrow> string \<Rightarrow> P2PTransport \<Rightarrow> 'a ActorRegistry \<Rightarrow> 'a discovery \<times> P2PTransport \<times> 'a ActorRegistry" where
  "discover_begin env clean now client p t g =
     (case lookup clean now t p g of
        (Some r, g1) \<Rightarrow> (Found r, t, g1)
      | (None, g1) \<Rightarrow>
          if \<not> ar_transport g1 then (GivesUp, t, g1)
          else
            let waiting = (case hm_get (ar_pending_discoveries g1) p of Some cs \<Rightarrow> cs | None \<Rightarrow> []);
                g2 = g1 \<lparr> ar_pending_discoveries := hm_insert p (waiting @ [client]) (ar_pending_discoveries g1) \<rparr>;
                peers = external_peers env t g2;
                gave_up = g2 \<lparr> ar_pending_discoveries := hm_remove p (ar_pending_discoveries g2) \<rparr>
            in if peers = [] then (GivesUp, t, gave_up)
               else let (sent, t1) = send_requests env (TActorDiscoveryRequest (ar_local_node_id g2) p) (length peers) peers [] t
                    in if sent = [] then (GivesUp, t1, gave_up) else (Waits sent, t1, g2))"

datatype 'a wait_result = Answered "'a ActorRef option" | Closed | TimedOutWaiting

definition discover_end ::
  "(nat \<Rightarrow> bool) \<Rightarrow> 'a wait_result \<Rightarrow> string \<Rightarrow> 'a ActorRegistry \<Rightarrow> 'a ActorRef option \<times> 'a ActorRegistry" where
  "discover_end is_closed w p g =
     (case w of
        Answered r \<Rightarrow> (r, g)
      | Closed \<Rightarrow> (None, g \<lparr> ar_pending_discoveries := hm_remove p (ar_pending_discoveries g) \<rparr>)
      | TimedOutWaiting \<Rightarrow>
          (None,
           case hm_get (ar_pending_discoveries g) p of
             Some cs \<Rightarrow>
               (let cs' = filter (\<lambda>c. \<not> is_closed c) cs
                in g \<lparr> ar_pending_discoveries :=
                         (if cs' = [] then hm_remove p (ar_pending_discoveries g) else hm_insert p cs' (ar_pending_discoveries g)) \<rparr>)
           | None \<Rightarrow> g))"

definition handle_discovery_request ::
  "net_env \<Rightarrow> NodeId \<Rightarrow> string \<Rightarrow> 'a ActorRegistry \<Rightarrow> P2PTransport \<Rightarrow> (ClusterError + unit) \<times> P2PTransport" where
  "handle_discovery_request env sender p g t =
     (if hm_contains (ar_local_actors g) p \<and> ar_transport g
      then send_message env sender (TActorDiscoveryResponse p [ar_local_node_id g]) t
      else (Inr (), t))"

definition handle_discovery_response ::
  "string \<Rightarrow> NodeId list \<Rightarrow> 'a ActorRegistry \<Rightarrow> 'a ActorRef option \<times> 'a ActorRegistry" where
  "handle_discovery_response p locations g =
     (case hm_get (ar_pending_discoveries g) p of
        None \<Rightarrow> (None, g)
      | Some clients \<Rightarrow>
          let g1 = g \<lparr> ar_pending_discoveries := hm_remove p (ar_pending_discoveries g) \<rparr>
          in if \<not> ar_transport g1 then (None, g1)
             else (case locations of
                     [] \<Rightarrow> (None, g1)
                   | n # _ \<Rightarrow>
                       let r = RemoteActorRef n p AtLeastOnce
                       in (Some r, g1 \<lparr> ar_answers := ar_answers g1 @ map (\<lambda>c. (c, Some r)) clients,
                                       ar_remote_actors := hm_insert (ActorPath_new n p) n (ar_remote_actors g1) \<rparr>)))"

section \<open>The registry actor\<close>

record 'a RegistryActor =
  ra_registry :: "'a ActorRegistry option"

definition handle_RegisterLocal :: "string \<Rightarrow> 'a ActorRef \<Rightarrow> 'a RegistryActor \<Rightarrow> (ClusterError + unit) \<times> 'a RegistryActor" where
  "handle_RegisterLocal p r a =
     (case ra_registry a of
        Some g \<Rightarrow> let (x, g') = register_local p r g in (x, a \<lparr> ra_registry := Some g' \<rparr>)
      | None \<Rightarrow> (Inl RegistryNotInitialized, a))"

definition handle_RegisterRemote :: "ActorPath \<Rightarrow> NodeId \<Rightarrow> 'a RegistryActor \<Rightarrow> (ClusterError + unit) \<times> 'a RegistryActor" where
  "handle_RegisterRemote p n a =
     (case ra_registry a of
        Some g \<Rightarrow> let (x, g') = register_remote p n g in (x, a \<lparr> ra_registry := Some g' \<rparr>)
      | None \<Rightarrow> (Inl RegistryNotInitialized, a))"

definition handle_Lookup :: "bool \<Rightarrow> int \<Rightarrow> P2PTransport \<Rightarrow> string \<Rightarrow> 'a RegistryActor \<Rightarrow> 'a ActorRef option \<times> 'a RegistryActor" where
  "handle_Lookup clean now t p a =
     (case ra_registry a of
        Some g \<Rightarrow> let (x, g') = lookup clean now t p g in (x, a \<lparr> ra_registry := Some g' \<rparr>)
      | None \<Rightarrow> (None, a))"

definition handle_UpdateRegistry :: "'a ActorRegistry \<Rightarrow> 'a RegistryActor \<Rightarrow> 'a RegistryActor" where
  "handle_UpdateRegistry g a = a \<lparr> ra_registry := Some g \<rparr>"

section \<open>Dispatch of received messages\<close>

definition handle_envelope :: "net_env \<Rightarrow> Uuid \<Rightarrow> MessageEnvelope \<Rightarrow> P2PTransport \<Rightarrow> (ClusterError + unit) \<times> P2PTransport" where
  "handle_envelope env uid e t =
     (if me_message_type e = Pong then (Inr (), t)
      else
        let (r, t1) = (if me_delivery_guarantee e \<noteq> AtMostOnce then send_envelope env (create_ack uid (ne_wall env) e) t else (Inr (), t))
        in (case r of
              Inl err \<Rightarrow> (Inl err, t1)
            | Inr _ \<Rightarrow>
                (Inr (), if tp_message_handler t1 then t1 \<lparr> tp_handled := tp_handled t1 @ [(me_sender_node e, TEnvelope e)] \<rparr> else t1)))"

definition handle_handshake :: "net_env \<Rightarrow> NodeInfo \<Rightarrow> P2PTransport \<Rightarrow> (ClusterError + unit) \<times> P2PTransport" where
  "handle_handshake env i t =
     (let t1 = t \<lparr> tp_peers := hm_insert (ni_id i) i (tp_peers t) \<rparr>
      in (case ne_connect env (ni_addr i) of
            None \<Rightarrow> (Inl NetworkError, t1)
          | Some s \<Rightarrow>
              let t2 = t1 \<lparr> tp_connections := hm_insert (ni_id i) s (tp_connections t1) \<rparr>
              in (case serialize_any (ne_codecs env) (tp_serializer t2) (AnyTransport (THandshake (tp_local_node t2))) of
                    Inl e \<Rightarrow> (Inl e, t2)
                  | Inr b \<Rightarrow>
                      (case write_frame env NetworkError s b t2 of
                         (Inl e, t3) \<Rightarrow> (Inl e, t3)
                       | (Inr _, t3) \<Rightarrow> if is_connected t3 (ni_id i) then (Inr (), t3) else (Inl ConnectionFailed, t3)))))"

definition handle_message ::
  "net_env \<Rightarrow> Uuid \<Rightarrow> TransportMessage \<Rightarrow> P2PTransport \<times> 'a ActorRegistry \<Rightarrow> (ClusterError + unit) \<times> P2PTransport \<times> 'a ActorRegistry" where
  "handle_message env uid m tg =
     (let (t, g) = tg
      in case m of
        THeartbeat i \<Rightarrow> (Inr (), t \<lparr> tp_peers := hm_insert (ni_id i) i (tp_peers t) \<rparr>, g)
      | TEnvelope e \<Rightarrow> (let (r, t1) = handle_envelope env uid e t in (r, t1, g))
      | TConsensus d \<Rightarrow>
          (Inr (), if tp_message_handler t then t \<lparr> tp_handled := tp_handled t @ [(ni_id (tp_local_node t), m)] \<rparr> else t, g)
      | THandshake i \<Rightarrow> (let (r, t1) = handle_handshake env i t in (r, t1, g))
      | TActorDiscoveryRequest sender p \<Rightarrow>
          (Inr (), if tp_registry_adapter t then snd (handle_discovery_request env sender p g t) else t, g)
      | TActorDiscoveryResponse p locations \<Rightarrow>
          (Inr (), t, if tp_registry_adapter t then snd (handle_discovery_response p locations g) else g)
      | _ \<Rightarrow> (Inr (), t, g))"

section \<open>The cache is sound and bounded\<close>

definition registered :: "'a ActorRegistry \<Rightarrow> string \<Rightarrow> 'a ActorRef \<Rightarrow> bool" where
  "registered g p r =
     (case hm_get (ar_local_actors g) p of
        Some r' \<Rightarrow> r = r'
      | None \<Rightarrow> (\<exists>a n. hm_get (ar_remote_actors g) a = Some n \<and> ap_path a = p \<and> r = RemoteActorRef n p AtLeastOnce))"

definition findable :: "P2PTransport \<Rightarrow> 'a ActorRegistry \<Rightarrow> string \<Rightarrow> bool" where
  "findable t g p =
     (hm_contains (ar_local_actors g) p
      \<or> (ar_transport g \<and> tp_started t \<and> (\<exists>a. hm_contains (ar_remote_actors g) a \<and> ap_path a = p)))"

definition registry_ok :: "'a ActorRegistry \<Rightarrow> bool" where
  "registry_ok g =
     (hm_ok (ar_lookup_cache g)
      \<and> (\<forall>p r ts. hm_get (ar_lookup_cache g) p = Some (r, ts) \<longrightarrow> registered g p r)
      \<and> hm_ok (ar_remote_actors g) \<and> (\<forall>a n. hm_get (ar_remote_actors g) a = Some n \<longrightarrow> n = ap_node_id a)
      \<and> (0 < ar_max_cache_size g \<longrightarrow> length (ar_lookup_cache g) \<le> ar_max_cache_size g)
      \<and> (\<not> ar_cache_enabled g \<longrightarrow> ar_lookup_cache g = []))"

lemma oldest_key_mem: "oldest_key c = Some (k, ts) \<Longrightarrow> k \<in> fst ` set c"
  by (induction c arbitrary: k ts rule: oldest_key.induct) (force split: option.splits if_splits)+

lemma oldest_key_None: "oldest_key c = None \<longleftrightarrow> c = []"
  by (induction c rule: oldest_key.induct) (auto split: option.splits)

lemma oldest_key_least: "oldest_key c = Some (k, ts) \<Longrightarrow> (k', v, ts') \<in> set c \<Longrightarrow> ts \<le> ts'"
proof (induction c arbitrary: k ts rule: oldest_key.induct)
  case (2 x y z c)
  then show ?case
  proof (cases "oldest_key c")
    case None
    then show ?thesis using 2 by (simp add: oldest_key_None)
  next
    case (Some e)
    then show ?thesis using 2 by (cases e) (force split: if_splits)
  qed
qed simp

lemma cache_insert_fields [simp]:
  "ar_local_actors (cache_insert now p r g) = ar_local_actors g" "ar_remote_actors (cache_insert now p r g) = ar_remote_actors g"
  "ar_max_cache_size (cache_insert now p r g) = ar_max_cache_size g" "ar_cache_enabled (cache_insert now p r g) = ar_cache_enabled g"
  "ar_transport (cache_insert now p r g) = ar_transport g"
  by (simp_all add: cache_insert_def Let_def)

lemma registered_cong:
  "ar_local_actors g' = ar_local_actors g \<Longrightarrow> ar_remote_actors g' = ar_remote_actors g \<Longrightarrow> registered g' = registered g"
  by (auto simp: registered_def fun_eq_iff split: option.split)

lemma findable_cong:
  "ar_local_actors g' = ar_local_actors g \<Longrightarrow> ar_remote_actors g' = ar_remote_actors g \<Longrightarrow> ar_transport g' = ar_transport g \<Longrightarrow>
   findable t g' = findable t g"
  by (rule ext) (simp add: findable_def)

text \<open>A registry that differs in its counters only, or whose cache has lost entries, is as good as before.\<close>

lemma registry_ok_shrink:
  assumes "registry_ok g" and "ar_local_actors g' = ar_local_actors g" and "ar_remote_actors g' = ar_remote_actors g"
    and "ar_max_cache_size g' = ar_max_cache_size g" and "ar_cache_enabled g' = ar_cache_enabled g"
    and "hm_ok (ar_lookup_cache g')" and "\<And>e. e \<in> set (ar_lookup_cache g') \<Longrightarrow> e \<in> set (ar_lookup_cache g)"
    and "length (ar_lookup_cache g') \<le> length (ar_lookup_cache g)"
  shows "registry_ok g'"
proof -
  have "hm_ok (ar_lookup_cache g)" using assms(1) by (simp add: registry_ok_def)
  then have "hm_get (ar_lookup_cache g) p = Some e" if "hm_get (ar_lookup_cache g') p = Some e" for p e
    using assms(7) map_of_SomeD [OF that] by (simp add: hm_mem_get [symmetric])
  moreover have "ar_lookup_cache g' = []" if "ar_lookup_cache g = []" using assms(8) that by simp
  moreover have "registered g' = registered g" using assms(2,3) by (rule registered_cong)
  moreover have "length (ar_lookup_cache g') \<le> ar_max_cache_size g" if "0 < ar_max_cache_size g"
    using assms(1,8) that by (simp add: registry_ok_def)
  ultimately show ?thesis using assms(1,3-6) by (simp add: registry_ok_def)
qed

lemma cache_insert_bounded:
  assumes "hm_ok (ar_lookup_cache g)" and "0 < ar_max_cache_size g" and "length (ar_lookup_cache g) \<le> ar_max_cache_size g"
  shows "length (ar_lookup_cache (cache_insert now p r g)) \<le> ar_max_cache_size g"
proof (cases "ar_max_cache_size g \<le> length (ar_lookup_cache g)")
  case True
  then obtain k ts where k: "oldest_key (ar_lookup_cache g) = Some (k, ts)"
    using assms(2) by (cases "oldest_key (ar_lookup_cache g)") (auto simp: oldest_key_None)
  have "hm_contains (ar_lookup_cache g) k" using oldest_key_mem [OF k] by (metis map_of_eq_None_iff)
  then have "Suc (length (hm_remove k (ar_lookup_cache g))) = length (ar_lookup_cache g)"
    by (intro length_hm_remove assms(1))
  then have "Suc (length (hm_remove k (ar_lookup_cache g))) \<le> ar_max_cache_size g" using assms(3) by simp
  then have "length (hm_insert p (r, now) (hm_remove k (ar_lookup_cache g))) \<le> ar_max_cache_size g"
    by (rule le_trans [OF length_hm_insert_le])
  then show ?thesis using assms(2) True k by (simp add: cache_insert_def Let_def)
next
  case False
  then show ?thesis using length_hm_insert_le [of p "(r, now)" "ar_lookup_cache g"] by (simp add: cache_insert_def Let_def)
qed

lemma cache_insert_get:
  "hm_get (ar_lookup_cache (cache_insert now p r g)) q = Some e \<Longrightarrow> q = p \<and> e = (r, now) \<or> hm_get (ar_lookup_cache g) q = Some e"
  by (auto simp: cache_insert_def Let_def split: if_splits option.splits prod.splits)

lemma cache_insert_ok:
  assumes "registry_ok g" and "registered g p r" and "ar_cache_enabled g"
  shows "registry_ok (cache_insert now p r g)"
proof -
  have "hm_ok (ar_lookup_cache (cache_insert now p r g))"
    using assms(1) by (auto simp: registry_ok_def cache_insert_def Let_def split: option.split prod.split)
  moreover have "registered (cache_insert now p r g) = registered g" by (rule registered_cong) simp_all
  ultimately show ?thesis
    using assms cache_insert_bounded [of g now p r] by (auto simp: registry_ok_def dest!: cache_insert_get)
qed

lemma find_path: "hm_ok m \<Longrightarrow> find (\<lambda>(a, n). ap_path a = p) m = Some (a, n) \<Longrightarrow> hm_get m a = Some n \<and> ap_path a = p"
  by (drule find_Some_mem) (simp add: hm_mem_get)

lemma find_path_None: "hm_get m a = Some n \<Longrightarrow> find (\<lambda>(a, n). ap_path a = p) m = None \<Longrightarrow> ap_path a \<noteq> p"
  by (drule map_of_SomeD) (auto simp: find_None_iff)

text \<open>What a lookup does apart from the cache: it keeps the invariant, answers registered actors only and finds what it can reach.\<close>

definition lookup_spec :: "P2PTransport \<Rightarrow> string \<Rightarrow> 'a ActorRegistry \<Rightarrow> 'a ActorRef option \<times> 'a ActorRegistry \<Rightarrow> bool" where
  "lookup_spec t p g res =
     (registry_ok (snd res) \<and> ar_max_cache_size (snd res) = ar_max_cache_size g
      \<and> (\<forall>r. fst res = Some r \<longrightarrow> registered g p r) \<and> (findable t g p \<longrightarrow> fst res \<noteq> None))"

lemma remote_found_spec:
  assumes "registry_ok g" and "hm_get (ar_local_actors g) p = None" and "hm_get (ar_remote_actors g) a = Some n" and "ap_path a = p"
  shows "lookup_spec t p g (remote_found now t p n g)"
proof -
  have "registered g p (RemoteActorRef n p AtLeastOnce)" using assms(2-4) by (auto simp: registered_def)
  then show ?thesis using assms cache_insert_ok by (auto simp: lookup_spec_def remote_found_def findable_def Let_def)
qed

lemma lookup_registered_spec:
  assumes "registry_ok g"
  shows "lookup_spec t p g (lookup_registered now t p g)"
proof -
  have by_path: "lookup_spec t p g (lookup_by_path now t p g)" if "hm_get (ar_local_actors g) p = None"
  proof (cases "find (\<lambda>(a, n). ap_path a = p) (ar_remote_actors g)")
    case None
    then have "\<not> findable t g p" using find_path_None [of "ar_remote_actors g" _ _ p] that by (auto simp: findable_def)
    then show ?thesis using None assms by (simp add: lookup_spec_def lookup_by_path_def)
  next
    case (Some e)
    obtain a n where e: "e = (a, n)" by (cases e)
    have "hm_get (ar_remote_actors g) a = Some n" "ap_path a = p" using find_path [of "ar_remote_actors g" p a n] Some e assms by (auto simp: registry_ok_def)
    then show ?thesis
      using remote_found_spec [OF assms that, of a n t now] Some e assms that by (auto simp: lookup_by_path_def lookup_spec_def findable_def)
  qed
  show ?thesis
  proof (cases "hm_get (ar_local_actors g) p")
    case None
    then show ?thesis
      using by_path remote_found_spec [OF assms None, of "ActorPath_new (ar_local_node_id g) p"]
      by (auto simp: lookup_registered_def ActorPath_new_def split: option.split)
  next
    case (Some r)
    then have "registered g p r" by (simp add: registered_def)
    then show ?thesis using cache_insert_ok [OF assms] Some assms by (auto simp: lookup_registered_def lookup_spec_def registered_def)
  qed
qed

lemma clean_cache_ok:
  assumes "registry_ok g"
  shows "registry_ok (clean_cache now g)" and "registered (clean_cache now g) = registered g" and "findable t (clean_cache now g) = findable t g"
proof -
  let ?c = "filter (\<lambda>(p, r, ts). fresh_entry now g ts) (ar_lookup_cache g)"
  have "hm_ok ?c" using assms by (simp add: registry_ok_def hm_ok_def distinct_map_filter)
  then show "registry_ok (clean_cache now g)" by (intro registry_ok_shrink [OF assms]) (auto simp: clean_cache_def)
  show "registered (clean_cache now g) = registered g" by (rule registered_cong) (simp_all add: clean_cache_def)
  show "findable t (clean_cache now g) = findable t g" by (rule findable_cong) (simp_all add: clean_cache_def)
qed

lemma lookup_lookup_spec:
  assumes "registry_ok g"
  shows "lookup_spec t p g (lookup clean now t p g)"
proof (cases "ar_cache_enabled g")
  case True
  define g1 where "g1 = (if clean then clean_cache now g else g)"
  have g1: "registry_ok g1" "registered g1 = registered g" "findable t g1 = findable t g" "ar_max_cache_size g1 = ar_max_cache_size g"
    using clean_cache_ok [OF assms] assms by (simp_all add: g1_def clean_cache_def)
  have count: "registered (g1 \<lparr> ar_cache_misses := m \<rparr>) = registered g" "findable t (g1 \<lparr> ar_cache_misses := m \<rparr>) = findable t g"
    "registry_ok (g1 \<lparr> ar_cache_misses := m \<rparr>)" "registry_ok (g1 \<lparr> ar_cache_hits := m \<rparr>)" for m
    using registered_cong [of "g1 \<lparr> ar_cache_misses := m \<rparr>" g1] findable_cong [of "g1 \<lparr> ar_cache_misses := m \<rparr>" g1 t] g1
      registry_ok_shrink [OF g1(1), of "g1 \<lparr> ar_cache_misses := m \<rparr>"] registry_ok_shrink [OF g1(1), of "g1 \<lparr> ar_cache_hits := m \<rparr>"]
    by (simp_all add: registry_ok_def [of g1])
  have miss: "lookup_spec t p g (lookup_registered now t p (g1 \<lparr> ar_cache_misses := m \<rparr>))" for m
    using lookup_registered_spec [OF count(3), of t p m now] count g1(4) by (simp add: lookup_spec_def)
  have hit: "lookup_spec t p g (Some r, g1 \<lparr> ar_cache_hits := m \<rparr>)" if "hm_get (ar_lookup_cache g1) p = Some (r, ts)" for r ts m
    using that g1 count(4) by (auto simp: lookup_spec_def registry_ok_def)
  show ?thesis using True miss hit by (auto simp: lookup_def Let_def g1_def [symmetric] split: option.split)
next
  case False
  then show ?thesis using lookup_registered_spec [OF assms] by (simp add: lookup_def)
qed

section \<open>Histories of the registry\<close>

datatype 'a reg_op =
    RegisterLocal string "'a ActorRef"
  | RegisterRemote ActorPath NodeId
  | DeregisterLocal string
  | DeregisterRemote ActorPath
  | Lookup bool int P2PTransport string
  | DiscoveryResponse string "NodeId list"
  | SetTransport
  | SetCacheTtl u64
  | SetMaxCacheSize nat
  | EnableCache
  | DisableCache
  | ClearCache

fun reg_step :: "'a reg_op \<Rightarrow> 'a ActorRegistry \<Rightarrow> 'a ActorRegistry" where
  "reg_step (RegisterLocal p r) g = snd (register_local p r g)"
| "reg_step (RegisterRemote a n) g = snd (register_remote a n g)"
| "reg_step (DeregisterLocal p) g = snd (deregister_local p g)"
| "reg_step (DeregisterRemote a) g = snd (deregister_remote a g)"
| "reg_step (Lookup clean now t p) g = snd (lookup clean now t p g)"
| "reg_step (DiscoveryResponse p ns) g = snd (handle_discovery_response p ns g)"
| "reg_step SetTransport g = set_transport g"
| "reg_step (SetCacheTtl ttl) g = set_cache_ttl ttl g"
| "reg_step (SetMaxCacheSize m) g = set_max_cache_size m g"
| "reg_step EnableCache g = enable_cache g"
| "reg_step DisableCache g = disable_cache g"
| "reg_step ClearCache g = clear_cache g"

definition reg_run :: "'a reg_op list \<Rightarrow> 'a ActorRegistry \<Rightarrow> 'a ActorRegistry" where
  "reg_run ops g = fold reg_step ops g"

text \<open>A remote actor is registered under the node that hosts it.\<close>

definition reg_op_ok :: "'a reg_op \<Rightarrow> bool" where
  "reg_op_ok op = (case op of RegisterRemote a n \<Rightarrow> n = ap_node_id a | _ \<Rightarrow> True)"

lemma foldl_insert_distinct:
  "distinct (map fst (c @ xs)) \<Longrightarrow> foldl (\<lambda>c (p, e). hm_insert p e c) c xs = c @ xs"
proof (induction xs arbitrary: c)
  case (Cons x xs)
  have "hm_insert (fst x) (snd x) c = c @ [x]" if "fst x \<notin> fst ` set c" for c :: "('a \<times> 'b) list"
    using that by (induction c) auto
  then show ?case using Cons.IH [of "c @ [x]"] Cons.prems by (simp add: split_beta)
qed simp

lemma trimmed_cache:
  assumes "registry_ok g" and "0 < m" and "m < length (ar_lookup_cache g)"
  shows "ar_lookup_cache (set_max_cache_size m g) = take m (sort_key (\<lambda>(p, r, ts). ts) (ar_lookup_cache g))"
proof -
  let ?s = "sort_key (\<lambda>(p, r, ts). ts) (ar_lookup_cache g)"
  have "distinct (map fst ?s)" using assms(1) by (simp add: registry_ok_def hm_ok_def distinct_map)
  then have "distinct (map fst ([] @ take m ?s))" by (simp add: take_map [symmetric] distinct_take)
  from foldl_insert_distinct [OF this] show ?thesis using assms(2,3) by (simp add: set_max_cache_size_def Let_def)
qed

lemma set_max_cache_size_fields [simp]:
  "ar_local_actors (set_max_cache_size m g) = ar_local_actors g" "ar_remote_actors (set_max_cache_size m g) = ar_remote_actors g"
  "ar_max_cache_size (set_max_cache_size m g) = m" "ar_cache_enabled (set_max_cache_size m g) = ar_cache_enabled g"
  by (simp_all add: set_max_cache_size_def Let_def)

lemma set_max_cache_size_ok:
  assumes "registry_ok g"
  shows "registry_ok (set_max_cache_size m g)"
proof (cases "0 < m \<and> m < length (ar_lookup_cache g)")
  case True
  let ?g = "g \<lparr> ar_max_cache_size := m, ar_lookup_cache := take m (sort_key (\<lambda>(p, r, ts). ts) (ar_lookup_cache g)) \<rparr>"
  have c: "ar_lookup_cache (set_max_cache_size m g) = ar_lookup_cache ?g" using trimmed_cache [OF assms] True by simp
  have "hm_ok (ar_lookup_cache ?g)" using assms by (simp add: registry_ok_def hm_ok_def take_map [symmetric] distinct_map distinct_take)
  then have "registry_ok (?g \<lparr> ar_max_cache_size := ar_max_cache_size g \<rparr>)"
    by (intro registry_ok_shrink [OF assms]) (auto dest: in_set_takeD)
  moreover have "set_max_cache_size m g = ?g" using c True by (simp add: set_max_cache_size_def Let_def)
  moreover have "length (ar_lookup_cache ?g) \<le> m" by simp
  moreover have "registered ?g = registered g" "registered (?g \<lparr> ar_max_cache_size := ar_max_cache_size g \<rparr>) = registered g"
    by (rule registered_cong; simp)+
  ultimately show ?thesis by (simp add: registry_ok_def)
next
  case False
  have "registered (g \<lparr> ar_max_cache_size := m \<rparr>) = registered g" by (rule registered_cong) simp_all
  then show ?thesis using False assms by (auto simp: set_max_cache_size_def Let_def registry_ok_def)
qed

text \<open>The operations that change what is registered under a path drop its cache entry.\<close>

lemma registry_ok_update:
  assumes "registry_ok g" and "hm_ok (ar_remote_actors g')" and "\<And>a n. hm_get (ar_remote_actors g') a = Some n \<Longrightarrow> n = ap_node_id a"
    and "ar_max_cache_size g' = ar_max_cache_size g" and "ar_cache_enabled g' = ar_cache_enabled g"
    and "ar_lookup_cache g' = hm_remove p (ar_lookup_cache g)" and "\<And>q r. q \<noteq> p \<Longrightarrow> registered g q r \<Longrightarrow> registered g' q r"
  shows "registry_ok g'"
proof -
  have "length (hm_remove p (ar_lookup_cache g)) \<le> length (ar_lookup_cache g)" by (rule length_hm_remove_le)
  then have "length (ar_lookup_cache g') \<le> ar_max_cache_size g" if "0 < ar_max_cache_size g"
    using assms(1,6) that by (simp add: registry_ok_def)
  then show ?thesis using assms by (auto simp: registry_ok_def split: if_splits)
qed

lemma registered_other:
  assumes "hm_get (ar_local_actors g') q = hm_get (ar_local_actors g) q"
    and "\<And>a. ap_path a = q \<Longrightarrow> hm_get (ar_remote_actors g') a = hm_get (ar_remote_actors g) a" and "registered g q r"
  shows "registered g' q r"
proof (cases "hm_get (ar_local_actors g) q")
  case None
  with assms(3) obtain a n where "hm_get (ar_remote_actors g) a = Some n" "ap_path a = q" "r = RemoteActorRef n q AtLeastOnce"
    by (auto simp: registered_def)
  moreover from this have "hm_get (ar_remote_actors g') a = Some n" using assms(2) by simp
  ultimately show ?thesis using assms(1) None by (auto simp: registered_def)
qed (use assms in \<open>simp add: registered_def\<close>)

lemma register_local_ok:
  assumes "registry_ok g"
  shows "registry_ok (snd (register_local p r g))"
proof (cases "hm_contains (ar_local_actors g) p")
  case False
  let ?g = "g \<lparr> ar_local_actors := hm_insert p r (ar_local_actors g), ar_lookup_cache := hm_remove p (ar_lookup_cache g) \<rparr>"
  have "registry_ok ?g"
    by (rule registry_ok_update [OF assms, where p = p], use assms in \<open>simp_all add: registry_ok_def\<close>) (rule registered_other, auto)
  then show ?thesis using False by (simp add: register_local_def)
qed (use assms in \<open>simp add: register_local_def\<close>)

lemma deregister_local_ok:
  assumes "registry_ok g"
  shows "registry_ok (snd (deregister_local p g))"
proof (cases "hm_contains (ar_local_actors g) p")
  case True
  let ?g = "g \<lparr> ar_local_actors := hm_remove p (ar_local_actors g), ar_lookup_cache := hm_remove p (ar_lookup_cache g) \<rparr>"
  have "registry_ok ?g"
    by (rule registry_ok_update [OF assms, where p = p], use assms in \<open>simp_all add: registry_ok_def\<close>) (rule registered_other, auto)
  then show ?thesis using True by (simp add: deregister_local_def)
qed (use assms in \<open>simp add: deregister_local_def\<close>)

lemma register_remote_ok:
  assumes "registry_ok g" and "n = ap_node_id a"
  shows "registry_ok (snd (register_remote a n g))"
proof -
  let ?g = "g \<lparr> ar_remote_actors := hm_insert a n (ar_remote_actors g), ar_lookup_cache := hm_remove (ap_path a) (ar_lookup_cache g) \<rparr>"
  have "registry_ok ?g"
    by (rule registry_ok_update [OF assms(1), where p = "ap_path a"], use assms in \<open>simp_all add: registry_ok_def split: if_splits\<close>)
      (rule registered_other, auto)
  then show ?thesis by (simp add: register_remote_def)
qed

lemma deregister_remote_ok:
  assumes "registry_ok g"
  shows "registry_ok (snd (deregister_remote a g))"
proof (cases "hm_contains (ar_remote_actors g) a")
  case True
  let ?g = "g \<lparr> ar_remote_actors := hm_remove a (ar_remote_actors g), ar_lookup_cache := hm_remove (ap_path a) (ar_lookup_cache g) \<rparr>"
  have "registry_ok ?g"
    by (rule registry_ok_update [OF assms, where p = "ap_path a"], use assms in \<open>simp_all add: registry_ok_def split: if_splits\<close>)
      (rule registered_other, auto)
  then show ?thesis using True by (simp add: deregister_remote_def)
qed (use assms in \<open>simp add: deregister_remote_def\<close>)

lemma registry_ok_grow:
  assumes "registry_ok g" and "hm_ok (ar_remote_actors g')" and "\<And>a n. hm_get (ar_remote_actors g') a = Some n \<Longrightarrow> n = ap_node_id a"
    and "ar_max_cache_size g' = ar_max_cache_size g" and "ar_cache_enabled g' = ar_cache_enabled g"
    and "ar_lookup_cache g' = ar_lookup_cache g" and "\<And>q r. registered g q r \<Longrightarrow> registered g' q r"
  shows "registry_ok g'"
proof -
  have "registered g' q r" if "hm_get (ar_lookup_cache g) q = Some (r, ts)" for q r ts
    using that assms(1,7) by (simp add: registry_ok_def)
  then show ?thesis using assms(1-6) by (simp add: registry_ok_def)
qed

lemma discovery_response_ok:
  assumes "registry_ok g"
  shows "registry_ok (snd (handle_discovery_response p ns g))"
proof -
  have reg: "registered (g \<lparr> ar_pending_discoveries := d, ar_answers := as, ar_remote_actors := hm_insert (ActorPath_new n p) n (ar_remote_actors g) \<rparr>) q r"
    if "registered g q r" for d as n q r
  proof (cases "hm_get (ar_local_actors g) q")
    case None
    with that obtain a m where "hm_get (ar_remote_actors g) a = Some m" "ap_path a = q" "r = RemoteActorRef m q AtLeastOnce"
      by (auto simp: registered_def)
    moreover have "m = ap_node_id a" using assms calculation(1) by (simp add: registry_ok_def)
    ultimately have "hm_get (hm_insert (ActorPath_new n p) n (ar_remote_actors g)) a = Some m" by (auto simp: ActorPath_new_def)
    then show ?thesis using None \<open>ap_path a = q\<close> \<open>r = RemoteActorRef m q AtLeastOnce\<close>
      unfolding registered_def by (simp del: hm_get_insert) blast
  qed (use that in \<open>simp add: registered_def\<close>)
  have "registry_ok (g \<lparr> ar_pending_discoveries := d \<rparr>)" for d
    by (rule registry_ok_shrink [OF assms]) (use assms in \<open>simp_all add: registry_ok_def\<close>)
  moreover have "registry_ok (g \<lparr> ar_pending_discoveries := d, ar_answers := as, ar_remote_actors := hm_insert (ActorPath_new n p) n (ar_remote_actors g) \<rparr>)" for d as n
    by (rule registry_ok_grow [OF assms], use assms in \<open>simp_all add: registry_ok_def ActorPath_new_def split: if_splits\<close>)
      (use reg in \<open>auto simp: ActorPath_new_def\<close>)
  ultimately show ?thesis
    using assms by (auto simp: handle_discovery_response_def Let_def split: option.split list.split)
qed

lemma reg_step_ok:
  assumes "registry_ok g" and "reg_op_ok op"
  shows "registry_ok (reg_step op g)"
proof (cases op)
  case (RegisterRemote a n)
  then show ?thesis using register_remote_ok [OF assms(1)] assms(2) by (simp add: reg_op_ok_def)
next
  case (Lookup clean now t p)
  then show ?thesis using lookup_lookup_spec [OF assms(1)] by (simp add: lookup_spec_def)
next
  case DisableCache
  have "registered (disable_cache g) = registered g" by (rule registered_cong) (simp_all add: disable_cache_def)
  then show ?thesis using DisableCache assms(1) by (simp add: registry_ok_def disable_cache_def)
next
  case EnableCache
  have "registered (enable_cache g) = registered g" by (rule registered_cong) (simp_all add: enable_cache_def)
  then show ?thesis using EnableCache assms(1) by (auto simp: registry_ok_def enable_cache_def)
next
  case SetTransport
  show ?thesis unfolding SetTransport reg_step.simps
    by (rule registry_ok_shrink [OF assms(1)]) (use assms(1) in \<open>simp_all add: set_transport_def registry_ok_def\<close>)
next
  case (SetCacheTtl ttl)
  show ?thesis unfolding SetCacheTtl reg_step.simps
    by (rule registry_ok_shrink [OF assms(1)]) (use assms(1) in \<open>simp_all add: set_cache_ttl_def registry_ok_def\<close>)
next
  case ClearCache
  show ?thesis unfolding ClearCache reg_step.simps
    by (rule registry_ok_shrink [OF assms(1)]) (simp_all add: clear_cache_def)
qed (use assms in \<open>simp_all add: register_local_ok deregister_local_ok deregister_remote_ok discovery_response_ok set_max_cache_size_ok\<close>)

lemma registry_new_ok: "registry_ok (ActorRegistry_new n)"
  by (simp add: registry_ok_def ActorRegistry_new_def)

lemma reg_run_ok: "registry_ok g \<Longrightarrow> list_all reg_op_ok ops \<Longrightarrow> registry_ok (reg_run ops g)"
  unfolding reg_run_def by (induction ops arbitrary: g) (simp_all add: reg_step_ok)


definition sample_reg_ops :: "nat reg_op list" where
  "sample_reg_ops =
     [SetMaxCacheSize 1, RegisterLocal ''a'' (LocalActorRef 7 ''a''), RegisterLocal ''b'' (LocalActorRef 8 ''b''),
      Lookup False 1 (tiny_transport 1) ''a'', Lookup False 2 (tiny_transport 1) ''b'']"


section \<open>Trimming and discovery\<close>

text \<open>When the cache is made smaller, what is kept is not the newest part of it but the oldest.\<close>

theorem trimming_keeps_oldest:
  assumes "registry_ok g" and "0 < m" and "m < length (ar_lookup_cache g)"
    and "(p, r, ts) \<in> set (ar_lookup_cache (set_max_cache_size m g))"
    and "(q, r', ts') \<in> set (ar_lookup_cache g)" and "(q, r', ts') \<notin> set (ar_lookup_cache (set_max_cache_size m g))"
  shows "ts \<le> ts'"
proof -
  let ?f = "\<lambda>(p, r, ts). ts"
  let ?s = "sort_key ?f (ar_lookup_cache g)"
  have c: "ar_lookup_cache (set_max_cache_size m g) = take m ?s" by (rule trimmed_cache [OF assms(1-3)])
  have "set ?s = set (take m ?s) \<union> set (drop m ?s)" by (metis append_take_drop_id set_append)
  then have "(q, r', ts') \<in> set (drop m ?s)" using assms(5,6) c by auto
  moreover have "sorted (map ?f (take m ?s @ drop m ?s))" unfolding append_take_drop_id by (rule sorted_sort_key)
  then have "\<forall>x\<in>?f ` set (take m ?s). \<forall>y\<in>?f ` set (drop m ?s). x \<le> y"
    unfolding map_append sorted_append set_map by blast
  ultimately show ?thesis using assms(4) unfolding c by fastforce
qed

text \<open>A discovery asks at most three other nodes, each one a known peer, and a location in the answer is passed to every client that waits for the
  path; afterwards nobody waits and a lookup through a started transport finds the actor.\<close>

lemma send_requests_bound:
  "send_requests env m k is sent t = (sent', t') \<Longrightarrow> length sent \<le> 2 \<Longrightarrow>
   length sent' \<le> 3 \<and> set sent' \<subseteq> set sent \<union> ni_id ` set is"
proof (induction env m k "is" sent t rule: send_requests.induct)
  case (2 env m k i "is" sent t)
  show ?case
  proof (cases "send_message env (ni_id i) m t")
    case (Pair r t1)
    show ?thesis
    proof (cases r)
      case (Inl e)
      then show ?thesis using 2(1) [OF Pair [unfolded Inl, symmetric] refl] 2(3,4) Pair by auto
    next
      case (Inr u)
      then show ?thesis
        using 2(2) [OF Pair [unfolded Inr, symmetric] refl refl] 2(3,4) Pair by (fastforce simp: Let_def split: if_splits)
    qed
  qed
qed auto

theorem discovery_bounded:
  assumes "discover_begin env clean now client p t g = (Waits sent, t', g')"
  shows "length sent \<le> 3 \<and> ar_local_node_id g' \<notin> set sent \<and> set sent \<subseteq> ni_id ` set (get_peers t)"
proof -
  have "send_requests env (TActorDiscoveryRequest (ar_local_node_id g') p) (length (external_peers env t g')) (external_peers env t g') [] t = (sent, t')"
    using assms by (auto simp: discover_begin_def Let_def split: prod.splits option.splits if_splits)
  moreover have "set (external_peers env t g') = {i \<in> set (get_peers t). ni_id i \<noteq> ar_local_node_id g'}" by (auto simp: external_peers_def)
  ultimately show ?thesis using send_requests_bound by fastforce
qed

theorem discovery_answers_all:
  assumes "registry_ok g" and "hm_get (ar_pending_discoveries g) p = Some clients" and "ar_transport g" and "tp_started t"
    and "handle_discovery_response p (n # ns) g = (r, g')"
  shows "r = Some (RemoteActorRef n p AtLeastOnce) \<and> ar_answers g' = ar_answers g @ map (\<lambda>c. (c, r)) clients
     \<and> \<not> hm_contains (ar_pending_discoveries g') p \<and> fst (lookup clean now t p g') \<noteq> None"
proof -
  have "registry_ok g'" using discovery_response_ok [OF assms(1), of p "n # ns"] assms(5) by simp
  moreover have "hm_get (ar_remote_actors g') (ActorPath_new n p) = Some n" "ar_transport g'"
    "r = Some (RemoteActorRef n p AtLeastOnce)" "ar_answers g' = ar_answers g @ map (\<lambda>c. (c, r)) clients"
    "\<not> hm_contains (ar_pending_discoveries g') p"
    using assms(2,3,5) by (auto simp: handle_discovery_response_def Let_def)
  moreover have "findable t g' p" using calculation(2,3) assms(4) by (auto simp: findable_def ActorPath_new_def intro!: exI [of _ "ActorPath_new n p"])
  ultimately show ?thesis using lookup_lookup_spec [of g' t p clean now] by (simp add: lookup_spec_def)
qed

end
