(* ===== verification/Cluster_Broker.thy ===== *)
theory Cluster_Broker
  imports Transport
begin

text \<open>
  Publish and subscribe across the cluster (\<^verbatim>\<open>broker.rs\<close>). A local subscription is the sending end of a channel, a number here;
  what is put into the channels is recorded in \<open>mb_delivered\<close>, and \<open>alive\<close> tells which receivers still exist. Sending into a full channel
  waits in the code; here it is one step. A hash set of nodes is a list without repetitions. \<open>payload\<close> is what bincode makes of
  the user's message, \<open>None\<close> when it fails; \<open>wall\<close> is the clock in seconds, \<open>now\<close> the monotonic one in nanoseconds. The
  background thread calls \<open>process_pending_messages\<close> every five seconds.

  The lemmas show exactly-once delivery while an identifier is remembered, the numbering of the messages of a topic and the end of retransmissions.
\<close>

section \<open>The local broker\<close>

record MessageBroker =
  mb_local_node_id :: NodeId
  mb_subscriptions :: "(string, nat list) hashmap"
  mb_deduplication_cache :: "(Uuid, int) hashmap"
  mb_sequence_counters :: "(string, u64) hashmap"
  mb_delivered :: "(nat \<times> BrokerMessage) list"

definition MessageBroker_new :: "NodeId \<Rightarrow> MessageBroker" where
  "MessageBroker_new n =
     \<lparr> mb_local_node_id = n, mb_subscriptions = [], mb_deduplication_cache = [], mb_sequence_counters = [], mb_delivered = [] \<rparr>"

definition topic_subscribers :: "MessageBroker \<Rightarrow> string \<Rightarrow> nat list" where
  "topic_subscribers b topic = (case hm_get (mb_subscriptions b) topic of Some subs \<Rightarrow> subs | None \<Rightarrow> [])"

definition deliver_local :: "(nat \<Rightarrow> bool) \<Rightarrow> BrokerMessage \<Rightarrow> MessageBroker \<Rightarrow> MessageBroker" where
  "deliver_local alive m b =
     b \<lparr> mb_delivered := mb_delivered b @ map (\<lambda>s. (s, m)) (filter alive (topic_subscribers b (bm_topic m))) \<rparr>"

definition next_sequence :: "string \<Rightarrow> MessageBroker \<Rightarrow> u64 \<times> MessageBroker" where
  "next_sequence topic b =
     (let n = (case hm_get (mb_sequence_counters b) topic of Some k \<Rightarrow> k | None \<Rightarrow> 0) + 1
      in (n, b \<lparr> mb_sequence_counters := hm_insert topic n (mb_sequence_counters b) \<rparr>))"

definition broker_publish ::
  "(nat \<Rightarrow> bool) \<Rightarrow> Uuid \<Rightarrow> int \<Rightarrow> string \<Rightarrow> bytes option \<Rightarrow> DeliveryGuarantee \<Rightarrow> MessageBroker \<Rightarrow> (ClusterError + Uuid) \<times> MessageBroker" where
  "broker_publish alive uid wall topic payload dg b =
     (let (n, b1) = next_sequence topic b
      in case payload of
           None \<Rightarrow> (Inl SerializationError, b1)
         | Some p \<Rightarrow>
             (Inr uid,
              deliver_local alive
                \<lparr> bm_topic = topic, bm_payload = p, bm_id = uid, bm_source_node = mb_local_node_id b1,
                  bm_timestamp = of_int (max 0 wall), bm_sequence = n, bm_delivery_guarantee = dg \<rparr> b1))"

definition broker_subscribe :: "string \<Rightarrow> nat \<Rightarrow> MessageBroker \<Rightarrow> MessageBroker" where
  "broker_subscribe topic ch b =
     (case hm_get (mb_subscriptions b) topic of
        Some subs \<Rightarrow> b \<lparr> mb_subscriptions := hm_insert topic (subs @ [ch]) (mb_subscriptions b) \<rparr>
      | None \<Rightarrow> b \<lparr> mb_subscriptions := hm_insert topic [ch] (mb_subscriptions b) \<rparr>)"

definition broker_unsubscribe :: "string \<Rightarrow> MessageBroker \<Rightarrow> MessageBroker" where
  "broker_unsubscribe topic b = b \<lparr> mb_subscriptions := hm_remove topic (mb_subscriptions b) \<rparr>"

definition get_topics :: "MessageBroker \<Rightarrow> string list" where
  "get_topics b = hm_keys (mb_subscriptions b)"

definition handle_remote_message :: "(nat \<Rightarrow> bool) \<Rightarrow> int \<Rightarrow> BrokerMessage \<Rightarrow> MessageBroker \<Rightarrow> MessageBroker" where
  "handle_remote_message alive now m b =
     (if bm_delivery_guarantee m = ExactlyOnce then
        if hm_contains (mb_deduplication_cache b) (bm_id m) then b
        else deliver_local alive m (b \<lparr> mb_deduplication_cache := hm_insert (bm_id m) now (mb_deduplication_cache b) \<rparr>)
      else deliver_local alive m b)"

definition clean_deduplication_cache :: "int \<Rightarrow> int \<Rightarrow> MessageBroker \<Rightarrow> MessageBroker" where
  "clean_deduplication_cache now ttl b =
     b \<lparr> mb_deduplication_cache := filter (\<lambda>(i, ts). max 0 (now - ts) < ttl) (mb_deduplication_cache b) \<rparr>"

section \<open>The broker of a node in the cluster\<close>

record PendingMessage =
  pm_message :: BrokerMessage
  pm_first_sent :: int
  pm_last_retry :: int
  pm_retry_count :: u8
  pm_acked_by :: "NodeId list"
  pm_target_nodes :: "NodeId list"

record NetworkBroker =
  nb_broker :: MessageBroker
  nb_remote_subscriptions :: "(string, NodeId list) hashmap"
  nb_pending_messages :: "(Uuid, PendingMessage) hashmap"
  nb_nodes :: "(NodeId, NodeInfo) hashmap"

definition NetworkBroker_new :: "NodeId \<Rightarrow> (NodeId, NodeInfo) hashmap \<Rightarrow> NetworkBroker" where
  "NetworkBroker_new n nodes =
     \<lparr> nb_broker = MessageBroker_new n, nb_remote_subscriptions = [], nb_pending_messages = [], nb_nodes = nodes \<rparr>"

definition send_to :: "net_env \<Rightarrow> TransportMessage \<Rightarrow> NodeId list \<Rightarrow> P2PTransport \<Rightarrow> P2PTransport" where
  "send_to env m ns t = foldl (\<lambda>t n. snd (send_message env n m t)) t ns"

definition remote_subscribers :: "NetworkBroker \<Rightarrow> string \<Rightarrow> NodeId list" where
  "remote_subscribers nb topic = (case hm_get (nb_remote_subscriptions nb) topic of Some ns \<Rightarrow> ns | None \<Rightarrow> [])"

definition network_publish ::
  "net_env \<Rightarrow> (nat \<Rightarrow> bool) \<Rightarrow> Uuid \<Rightarrow> int \<Rightarrow> int \<Rightarrow> string \<Rightarrow> bytes option \<Rightarrow> DeliveryGuarantee \<Rightarrow> NetworkBroker \<times> P2PTransport
    \<Rightarrow> (ClusterError + Uuid) \<times> NetworkBroker \<times> P2PTransport" where
  "network_publish env alive uid wall now topic payload dg nbt =
     (let (nb, t) = nbt; (r, b) = broker_publish alive uid wall topic payload dg (nb_broker nb); nb1 = nb \<lparr> nb_broker := b \<rparr>
      in case (r, payload) of
           (Inr mid, Some p) \<Rightarrow>
             let targets = remote_subscribers nb1 topic
             in if targets = [] then (Inr mid, nb1, t)
                else
                  let m = \<lparr> bm_topic = topic, bm_payload = p, bm_id = mid, bm_source_node = mb_local_node_id b,
                            bm_timestamp = of_int (max 0 wall),
                            bm_sequence = (case hm_get (mb_sequence_counters b) topic of Some k \<Rightarrow> k | None \<Rightarrow> 0),
                            bm_delivery_guarantee = dg \<rparr>;
                      nb2 = (if dg = AtMostOnce then nb1
                             else nb1 \<lparr> nb_pending_messages := hm_insert mid
                                    \<lparr> pm_message = m, pm_first_sent = now, pm_last_retry = now, pm_retry_count = 0,
                                      pm_acked_by = [], pm_target_nodes = targets \<rparr> (nb_pending_messages nb1) \<rparr>)
                  in (Inr mid, nb2, send_to env (TBrokerMessage m) targets t)
         | (Inl e, _) \<Rightarrow> (Inl e, nb1, t)
         | _ \<Rightarrow> (Inl SerializationError, nb1, t))"

definition network_subscribe ::
  "net_env \<Rightarrow> string \<Rightarrow> nat \<Rightarrow> SubscriptionOptions \<Rightarrow> bool \<Rightarrow> NetworkBroker \<times> P2PTransport \<Rightarrow> NetworkBroker \<times> P2PTransport" where
  "network_subscribe env topic ch opts remote nbt =
     (let (nb, t) = nbt; nb1 = nb \<lparr> nb_broker := broker_subscribe topic ch (nb_broker nb) \<rparr>
      in if remote then
           let others = filter (\<lambda>n. n \<noteq> mb_local_node_id (nb_broker nb1)) (hm_keys (nb_nodes nb1));
               ns = foldl (\<lambda>ns n. List.insert n ns) (remote_subscribers nb1 topic) others
           in (nb1 \<lparr> nb_remote_subscriptions := hm_insert topic ns (nb_remote_subscriptions nb1) \<rparr>,
               send_to env (TSubscribe topic opts) others t)
         else (nb1, t))"

definition handle_remote_subscription :: "string \<Rightarrow> NodeId \<Rightarrow> NetworkBroker \<Rightarrow> NetworkBroker" where
  "handle_remote_subscription topic n nb =
     nb \<lparr> nb_remote_subscriptions := hm_insert topic (List.insert n (remote_subscribers nb topic)) (nb_remote_subscriptions nb) \<rparr>"

definition handle_remote_unsubscribe :: "string \<Rightarrow> NodeId \<Rightarrow> NetworkBroker \<Rightarrow> NetworkBroker" where
  "handle_remote_unsubscribe topic n nb =
     (case hm_get (nb_remote_subscriptions nb) topic of
        None \<Rightarrow> nb
      | Some ns \<Rightarrow>
          let ns' = remove1 n ns
          in nb \<lparr> nb_remote_subscriptions :=
                   (if ns' = [] then hm_remove topic (nb_remote_subscriptions nb) else hm_insert topic ns' (nb_remote_subscriptions nb)) \<rparr>)"

definition handle_message_ack :: "MessageAck \<Rightarrow> NetworkBroker \<Rightarrow> NetworkBroker" where
  "handle_message_ack a nb =
     (case hm_get (nb_pending_messages nb) (ak_message_id a) of
        None \<Rightarrow> nb
      | Some pm \<Rightarrow>
          let acked = List.insert (ak_node_id a) (pm_acked_by pm)
          in nb \<lparr> nb_pending_messages :=
                   (if length acked = length (pm_target_nodes pm) then hm_remove (ak_message_id a) (nb_pending_messages nb)
                    else hm_insert (ak_message_id a) (pm \<lparr> pm_acked_by := acked \<rparr>) (nb_pending_messages nb)) \<rparr>)"

definition send_message_ack :: "net_env \<Rightarrow> int \<Rightarrow> BrokerMessage \<Rightarrow> NetworkBroker \<Rightarrow> P2PTransport \<Rightarrow> (ClusterError + unit) \<times> P2PTransport" where
  "send_message_ack env wall m nb t =
     (if bm_delivery_guarantee m = AtLeastOnce \<or> bm_delivery_guarantee m = ExactlyOnce then
        send_message env (bm_source_node m)
          (TBrokerAck \<lparr> ak_message_id = bm_id m, ak_topic = bm_topic m, ak_node_id = mb_local_node_id (nb_broker nb),
                        ak_timestamp = of_int (max 0 wall) \<rparr>) t
      else (Inr (), t))"

definition handle_broker_message ::
  "net_env \<Rightarrow> (nat \<Rightarrow> bool) \<Rightarrow> int \<Rightarrow> int \<Rightarrow> BrokerMessage \<Rightarrow> NetworkBroker \<times> P2PTransport \<Rightarrow> (ClusterError + unit) \<times> NetworkBroker \<times> P2PTransport" where
  "handle_broker_message env alive wall now m nbt =
     (let (nb, t) = nbt
      in case send_message_ack env wall m nb t of
           (Inl e, t1) \<Rightarrow> (Inl e, nb, t1)
         | (Inr _, t1) \<Rightarrow> (Inr (), nb \<lparr> nb_broker := handle_remote_message alive now m (nb_broker nb) \<rparr>, t1))"

definition network_unsubscribe :: "net_env \<Rightarrow> string \<Rightarrow> bool \<Rightarrow> NetworkBroker \<times> P2PTransport \<Rightarrow> NetworkBroker \<times> P2PTransport" where
  "network_unsubscribe env topic notify nbt =
     (let (nb, t) = nbt; nb1 = nb \<lparr> nb_broker := broker_unsubscribe topic (nb_broker nb) \<rparr>;
          me = mb_local_node_id (nb_broker nb1);
          active = map fst (filter (\<lambda>(i, info). ni_status info = Up \<and> ni_id info \<noteq> me) (nb_nodes nb1))
      in (nb1, if notify then send_to env (TBrokerUnsubscribe topic me) active t else t))"

definition get_all_topics :: "NetworkBroker \<Rightarrow> string list" where
  "get_all_topics nb =
     foldl (\<lambda>ts x. if x \<in> set ts then ts else ts @ [x]) (get_topics (nb_broker nb)) (hm_keys (nb_remote_subscriptions nb))"

section \<open>Retransmission\<close>

definition retry_due :: "int \<Rightarrow> PendingMessage \<Rightarrow> bool" where
  "retry_due now pm = (10000000000 < max 0 (now - pm_last_retry pm) \<and> pm_retry_count pm < 5)"

definition retry_send :: "net_env \<Rightarrow> P2PTransport \<Rightarrow> PendingMessage \<Rightarrow> P2PTransport" where
  "retry_send env t pm =
     send_to env (TBrokerMessage (pm_message pm)) (filter (\<lambda>n. n \<notin> set (pm_acked_by pm)) (pm_target_nodes pm)) t"

definition process_pending_messages :: "net_env \<Rightarrow> int \<Rightarrow> NetworkBroker \<times> P2PTransport \<Rightarrow> NetworkBroker \<times> P2PTransport" where
  "process_pending_messages env now nbt =
     (let (nb, t) = nbt; pending = nb_pending_messages nb;
          to_retry = filter (\<lambda>(i, pm). retry_due now pm) pending;
          to_remove = map fst (filter (\<lambda>(i, pm). \<not> retry_due now pm \<and> 5 \<le> pm_retry_count pm) pending);
          pending1 = foldl (\<lambda>p (i, pm). case hm_get p i of
                              Some x \<Rightarrow> hm_insert i (x \<lparr> pm_retry_count := pm_retry_count pm + 1, pm_last_retry := now \<rparr>) p
                            | None \<Rightarrow> p) pending to_retry;
          t1 = foldl (\<lambda>t (i, pm). retry_send env t pm) t to_retry;
          pending2 = foldl (\<lambda>p i. hm_remove i p) pending1 to_remove
      in (nb \<lparr> nb_pending_messages := pending2 \<rparr>, t1))"

section \<open>Exactly once\<close>

datatype broker_event = Arrives int BrokerMessage | Cleans int

fun event_time :: "broker_event \<Rightarrow> int" where
  "event_time (Arrives now m) = now"
| "event_time (Cleans now) = now"

definition dedup_ttl :: int where
  "dedup_ttl = 3600000000000"

fun broker_step :: "(nat \<Rightarrow> bool) \<Rightarrow> broker_event \<Rightarrow> MessageBroker \<Rightarrow> MessageBroker" where
  "broker_step alive (Arrives now m) b = handle_remote_message alive now m b"
| "broker_step alive (Cleans now) b = clean_deduplication_cache now dedup_ttl b"

text \<open>Copies of one message are equal, and all happens within the hour for which an identifier is remembered.\<close>

definition copies_of :: "BrokerMessage \<Rightarrow> int \<Rightarrow> broker_event \<Rightarrow> bool" where
  "copies_of m start e =
     ((case e of Arrives now x \<Rightarrow> bm_id x = bm_id m \<longrightarrow> x = m | Cleans now \<Rightarrow> True)
      \<and> start \<le> event_time e \<and> event_time e < start + dedup_ttl)"

definition arrives :: "BrokerMessage \<Rightarrow> broker_event \<Rightarrow> bool" where
  "arrives m e = (case e of Arrives now x \<Rightarrow> x = m | Cleans now \<Rightarrow> False)"

abbreviation deliveries_of :: "BrokerMessage \<Rightarrow> (nat \<times> BrokerMessage) list \<Rightarrow> (nat \<times> BrokerMessage) list" where
  "deliveries_of m ds \<equiv> filter (\<lambda>d. bm_id (snd d) = bm_id m) ds"

lemma hm_ok_filter: "hm_ok c \<Longrightarrow> hm_ok (filter P c)"
  by (simp add: hm_ok_def distinct_map_filter)

lemma hm_get_filter: "hm_ok c \<Longrightarrow> hm_get (filter P c) k = (case hm_get c k of Some v \<Rightarrow> if P (k, v) then Some v else None | None \<Rightarrow> None)"
  by (induction c) (auto simp: hm_ok_def map_of_eq_None_iff split: option.splits)

lemma broker_step_keeps:
  "mb_subscriptions (broker_step alive e b) = mb_subscriptions b"
  "hm_ok (mb_deduplication_cache b) \<Longrightarrow> hm_ok (mb_deduplication_cache (broker_step alive e b))"
  by (cases e; simp add: handle_remote_message_def deliver_local_def clean_deduplication_cache_def hm_ok_filter)+

text \<open>Once remembered, the message is not delivered again.\<close>

lemma remembered_not_delivered:
  assumes "bm_delivery_guarantee m = ExactlyOnce"
  shows "list_all (copies_of m start) es \<Longrightarrow> hm_ok (mb_deduplication_cache b) \<Longrightarrow>
    hm_get (mb_deduplication_cache b) (bm_id m) = Some ts \<Longrightarrow> start \<le> ts \<Longrightarrow>
    deliveries_of m (mb_delivered (fold (broker_step alive) es b)) = deliveries_of m (mb_delivered b)"
proof (induction es arbitrary: b)
  case (Cons e es)
  have "deliveries_of m (mb_delivered (broker_step alive e b)) = deliveries_of m (mb_delivered b)"
    using Cons.prems(1,3) assms
    by (cases e) (auto simp: handle_remote_message_def deliver_local_def clean_deduplication_cache_def copies_of_def comp_def)
  moreover have "hm_get (mb_deduplication_cache (broker_step alive e b)) (bm_id m) = Some ts"
  proof (cases e)
    case (Arrives now x)
    then show ?thesis using Cons.prems(3) by (auto simp: handle_remote_message_def deliver_local_def)
  next
    case (Cleans now)
    then have "now - ts < dedup_ttl" "0 < dedup_ttl" using Cons.prems(1,4) by (auto simp: copies_of_def dedup_ttl_def)
    then show ?thesis using Cleans Cons.prems(2,3) by (simp add: clean_deduplication_cache_def hm_get_filter)
  qed
  ultimately show ?case using Cons.IH [of "broker_step alive e b"] Cons.prems broker_step_keeps(2) by simp
qed simp

text \<open>
  C19. Exactly once: however often copies of an exactly-once message arrive, in any order with other messages and with
  cleanings of the deduplication cache, all within an hour, every live subscriber of its topic gets it once, and nobody gets it when it
  does not arrive. At the start the message is not remembered.
\<close>

theorem exactly_once:
  assumes "bm_delivery_guarantee m = ExactlyOnce" and "list_all (copies_of m start) es"
    and "hm_ok (mb_deduplication_cache b)" and "\<not> hm_contains (mb_deduplication_cache b) (bm_id m)"
  shows "deliveries_of m (mb_delivered (fold (broker_step alive) es b)) = deliveries_of m (mb_delivered b)
    @ (if list_ex (arrives m) es then map (\<lambda>s. (s, m)) (filter alive (topic_subscribers b (bm_topic m))) else [])"
  using assms(2-4)
proof (induction es arbitrary: b)
  case (Cons e es)
  let ?b = "broker_step alive e b"
  show ?case
  proof (cases "arrives m e")
    case True
    then obtain now where e: "e = Arrives now m" by (auto simp: arrives_def split: broker_event.splits)
    have "hm_get (mb_deduplication_cache ?b) (bm_id m) = Some now" "start \<le> now"
      using Cons.prems assms(1) e by (simp_all add: handle_remote_message_def deliver_local_def copies_of_def)
    then have "deliveries_of m (mb_delivered (fold (broker_step alive) es ?b)) = deliveries_of m (mb_delivered ?b)"
      using Cons.prems(1) by (intro remembered_not_delivered [OF assms(1) _ broker_step_keeps(2) [OF Cons.prems(2)]]) auto
    moreover have "deliveries_of m (mb_delivered ?b) = deliveries_of m (mb_delivered b) @ map (\<lambda>s. (s, m)) (filter alive (topic_subscribers b (bm_topic m)))"
      using Cons.prems(3) assms(1) e by (simp add: handle_remote_message_def deliver_local_def topic_subscribers_def comp_def)
    ultimately show ?thesis using True by simp
  next
    case False
    have "deliveries_of m (mb_delivered ?b) = deliveries_of m (mb_delivered b)" "\<not> hm_contains (mb_deduplication_cache ?b) (bm_id m)"
      using False Cons.prems
      by (cases e; auto simp: handle_remote_message_def deliver_local_def clean_deduplication_cache_def copies_of_def arrives_def hm_get_filter comp_def)+
    moreover have "topic_subscribers ?b = topic_subscribers b" using broker_step_keeps(1) by (simp add: topic_subscribers_def fun_eq_iff)
    ultimately show ?thesis using Cons.IH [of ?b] Cons.prems False broker_step_keeps(2) by simp
  qed
qed simp

definition sample_message :: "Uuid \<Rightarrow> BrokerMessage" where
  "sample_message i =
     \<lparr> bm_topic = ''t'', bm_payload = [1], bm_id = i, bm_source_node = 2, bm_timestamp = 0, bm_sequence = 1, bm_delivery_guarantee = ExactlyOnce \<rparr>"

definition sample_broker :: MessageBroker where
  "sample_broker = broker_subscribe ''t'' 1 (broker_subscribe ''t'' 0 (MessageBroker_new 1))"

theorem exactly_once_witness:
  "deliveries_of (sample_message 5)
     (mb_delivered (fold (broker_step (\<lambda>_. True)) [Arrives 1 (sample_message 5), Arrives 2 (sample_message 6), Cleans 3, Arrives 4 (sample_message 5)] sample_broker))
   = [(0, sample_message 5), (1, sample_message 5)]"
  using exactly_once [of "sample_message 5" 0 "[Arrives 1 (sample_message 5), Arrives 2 (sample_message 6), Cleans 3, Arrives 4 (sample_message 5)]" sample_broker "\<lambda>_. True"]
  by (simp add: sample_broker_def sample_message_def broker_subscribe_def MessageBroker_new_def copies_of_def dedup_ttl_def arrives_def topic_subscribers_def)

section \<open>Retransmission ends\<close>

lemma hm_get_fold_update:
  "distinct (map fst xs) \<Longrightarrow>
   hm_get (foldl (\<lambda>p (i, pm). case hm_get p i of Some x \<Rightarrow> hm_insert i (f pm x) p | None \<Rightarrow> p) p xs) k =
     (case map_of xs k of Some pm \<Rightarrow> map_option (f pm) (hm_get p k) | None \<Rightarrow> hm_get p k)"
proof (induction xs arbitrary: p)
  case (Cons x xs)
  let ?p = "case hm_get p (fst x) of Some y \<Rightarrow> hm_insert (fst x) (f (snd x) y) p | None \<Rightarrow> p"
  have "hm_get ?p k = (if k = fst x then map_option (f (snd x)) (hm_get p k) else hm_get p k)" by (auto split: option.split)
  moreover have "map_of xs (fst x) = None" using Cons.prems by (simp add: map_of_eq_None_iff)
  ultimately show ?case using Cons.IH [of ?p] Cons.prems by (auto simp: split_beta split: option.split)
qed simp

lemma hm_get_fold_remove: "hm_get (foldl (\<lambda>p i. hm_remove i p) p is) k = (if k \<in> set is then None else hm_get p k)"
  by (induction "is" arbitrary: p) auto

lemma hm_ok_fold_update: "hm_ok p \<Longrightarrow> hm_ok (foldl (\<lambda>p (i, pm). case hm_get p i of Some x \<Rightarrow> hm_insert i (f pm x) p | None \<Rightarrow> p) p xs)"
  by (induction xs arbitrary: p) (auto simp: split_beta split: option.split)

lemma hm_ok_fold_remove: "hm_ok p \<Longrightarrow> hm_ok (foldl (\<lambda>p i. hm_remove i p) p is)"
  by (induction "is" arbitrary: p) auto

definition pending_tick :: "int \<Rightarrow> PendingMessage \<Rightarrow> PendingMessage option" where
  "pending_tick now pm =
     (if retry_due now pm then Some (pm \<lparr> pm_retry_count := pm_retry_count pm + 1, pm_last_retry := now \<rparr>)
      else if 5 \<le> pm_retry_count pm then None else Some pm)"

lemma process_pending:
  assumes "hm_ok (nb_pending_messages (fst nbt))"
  shows "hm_get (nb_pending_messages (fst (process_pending_messages env now nbt))) i = Option.bind (hm_get (nb_pending_messages (fst nbt)) i) (pending_tick now)"
    and "hm_ok (nb_pending_messages (fst (process_pending_messages env now nbt)))"
proof -
  let ?p = "nb_pending_messages (fst nbt)"
  let ?r = "filter (\<lambda>(i, pm). retry_due now pm) ?p"
  have d: "distinct (map fst ?r)" using hm_ok_filter [OF assms] by (simp add: hm_ok_def)
  have rm: "i \<in> set (map fst (filter (\<lambda>(i, pm). \<not> retry_due now pm \<and> 5 \<le> pm_retry_count pm) ?p)) \<longleftrightarrow>
      (case hm_get ?p i of Some pm \<Rightarrow> \<not> retry_due now pm \<and> 5 \<le> pm_retry_count pm | None \<Rightarrow> False)"
    using hm_mem_get [OF assms] by (force split: option.splits)
  let ?u = "foldl (\<lambda>p (i, pm). case hm_get p i of
      Some x \<Rightarrow> hm_insert i (x \<lparr> pm_retry_count := pm_retry_count pm + 1, pm_last_retry := now \<rparr>) p | None \<Rightarrow> p) ?p ?r"
  have eq: "nb_pending_messages (fst (process_pending_messages env now nbt)) =
      foldl (\<lambda>p i. hm_remove i p) ?u (map fst (filter (\<lambda>(i, pm). \<not> retry_due now pm \<and> 5 \<le> pm_retry_count pm) ?p))"
    by (simp add: process_pending_messages_def Let_def split_beta)
  have u: "hm_get ?u i = (case hm_get ?r i of
      Some pm \<Rightarrow> map_option (\<lambda>x. x \<lparr> pm_retry_count := pm_retry_count pm + 1, pm_last_retry := now \<rparr>) (hm_get ?p i) | None \<Rightarrow> hm_get ?p i)"
    by (rule hm_get_fold_update [OF d])
  show "hm_get (nb_pending_messages (fst (process_pending_messages env now nbt))) i = Option.bind (hm_get ?p i) (pending_tick now)"
    unfolding eq hm_get_fold_remove rm u by (auto simp: hm_get_filter [OF assms] pending_tick_def split: option.splits)
  show "hm_ok (nb_pending_messages (fst (process_pending_messages env now nbt)))"
    unfolding eq by (rule hm_ok_fold_remove) (rule hm_ok_fold_update [OF assms])
qed

text \<open>Ticks that are more than ten seconds apart, the first one that long after the last retry.\<close>

fun spaced :: "int \<Rightarrow> int list \<Rightarrow> bool" where
  "spaced t [] = True"
| "spaced t (x # xs) = (10000000000 < x - t \<and> spaced x xs)"


definition sample_pending :: PendingMessage where
  "sample_pending =
     \<lparr> pm_message = sample_message 5, pm_first_sent = 0, pm_last_retry = 0, pm_retry_count = 4, pm_acked_by = [], pm_target_nodes = [2] \<rparr>"


text \<open>The acknowledgements are counted without looking at who sends them: one from a node that is no target can end the retransmission
  to a target that has not acknowledged.\<close>

theorem foreign_ack_completes:
  assumes "hm_get (nb_pending_messages nb) (ak_message_id a) = Some pm" and "pm_acked_by pm = []" and "pm_target_nodes pm = [n]"
    and "ak_node_id a \<noteq> n"
  shows "\<not> hm_contains (nb_pending_messages (handle_message_ack a nb)) (ak_message_id a)"
  using assms by (simp add: handle_message_ack_def Let_def)

end
