(* ===== verification/Master_Election.thy ===== *)
theory Master_Election
  imports Transport
begin

text \<open>
  Election of the master node (\<^verbatim>\<open>master.rs\<close>). The actor's handlers spawn tasks that send to other nodes and to the actor
  itself; a handler here returns the new state, the messages the actor sends to itself, in order, and what is sent to other nodes.
  \<^verbatim>\<open>Instant::now().elapsed()\<close> is the time since that very call, so \<^verbatim>\<open>last_update\<close> is set to zero. Nodes are compared by
  their identifiers as 128-bit numbers. The methods with \<^verbatim>\<open>async\<close> state the same rules without the detour through the mailbox.

  The lemmas show when a candidate is accepted, that two nodes never accept each other, and that in practice nobody is ever accepted.
\<close>

section \<open>State and priorities\<close>

record MasterActor =
  ms_local_node_id :: NodeId
  ms_state :: MasterState
  ms_nodes :: "(NodeId, NodeInfo) hashmap"
  ms_election_timeout :: int
  ms_last_master_heartbeat :: int
  ms_current_round :: u64

definition MasterActor_new :: "int \<Rightarrow> NodeId \<Rightarrow> (NodeId, NodeInfo) hashmap \<Rightarrow> MasterActor" where
  "MasterActor_new now n nodes =
     \<lparr> ms_local_node_id = n,
       ms_state = \<lparr> mst_master_id = n, mst_backup_masters = [], mst_last_update = 0, mst_version = 0 \<rparr>,
       ms_nodes = nodes, ms_election_timeout = 5000000000, ms_last_master_heartbeat = now, ms_current_round = 0 \<rparr>"

definition saturating_sub :: "u32 \<Rightarrow> u32 \<Rightarrow> u32" where
  "saturating_sub a b = (if b \<le> a then a - b else 0)"

definition calculate_priority :: "MasterActor \<Rightarrow> u32" where
  "calculate_priority a =
     (case hm_get (ms_nodes a) (ms_local_node_id a) of
        Some i \<Rightarrow>
          let load_factor = ucast (ni_load i);
              uptime = (ucast (case ni_joined_at i of Some x \<Rightarrow> x | None \<Rightarrow> 0) :: u32)
          in saturating_sub load_factor (uptime div 3600)
      | None \<Rightarrow> - 1)"

section \<open>The rules as methods\<close>

definition other_nodes :: "MasterActor \<Rightarrow> NodeId list" where
  "other_nodes a = filter (\<lambda>n. n \<noteq> ms_local_node_id a) (hm_keys (ms_nodes a))"

fun send_until_error :: "net_env \<Rightarrow> TransportMessage \<Rightarrow> NodeId list \<Rightarrow> P2PTransport \<Rightarrow> (ClusterError + unit) \<times> P2PTransport" where
  "send_until_error env m [] t = (Inr (), t)"
| "send_until_error env m (n # ns) t =
     (case send_message env n m t of (Inl e, t1) \<Rightarrow> (Inl e, t1) | (Inr _, t1) \<Rightarrow> send_until_error env m ns t1)"

definition start_election :: "net_env \<Rightarrow> MasterActor \<times> P2PTransport \<Rightarrow> (ClusterError + unit) \<times> MasterActor \<times> P2PTransport" where
  "start_election env s0 =
     (let (a, t) = s0; a1 = a \<lparr> ms_current_round := ms_current_round a + 1 \<rparr>;
          m = \<lparr> em_candidate_id = ms_local_node_id a1, em_priority = calculate_priority a1, em_round = ms_current_round a1 \<rparr>;
          (r, t1) = send_until_error env (TElection m) (other_nodes a1) t
      in (r, a1, t1))"

definition backup_candidates :: "NodeId \<Rightarrow> MasterActor \<Rightarrow> NodeId list" where
  "backup_candidates new_master a =
     map fst (take 2 (sort_key snd
       (map (\<lambda>(n, i). (n, ni_load i)) (filter (\<lambda>(n, i). n \<noteq> new_master \<and> ni_role i = Master) (ms_nodes a)))))"

definition update_master_state :: "NodeId \<Rightarrow> MasterActor \<Rightarrow> MasterActor" where
  "update_master_state n a =
     a \<lparr> ms_state := \<lparr> mst_master_id = n, mst_backup_masters = backup_candidates n a, mst_last_update = 0,
                        mst_version = mst_version (ms_state a) + 1 \<rparr> \<rparr>"

definition handle_election :: "net_env \<Rightarrow> ElectionMessage \<Rightarrow> MasterActor \<times> P2PTransport \<Rightarrow> (ClusterError + unit) \<times> MasterActor \<times> P2PTransport" where
  "handle_election env m s0 =
     (let (a, t) = s0
      in if em_round m < ms_current_round a then (Inr (), a, t)
         else
           let a1 = (if ms_current_round a < em_round m then a \<lparr> ms_current_round := em_round m \<rparr> else a);
               p = calculate_priority a1
           in if p < em_priority m then start_election env (a1, t)
              else if em_priority m < p then (Inr (), update_master_state (em_candidate_id m) a1, t)
              else if ms_local_node_id a1 < em_candidate_id m then start_election env (a1, t)
              else (Inr (), a1, t))"

definition check_master_health :: "net_env \<Rightarrow> int \<Rightarrow> MasterActor \<times> P2PTransport \<Rightarrow> (ClusterError + unit) \<times> MasterActor \<times> P2PTransport" where
  "check_master_health env now s0 =
     (let (a, t) = s0
      in if mst_master_id (ms_state a) = ms_local_node_id a then (Inr (), a \<lparr> ms_last_master_heartbeat := now \<rparr>, t)
         else if ms_election_timeout a < max 0 (now - ms_last_master_heartbeat a) then
           (case mst_backup_masters (ms_state a) of
              b # _ \<Rightarrow> if b = ms_local_node_id a then start_election env (a, t) else (Inr (), a, t)
            | [] \<Rightarrow> (Inr (), a, t))
         else (Inr (), a, t))"

section \<open>The actor\<close>

datatype self_message = SelfElection ElectionMessage | UpdateMaster NodeId | UpdateBackupMasters "NodeId list"

record reaction =
  rx_actor :: MasterActor
  rx_self :: "self_message list"
  rx_sent :: "(NodeId \<times> TransportMessage) list"

definition quiet :: "MasterActor \<Rightarrow> reaction" where
  "quiet a = \<lparr> rx_actor = a, rx_self = [], rx_sent = [] \<rparr>"

definition campaign :: "u64 \<Rightarrow> MasterActor \<Rightarrow> reaction" where
  "campaign rnd a =
     (let m = \<lparr> em_candidate_id = ms_local_node_id a, em_priority = calculate_priority a, em_round = rnd \<rparr>
      in \<lparr> rx_actor = a, rx_self = [SelfElection m], rx_sent = map (\<lambda>n. (n, TElection m)) (other_nodes a) \<rparr>)"

definition handle_CheckMasterHealth :: "int \<Rightarrow> MasterActor \<Rightarrow> reaction" where
  "handle_CheckMasterHealth now a =
     (if mst_master_id (ms_state a) = ms_local_node_id a then quiet (a \<lparr> ms_last_master_heartbeat := now \<rparr>)
      else if ms_election_timeout a < max 0 (now - ms_last_master_heartbeat a) then
        (case mst_backup_masters (ms_state a) of
           b # _ \<Rightarrow> if b = ms_local_node_id a then campaign (ms_current_round a + 1) a else quiet a
         | [] \<Rightarrow> quiet a)
      else quiet a)"

definition handle_ElectionMessage :: "ElectionMessage \<Rightarrow> MasterActor \<Rightarrow> reaction" where
  "handle_ElectionMessage m a =
     (if em_round m < ms_current_round a then quiet a
      else
        let a1 = (if ms_current_round a < em_round m then a \<lparr> ms_current_round := em_round m \<rparr> else a);
            p = calculate_priority a1
        in if p < em_priority m then campaign (ms_current_round a1) a1
           else if em_priority m < p then \<lparr> rx_actor = a1, rx_self = [UpdateMaster (em_candidate_id m)], rx_sent = [] \<rparr>
           else if ms_local_node_id a1 < em_candidate_id m then campaign (ms_current_round a1) a1
           else quiet a1)"

definition handle_UpdateMaster :: "NodeId \<Rightarrow> MasterActor \<Rightarrow> reaction" where
  "handle_UpdateMaster n a =
     (let s = ms_state a
      in \<lparr> rx_actor = a \<lparr> ms_state := s \<lparr> mst_master_id := n, mst_last_update := 0, mst_version := mst_version s + 1 \<rparr> \<rparr>,
           rx_self = [UpdateBackupMasters (backup_candidates n a)], rx_sent = [] \<rparr>)"

definition handle_UpdateBackupMasters :: "NodeId list \<Rightarrow> MasterActor \<Rightarrow> reaction" where
  "handle_UpdateBackupMasters ns a = quiet (a \<lparr> ms_state := (ms_state a) \<lparr> mst_backup_masters := ns \<rparr> \<rparr>)"

fun handle_self :: "self_message \<Rightarrow> MasterActor \<Rightarrow> reaction" where
  "handle_self (SelfElection m) a = handle_ElectionMessage m a"
| "handle_self (UpdateMaster n) a = handle_UpdateMaster n a"
| "handle_self (UpdateBackupMasters ns) a = handle_UpdateBackupMasters ns a"

section \<open>Who is accepted\<close>

lemma calculate_priority_round [simp]:
  "calculate_priority (a \<lparr> ms_current_round := r \<rparr>) = calculate_priority a"
  "calculate_priority (a \<lparr> ms_last_master_heartbeat := h \<rparr>) = calculate_priority a"
  "calculate_priority (a \<lparr> ms_state := s \<rparr>) = calculate_priority a"
  by (simp_all add: calculate_priority_def)

lemma accepts_iff:
  "UpdateMaster c \<in> set (rx_self (handle_ElectionMessage m a)) \<longleftrightarrow>
     c = em_candidate_id m \<and> ms_current_round a \<le> em_round m \<and> em_priority m < calculate_priority a"
  by (auto simp: handle_ElectionMessage_def quiet_def campaign_def Let_def)

lemma campaigns_iff:
  "rx_sent (handle_ElectionMessage m a) \<noteq> [] \<longleftrightarrow>
     other_nodes a \<noteq> [] \<and> ms_current_round a \<le> em_round m
     \<and> (calculate_priority a < em_priority m \<or> calculate_priority a = em_priority m \<and> ms_local_node_id a < em_candidate_id m)"
  by (auto simp: handle_ElectionMessage_def quiet_def campaign_def other_nodes_def Let_def)

lemma campaign_answers:
  "(n, TElection m) \<in> set (rx_sent (campaign r a)) \<Longrightarrow> em_priority m = calculate_priority a \<and> em_candidate_id m = ms_local_node_id a"
  by (auto simp: campaign_def Let_def)

text \<open>
  An election between two nodes is decided for one of them at most: when a node accepts a candidate that campaigns with its own
  priority, that candidate does not accept the node in return; and the accepted candidate's state gets at most two backups, masters other than the
  candidate, none of them more loaded than a master that was left out.
\<close>

theorem election_antisymmetric:
  assumes "em_priority ma = calculate_priority a" and "em_priority mb = calculate_priority b"
    and "UpdateMaster (em_candidate_id mb) \<in> set (rx_self (handle_ElectionMessage mb a))"
  shows "UpdateMaster (em_candidate_id ma) \<notin> set (rx_self (handle_ElectionMessage ma b))"
  using assms by (auto simp: accepts_iff)

theorem backups_chosen:
  assumes "hm_ok (ms_nodes a)"
  shows "length (backup_candidates n a) \<le> 2
     \<and> (\<forall>b\<in>set (backup_candidates n a). b \<noteq> n \<and> (\<exists>i. hm_get (ms_nodes a) b = Some i \<and> ni_role i = Master
          \<and> (\<forall>c j. hm_get (ms_nodes a) c = Some j \<and> c \<noteq> n \<and> ni_role j = Master \<and> c \<notin> set (backup_candidates n a) \<longrightarrow> ni_load i \<le> ni_load j)))"
proof -
  let ?m = "map (\<lambda>(n, i). (n, ni_load i)) (filter (\<lambda>(k, i). k \<noteq> n \<and> ni_role i = Master) (ms_nodes a))"
  let ?s = "sort_key snd ?m"
  have mem: "(b, l) \<in> set ?s \<longleftrightarrow> (\<exists>i. hm_get (ms_nodes a) b = Some i \<and> b \<noteq> n \<and> ni_role i = Master \<and> l = ni_load i)" for b l
    using hm_mem_get [OF assms] by force
  have bc: "set (backup_candidates n a) = fst ` set (take 2 ?s)" by (simp add: backup_candidates_def)
  have sorted: "\<forall>x\<in>snd ` set (take 2 ?s). \<forall>y\<in>snd ` set (drop 2 ?s). x \<le> y"
  proof -
    have "sorted (map snd (take 2 ?s @ drop 2 ?s))" unfolding append_take_drop_id by (rule sorted_sort_key)
    then show ?thesis unfolding map_append sorted_append set_map by blast
  qed
  have split: "set ?s = set (take 2 ?s) \<union> set (drop 2 ?s)" by (metis append_take_drop_id set_append)
  have "length (backup_candidates n a) \<le> 2" by (simp add: backup_candidates_def)
  moreover have "b \<noteq> n \<and> (\<exists>i. hm_get (ms_nodes a) b = Some i \<and> ni_role i = Master
      \<and> (\<forall>c j. hm_get (ms_nodes a) c = Some j \<and> c \<noteq> n \<and> ni_role j = Master \<and> c \<notin> set (backup_candidates n a) \<longrightarrow> ni_load i \<le> ni_load j))"
    if "b \<in> set (backup_candidates n a)" for b
  proof -
    from that bc obtain l where l: "(b, l) \<in> set (take 2 ?s)" by auto
    then obtain i where i: "hm_get (ms_nodes a) b = Some i" "b \<noteq> n" "ni_role i = Master" "l = ni_load i"
      using mem split by blast
    have "ni_load i \<le> ni_load j" if "hm_get (ms_nodes a) c = Some j" "c \<noteq> n" "ni_role j = Master" "c \<notin> set (backup_candidates n a)" for c j
    proof -
      have "(c, ni_load j) \<in> set ?s" using that mem by blast
      then have "(c, ni_load j) \<in> set (drop 2 ?s)" using that(4) bc split by force
      then show ?thesis using sorted l i(4) by force
    qed
    then show ?thesis using i by blast
  qed
  ultimately show ?thesis by blast
qed

section \<open>Nobody is accepted\<close>

text \<open>
  The priority subtracts the hours of the \<^emph>\<open>time stamp\<close> at which the node joined, in milliseconds and cut to 32 bits, not of the time it has been up. Loads
  are at most 100, so a node whose stamp is not within six minutes after a multiple of \<open>2 ^ 32\<close> milliseconds has priority zero.
\<close>

lemma priority_zero:
  assumes "hm_get (ms_nodes a) (ms_local_node_id a) = Some i" and "ni_joined_at i = Some x" and "ni_load i \<le> 100" and "360000 \<le> (ucast x :: u32)"
  shows "calculate_priority a = 0"
proof -
  have "unat (ni_load i) \<le> 100" using assms(3) by (simp add: word_le_nat_alt)
  then have l: "unat (ucast (ni_load i) :: u32) \<le> 100" by (simp add: unsigned_ucast_eq take_bit_nat_eq_self)
  have "360000 \<le> unat (ucast x :: u32)" using assms(4) by (simp add: word_le_nat_alt)
  then have u: "100 \<le> unat ((ucast x :: u32) div 3600)" by (simp add: unat_div)
  have "ucast (ni_load i) \<le> (ucast x :: u32) div 3600" using l u by (simp add: word_le_nat_alt)
  then show ?thesis using assms(1,2) by (auto simp: calculate_priority_def saturating_sub_def Let_def)
qed

text \<open>What can happen to the actor: its timer, a message of another node, or one of its own messages, which come in any order.\<close>

inductive master_step :: "MasterActor \<times> self_message list \<Rightarrow> MasterActor \<times> self_message list \<Rightarrow> bool" where
  tick: "r = handle_CheckMasterHealth now a \<Longrightarrow> master_step (a, q) (rx_actor r, q @ rx_self r)"
| remote: "r = handle_ElectionMessage m a \<Longrightarrow> master_step (a, q) (rx_actor r, q @ rx_self r)"
| own: "r = handle_self m a \<Longrightarrow> master_step (a, m # q) (rx_actor r, q @ rx_self r)"

text \<open>The master never changes while the node has priority zero.\<close>

definition stuck :: "NodeId \<Rightarrow> MasterActor \<times> self_message list \<Rightarrow> bool" where
  "stuck n s = (calculate_priority (fst s) = 0 \<and> mst_master_id (ms_state (fst s)) = n \<and> (\<forall>c. UpdateMaster c \<notin> set (snd s)))"

lemma stuck_election:
  "stuck n (a, q) \<Longrightarrow> stuck n (rx_actor (handle_ElectionMessage m a), q @ rx_self (handle_ElectionMessage m a))"
  by (auto simp: stuck_def handle_ElectionMessage_def quiet_def campaign_def Let_def)

lemma stuck_step: "master_step s s' \<Longrightarrow> stuck n s \<Longrightarrow> stuck n s'"
proof (induction rule: master_step.induct)
  case (tick r now a q)
  then show ?case by (auto simp: stuck_def handle_CheckMasterHealth_def quiet_def campaign_def Let_def split: list.split)
next
  case (remote r m a q)
  then show ?case using stuck_election by simp
next
  case (own r m a q)
  then have "stuck n (a, q)" by (simp add: stuck_def)
  with own show ?case
    by (cases m) (auto simp: stuck_election, auto simp: stuck_def handle_UpdateBackupMasters_def quiet_def)
qed

theorem master_never_changes:
  assumes "hm_get nodes n = Some i" and "ni_joined_at i = Some x" and "ni_load i \<le> 100" and "360000 \<le> (ucast x :: u32)"
    and "master_step\<^sup>*\<^sup>* (MasterActor_new now n nodes, []) s"
  shows "mst_master_id (ms_state (fst s)) = n"
proof -
  have "stuck n (MasterActor_new now n nodes, [])"
    using priority_zero [of "MasterActor_new now n nodes" i x] assms(1-4) by (simp add: stuck_def MasterActor_new_def)
  with assms(5) have "stuck n s" by (induction rule: rtranclp_induct) (auto intro: stuck_step)
  then show ?thesis by (simp add: stuck_def)
qed

end
