(* ===== verification/Supervision.thy ===== *)
theory Supervision
  imports Cluster_Node
begin

text \<open>
  Supervision of distributed actors (\<^verbatim>\<open>actix-cluster/src/supervision.rs\<close>). Starting an actor gives it a new address, the number
  \<open>ds_next_addr\<close>. Times and windows are seconds, delays milliseconds; times count from the epoch, so \<open>now - prev\<close> wraps when the clock was set back, as in a release build. The error that a
  supervisor handles is always a reference to a trait object, whose type name is the same for all errors: \<open>type_name\<close> is that name, and the
  \<open>error_type\<close> of every failure is equal to it. What the default reaction of an actor to its own failure does is a list of actions.

  The lemmas show that a burst of failures within the window restarts the actor at most \<open>max_restarts\<close> times, that failures spaced wider than the window are
  restarted for ever, and that the history of failures holds the last ten.
\<close>

section \<open>Strategies\<close>

datatype SupervisionStrategy =
    Restart nat int int
  | Stop
  | Escalate
  | Relocate PlacementStrategy nat int
  | Resume
  | Match SupervisionStrategy "(string \<times> SupervisionStrategy) list"

definition SupervisionStrategy_default :: SupervisionStrategy where
  "SupervisionStrategy_default = Restart 10 60 100"

record FailureInfo =
  fi_actor_path :: string
  fi_node_id :: NodeId
  fi_time :: u64
  fi_error :: string
  fi_error_type :: string
  fi_restart_count :: nat
  fi_failure_id :: "128 word"

definition FailureInfo_new :: "128 word \<Rightarrow> u64 \<Rightarrow> string \<Rightarrow> string \<Rightarrow> NodeId \<Rightarrow> string \<Rightarrow> nat \<Rightarrow> FailureInfo" where
  "FailureInfo_new uid wall type_name path n err count =
     \<lparr> fi_actor_path = path, fi_node_id = n, fi_time = wall, fi_error = err, fi_error_type = type_name, fi_restart_count = count,
       fi_failure_id = uid \<rparr>"

definition matched_strategy :: "SupervisionStrategy \<Rightarrow> (string \<times> SupervisionStrategy) list \<Rightarrow> string \<Rightarrow> SupervisionStrategy" where
  "matched_strategy dflt ms ty = (case find (\<lambda>m. fst m = ty) ms of Some m \<Rightarrow> snd m | None \<Rightarrow> dflt)"

section \<open>The reaction of an actor to its own failure\<close>

datatype action = StopContext | BeforeRestart FailureInfo | BeforeRelocate NodeId FailureInfo

fun actor_handle_failure :: "NodeId \<Rightarrow> SupervisionStrategy \<Rightarrow> FailureInfo \<Rightarrow> action list" where
  "actor_handle_failure fresh Stop f = [StopContext]"
| "actor_handle_failure fresh Resume f = []"
| "actor_handle_failure fresh (Restart max_restarts window delay) f =
     (if max_restarts \<le> fi_restart_count f then [StopContext] else [BeforeRestart f])"
| "actor_handle_failure fresh (Relocate placement max_relocations delay) f =
     (if max_relocations \<le> fi_restart_count f then [StopContext] else [BeforeRelocate fresh f])"
| "actor_handle_failure fresh Escalate f = [StopContext]"
| "actor_handle_failure fresh (Match dflt ms) f =
     (if matched_strategy dflt ms (fi_error_type f) \<noteq> Stop then [BeforeRestart f] else [StopContext])"

section \<open>The supervisor\<close>

record DistributedSupervisor =
  ds_strategy :: SupervisionStrategy
  ds_restart_count :: nat
  ds_last_restart :: "u64 option"
  ds_actor_path :: string
  ds_addr :: "nat option"
  ds_node_id :: NodeId
  ds_next_addr :: nat

definition DistributedSupervisor_new :: "string \<Rightarrow> SupervisionStrategy \<Rightarrow> SupervisionStrategy option \<Rightarrow> DistributedSupervisor" where
  "DistributedSupervisor_new path own strategy =
     \<lparr> ds_strategy = (case strategy of Some s \<Rightarrow> s | None \<Rightarrow> own), ds_restart_count = 0, ds_last_restart = None, ds_actor_path = path,
       ds_addr = None, ds_node_id = NodeId_local, ds_next_addr = 0 \<rparr>"

definition start :: "DistributedSupervisor \<Rightarrow> nat \<times> DistributedSupervisor" where
  "start d = (ds_next_addr d, d \<lparr> ds_addr := Some (ds_next_addr d), ds_next_addr := Suc (ds_next_addr d) \<rparr>)"

definition restart_actor :: "u64 \<Rightarrow> nat \<Rightarrow> int \<Rightarrow> DistributedSupervisor \<Rightarrow> nat option \<times> DistributedSupervisor" where
  "restart_actor now max_restarts window d =
     (let d1 = (case ds_last_restart d of
                  Some prev \<Rightarrow> if window < uint (now - prev) then d \<lparr> ds_restart_count := 0 \<rparr> else d
                | None \<Rightarrow> d)
      in if max_restarts \<le> ds_restart_count d1 then (None, d1)
         else let (a, d2) = start (d1 \<lparr> ds_restart_count := Suc (ds_restart_count d1), ds_last_restart := Some now \<rparr>) in (Some a, d2))"

definition relocate_actor :: "nat \<Rightarrow> DistributedSupervisor \<Rightarrow> nat option \<times> DistributedSupervisor" where
  "relocate_actor max_relocations d =
     (if max_relocations \<le> ds_restart_count d then (None, d)
      else let (a, d1) = start (d \<lparr> ds_restart_count := Suc (ds_restart_count d) \<rparr>) in (Some a, d1))"

lemma matched_strategy_cases: "matched_strategy dflt ms ty = dflt \<or> (\<exists>m\<in>set ms. matched_strategy dflt ms ty = snd m)"
proof (cases "find (\<lambda>m. fst m = ty) ms")
  case (Some m)
  then have "m \<in> set ms" by (auto simp: find_Some_iff)
  then show ?thesis using Some by (auto simp: matched_strategy_def)
qed (simp add: matched_strategy_def)

lemma matched_size: "size (matched_strategy dflt ms ty) < size (Match dflt ms)"
proof -
  have "size (snd m) < size (Match dflt ms)" if "m \<in> set ms" for m
  proof -
    have "size_prod (\<lambda>_. 0) size m \<le> size_list (size_prod (\<lambda>_. 0) size) ms" using that by (rule size_list_estimation') simp
    then show ?thesis by (cases m) simp
  qed
  then show ?thesis using matched_strategy_cases [of dflt ms ty] by force
qed

text \<open>The recursion is on the strategy: a matched one is applied by a temporary supervisor, whose changes are kept if it gives an address.\<close>

function apply_strategy :: "string \<Rightarrow> u64 \<Rightarrow> SupervisionStrategy \<Rightarrow> DistributedSupervisor \<Rightarrow> nat option \<times> DistributedSupervisor" where
  "apply_strategy ty now Stop d = (None, d)"
| "apply_strategy ty now Resume d = (ds_addr d, d)"
| "apply_strategy ty now (Restart max_restarts window delay) d = restart_actor now max_restarts window d"
| "apply_strategy ty now (Relocate placement max_relocations delay) d = relocate_actor max_relocations d"
| "apply_strategy ty now Escalate d = (None, d)"
| "apply_strategy ty now (Match dflt ms) d =
     (let (r, tmp) = apply_strategy ty now (matched_strategy dflt ms ty) d
      in (r, (if r \<noteq> None
              then d \<lparr> ds_restart_count := ds_restart_count tmp, ds_last_restart := ds_last_restart tmp, ds_addr := ds_addr tmp \<rparr> else d)
             \<lparr> ds_next_addr := ds_next_addr tmp \<rparr>))"
  by pat_completeness auto

termination
  by (relation "measure (\<lambda>(ty, now, s, d). size s)") (simp_all only: in_measure case_prod_conv matched_size wf_measure)

definition handle_failure :: "string \<Rightarrow> u64 \<Rightarrow> DistributedSupervisor \<Rightarrow> nat option \<times> DistributedSupervisor" where
  "handle_failure ty now d = apply_strategy ty now (ds_strategy d) d"

section \<open>The supervisor actor\<close>

record SupervisorActor =
  sa_supervisor :: DistributedSupervisor
  sa_last_failure :: "u64 option"
  sa_failure_history :: "FailureInfo list"

definition SupervisorActor_new :: "string \<Rightarrow> SupervisionStrategy \<Rightarrow> SupervisionStrategy option \<Rightarrow> SupervisorActor" where
  "SupervisorActor_new path own strategy =
     \<lparr> sa_supervisor = DistributedSupervisor_new path own strategy, sa_last_failure = None, sa_failure_history = [] \<rparr>"

definition SupervisorActor_started :: "SupervisorActor \<Rightarrow> SupervisorActor" where
  "SupervisorActor_started a = a \<lparr> sa_supervisor := snd (start (sa_supervisor a)) \<rparr>"

definition SupervisedActorProps_start :: "string \<Rightarrow> SupervisionStrategy \<Rightarrow> SupervisionStrategy \<Rightarrow> SupervisorActor" where
  "SupervisedActorProps_start path own strategy = SupervisorActor_started (SupervisorActor_new path own (Some strategy))"

definition handle_ReportFailure :: "128 word \<Rightarrow> string \<Rightarrow> u64 \<Rightarrow> string \<Rightarrow> SupervisorActor \<Rightarrow> nat option \<times> SupervisorActor" where
  "handle_ReportFailure uid ty now err a =
     (let sup = sa_supervisor a;
          f = FailureInfo_new uid now ty (ds_actor_path sup) (ds_node_id sup) err (ds_restart_count sup);
          h = sa_failure_history a @ [f];
          h' = (if 10 < length h then tl h else h);
          (r, sup') = handle_failure ty now sup
      in (r, a \<lparr> sa_last_failure := Some now, sa_failure_history := h', sa_supervisor := sup' \<rparr>))"

definition handle_GetActorAddr :: "SupervisorActor \<Rightarrow> nat option" where
  "handle_GetActorAddr a = ds_addr (sa_supervisor a)"

definition handle_GetFailureHistory :: "SupervisorActor \<Rightarrow> FailureInfo list" where
  "handle_GetFailureHistory a = sa_failure_history a"

section \<open>How often an actor is restarted\<close>

fun failures :: "string \<Rightarrow> u64 list \<Rightarrow> DistributedSupervisor \<Rightarrow> nat option list \<times> DistributedSupervisor" where
  "failures ty [] d = ([], d)"
| "failures ty (now # ts) d = (let (r, d1) = handle_failure ty now d; (rs, d2) = failures ty ts d1 in (r # rs, d2))"

lemma uint_word_diff: "prev \<le> t \<Longrightarrow> uint (t - prev) = uint t - uint (prev :: u64)"
  by (simp add: word_le_def uint_sub_lem)

lemma restart_actor_strategy: "ds_strategy (snd (restart_actor now m w d)) = ds_strategy d"
  by (auto simp: restart_actor_def start_def Let_def split: option.split)

text \<open>All failures lie between \<open>lo\<close> and \<open>lo + window\<close>, and so does the last restart, so the counter is never reset.\<close>

lemma burst_results:
  assumes "ds_strategy d = Restart m w delay" and "\<forall>t\<in>set ts. lo \<le> uint t \<and> uint t \<le> lo + w" and "sorted ts"
    and "\<forall>prev. ds_last_restart d = Some prev \<longrightarrow> lo \<le> uint prev \<and> (\<forall>t\<in>set ts. prev \<le> t)" and "ds_restart_count d \<le> m"
  shows "map (\<lambda>r. r \<noteq> None) (fst (failures ty ts d)) = map (\<lambda>i. ds_restart_count d + i < m) [0..<length ts]"
  using assms
proof (induction ts arbitrary: d)
  case (Cons t ts)
  have keep: "\<not> w < uint (t - prev)" if "ds_last_restart d = Some prev" for prev
  proof -
    have "prev \<le> t" "lo \<le> uint prev" "uint t \<le> lo + w" using Cons.prems that by simp_all
    then have "uint (t - prev) = uint t - uint prev" by (simp add: uint_word_diff)
    then show ?thesis using \<open>lo \<le> uint prev\<close> \<open>uint t \<le> lo + w\<close> by simp
  qed
  let ?d1 = "snd (handle_failure ty t d)"
  have h: "handle_failure ty t d =
      (if m \<le> ds_restart_count d then (None, d)
       else (Some (ds_next_addr d), d \<lparr> ds_restart_count := Suc (ds_restart_count d), ds_last_restart := Some t,
               ds_addr := Some (ds_next_addr d), ds_next_addr := Suc (ds_next_addr d) \<rparr>))"
    using keep Cons.prems(1) by (auto simp: handle_failure_def restart_actor_def start_def Let_def split: option.split)
  have "[0..<length (t # ts)] = 0 # map Suc [0..<length ts]" by (simp add: upt_conv_Cons map_Suc_upt del: upt_Suc)
  then have split: "map (\<lambda>i. ds_restart_count d + i < m) [0..<length (t # ts)] =
      (ds_restart_count d < m) # map (\<lambda>i. ds_restart_count d + Suc i < m) [0..<length ts]" by (simp add: comp_def)
  show ?case
  proof (cases "m \<le> ds_restart_count d")
    case True
    then have "map (\<lambda>r. r \<noteq> None) (fst (failures ty ts d)) = map (\<lambda>i. ds_restart_count d + i < m) [0..<length ts]"
      using Cons by simp
    then show ?thesis unfolding split using True h by (simp add: split_beta)
  next
    case False
    let ?d = "d \<lparr> ds_restart_count := Suc (ds_restart_count d), ds_last_restart := Some t, ds_addr := Some (ds_next_addr d),
      ds_next_addr := Suc (ds_next_addr d) \<rparr>"
    have "map (\<lambda>r. r \<noteq> None) (fst (failures ty ts ?d)) = map (\<lambda>i. ds_restart_count ?d + i < m) [0..<length ts]"
      using Cons.prems False by (intro Cons.IH) auto
    then show ?thesis unfolding split using False h by (simp add: split_beta)
  qed
qed simp

text \<open>Failures that are more than a window apart reset the counter each time.\<close>

lemma spaced_results:
  assumes "0 \<le> w" and "0 < m" and "sorted_wrt (\<lambda>s t. w < uint t - uint s) ts" and "ds_strategy d = Restart m w delay"
    and "ds_restart_count d = 0 \<and> ds_last_restart d = None \<or> (\<exists>prev. ds_last_restart d = Some prev \<and> (\<forall>t\<in>set ts. w < uint t - uint prev))"
  shows "None \<notin> set (fst (failures ty ts d))"
  using assms(3-5)
proof (induction ts arbitrary: d)
  case (Cons t ts)
  have reset: "w < uint (t - prev)" if "ds_last_restart d = Some prev" for prev
  proof -
    have "w < uint t - uint prev" using Cons.prems(3) that by auto
    moreover from this have "uint (t - prev) = uint t - uint prev" using assms(1) by (simp add: uint_word_diff word_le_def)
    ultimately show ?thesis by simp
  qed
  let ?d1 = "snd (handle_failure ty t d)"
  have "fst (handle_failure ty t d) \<noteq> None \<and> ds_last_restart ?d1 = Some t \<and> ds_strategy ?d1 = ds_strategy d"
    using Cons.prems(2,3) assms(2) reset by (auto simp: handle_failure_def restart_actor_def start_def Let_def split: option.split)
  then show ?case using Cons.IH [of ?d1] Cons.prems by (auto simp: split_beta)
qed simp



section \<open>Matching and the history\<close>

text \<open>Since every failure has the same type name, a matcher for any other name is never used: the default decides.\<close>

theorem matchers_ignored:
  assumes "ds_strategy d = Match dflt ms" and "ty \<notin> fst ` set ms"
  shows "fst (handle_failure ty now d) = fst (apply_strategy ty now dflt d)"
proof -
  have "find (\<lambda>m. fst m = ty) ms = None" using assms(2) by (force simp: find_None_iff)
  then show ?thesis using assms(1) by (simp add: handle_failure_def matched_strategy_def split_beta)
qed

fun reports :: "128 word \<Rightarrow> string \<Rightarrow> (u64 \<times> string) list \<Rightarrow> SupervisorActor \<Rightarrow> SupervisorActor" where
  "reports uid ty [] a = a"
| "reports uid ty ((now, err) # es) a = reports uid ty es (snd (handle_ReportFailure uid ty now err a))"

lemma history_step:
  "length (sa_failure_history a) \<le> 10 \<Longrightarrow>
   map fi_error (sa_failure_history (snd (handle_ReportFailure uid ty now err a))) =
     (let h = map fi_error (sa_failure_history a) @ [err] in drop (length h - 10) h)"
proof -
  assume l: "length (sa_failure_history a) \<le> 10"
  show ?thesis
  proof (cases "length (sa_failure_history a) = 10")
    case True
    then show ?thesis by (cases "sa_failure_history a") (simp_all add: handle_ReportFailure_def FailureInfo_new_def Let_def split_beta)
  qed (use l in \<open>simp add: handle_ReportFailure_def FailureInfo_new_def Let_def split_beta\<close>)
qed

text \<open>The history is the last ten errors that were reported, in order.\<close>

theorem failure_history:
  "map fi_error (sa_failure_history (reports uid ty es (SupervisorActor_new path own strategy))) = drop (length es - 10) (map snd es)"
proof -
  have "length (sa_failure_history a) \<le> 10 \<Longrightarrow>
      map fi_error (sa_failure_history (reports uid ty es a)) =
        (let h = map fi_error (sa_failure_history a) @ map snd es in drop (length h - 10) h)" for a
  proof (induction uid ty es a rule: reports.induct)
    case (2 uid ty now err es a)
    let ?a = "snd (handle_ReportFailure uid ty now err a)"
    have e: "map fi_error (sa_failure_history ?a) = (let h = map fi_error (sa_failure_history a) @ [err] in drop (length h - 10) h)"
      using 2(2) by (rule history_step)
    then have "length (map fi_error (sa_failure_history ?a)) \<le> 10" by (simp add: Let_def)
    then have "length (sa_failure_history ?a) \<le> 10" by simp
    have "length (sa_failure_history a) - 9 \<le> 1" using 2(2) by simp
    then have "length (sa_failure_history a) + length es - (length (sa_failure_history a) - 9 + 9) + (length (sa_failure_history a) - 9) =
        length (sa_failure_history a) + length es - 9" by simp
    with 2(1) [OF \<open>length (sa_failure_history ?a) \<le> 10\<close>] e show ?case by (simp add: Let_def drop_append)
  qed simp
  then show ?thesis by (simp add: SupervisorActor_new_def)
qed

end
