(* ===== verification/Migration.thy ===== *)
theory Migration
  imports Actor_Registry
begin

text \<open>
  Migration of actors between nodes (\<^verbatim>\<open>actix-cluster/src/migration.rs\<close>). The manager asks the target node, and both sides keep a list of
  migrations with their status, in which the first entry of an id counts. The bincode encodings of requests and responses are the arguments
  \<open>enc_request\<close> and \<open>enc_response\<close>, \<open>None\<close> for a failure. The registry is looked up through the transport \<open>rt\<close> it was given; the manager sends
  through its own.

  The lemmas show that the list is a finite map of ids to statuses, what every operation does to it, and that sending and recording are not tied
  together: a request that could not be sent stays \<open>InProgress\<close>.
\<close>

section \<open>Messages\<close>

datatype MigrationProtocol = MigrationRequestMsg | MigrationResponseMsg | StateTransferMsg | MigrationCompleteMsg | MigrationFailedMsg

datatype MigrationStatus = InProgress | Completed | MigFailed

datatype MigrationReason = LoadBalancing | NodeFailure | LocalityOptimization | ApplicationRequest

record MigrationOptions =
  mo_preserve_state :: bool
  mo_keep_original :: bool
  mo_timeout :: int
  mo_priority :: u8

definition MigrationOptions_default :: MigrationOptions where
  "MigrationOptions_default = \<lparr> mo_preserve_state = True, mo_keep_original = True, mo_timeout = 30, mo_priority = 5 \<rparr>"

record MigrationActorState =
  as_actor_type :: string
  as_path :: string
  as_state :: bytes

record MigrationRequest =
  mr_id :: Uuid
  mr_source_node :: NodeId
  mr_target_node :: NodeId
  mr_actor_path :: string
  mr_actor_type :: string
  mr_reason :: MigrationReason
  mr_options :: MigrationOptions

record MigrationResponse =
  mp_request_id :: Uuid
  mp_accepted :: bool
  mp_rejection_reason :: "string option"

section \<open>The manager\<close>

record 'a MigrationManager =
  mm_local_node_id :: NodeId
  mm_registry :: "'a ActorRegistry"
  mm_transport :: "P2PTransport option"
  mm_active_migrations :: "(Uuid \<times> MigrationStatus) list"

definition MigrationManager_new :: "NodeId \<Rightarrow> 'a ActorRegistry \<Rightarrow> 'a MigrationManager" where
  "MigrationManager_new n g = \<lparr> mm_local_node_id = n, mm_registry = g, mm_transport = None, mm_active_migrations = [] \<rparr>"

definition MigrationManager_set_transport :: "P2PTransport \<Rightarrow> 'a MigrationManager \<Rightarrow> 'a MigrationManager" where
  "MigrationManager_set_transport t m = m \<lparr> mm_transport := Some t \<rparr>"

text \<open>The part that sends to the manager of another node; without a transport it fails.\<close>

definition send_to_manager ::
  "net_env \<Rightarrow> Uuid \<Rightarrow> NodeId \<Rightarrow> string \<Rightarrow> bytes option \<Rightarrow> 'a MigrationManager \<Rightarrow> (ClusterError + unit) \<times> 'a MigrationManager" where
  "send_to_manager env uid target kind payload m =
     (case mm_transport m of
        None \<Rightarrow> (Inl TransportError, m)
      | Some t \<Rightarrow>
          (case payload of
             None \<Rightarrow> (Inl SerializationError, m)
           | Some b \<Rightarrow>
               (let e = MessageEnvelope_new uid (ne_wall env) (mm_local_node_id m) target ''/system/migration-manager'' (Custom kind) AtLeastOnce b;
                    (r, t1) = send_message env target (TEnvelope e) t
                in (r, m \<lparr> mm_transport := Some t1 \<rparr>))))"

definition push_migration :: "Uuid \<Rightarrow> 'a MigrationManager \<Rightarrow> 'a MigrationManager" where
  "push_migration i m = m \<lparr> mm_active_migrations := mm_active_migrations m @ [(i, InProgress)] \<rparr>"

definition migrate_actor ::
  "net_env \<Rightarrow> bool \<Rightarrow> int \<Rightarrow> P2PTransport \<Rightarrow> (MigrationRequest \<Rightarrow> bytes option) \<Rightarrow> Uuid \<Rightarrow> Uuid \<Rightarrow> string \<Rightarrow> NodeId \<Rightarrow> MigrationReason
     \<Rightarrow> MigrationOptions \<Rightarrow> 'a MigrationManager \<Rightarrow> (ClusterError + Uuid) \<times> 'a MigrationManager" where
  "migrate_actor env clean now rt enc_request uid migration_id path target reason options m =
     (let (found, g) = lookup clean now rt path (mm_registry m);
          m1 = m \<lparr> mm_registry := g \<rparr>
      in (case found of
            None \<Rightarrow> (Inl (ActorNotFound path), m1)
          | Some a \<Rightarrow>
              (let request =
                     \<lparr> mr_id = migration_id, mr_source_node = mm_local_node_id m1, mr_target_node = target, mr_actor_path = path,
                       mr_actor_type = ''unknown'', mr_reason = reason, mr_options = options \<rparr>;
                   (r, m2) = send_to_manager env uid target ''migration_request'' (enc_request request) (push_migration migration_id m1)
               in (map_sum id (\<lambda>_. migration_id) r, m2))))"

definition handle_migration_request ::
  "net_env \<Rightarrow> (MigrationResponse \<Rightarrow> bytes option) \<Rightarrow> Uuid \<Rightarrow> MigrationRequest \<Rightarrow> 'a MigrationManager \<Rightarrow> (ClusterError + unit) \<times> 'a MigrationManager" where
  "handle_migration_request env enc_response uid request m =
     (let response = \<lparr> mp_request_id = mr_id request, mp_accepted = True, mp_rejection_reason = None \<rparr>;
          (r, m1) = send_to_manager env uid (mr_source_node request) ''migration_response'' (enc_response response) m
      in (case r of Inl e \<Rightarrow> (Inl e, m1) | Inr _ \<Rightarrow> (Inr (), push_migration (mr_id request) m1)))"

text \<open>\<^verbatim>\<open>position\<close> followed by an assignment to the status at that index.\<close>

fun set_status :: "Uuid \<Rightarrow> MigrationStatus \<Rightarrow> (Uuid \<times> MigrationStatus) list \<Rightarrow> (Uuid \<times> MigrationStatus) list option" where
  "set_status i s [] = None"
| "set_status i s ((j, u) # ms) = (if j = i then Some ((j, s) # ms) else map_option (\<lambda>ms'. (j, u) # ms') (set_status i s ms))"

definition update_status :: "Uuid \<Rightarrow> MigrationStatus \<Rightarrow> 'a MigrationManager \<Rightarrow> (ClusterError + unit) \<times> 'a MigrationManager" where
  "update_status i s m =
     (case set_status i s (mm_active_migrations m) of
        Some ms \<Rightarrow> (Inr (), m \<lparr> mm_active_migrations := ms \<rparr>)
      | None \<Rightarrow> (Inl ProtocolError, m))"

definition handle_migration_response :: "MigrationResponse \<Rightarrow> 'a MigrationManager \<Rightarrow> (ClusterError + unit) \<times> 'a MigrationManager" where
  "handle_migration_response response m =
     update_status (mp_request_id response) (if mp_accepted response then InProgress else MigFailed) m"

definition complete_migration :: "Uuid \<Rightarrow> string \<Rightarrow> 'a MigrationManager \<Rightarrow> (ClusterError + unit) \<times> 'a MigrationManager" where
  "complete_migration i new_actor_path m = update_status i Completed m"

definition fail_migration :: "Uuid \<Rightarrow> string \<Rightarrow> 'a MigrationManager \<Rightarrow> (ClusterError + unit) \<times> 'a MigrationManager" where
  "fail_migration i reason m = update_status i MigFailed m"

definition get_migration_status :: "'a MigrationManager \<Rightarrow> Uuid \<Rightarrow> MigrationStatus option" where
  "get_migration_status m i = map_option snd (find (\<lambda>p. fst p = i) (mm_active_migrations m))"

section \<open>The list as a map\<close>

lemma find_fst_map_of: "map_option snd (find (\<lambda>p. fst p = i) ms) = map_of ms i"
  by (induction ms) auto

lemma get_migration_status_map: "get_migration_status m = map_of (mm_active_migrations m)"
  by (rule ext) (simp add: get_migration_status_def find_fst_map_of)

lemma set_status_None: "set_status i s ms = None \<longleftrightarrow> map_of ms i = None"
  by (induction i s ms rule: set_status.induct) auto

lemma set_status_map: "set_status i s ms = Some ms' \<Longrightarrow> map_of ms' = (map_of ms)(i \<mapsto> s)"
  by (induction i s ms arbitrary: ms' rule: set_status.induct) (fastforce split: if_splits simp: fun_upd_twist)+

text \<open>The abstract state is the map of ids to statuses; it has these two operations.\<close>

definition begin_status :: "Uuid \<Rightarrow> (Uuid \<rightharpoonup> MigrationStatus) \<Rightarrow> (Uuid \<rightharpoonup> MigrationStatus)" where
  "begin_status i st = (if st i = None then st(i \<mapsto> InProgress) else st)"

definition move_status :: "Uuid \<Rightarrow> MigrationStatus \<Rightarrow> (Uuid \<rightharpoonup> MigrationStatus) \<Rightarrow> (Uuid \<rightharpoonup> MigrationStatus)" where
  "move_status i s st = (if st i = None then st else st(i \<mapsto> s))"

lemma push_migration_status: "get_migration_status (push_migration i m) = begin_status i (get_migration_status m)"
  by (rule ext) (auto simp: get_migration_status_map push_migration_def begin_status_def map_add_def split: option.split)

lemma update_status_status:
  "get_migration_status (snd (update_status i s m)) = move_status i s (get_migration_status m)"
  "fst (update_status i s m) = (if get_migration_status m i = None then Inl ProtocolError else Inr ())"
  using set_status_None [of i s "mm_active_migrations m"] set_status_map [of i s "mm_active_migrations m"]
  by (auto simp: update_status_def get_migration_status_map move_status_def split: option.split)

lemma send_to_manager_status [simp]:
  "get_migration_status (snd (send_to_manager env uid n k b m)) = get_migration_status m"
  by (auto simp: send_to_manager_def get_migration_status_map Let_def split_beta split: option.split)

lemma send_to_manager_fails: "mm_transport m = None \<or> b = None \<Longrightarrow> isl (fst (send_to_manager env uid n k b m))"
  by (auto simp: send_to_manager_def split: option.split)

text \<open>
  C38. Migration statuses: the list of a manager implements a map of ids to statuses. Starting a migration of a known actor enters its id as in progress,
  whether or not the request could be sent; a request of another node is entered exactly if the answer was sent; a response, a completion and a
  failure change the status of a known id and are errors for an unknown one. No operation removes an id.
\<close>

theorem migration_status_refines:
  "get_migration_status (snd (migrate_actor env clean now rt enc_q uid i p n reason opts m)) =
     (if fst (lookup clean now rt p (mm_registry m)) = None then get_migration_status m else begin_status i (get_migration_status m))
   \<and> get_migration_status (snd (handle_migration_request env enc_p uid q m)) =
     (if isl (fst (handle_migration_request env enc_p uid q m)) then get_migration_status m else begin_status (mr_id q) (get_migration_status m))
   \<and> get_migration_status (snd (handle_migration_response r m)) =
     move_status (mp_request_id r) (if mp_accepted r then InProgress else MigFailed) (get_migration_status m)
   \<and> get_migration_status (snd (complete_migration i p m)) = move_status i Completed (get_migration_status m)
   \<and> get_migration_status (snd (fail_migration i p m)) = move_status i MigFailed (get_migration_status m)
   \<and> (isl (fst (handle_migration_response r m)) \<longleftrightarrow> get_migration_status m (mp_request_id r) = None)
   \<and> (isl (fst (complete_migration i p m)) \<longleftrightarrow> get_migration_status m i = None)
   \<and> (isl (fst (fail_migration i p m)) \<longleftrightarrow> get_migration_status m i = None)"
proof (intro conjI)
  have keep: "get_migration_status (m \<lparr> mm_registry := g \<rparr>) = get_migration_status m" for g by (simp add: get_migration_status_map)
  show "get_migration_status (snd (migrate_actor env clean now rt enc_q uid i p n reason opts m)) =
     (if fst (lookup clean now rt p (mm_registry m)) = None then get_migration_status m else begin_status i (get_migration_status m))"
    by (auto simp: migrate_actor_def Let_def split_beta push_migration_status keep split: option.split)
  show "get_migration_status (snd (handle_migration_request env enc_p uid q m)) =
     (if isl (fst (handle_migration_request env enc_p uid q m)) then get_migration_status m else begin_status (mr_id q) (get_migration_status m))"
    by (auto simp: handle_migration_request_def Let_def split_beta push_migration_status split: sum.split)
qed (simp_all add: handle_migration_response_def complete_migration_def fail_migration_def update_status_status)

text \<open>
  A late acceptance reopens: a response that arrives after the migration was completed or has failed sets it back to in progress.
\<close>

theorem late_response_reopens:
  assumes "get_migration_status m i \<noteq> None" and "mp_request_id r = i" and "mp_accepted r"
  shows "get_migration_status (snd (handle_migration_response r (snd (complete_migration i p m)))) i = Some InProgress"
  using assms by (simp add: handle_migration_response_def complete_migration_def update_status_status move_status_def)

end
