(* ===== verification/Cluster_Config.thy ===== *)
theory Cluster_Config
  imports Transport
begin

text \<open>
  Configuration of a cluster node (\<^verbatim>\<open>actix-cluster/src/config.rs\<close>) and of a pluggable transport (\<^verbatim>\<open>transport_trait.rs\<close>). A socket address is its
  text, and its port the number after the last colon. Durations are in seconds. The setters are the builder's; \<open>ClusterConfig_build\<close> checks.

  The lemmas show which configurations are accepted, and that setting the architecture repairs the role.
\<close>

section \<open>Data\<close>

datatype Architecture = Centralized | Decentralized

datatype DiscoveryMethod =
    Static "string list"
  | Dns string
  | Kubernetes string string
  | Multicast
  | Gossip
  | LibP2P "string list" bool

datatype TransportType = TCP | UDP | WebSocket | QUIC | CustomTransport u8

record CacheConfig =
  ca_enabled :: bool
  ca_ttl :: u64
  ca_max_size :: nat

definition CacheConfig_default :: CacheConfig where
  "CacheConfig_default = \<lparr> ca_enabled = True, ca_ttl = 60, ca_max_size = 1000 \<rparr>"

definition CacheConfig_set_enabled :: "bool \<Rightarrow> CacheConfig \<Rightarrow> CacheConfig" where
  "CacheConfig_set_enabled b c = c \<lparr> ca_enabled := b \<rparr>"

definition CacheConfig_set_ttl :: "u64 \<Rightarrow> CacheConfig \<Rightarrow> CacheConfig" where
  "CacheConfig_set_ttl t c = c \<lparr> ca_ttl := t \<rparr>"

definition CacheConfig_set_max_size :: "nat \<Rightarrow> CacheConfig \<Rightarrow> CacheConfig" where
  "CacheConfig_set_max_size m c = c \<lparr> ca_max_size := m \<rparr>"

record ClusterConfig =
  cf_architecture :: Architecture
  cf_node_role :: NodeRole
  cf_bind_addr :: string
  cf_public_addr :: "string option"
  cf_seed_nodes :: "string list"
  cf_master_nodes :: "string list"
  cf_discovery :: DiscoveryMethod
  cf_heartbeat_interval :: int
  cf_node_timeout :: int
  cf_serialization_format :: SerializationFormat
  cf_transport_type :: TransportType
  cf_tls_enabled :: bool
  cf_tls_cert_path :: "string option"
  cf_tls_key_path :: "string option"
  cf_cluster_name :: string
  cf_cache_config :: CacheConfig
  cf_compression_config :: "CompressionConfig option"

definition ClusterConfig_default :: ClusterConfig where
  "ClusterConfig_default =
     \<lparr> cf_architecture = Decentralized, cf_node_role = Peer, cf_bind_addr = ''0.0.0.0:8558'', cf_public_addr = None, cf_seed_nodes = [],
       cf_master_nodes = [], cf_discovery = Static [], cf_heartbeat_interval = 5, cf_node_timeout = 15, cf_serialization_format = Bincode,
       cf_transport_type = TCP, cf_tls_enabled = False, cf_tls_cert_path = None, cf_tls_key_path = None, cf_cluster_name = ''actix-cluster'',
       cf_cache_config = CacheConfig_default, cf_compression_config = None \<rparr>"

section \<open>Setters\<close>

definition set_architecture :: "Architecture \<Rightarrow> ClusterConfig \<Rightarrow> ClusterConfig" where
  "set_architecture a c =
     (let c1 = c \<lparr> cf_architecture := a \<rparr>
      in (case (a, cf_node_role c1) of
            (Centralized, Peer) \<Rightarrow> c1 \<lparr> cf_node_role := Worker \<rparr>
          | (Decentralized, Master) \<Rightarrow> c1 \<lparr> cf_node_role := Peer \<rparr>
          | (Decentralized, Worker) \<Rightarrow> c1 \<lparr> cf_node_role := Peer \<rparr>
          | _ \<Rightarrow> c1))"

definition set_node_role :: "NodeRole \<Rightarrow> ClusterConfig \<Rightarrow> ClusterConfig" where
  "set_node_role r c = c \<lparr> cf_node_role := r \<rparr>"

definition set_bind_addr :: "string \<Rightarrow> ClusterConfig \<Rightarrow> ClusterConfig" where
  "set_bind_addr a c = c \<lparr> cf_bind_addr := a \<rparr>"

definition set_public_addr :: "string \<Rightarrow> ClusterConfig \<Rightarrow> ClusterConfig" where
  "set_public_addr a c = c \<lparr> cf_public_addr := Some a \<rparr>"

definition set_seed_nodes :: "string list \<Rightarrow> ClusterConfig \<Rightarrow> ClusterConfig" where
  "set_seed_nodes ns c = c \<lparr> cf_seed_nodes := ns \<rparr>"

definition set_master_nodes :: "string list \<Rightarrow> ClusterConfig \<Rightarrow> ClusterConfig" where
  "set_master_nodes ns c = c \<lparr> cf_master_nodes := ns \<rparr>"

definition set_discovery :: "DiscoveryMethod \<Rightarrow> ClusterConfig \<Rightarrow> ClusterConfig" where
  "set_discovery m c = c \<lparr> cf_discovery := m \<rparr>"

definition set_heartbeat_interval :: "int \<Rightarrow> ClusterConfig \<Rightarrow> ClusterConfig" where
  "set_heartbeat_interval i c = c \<lparr> cf_heartbeat_interval := i \<rparr>"

definition set_node_timeout :: "int \<Rightarrow> ClusterConfig \<Rightarrow> ClusterConfig" where
  "set_node_timeout t c = c \<lparr> cf_node_timeout := t \<rparr>"

definition set_serialization_format :: "SerializationFormat \<Rightarrow> ClusterConfig \<Rightarrow> ClusterConfig" where
  "set_serialization_format f c = c \<lparr> cf_serialization_format := f \<rparr>"

definition set_transport_type :: "TransportType \<Rightarrow> ClusterConfig \<Rightarrow> ClusterConfig" where
  "set_transport_type t c = c \<lparr> cf_transport_type := t \<rparr>"

definition with_tls :: "string \<Rightarrow> string \<Rightarrow> ClusterConfig \<Rightarrow> ClusterConfig" where
  "with_tls cert key c = c \<lparr> cf_tls_enabled := True, cf_tls_cert_path := Some cert, cf_tls_key_path := Some key \<rparr>"

definition set_cluster_name :: "string \<Rightarrow> ClusterConfig \<Rightarrow> ClusterConfig" where
  "set_cluster_name n c = c \<lparr> cf_cluster_name := n \<rparr>"

definition set_cache_config :: "CacheConfig \<Rightarrow> ClusterConfig \<Rightarrow> ClusterConfig" where
  "set_cache_config cc c = c \<lparr> cf_cache_config := cc \<rparr>"

definition with_compression_config :: "CompressionConfig \<Rightarrow> ClusterConfig \<Rightarrow> ClusterConfig" where
  "with_compression_config cc c = c \<lparr> cf_compression_config := Some cc \<rparr>"

definition config_compression_enabled :: "ClusterConfig \<Rightarrow> bool" where
  "config_compression_enabled c = (case cf_compression_config c of Some cc \<Rightarrow> cc_enabled cc | None \<Rightarrow> False)"

definition with_node_name :: "string \<Rightarrow> ClusterConfig \<Rightarrow> ClusterConfig" where
  "with_node_name n c = c \<lparr> cf_cluster_name := n \<rparr>"

section \<open>Validation\<close>

definition port_of :: "string \<Rightarrow> nat" where
  "port_of addr = foldl (\<lambda>n c. 10 * n + (of_char c - 48)) 0 (rev (takeWhile (\<lambda>c. c \<noteq> CHR '':'') (rev addr)))"

definition ClusterConfig_build :: "ClusterConfig \<Rightarrow> ClusterError + ClusterConfig" where
  "ClusterConfig_build c =
     (let tls = (if cf_tls_enabled c \<and> (cf_tls_cert_path c = None \<or> cf_tls_key_path c = None) then Inl ConfigurationError else Inr c)
      in (case (cf_architecture c, cf_node_role c) of
            (Centralized, Master) \<Rightarrow> if port_of (cf_bind_addr c) = 0 then Inl ConfigurationError else tls
          | (Centralized, Worker) \<Rightarrow> if cf_master_nodes c = [] then Inl ConfigurationError else tls
          | (Decentralized, Peer) \<Rightarrow> tls
          | _ \<Rightarrow> Inl ConfigurationError))"

definition build_node_info :: "NodeId \<Rightarrow> ClusterConfig \<Rightarrow> NodeInfo" where
  "build_node_info fresh c =
     \<lparr> ni_id = fresh, ni_name = ''node-'' @ cf_bind_addr c, ni_role = cf_node_role c, ni_addr = cf_bind_addr c, ni_status = Joining,
       ni_joined_at = None, ni_capabilities = [], ni_load = 0, ni_metadata = [] \<rparr>"

section \<open>Pluggable transports\<close>

record TransportConfig =
  tc_transport_type :: TransportType
  tc_bind_addr :: string
  tc_connection_timeout :: int
  tc_serialization_format :: SerializationFormat
  tc_compression_config :: "CompressionConfig option"
  tc_custom_params :: "(string, string) hashmap"

definition TransportConfig_new :: "TransportType \<Rightarrow> string \<Rightarrow> TransportConfig" where
  "TransportConfig_new ty addr =
     \<lparr> tc_transport_type = ty, tc_bind_addr = addr, tc_connection_timeout = 10, tc_serialization_format = Bincode,
       tc_compression_config = None, tc_custom_params = [] \<rparr>"

definition tc_with_connection_timeout :: "int \<Rightarrow> TransportConfig \<Rightarrow> TransportConfig" where
  "tc_with_connection_timeout t c = c \<lparr> tc_connection_timeout := t \<rparr>"

definition tc_with_serialization_format :: "SerializationFormat \<Rightarrow> TransportConfig \<Rightarrow> TransportConfig" where
  "tc_with_serialization_format f c = c \<lparr> tc_serialization_format := f \<rparr>"

definition tc_with_compression_config :: "CompressionConfig \<Rightarrow> TransportConfig \<Rightarrow> TransportConfig" where
  "tc_with_compression_config cc c = c \<lparr> tc_compression_config := Some cc \<rparr>"

definition tc_with_custom_param :: "string \<Rightarrow> string \<Rightarrow> TransportConfig \<Rightarrow> TransportConfig" where
  "tc_with_custom_param k v c = c \<lparr> tc_custom_params := hm_insert k v (tc_custom_params c) \<rparr>"

record TCPTransport =
  tt_inner :: P2PTransport
  tt_config :: TransportConfig

definition create_transport :: "compression_counters \<Rightarrow> TransportConfig \<Rightarrow> NodeInfo \<Rightarrow> ClusterError + TCPTransport" where
  "create_transport cnt c n =
     (case tc_transport_type c of
        TCP \<Rightarrow> Inr \<lparr> tt_inner = P2PTransport_new n (tc_serialization_format c) cnt, tt_config = c \<rparr>
      | _ \<Rightarrow> Inl UnsupportedTransport)"

text \<open>Every method of the wrapper forwards to the transport inside.\<close>

definition on_inner :: "(P2PTransport \<Rightarrow> 'r \<times> P2PTransport) \<Rightarrow> TCPTransport \<Rightarrow> 'r \<times> TCPTransport" where
  "on_inner f t = (let (r, i) = f (tt_inner t) in (r, t \<lparr> tt_inner := i \<rparr>))"

definition tcp_init :: "bool \<Rightarrow> TCPTransport \<Rightarrow> (ClusterError + unit) \<times> TCPTransport" where
  "tcp_init bind_ok = on_inner (transport_init bind_ok)"

definition tcp_send_message :: "net_env \<Rightarrow> NodeId \<Rightarrow> TransportMessage \<Rightarrow> TCPTransport \<Rightarrow> (ClusterError + unit) \<times> TCPTransport" where
  "tcp_send_message env n m = on_inner (send_message env n m)"

definition tcp_send_envelope :: "net_env \<Rightarrow> MessageEnvelope \<Rightarrow> TCPTransport \<Rightarrow> (ClusterError + unit) \<times> TCPTransport" where
  "tcp_send_envelope env e = on_inner (send_envelope env e)"

definition tcp_connect_to_peer :: "net_env \<Rightarrow> string \<Rightarrow> TCPTransport \<Rightarrow> (ClusterError + unit) \<times> TCPTransport" where
  "tcp_connect_to_peer env addr = on_inner (connect_to_peer env addr)"

definition tcp_get_compression_config :: "TCPTransport \<Rightarrow> CompressionConfig option" where
  "tcp_get_compression_config t = tp_compression_config (tt_inner t)"

section \<open>Which configurations are accepted\<close>

definition valid_roles :: "ClusterConfig \<Rightarrow> bool" where
  "valid_roles c = ((cf_architecture c = Decentralized) = (cf_node_role c = Peer))"

text \<open>
  Accepted configurations: a configuration is built, unchanged, exactly if the role belongs to the architecture, a master has a port, a worker has a master, and a configuration
  with TLS names both files. Setting the architecture last always makes the role valid, so that only those other conditions remain.
\<close>

theorem config_build_iff:
  "(ClusterConfig_build c = Inr c' \<longleftrightarrow>
      c' = c \<and> valid_roles c \<and> (cf_node_role c = Master \<longrightarrow> port_of (cf_bind_addr c) \<noteq> 0) \<and> (cf_node_role c = Worker \<longrightarrow> cf_master_nodes c \<noteq> [])
      \<and> (cf_tls_enabled c \<longrightarrow> cf_tls_cert_path c \<noteq> None \<and> cf_tls_key_path c \<noteq> None))
   \<and> valid_roles (set_architecture a c)"
  by (cases "cf_architecture c"; cases "cf_node_role c"; cases a)
     (auto simp: ClusterConfig_build_def set_architecture_def valid_roles_def Let_def)

text \<open>The compression configuration of a pluggable transport is stored beside the transport and never reaches it.\<close>

theorem pluggable_compression_lost:
  assumes "create_transport cnt c n = Inr t"
  shows "tcp_get_compression_config t = None"
  using assms by (auto simp: create_transport_def tcp_get_compression_config_def P2PTransport_new_def split: TransportType.splits)

end
