(* ===== verification/Discovery.thy ===== *)
theory Discovery
  imports Cluster_Config
begin

text \<open>
  Service discovery (\<^verbatim>\<open>actix-cluster/src/discovery.rs\<close>): a static list of seeds, and bootstrap nodes that are contacted through a transport. The trait
  \<^verbatim>\<open>ServiceDiscovery\<close> is the locale \<open>service_discovery\<close>, over what the service knows as a map of ids to nodes; both services and their sum, which stands for the
  boxed trait object, interpret it. Parsing of addresses is the argument \<open>parse_addr\<close>, the text of an id \<open>show_id\<close>, the ids given to seeds \<open>fresh\<close>. While
  the bootstrap nodes are contacted, other tasks handle handshakes: \<open>tasks\<close> is what they do to the transport after a connection.
\<close>

section \<open>Static discovery\<close>

record StaticDiscovery =
  sd_local_node :: "NodeInfo option"
  sd_seed_nodes :: "string list"
  sd_nodes :: "(NodeId, NodeInfo) hashmap"
  sd_discovery_interval :: int

definition StaticDiscovery_new :: "string list \<Rightarrow> StaticDiscovery" where
  "StaticDiscovery_new seeds = \<lparr> sd_local_node = None, sd_seed_nodes = seeds, sd_nodes = [], sd_discovery_interval = 30 \<rparr>"

fun resolve_seed_nodes :: "(NodeId \<Rightarrow> string) \<Rightarrow> (string \<Rightarrow> string option) \<Rightarrow> (nat \<Rightarrow> NodeId) \<Rightarrow> string list \<Rightarrow> ClusterError + NodeInfo list" where
  "resolve_seed_nodes show_id parse_addr fresh [] = Inr []"
| "resolve_seed_nodes show_id parse_addr fresh (seed # seeds) =
     (case parse_addr seed of
        None \<Rightarrow> Inl AddressParseError
      | Some addr \<Rightarrow>
          map_sum id (\<lambda>ns. NodeInfo_new (fresh (length seeds)) (''seed-'' @ show_id (fresh (length seeds))) Peer addr # ns)
            (resolve_seed_nodes show_id parse_addr fresh seeds))"

definition static_init ::
  "(NodeId \<Rightarrow> string) \<Rightarrow> (string \<Rightarrow> string option) \<Rightarrow> (nat \<Rightarrow> NodeId) \<Rightarrow> StaticDiscovery \<Rightarrow> (ClusterError + unit) \<times> StaticDiscovery" where
  "static_init show_id parse_addr fresh d =
     (case resolve_seed_nodes show_id parse_addr fresh (sd_seed_nodes d) of
        Inl e \<Rightarrow> (Inl e, d)
      | Inr ns \<Rightarrow> (Inr (), d \<lparr> sd_nodes := foldl (\<lambda>m n. hm_insert (ni_id n) n m) (sd_nodes d) ns \<rparr>))"

definition static_register_node :: "NodeInfo \<Rightarrow> StaticDiscovery \<Rightarrow> (ClusterError + unit) \<times> StaticDiscovery" where
  "static_register_node n d =
     (let d1 = (if sd_local_node d = None then d \<lparr> sd_local_node := Some n \<rparr> else d)
      in (Inr (), d1 \<lparr> sd_nodes := hm_insert (ni_id n) n (sd_nodes d1) \<rparr>))"

definition static_deregister_node :: "NodeId \<Rightarrow> StaticDiscovery \<Rightarrow> (ClusterError + unit) \<times> StaticDiscovery" where
  "static_deregister_node i d = (Inr (), d \<lparr> sd_nodes := hm_remove i (sd_nodes d) \<rparr>)"

definition static_discover_nodes :: "StaticDiscovery \<Rightarrow> (ClusterError + NodeInfo list) \<times> StaticDiscovery" where
  "static_discover_nodes d = (Inr (hm_values (sd_nodes d)), d)"

definition static_update_node_status :: "NodeId \<Rightarrow> NodeStatus \<Rightarrow> StaticDiscovery \<Rightarrow> (ClusterError + unit) \<times> StaticDiscovery" where
  "static_update_node_status i s d =
     (case hm_get (sd_nodes d) i of
        Some n \<Rightarrow> (Inr (), d \<lparr> sd_nodes := hm_insert i (n \<lparr> ni_status := s \<rparr>) (sd_nodes d) \<rparr>)
      | None \<Rightarrow> (Inl (NodeNotFound i), d))"

definition static_set_discovery_interval :: "int \<Rightarrow> StaticDiscovery \<Rightarrow> StaticDiscovery" where
  "static_set_discovery_interval i d = d \<lparr> sd_discovery_interval := i \<rparr>"

definition static_shutdown :: "StaticDiscovery \<Rightarrow> (ClusterError + unit) \<times> StaticDiscovery" where
  "static_shutdown d = (Inr (), d)"

section \<open>Discovery over a transport\<close>

record LibP2PDiscovery =
  ld_local_node :: "NodeInfo option"
  ld_transport :: "P2PTransport option"
  ld_nodes :: "(NodeId, NodeInfo) hashmap"
  ld_discovery_interval :: int
  ld_bootstrap_nodes :: "string list"
  ld_enable_mdns :: bool

definition LibP2PDiscovery_new :: "string list \<Rightarrow> bool \<Rightarrow> LibP2PDiscovery" where
  "LibP2PDiscovery_new bootstrap mdns =
     \<lparr> ld_local_node = None, ld_transport = None, ld_nodes = [], ld_discovery_interval = 30, ld_bootstrap_nodes = bootstrap,
       ld_enable_mdns = mdns \<rparr>"

definition libp2p_init :: "compression_counters \<Rightarrow> bool \<Rightarrow> LibP2PDiscovery \<Rightarrow> (ClusterError + unit) \<times> LibP2PDiscovery" where
  "libp2p_init cnt bind_ok d =
     (case ld_local_node d of
        None \<Rightarrow> (Inl ConfigurationError, d)
      | Some n \<Rightarrow>
          (let d1 = d \<lparr> ld_nodes := hm_insert (ni_id n) n (ld_nodes d) \<rparr>
           in (case transport_init bind_ok (P2PTransport_new n Bincode cnt) of
                 (Inl e, t) \<Rightarrow> (Inl e, d1)
               | (Inr _, t) \<Rightarrow> (Inr (), d1 \<lparr> ld_transport := Some t \<rparr>))))"

definition libp2p_register_node :: "NodeInfo \<Rightarrow> LibP2PDiscovery \<Rightarrow> (ClusterError + unit) \<times> LibP2PDiscovery" where
  "libp2p_register_node n d =
     (let d1 = (if ld_local_node d = None then d \<lparr> ld_local_node := Some n \<rparr> else d)
      in (Inr (), d1 \<lparr> ld_nodes := hm_insert (ni_id n) n (ld_nodes d1) \<rparr>))"

definition libp2p_deregister_node :: "NodeId \<Rightarrow> LibP2PDiscovery \<Rightarrow> (ClusterError + unit) \<times> LibP2PDiscovery" where
  "libp2p_deregister_node i d = (Inr (), d \<lparr> ld_nodes := hm_remove i (ld_nodes d) \<rparr>)"

text \<open>One turn of the loop over the bootstrap addresses, on the transport, the known nodes and the new ones.\<close>

definition bootstrap_step ::
  "net_env \<Rightarrow> (string \<Rightarrow> string option) \<Rightarrow> (string \<Rightarrow> P2PTransport \<Rightarrow> P2PTransport) \<Rightarrow> string
     \<Rightarrow> P2PTransport \<times> (NodeId, NodeInfo) hashmap \<times> NodeInfo list \<Rightarrow> P2PTransport \<times> (NodeId, NodeInfo) hashmap \<times> NodeInfo list" where
  "bootstrap_step env parse_addr tasks b st =
     (let (t, nodes, new) = st
      in (case parse_addr b of
            None \<Rightarrow> (t, nodes, new)
          | Some addr \<Rightarrow>
              if list_ex (\<lambda>n. ni_addr n = addr) (hm_values nodes) then (t, nodes, new)
              else case connect_to_peer env addr t of
                     (Inl _, t1) \<Rightarrow> (t1, nodes, new)
                   | (Inr _, t1) \<Rightarrow>
                       (let t2 = tasks addr t1
                        in (case find (\<lambda>n. ni_addr n = addr) (get_peers t2) of
                              Some n \<Rightarrow> (t2, hm_insert (ni_id n) n nodes, new @ [n])
                            | None \<Rightarrow> (t2, nodes, new)))))"

definition libp2p_discover_nodes ::
  "net_env \<Rightarrow> (string \<Rightarrow> string option) \<Rightarrow> (string \<Rightarrow> P2PTransport \<Rightarrow> P2PTransport) \<Rightarrow> LibP2PDiscovery
     \<Rightarrow> (ClusterError + NodeInfo list) \<times> LibP2PDiscovery" where
  "libp2p_discover_nodes env parse_addr tasks d =
     (case ld_transport d of
        None \<Rightarrow> (Inr [], d)
      | Some t \<Rightarrow>
          (let (t1, nodes, new) = fold (bootstrap_step env parse_addr tasks) (ld_bootstrap_nodes d) (t, ld_nodes d, [])
           in (Inr new, d \<lparr> ld_transport := Some t1, ld_nodes := nodes \<rparr>)))"

definition libp2p_update_node_status :: "NodeId \<Rightarrow> NodeStatus \<Rightarrow> LibP2PDiscovery \<Rightarrow> (ClusterError + unit) \<times> LibP2PDiscovery" where
  "libp2p_update_node_status i s d =
     (case hm_get (ld_nodes d) i of
        Some n \<Rightarrow> (Inr (), d \<lparr> ld_nodes := hm_insert i (n \<lparr> ni_status := s \<rparr>) (ld_nodes d) \<rparr>)
      | None \<Rightarrow> (Inl (NodeNotFound i), d))"

definition libp2p_set_discovery_interval :: "int \<Rightarrow> LibP2PDiscovery \<Rightarrow> LibP2PDiscovery" where
  "libp2p_set_discovery_interval i d = d \<lparr> ld_discovery_interval := i \<rparr>"

definition libp2p_shutdown :: "LibP2PDiscovery \<Rightarrow> (ClusterError + unit) \<times> LibP2PDiscovery" where
  "libp2p_shutdown d = (Inr (), d)"

section \<open>The boxed service\<close>

datatype discovery_service = StaticService StaticDiscovery | LibP2PService LibP2PDiscovery

fun create_discovery_service :: "DiscoveryMethod \<Rightarrow> discovery_service" where
  "create_discovery_service (Static seeds) = StaticService (StaticDiscovery_new seeds)"
| "create_discovery_service (Dns domain) = StaticService (StaticDiscovery_new [])"
| "create_discovery_service (Kubernetes namespace selector) = StaticService (StaticDiscovery_new [])"
| "create_discovery_service Multicast = StaticService (StaticDiscovery_new [])"
| "create_discovery_service Gossip = StaticService (StaticDiscovery_new [])"
| "create_discovery_service (LibP2P bootstrap mdns) = LibP2PService (LibP2PDiscovery_new bootstrap mdns)"

fun register_node :: "NodeInfo \<Rightarrow> discovery_service \<Rightarrow> (ClusterError + unit) \<times> discovery_service" where
  "register_node n (StaticService d) = map_prod id StaticService (static_register_node n d)"
| "register_node n (LibP2PService d) = map_prod id LibP2PService (libp2p_register_node n d)"

fun deregister_node :: "NodeId \<Rightarrow> discovery_service \<Rightarrow> (ClusterError + unit) \<times> discovery_service" where
  "deregister_node i (StaticService d) = map_prod id StaticService (static_deregister_node i d)"
| "deregister_node i (LibP2PService d) = map_prod id LibP2PService (libp2p_deregister_node i d)"

fun discover_nodes ::
  "net_env \<Rightarrow> (string \<Rightarrow> string option) \<Rightarrow> (string \<Rightarrow> P2PTransport \<Rightarrow> P2PTransport) \<Rightarrow> discovery_service
     \<Rightarrow> (ClusterError + NodeInfo list) \<times> discovery_service" where
  "discover_nodes env parse_addr tasks (StaticService d) = map_prod id StaticService (static_discover_nodes d)"
| "discover_nodes env parse_addr tasks (LibP2PService d) = map_prod id LibP2PService (libp2p_discover_nodes env parse_addr tasks d)"

fun update_node_status :: "NodeId \<Rightarrow> NodeStatus \<Rightarrow> discovery_service \<Rightarrow> (ClusterError + unit) \<times> discovery_service" where
  "update_node_status i s (StaticService d) = map_prod id StaticService (static_update_node_status i s d)"
| "update_node_status i s (LibP2PService d) = map_prod id LibP2PService (libp2p_update_node_status i s d)"

fun service_nodes :: "discovery_service \<Rightarrow> (NodeId, NodeInfo) hashmap" where
  "service_nodes (StaticService d) = sd_nodes d"
| "service_nodes (LibP2PService d) = ld_nodes d"

section \<open>The contract of a service\<close>

locale service_discovery =
  fixes known :: "'d \<Rightarrow> NodeId \<rightharpoonup> NodeInfo"
    and register :: "NodeInfo \<Rightarrow> 'd \<Rightarrow> (ClusterError + unit) \<times> 'd"
    and deregister :: "NodeId \<Rightarrow> 'd \<Rightarrow> (ClusterError + unit) \<times> 'd"
    and update :: "NodeId \<Rightarrow> NodeStatus \<Rightarrow> 'd \<Rightarrow> (ClusterError + unit) \<times> 'd"
  assumes register_ok: "fst (register n d) = Inr ()"
    and known_register: "known (snd (register n d)) = (known d)(ni_id n \<mapsto> n)"
    and deregister_ok: "fst (deregister i d) = Inr ()"
    and known_deregister: "known (snd (deregister i d)) = (known d)(i := None)"
    and update_result: "fst (update i s d) = (if known d i = None then Inl (NodeNotFound i) else Inr ())"
    and known_update: "known (snd (update i s d)) = (\<lambda>j. if j = i then map_option (\<lambda>n. n \<lparr> ni_status := s \<rparr>) (known d i) else known d j)"
begin

lemma register_deregister: "known d (ni_id n) = None \<Longrightarrow> known (snd (deregister (ni_id n) (snd (register n d)))) = known d"
  by (rule ext) (simp add: known_register known_deregister)

lemma update_update: "known (snd (update i s (snd (update i s' d)))) = known (snd (update i s d))"
  by (rule ext) (cases "known d i"; simp add: known_update)

lemma update_keeps_known: "dom (known (snd (update i s d))) = dom (known d)"
  by (auto simp: known_update dom_def split: if_splits)

lemma updates_keep_known: "dom (known (fold (\<lambda>(i, s) d. snd (update i s d)) us d)) = dom (known d)"
  by (induction us arbitrary: d) (simp_all add: split_beta update_keeps_known)

text \<open>What a node relies on: once it is registered, its status updates succeed until it is deregistered, whatever happens to others.\<close>

lemma registered_updates:
  assumes "known d i = Some n"
  shows "fst (update i s (fold (\<lambda>(i, s) d. snd (update i s d)) us d)) = Inr ()"
  using updates_keep_known [of us d] assms by (auto simp: update_result domIff set_eq_iff split: if_splits)

end

interpretation sd: service_discovery "\<lambda>d. hm_get (sd_nodes d)" static_register_node static_deregister_node static_update_node_status
  by unfold_locales
    (auto simp: static_register_node_def static_deregister_node_def static_update_node_status_def Let_def split: option.split)

interpretation ld: service_discovery "\<lambda>d. hm_get (ld_nodes d)" libp2p_register_node libp2p_deregister_node libp2p_update_node_status
  by unfold_locales
    (auto simp: libp2p_register_node_def libp2p_deregister_node_def libp2p_update_node_status_def Let_def split: option.split)

interpretation ds: service_discovery "\<lambda>d. hm_get (service_nodes d)" register_node deregister_node update_node_status
proof unfold_locales
  fix n i s d
  show "fst (register_node n d) = Inr ()" by (cases d) (simp_all add: sd.register_ok ld.register_ok)
  show "hm_get (service_nodes (snd (register_node n d))) = (hm_get (service_nodes d))(ni_id n \<mapsto> n)"
    by (cases d) (simp_all add: sd.known_register ld.known_register)
  show "fst (deregister_node i d) = Inr ()" by (cases d) (simp_all add: sd.deregister_ok ld.deregister_ok)
  show "hm_get (service_nodes (snd (deregister_node i d))) = (hm_get (service_nodes d))(i := None)"
    by (cases d) (simp_all add: sd.known_deregister ld.known_deregister)
  show "fst (update_node_status i s d) = (if hm_get (service_nodes d) i = None then Inl (NodeNotFound i) else Inr ())"
    by (cases d) (simp_all add: sd.update_result ld.update_result)
  show "hm_get (service_nodes (snd (update_node_status i s d))) =
      (\<lambda>j. if j = i then map_option (\<lambda>n. n \<lparr> ni_status := s \<rparr>) (hm_get (service_nodes d) i) else hm_get (service_nodes d) j)"
    by (rule ext, cases d) (simp_all add: sd.known_update ld.known_update)
qed

section \<open>Seeds and bootstrap nodes\<close>

lemma resolve_all:
  "list_all (\<lambda>s. parse_addr s \<noteq> None) seeds \<Longrightarrow>
   \<exists>ns. resolve_seed_nodes show_id parse_addr fresh seeds = Inr ns \<and> map ni_id ns = map fresh (rev [0..<length seeds])
      \<and> map (\<lambda>n. Some (ni_addr n)) ns = map parse_addr seeds"
  by (induction seeds) (auto simp: NodeInfo_new_def)

lemma resolve_fails:
  "\<not> list_all (\<lambda>s. parse_addr s \<noteq> None) seeds \<Longrightarrow> resolve_seed_nodes show_id parse_addr fresh seeds = Inl AddressParseError"
  by (induction seeds) (auto split: option.split)

text \<open>
  Seeds: the initialisation fails, and changes nothing, exactly if a seed is not an address. Otherwise a new service knows one node per seed, with its address.
\<close>

theorem static_seeds:
  assumes "inj fresh"
  shows "let (r, d) = static_init show_id parse_addr fresh (StaticDiscovery_new seeds)
         in if list_all (\<lambda>s. parse_addr s \<noteq> None) seeds
            then r = Inr () \<and> map (\<lambda>n. Some (ni_addr n)) (hm_values (sd_nodes d)) = map parse_addr seeds
            else r = Inl AddressParseError \<and> d = StaticDiscovery_new seeds"
proof (cases "list_all (\<lambda>s. parse_addr s \<noteq> None) seeds")
  case True
  then obtain ns where ns: "resolve_seed_nodes show_id parse_addr fresh seeds = Inr ns" "map ni_id ns = map fresh (rev [0..<length seeds])"
    "map (\<lambda>n. Some (ni_addr n)) ns = map parse_addr seeds" using resolve_all by blast
  have d: "distinct (map ni_id ns)" unfolding ns(2) distinct_map using assms by (auto intro: inj_on_subset)
  have ins: "distinct (map ni_id ns) \<Longrightarrow> hm_get m ` ni_id ` set ns \<subseteq> {None} \<Longrightarrow>
      foldl (\<lambda>m n. hm_insert (ni_id n) n m) m ns = m @ map (\<lambda>n. (ni_id n, n)) ns" for m :: "(NodeId, NodeInfo) hashmap"
  proof (induction ns arbitrary: m)
    case (Cons n ns)
    have "hm_insert (ni_id n) n m = m @ [(ni_id n, n)]" using Cons.prems(2) by (simp add: hm_insert_new)
    moreover have "hm_get (m @ [(ni_id n, n)]) ` ni_id ` set ns \<subseteq> {None}"
    proof -
      have "ni_id n \<notin> ni_id ` set ns" using Cons.prems(1) by simp
      then have "ni_id x \<noteq> ni_id n" if "x \<in> set ns" for x using that by (metis imageI)
      then show ?thesis using Cons.prems(2) by (auto simp: image_subset_iff map_add_def split: option.split)
    qed
    ultimately show ?case using Cons by simp
  qed simp
  have "foldl (\<lambda>m n. hm_insert (ni_id n) n m) [] ns = map (\<lambda>n. (ni_id n, n)) ns" using ins [OF d, of "[]"] by (simp add: image_subset_iff)
  then show ?thesis using ns True by (simp add: static_init_def StaticDiscovery_new_def comp_def)
qed (simp add: static_init_def StaticDiscovery_new_def resolve_fails)

definition discovered_ok ::
  "(string \<Rightarrow> string option) \<Rightarrow> string list \<Rightarrow> (NodeId, NodeInfo) hashmap \<Rightarrow> (NodeId, NodeInfo) hashmap \<Rightarrow> NodeInfo list \<Rightarrow> bool" where
  "discovered_ok parse_addr bs nodes0 nodes new =
     ((\<forall>n\<in>set new. (\<exists>b\<in>set bs. parse_addr b = Some (ni_addr n)) \<and> hm_contains nodes (ni_id n))
      \<and> (\<forall>i. hm_get nodes i = hm_get nodes0 i \<or> (\<exists>n\<in>set new. ni_id n = i \<and> hm_get nodes i = Some n)))"

lemma discovered_insert:
  assumes "discovered_ok parse_addr bs nodes0 nodes new" and "b \<in> set bs" and "parse_addr b = Some (ni_addr n)"
  shows "discovered_ok parse_addr bs nodes0 (hm_insert (ni_id n) n nodes) (new @ [n])"
  using assms unfolding discovered_ok_def by (auto split: if_splits)

lemma bootstrap_step_ok:
  assumes "discovered_ok parse_addr bs nodes0 nodes new" and "b \<in> set bs" and "bootstrap_step env parse_addr tasks b (t, nodes, new) = (t', nodes', new')"
  shows "discovered_ok parse_addr bs nodes0 nodes' new'"
proof (cases "nodes' = nodes \<and> new' = new")
  case False
  with assms(3) obtain addr n where n: "parse_addr b = Some addr" "ni_addr n = addr" "nodes' = hm_insert (ni_id n) n nodes" "new' = new @ [n]"
    by (auto simp: bootstrap_step_def Let_def split: option.splits if_splits sum.splits prod.splits dest!: find_Some_mem)
  then show ?thesis using discovered_insert [OF assms(1,2)] by simp
qed (use assms(1) in simp)

lemma bootstrap_fold_ok:
  assumes "set cs \<subseteq> set bs" and "discovered_ok parse_addr bs nodes0 nodes new"
    and "fold (bootstrap_step env parse_addr tasks) cs (t, nodes, new) = (t', nodes', new')"
  shows "discovered_ok parse_addr bs nodes0 nodes' new'"
  using assms
proof (induction cs arbitrary: t nodes new)
  case (Cons c cs)
  obtain t1 nodes1 new1 where s: "bootstrap_step env parse_addr tasks c (t, nodes, new) = (t1, nodes1, new1)" by (metis prod_cases3)
  have "discovered_ok parse_addr bs nodes0 nodes1 new1" using Cons.prems s by (intro bootstrap_step_ok [OF _ _ s]) auto
  then show ?case using Cons.IH [of nodes1 new1 t1] Cons.prems s by simp
qed simp

text \<open>
  Bootstrap nodes: whatever other tasks do to the transport meanwhile, a discovery reports only nodes at bootstrap addresses; each of them is known afterwards, and everything
  else that is known stays as it was.
\<close>

theorem discover_sound:
  assumes "libp2p_discover_nodes env parse_addr tasks d = (r, d')"
  shows "\<exists>new. r = Inr new \<and> discovered_ok parse_addr (ld_bootstrap_nodes d) (ld_nodes d) (ld_nodes d') new"
proof (cases "ld_transport d")
  case (Some t)
  obtain t1 nodes new where f: "fold (bootstrap_step env parse_addr tasks) (ld_bootstrap_nodes d) (t, ld_nodes d, []) = (t1, nodes, new)"
    by (metis prod_cases3)
  have "discovered_ok parse_addr (ld_bootstrap_nodes d) (ld_nodes d) nodes new"
    by (rule bootstrap_fold_ok [OF subset_refl _ f]) (simp add: discovered_ok_def)
  then show ?thesis using assms Some f by (auto simp: libp2p_discover_nodes_def)
qed (use assms in \<open>auto simp: libp2p_discover_nodes_def discovered_ok_def\<close>)

end
