(* ===== verification/Cluster_System.thy ===== *)
theory Cluster_System
  imports Discovery Actor_Registry
begin

text \<open>
  The cluster system and its actor (\<^verbatim>\<open>actix-cluster/src/cluster.rs\<close>): what an application starts on a node. The system and its actor share the known nodes,
  the discovery service, the transport and the registry, so one record holds them; \<open>cs_system_actor\<close> and \<open>cs_registry_actor\<close> say whether the two actors run. The
  futures that the actor spawns are the bodies of the operations here. What an actor reference does with a message is the argument \<open>send_any\<close>.

  The lemmas show what the operations leave open: none of them enters a node into the table of known nodes, starts the transport or connects it, so a
  system that uses only them stays alone.
\<close>

section \<open>State\<close>

record 'a ClusterSystem =
  cs_config :: ClusterConfig
  cs_local_node :: NodeInfo
  cs_nodes :: "(NodeId, Node) hashmap"
  cs_discovery :: discovery_service
  cs_system_actor :: bool
  cs_transport :: "P2PTransport option"
  cs_pluggable_transport :: "TCPTransport option"
  cs_registry :: "'a ActorRegistry"
  cs_registry_actor :: bool

definition ClusterSystem_new :: "NodeId \<Rightarrow> ClusterConfig \<Rightarrow> 'a ClusterSystem" where
  "ClusterSystem_new fresh c =
     (let addr = (case cf_public_addr c of Some a \<Rightarrow> a | None \<Rightarrow> cf_bind_addr c);
          n = NodeInfo_new fresh (cf_cluster_name c) (cf_node_role c) addr;
          g = set_max_cache_size (ca_max_size (cf_cache_config c)) (set_cache_ttl (ca_ttl (cf_cache_config c)) (ActorRegistry_new (ni_id n)))
      in \<lparr> cs_config = c, cs_local_node = n, cs_nodes = [], cs_discovery = create_discovery_service (cf_discovery c), cs_system_actor = False,
           cs_transport = None, cs_pluggable_transport = None,
           cs_registry = (if ca_enabled (cf_cache_config c) then g else disable_cache g), cs_registry_actor = False \<rparr>)"

section \<open>Starting\<close>

definition create_transports :: "compression_counters \<Rightarrow> 'a ClusterSystem \<Rightarrow> P2PTransport \<times> TCPTransport option" where
  "create_transports cnt s =
     (let c = cs_config s; n = cs_local_node s;
          p = P2PTransport_new n (cf_serialization_format c) cnt;
          p1 = (case cf_compression_config c of Some cc \<Rightarrow> set_compression_config cc p | None \<Rightarrow> p);
          tc = tc_with_serialization_format (cf_serialization_format c) (TransportConfig_new (cf_transport_type c) (ni_addr n));
          tc1 = (case cf_compression_config c of Some cc \<Rightarrow> tc_with_compression_config cc tc | None \<Rightarrow> tc)
      in (p1, case create_transport cnt tc1 n of Inr t \<Rightarrow> Some t | Inl _ \<Rightarrow> None))"

definition ClusterSystem_start :: "compression_counters \<Rightarrow> 'a ClusterSystem \<Rightarrow> (ClusterError + unit) \<times> 'a ClusterSystem" where
  "ClusterSystem_start cnt s =
     (let s1 = (if cf_architecture (cs_config s) = Decentralized \<or> ni_role (cs_local_node s) = Peer
                then let (p, q) = create_transports cnt s in s \<lparr> cs_transport := Some p, cs_pluggable_transport := q \<rparr>
                else s \<lparr> cs_transport := None, cs_pluggable_transport := None \<rparr>)
      in (Inr (), s1 \<lparr> cs_registry_actor := True, cs_system_actor := True \<rparr>))"

section \<open>Operations of the system\<close>

definition ClusterSystem_register :: "string \<Rightarrow> 'a \<Rightarrow> 'a ClusterSystem \<Rightarrow> (ClusterError + unit) \<times> 'a ClusterSystem" where
  "ClusterSystem_register path addr s =
     (if \<not> cs_registry_actor s then (Inl RegistryNotInitialized, s)
      else let (r, g) = register_local path (LocalActorRef addr path) (cs_registry s) in (r, s \<lparr> cs_registry := g \<rparr>))"

definition ClusterSystem_lookup :: "bool \<Rightarrow> int \<Rightarrow> P2PTransport \<Rightarrow> string \<Rightarrow> 'a ClusterSystem \<Rightarrow> 'a ActorRef option \<times> 'a ClusterSystem" where
  "ClusterSystem_lookup clean now rt path s =
     (if \<not> cs_registry_actor s then (None, s)
      else let (r, g) = lookup clean now rt path (cs_registry s) in (r, s \<lparr> cs_registry := g \<rparr>))"

definition lookup_remote :: "NodeId \<Rightarrow> string \<Rightarrow> 'a ClusterSystem \<Rightarrow> 'b ActorRef option" where
  "lookup_remote n path s = (if cs_transport s = None then None else Some (RemoteActorRef n path AtLeastOnce))"

definition send_remote :: "net_env \<Rightarrow> Uuid \<Rightarrow> NodeId \<Rightarrow> string \<Rightarrow> bytes option \<Rightarrow> 'a ClusterSystem \<Rightarrow> (ClusterError + unit) \<times> 'a ClusterSystem" where
  "send_remote env uid n path payload s =
     (case cs_transport s of
        None \<Rightarrow> (Inl TransportNotInitialized, s)
      | Some t \<Rightarrow> let (r, t1) = RemoteActorRef_send env uid n path AtLeastOnce payload t in (r, s \<lparr> cs_transport := Some t1 \<rparr>))"

text \<open>The registry of a system has no transport of its own, so its discovery ends where it begins; \<open>rt\<close> is not used then.\<close>

definition ClusterSystem_discover_actor ::
  "net_env \<Rightarrow> bool \<Rightarrow> int \<Rightarrow> nat \<Rightarrow> P2PTransport \<Rightarrow> string \<Rightarrow> 'a ClusterSystem \<Rightarrow> 'a discovery \<times> 'a ClusterSystem" where
  "ClusterSystem_discover_actor env clean now client rt path s =
     (if \<not> cs_registry_actor s then (GivesUp, s)
      else let (r, rt1, g) = discover_begin env clean now client path rt (cs_registry s) in (r, s \<lparr> cs_registry := g \<rparr>))"

definition handle_GetPeers :: "'a ClusterSystem \<Rightarrow> NodeInfo list" where
  "handle_GetPeers s = map nd_info (filter (\<lambda>n. Node_status n = Up) (hm_values (cs_nodes s)))"

definition ClusterSystem_get_peers :: "'a ClusterSystem \<Rightarrow> NodeInfo list" where
  "ClusterSystem_get_peers s = (if cs_system_actor s then handle_GetPeers s else [])"

definition ClusterSystem_get_local_actors :: "'a ClusterSystem \<Rightarrow> string list" where
  "ClusterSystem_get_local_actors s = (if cs_registry_actor s then get_local_actors (cs_registry s) else [])"

definition ClusterSystem_send ::
  "bool \<Rightarrow> int \<Rightarrow> P2PTransport \<Rightarrow> ('a ActorRef \<Rightarrow> ClusterError + unit) \<Rightarrow> string \<Rightarrow> 'a ClusterSystem \<Rightarrow> (ClusterError + unit) \<times> 'a ClusterSystem" where
  "ClusterSystem_send clean now rt send_any path s =
     (let (r, g) = lookup clean now rt path (cs_registry s); s1 = s \<lparr> cs_registry := g \<rparr>
      in (case r of Some a \<Rightarrow> (send_any a, s1) | None \<Rightarrow> (Inl (ActorNotFound path), s1)))"

text \<open>One round of the task that \<^verbatim>\<open>start_connection_maintenance\<close> starts; its error is that there is no transport.\<close>

definition maintenance_round :: "net_env \<Rightarrow> P2PTransport \<Rightarrow> P2PTransport" where
  "maintenance_round env t =
     fold (\<lambda>n t. if is_connected t n then t else snd (reconnect_to_peer env n t)) (map ni_id (Transport.get_peers t)) t"

definition connection_maintenance :: "net_env \<Rightarrow> 'a ClusterSystem \<Rightarrow> (ClusterError + unit) \<times> 'a ClusterSystem" where
  "connection_maintenance env s =
     (case cs_transport s of
        None \<Rightarrow> (Inl TransportNotAvailable, s)
      | Some t \<Rightarrow> (Inr (), s \<lparr> cs_transport := Some (maintenance_round env t) \<rparr>))"

section \<open>The system actor\<close>

definition register_local_node :: "'a ClusterSystem \<Rightarrow> (ClusterError + unit) \<times> 'a ClusterSystem" where
  "register_local_node s = (let (r, d) = register_node (cs_local_node s) (cs_discovery s) in (r, s \<lparr> cs_discovery := d \<rparr>))"

definition system_discover_nodes ::
  "net_env \<Rightarrow> (string \<Rightarrow> string option) \<Rightarrow> (string \<Rightarrow> P2PTransport \<Rightarrow> P2PTransport) \<Rightarrow> 'a ClusterSystem
     \<Rightarrow> (ClusterError + NodeInfo list) \<times> 'a ClusterSystem" where
  "system_discover_nodes env parse_addr tasks s =
     (let (r, d) = discover_nodes env parse_addr tasks (cs_discovery s) in (r, s \<lparr> cs_discovery := d \<rparr>))"

fun mark_unreachable_all :: "NodeId list \<Rightarrow> discovery_service \<Rightarrow> (ClusterError + unit) \<times> discovery_service" where
  "mark_unreachable_all [] d = (Inr (), d)"
| "mark_unreachable_all (i # is) d =
     (case update_node_status i Unreachable d of (Inl e, d1) \<Rightarrow> (Inl e, d1) | (Inr _, d1) \<Rightarrow> mark_unreachable_all is d1)"

definition update_node_statuses :: "int \<Rightarrow> 'a ClusterSystem \<Rightarrow> (ClusterError + unit) \<times> 'a ClusterSystem" where
  "update_node_statuses now s =
     (let ids = map fst (filter (\<lambda>(i, n). Node_is_timed_out now (cf_node_timeout (cs_config s)) n) (cs_nodes s));
          (r, d) = mark_unreachable_all ids (cs_discovery s)
      in (r, s \<lparr> cs_discovery := d \<rparr>))"

definition send_to_known :: "net_env \<Rightarrow> NodeId \<Rightarrow> TransportMessage \<Rightarrow> 'a ClusterSystem \<Rightarrow> 'a ClusterSystem" where
  "send_to_known env skip m s =
     (case (cf_architecture (cs_config s), cs_transport s) of
        (Decentralized, Some t) \<Rightarrow>
          s \<lparr> cs_transport := Some (fold (\<lambda>n t. snd (send_message env n m t)) (filter (\<lambda>n. n \<noteq> skip) (hm_keys (cs_nodes s))) t) \<rparr>
      | _ \<Rightarrow> s)"

definition send_heartbeat :: "net_env \<Rightarrow> 'a ClusterSystem \<Rightarrow> 'a ClusterSystem" where
  "send_heartbeat env s =
     (let s1 = send_to_known env (ni_id (cs_local_node s)) (THeartbeat (cs_local_node s)) s
      in s1 \<lparr> cs_discovery := snd (update_node_status (ni_id (cs_local_node s1)) Up (cs_discovery s1)) \<rparr>)"

fun NodeStatus_to_string :: "NodeStatus \<Rightarrow> string" where
  "NodeStatus_to_string Up = ''Up''"
| "NodeStatus_to_string Unreachable = ''Unreachable''"
| "NodeStatus_to_string Down = ''Down''"
| "NodeStatus_to_string Joining = ''Joining''"
| "NodeStatus_to_string Leaving = ''Leaving''"

definition notify_node_status_changed :: "net_env \<Rightarrow> NodeId \<Rightarrow> NodeStatus \<Rightarrow> 'a ClusterSystem \<Rightarrow> 'a ClusterSystem" where
  "notify_node_status_changed env i st s = send_to_known env i (TStatusUpdate i (NodeStatus_to_string st)) s"

definition system_handle_envelope :: "net_env \<Rightarrow> Uuid \<Rightarrow> int \<Rightarrow> MessageEnvelope \<Rightarrow> 'a ClusterSystem \<Rightarrow> 'a ClusterSystem" where
  "system_handle_envelope env uid now e s =
     (case me_message_type e of
        Ping \<Rightarrow>
          (case cs_transport s of
             None \<Rightarrow> s
           | Some t \<Rightarrow>
               (let pong = MessageEnvelope_new uid (ne_wall env) (me_target_node e) (me_sender_node e) ''system'' Pong AtMostOnce []
                in s \<lparr> cs_transport := Some (snd (send_envelope env pong t)) \<rparr>))
      | Pong \<Rightarrow>
          (case hm_get (cs_nodes s) (me_sender_node e) of
             Some n \<Rightarrow> s \<lparr> cs_nodes := hm_insert (me_sender_node e) (Node_record_heartbeat now (ne_wall env) n) (cs_nodes s) \<rparr>
           | None \<Rightarrow> s)
      | _ \<Rightarrow> s)"

section \<open>Runs\<close>

datatype 'a sys_op =
    OpStart compression_counters
  | OpStarted
  | OpRegister string 'a
  | OpLookup bool int P2PTransport string
  | OpSendRemote net_env Uuid NodeId string "bytes option"
  | OpDiscover net_env bool int nat P2PTransport string
  | OpSend bool int P2PTransport "'a ActorRef \<Rightarrow> ClusterError + unit" string
  | OpMaintain net_env
  | OpDiscoverNodes net_env "string \<Rightarrow> string option" "string \<Rightarrow> P2PTransport \<Rightarrow> P2PTransport"
  | OpUpdateStatuses int
  | OpHeartbeat net_env
  | OpNotify net_env NodeId NodeStatus
  | OpEnvelope net_env Uuid int MessageEnvelope

fun sys_step :: "'a sys_op \<Rightarrow> 'a ClusterSystem \<Rightarrow> 'a ClusterSystem" where
  "sys_step (OpStart cnt) s = snd (ClusterSystem_start cnt s)"
| "sys_step OpStarted s = snd (register_local_node s)"
| "sys_step (OpRegister p a) s = snd (ClusterSystem_register p a s)"
| "sys_step (OpLookup clean now rt p) s = snd (ClusterSystem_lookup clean now rt p s)"
| "sys_step (OpSendRemote env uid n p b) s = snd (send_remote env uid n p b s)"
| "sys_step (OpDiscover env clean now client rt p) s = snd (ClusterSystem_discover_actor env clean now client rt p s)"
| "sys_step (OpSend clean now rt f p) s = snd (ClusterSystem_send clean now rt f p s)"
| "sys_step (OpMaintain env) s = snd (connection_maintenance env s)"
| "sys_step (OpDiscoverNodes env pa tasks) s = snd (system_discover_nodes env pa tasks s)"
| "sys_step (OpUpdateStatuses now) s = snd (update_node_statuses now s)"
| "sys_step (OpHeartbeat env) s = send_heartbeat env s"
| "sys_step (OpNotify env i st) s = notify_node_status_changed env i st s"
| "sys_step (OpEnvelope env uid now e) s = system_handle_envelope env uid now e s"

definition sys_run :: "'a sys_op list \<Rightarrow> 'a ClusterSystem \<Rightarrow> 'a ClusterSystem" where
  "sys_run ops s = fold sys_step ops s"

section \<open>A system on its own\<close>

definition silent :: "P2PTransport \<Rightarrow> bool" where
  "silent t = (tp_peers t = [] \<and> tp_connections t = [] \<and> \<not> tp_started t \<and> tp_written t = [])"

lemma silent_sends:
  assumes "silent t"
  shows "send_message env n m t = (Inl (UnknownPeer n), t)"
    and "send_envelope env e t = (Inl (NodeNotFound (me_target_node e)), t)"
    and "maintenance_round env t = t"
  using assms by (simp_all add: silent_def send_message_def send_envelope_def ensure_connection_def maintenance_round_def Transport.get_peers_def)

lemma silent_counters: "silent t \<Longrightarrow> silent (t \<lparr> tp_counters := c \<rparr>)"
  by (simp add: silent_def)

lemma silent_remote_send:
  assumes "silent t"
  shows "isl (fst (RemoteActorRef_send env uid n p dg b t))" and "silent (snd (RemoteActorRef_send env uid n p dg b t))"
  using assms silent_sends(1) [OF assms] silent_sends(1) [OF silent_counters [OF assms]] silent_counters [OF assms]
  by (auto simp: RemoteActorRef_send_def Let_def split_beta split: option.split sum.split prod.split)

lemma silent_fold: "silent t \<Longrightarrow> fold (\<lambda>n t. snd (send_message env n m t)) ns t = t"
  by (induction ns) (simp_all add: silent_sends)

lemma lookup_transport: "ar_transport (snd (lookup clean now rt p g)) = ar_transport g"
  by (auto simp: lookup_def lookup_registered_def lookup_by_path_def remote_found_def clean_cache_def Let_def split_beta split: option.split)

definition alone :: "'a ClusterSystem \<Rightarrow> bool" where
  "alone s = (cs_nodes s = [] \<and> pred_option silent (cs_transport s) \<and> \<not> ar_transport (cs_registry s))"

lemma alone_cong:
  "cs_nodes s' = cs_nodes s \<Longrightarrow> cs_transport s' = cs_transport s \<Longrightarrow> ar_transport (cs_registry s') = ar_transport (cs_registry s) \<Longrightarrow> alone s' = alone s"
  by (simp add: alone_def)

lemma start_alone: "alone s \<Longrightarrow> alone (snd (ClusterSystem_start cnt s))"
  by (auto simp: alone_def ClusterSystem_start_def create_transports_def Let_def silent_def P2PTransport_new_def set_compression_config_def
      split: option.split)

lemma discover_begin_no_transport:
  "\<not> ar_transport g \<Longrightarrow>
   discover_begin env clean now c p t g = (case lookup clean now t p g of (Some r, g1) \<Rightarrow> (Found r, t, g1) | (None, g1) \<Rightarrow> (GivesUp, t, g1))"
  using lookup_transport [of clean now t p g] by (auto simp: discover_begin_def split: option.split prod.split)

lemma transport_alone:
  assumes "alone s"
  shows "alone (snd (send_remote env uid n p b s))" and "alone (snd (connection_maintenance env s))" and "send_to_known env i m s = s"
    and "alone (system_handle_envelope env uid now e s)"
  using assms silent_remote_send(2) [of _ env uid n p AtLeastOnce b]
  by (auto simp: alone_def send_remote_def connection_maintenance_def send_to_known_def system_handle_envelope_def split_beta silent_sends silent_fold
      split: option.split Architecture.split MessageType.split)

lemma sys_step_alone: "alone s \<Longrightarrow> alone (sys_step op s)"
proof (induction op s rule: sys_step.induct)
  case (6 env clean now client rt p s)
  have "\<not> ar_transport (cs_registry s)" using 6 by (simp add: alone_def)
  from discover_begin_no_transport [OF this, of env clean now client p rt] lookup_transport [of clean now rt p "cs_registry s"] 6 show ?case
    by (auto simp: ClusterSystem_discover_actor_def alone_def split: prod.split option.split)
next
  case (11 env s)
  then show ?case by (simp add: send_heartbeat_def Let_def transport_alone alone_def)
qed (simp_all add: start_alone transport_alone notify_node_status_changed_def,
     auto simp: alone_def register_local_node_def ClusterSystem_register_def ClusterSystem_lookup_def ClusterSystem_send_def system_discover_nodes_def
       update_node_statuses_def register_local_def lookup_transport Let_def split_beta split: option.split)

lemma new_alone: "alone (ClusterSystem_new fresh c)"
  by (simp add: alone_def ClusterSystem_new_def Let_def ActorRegistry_new_def set_cache_ttl_def disable_cache_def set_max_cache_size_def)

lemma sys_run_alone: "alone s \<Longrightarrow> alone (sys_run ops s)"
  unfolding sys_run_def by (induction ops arbitrary: s) (simp_all add: sys_step_alone)

text \<open>
  C21. A system by itself: whatever operations of the system and its actor run on a new system, in any order and however often, it lists no peer, its transport was
  never started and has sent nothing, each remote send fails, and the discovery of an actor answers from the local registry without asking another node.
\<close>

theorem system_stays_alone:
  "let s = sys_run ops (ClusterSystem_new fresh c)
   in ClusterSystem_get_peers s = [] \<and> pred_option (\<lambda>t. \<not> tp_started t \<and> tp_written t = []) (cs_transport s)
    \<and> isl (fst (send_remote env uid n p b s))
    \<and> fst (ClusterSystem_discover_actor env clean now client rt p s) =
        (case fst (ClusterSystem_lookup clean now rt p s) of Some r \<Rightarrow> Found r | None \<Rightarrow> GivesUp)"
proof -
  define s where "s = sys_run ops (ClusterSystem_new fresh c)"
  have a: "alone s" unfolding s_def by (intro sys_run_alone new_alone)
  then have "\<not> ar_transport (cs_registry s)" by (simp add: alone_def)
  from discover_begin_no_transport [OF this, of env clean now client p rt]
  have "fst (ClusterSystem_discover_actor env clean now client rt p s) =
      (case fst (ClusterSystem_lookup clean now rt p s) of Some r \<Rightarrow> Found r | None \<Rightarrow> GivesUp)"
    by (auto simp: ClusterSystem_discover_actor_def ClusterSystem_lookup_def split: prod.split option.split)
  moreover have "isl (fst (send_remote env uid n p b s))"
    using a silent_remote_send(1) by (auto simp: send_remote_def alone_def split_beta split: option.split)
  moreover have "pred_option (\<lambda>t. \<not> tp_started t \<and> tp_written t = []) (cs_transport s)"
    using a by (auto simp: alone_def silent_def pred_option_def)
  moreover have "ClusterSystem_get_peers s = []" using a by (simp add: ClusterSystem_get_peers_def handle_GetPeers_def alone_def)
  ultimately show ?thesis unfolding s_def [symmetric] by simp
qed

section \<open>The node in the discovery service\<close>

lemma discover_keeps_known:
  "hm_contains (service_nodes d) i \<Longrightarrow> hm_contains (service_nodes (snd (discover_nodes env pa tasks d))) i"
proof (cases d)
  case (LibP2PService l)
  assume k: "hm_contains (service_nodes d) i"
  obtain new where "discovered_ok pa (ld_bootstrap_nodes l) (ld_nodes l) (ld_nodes (snd (libp2p_discover_nodes env pa tasks l))) new"
    using discover_sound [of env pa tasks l] by (metis prod.collapse)
  then show ?thesis using k LibP2PService by (auto simp: discovered_ok_def) metis
qed (simp add: static_discover_nodes_def)

definition announced :: "'a ClusterSystem \<Rightarrow> bool" where
  "announced s = hm_contains (service_nodes (cs_discovery s)) (ni_id (cs_local_node s))"

lemma update_keeps: "hm_contains (service_nodes (snd (update_node_status i st d))) j = hm_contains (service_nodes d) j"
  using ds.update_keeps_known [of i st d] by (simp add: domIff set_eq_iff)

lemma mark_all_keeps: "hm_contains (service_nodes (snd (mark_unreachable_all ids d))) j = hm_contains (service_nodes d) j"
proof (induction ids d rule: mark_unreachable_all.induct)
  case (2 i ids d)
  then show ?case using update_keeps [of i Unreachable d j] by (auto split: prod.split sum.split)
qed simp

lemma send_to_known_fields [simp]:
  "cs_discovery (send_to_known env i m s) = cs_discovery s" "cs_local_node (send_to_known env i m s) = cs_local_node s"
  by (auto simp: send_to_known_def split: Architecture.split option.split)

lemma register_announces: "announced (snd (register_local_node s))"
  by (simp add: announced_def register_local_node_def split_beta ds.known_register)

lemma sys_step_announced: "announced s \<Longrightarrow> announced (sys_step op s)"
proof (induction op s rule: sys_step.induct)
  case (9 env pa tasks s)
  then show ?case using discover_keeps_known by (auto simp: announced_def system_discover_nodes_def split_beta)
next
  case (10 now s)
  then show ?case using mark_all_keeps by (simp add: announced_def update_node_statuses_def split_beta Let_def)
next
  case (11 env s)
  then show ?case using update_keeps by (simp add: announced_def send_heartbeat_def Let_def)
qed (simp_all add: register_announces,
     auto simp: announced_def ClusterSystem_start_def ClusterSystem_register_def ClusterSystem_lookup_def ClusterSystem_send_def
       ClusterSystem_discover_actor_def send_remote_def connection_maintenance_def notify_node_status_changed_def system_handle_envelope_def
       Let_def split_beta split: option.split MessageType.split)

text \<open>
  Heartbeats: once the system actor has registered its node with the discovery service, every later heartbeat finds it there, so its status update succeeds.
\<close>

theorem heartbeat_finds_node:
  "let s = sys_run (ops @ OpStarted # ops') s0 in fst (update_node_status (ni_id (cs_local_node s)) Up (cs_discovery s)) = Inr ()"
proof -
  have "announced (fold sys_step ops' (sys_step OpStarted (fold sys_step ops s0)))"
  proof (induction ops' rule: rev_induct)
    case Nil
    then show ?case using register_announces by simp
  qed (simp add: sys_step_announced)
  then show ?thesis by (simp add: sys_run_def announced_def ds.update_result)
qed

end
