(* ===== verification/Cluster_Consensus.thy ===== *)
theory Cluster_Consensus
  imports Serialization
begin

text \<open>
  The consensus actor of the cluster (\<^verbatim>\<open>actix-cluster/src/consensus.rs\<close>), which holds a log of encoded commands and the state they lead to. Commands are
  encoded with bincode, the pair \<open>cc\<close> of an encoder and a decoder. The actor keeps a transport but does not use it.

  The lemmas show that the state is always what a replay of the log gives: the log has the indices from one without gaps, each entry the command it was made from.
\<close>

section \<open>Commands and state\<close>

datatype ConsensusCommand =
    AddNode NodeInfo
  | RemoveNode NodeId
  | UpdateNodeStatus NodeId NodeStatus
  | RegisterActor string NodeId
  | CustomCommand bytes

record ConsensusResponse =
  cr_success :: bool
  cr_message :: "string option"
  cr_data :: "bytes option"

record ConsensusState =
  cn_nodes :: "(NodeId, NodeInfo) hashmap"
  cn_actor_registrations :: "(string, NodeId) hashmap"
  cn_last_applied_index :: u64

definition ConsensusState_default :: ConsensusState where
  "ConsensusState_default = \<lparr> cn_nodes = [], cn_actor_registrations = [], cn_last_applied_index = 0 \<rparr>"

record ConsensusLogEntry =
  cl_index :: u64
  cl_term :: u64
  cl_payload :: "bytes option"

record ConsensusActor =
  ca_node_id :: NodeId
  ca_state :: ConsensusState
  ca_logs :: "(u64, ConsensusLogEntry) hashmap"
  ca_current_term :: u64
  ca_next_index :: u64

definition ConsensusActor_new :: "NodeId \<Rightarrow> ConsensusActor" where
  "ConsensusActor_new n =
     \<lparr> ca_node_id = n, ca_state = ConsensusState_default, ca_logs = [], ca_current_term = 0, ca_next_index = 1 \<rparr>"

definition get_state :: "ConsensusActor \<Rightarrow> ClusterError + ConsensusState" where
  "get_state a = Inr (ca_state a)"

section \<open>Applying commands\<close>

fun apply_to_state :: "ConsensusCommand \<Rightarrow> ConsensusState \<Rightarrow> ConsensusState" where
  "apply_to_state (AddNode n) st = st \<lparr> cn_nodes := hm_insert (ni_id n) n (cn_nodes st) \<rparr>"
| "apply_to_state (RemoveNode i) st = st \<lparr> cn_nodes := hm_remove i (cn_nodes st) \<rparr>"
| "apply_to_state (UpdateNodeStatus i s) st =
     (case hm_get (cn_nodes st) i of
        Some n \<Rightarrow> st \<lparr> cn_nodes := hm_insert i (n \<lparr> ni_status := s \<rparr>) (cn_nodes st) \<rparr>
      | None \<Rightarrow> st)"
| "apply_to_state (RegisterActor path i) st = st \<lparr> cn_actor_registrations := hm_insert path i (cn_actor_registrations st) \<rparr>"
| "apply_to_state (CustomCommand b) st = st"

definition apply_log_entry :: "ConsensusCommand codec \<Rightarrow> ConsensusLogEntry \<Rightarrow> ConsensusState \<Rightarrow> (ClusterError + unit) \<times> ConsensusState" where
  "apply_log_entry cc e st =
     (case cl_payload e of
        None \<Rightarrow> (Inr (), st)
      | Some b \<Rightarrow>
          (case snd cc b of
             None \<Rightarrow> (Inl DeserializationError, st)
           | Some cmd \<Rightarrow> (Inr (), apply_to_state cmd st \<lparr> cn_last_applied_index := cl_index e \<rparr>)))"

definition apply_command :: "ConsensusCommand codec \<Rightarrow> ConsensusCommand \<Rightarrow> ConsensusActor \<Rightarrow> (ClusterError + ConsensusResponse) \<times> ConsensusActor" where
  "apply_command cc cmd a =
     (case fst cc cmd of
        None \<Rightarrow> (Inl SerializationError, a)
      | Some b \<Rightarrow>
          (let e = \<lparr> cl_index = ca_next_index a, cl_term = ca_current_term a, cl_payload = Some b \<rparr>
           in (case apply_log_entry cc e (ca_state a) of
                 (Inl err, st) \<Rightarrow> (Inl err, a \<lparr> ca_state := st \<rparr>)
               | (Inr _, st) \<Rightarrow>
                   (Inr \<lparr> cr_success = True, cr_message = Some ''Command applied successfully'', cr_data = None \<rparr>,
                    a \<lparr> ca_state := st, ca_logs := hm_insert (cl_index e) e (ca_logs a), ca_next_index := ca_next_index a + 1 \<rparr>))))"

definition submit_command :: "ConsensusCommand codec \<Rightarrow> ConsensusCommand \<Rightarrow> ConsensusActor \<Rightarrow> (ClusterError + ConsensusResponse) \<times> ConsensusActor" where
  "submit_command cc cmd a = apply_command cc cmd a"

section \<open>The log explains the state\<close>

definition submit_all :: "ConsensusCommand codec \<Rightarrow> ConsensusCommand list \<Rightarrow> ConsensusActor \<Rightarrow> ConsensusActor" where
  "submit_all cc cmds a = fold (\<lambda>c a. snd (submit_command cc c a)) cmds a"

definition replay :: "ConsensusCommand codec \<Rightarrow> ConsensusLogEntry list \<Rightarrow> ConsensusState \<Rightarrow> ConsensusState" where
  "replay cc es st = fold (\<lambda>e st. snd (apply_log_entry cc e st)) es st"

text \<open>The entries in the order in which they were stored, with the indices from one.\<close>

definition log_ok :: "ConsensusCommand codec \<Rightarrow> ConsensusActor \<Rightarrow> bool" where
  "log_ok cc a =
     (map fst (ca_logs a) = map (\<lambda>i. of_nat (Suc i)) [0..<length (ca_logs a)] \<and> list_all (\<lambda>(i, e). cl_index e = i) (ca_logs a)
      \<and> ca_next_index a = of_nat (Suc (length (ca_logs a))) \<and> ca_state a = replay cc (map snd (ca_logs a)) ConsensusState_default)"

lemma log_ok_new: "log_ok cc (ConsensusActor_new n)"
  by (simp add: log_ok_def ConsensusActor_new_def replay_def)

lemma next_index_new:
  assumes "log_ok cc a" and "Suc (length (ca_logs a)) < 2 ^ 64"
  shows "hm_get (ca_logs a) (ca_next_index a) = None"
proof -
  have "unat (ca_next_index a) = Suc (length (ca_logs a))" using assms u64_of_nat [of "Suc (length (ca_logs a))"] by (simp add: log_ok_def)
  moreover have "unat k \<le> length (ca_logs a)" if "k \<in> fst ` set (ca_logs a)" for k
  proof -
    have "k \<in> set (map fst (ca_logs a))" using that by simp
    also have "map fst (ca_logs a) = map (\<lambda>i. of_nat (Suc i)) [0..<length (ca_logs a)]" using assms(1) by (simp add: log_ok_def)
    finally obtain i where "i < length (ca_logs a)" "k = of_nat (Suc i)" by auto
    then show ?thesis using assms(2) u64_of_nat [of "Suc i"] by simp
  qed
  ultimately show ?thesis by (force simp: map_of_eq_None_iff)
qed

lemma log_ok_apply:
  assumes "log_ok cc a" and "Suc (length (ca_logs a)) < 2 ^ 64" and "codec_ok cc"
  shows "log_ok cc (snd (apply_command cc cmd a))
    \<and> map snd (ca_logs (snd (apply_command cc cmd a))) =
        map snd (ca_logs a) @ (case fst cc cmd of Some b \<Rightarrow> [\<lparr> cl_index = ca_next_index a, cl_term = ca_current_term a, cl_payload = Some b \<rparr>] | None \<Rightarrow> [])
    \<and> ca_current_term (snd (apply_command cc cmd a)) = ca_current_term a"
proof (cases "fst cc cmd")
  case (Some b)
  then have "snd cc b = Some cmd" using assms(3) by (simp add: codec_okD)
  then show ?thesis using assms(1) hm_insert_new [OF next_index_new [OF assms(1,2)]] Some
    by (simp add: apply_command_def apply_log_entry_def log_ok_def replay_def Let_def)
qed (simp add: apply_command_def assms)

definition entries_of :: "ConsensusCommand codec \<Rightarrow> ConsensusCommand list \<Rightarrow> bytes list" where
  "entries_of cc cmds = List.map_filter (fst cc) cmds"

lemma submit_all_log:
  assumes "log_ok cc a" and "codec_ok cc" and "Suc (length (ca_logs a) + length cmds) < 2 ^ 64"
  shows "log_ok cc (submit_all cc cmds a)
    \<and> map (\<lambda>e. cl_payload (snd e)) (ca_logs (submit_all cc cmds a)) = map (\<lambda>e. cl_payload (snd e)) (ca_logs a) @ map Some (entries_of cc cmds)"
  using assms(1,3)
proof (induction cmds arbitrary: a)
  case (Cons c cmds)
  let ?a = "snd (apply_command cc c a)"
  have s: "log_ok cc ?a \<and> map snd (ca_logs ?a) = map snd (ca_logs a) @
      (case fst cc c of Some b \<Rightarrow> [\<lparr> cl_index = ca_next_index a, cl_term = ca_current_term a, cl_payload = Some b \<rparr>] | None \<Rightarrow> [])"
    using log_ok_apply [OF Cons.prems(1) _ assms(2), of c] Cons.prems(2) by simp
  then have p: "map (\<lambda>e. cl_payload (snd e)) (ca_logs ?a) = map (\<lambda>e. cl_payload (snd e)) (ca_logs a) @ map Some (entries_of cc [c])"
    by (cases "fst cc c") (simp_all add: entries_of_def List.map_filter_def flip: map_map [unfolded comp_def, where f = cl_payload and g = snd])
  have "length (map (\<lambda>e. cl_payload (snd e)) (ca_logs ?a)) \<le> Suc (length (ca_logs a))"
    unfolding p by (simp add: entries_of_def List.map_filter_def)
  then have "Suc (length (ca_logs ?a) + length cmds) < 2 ^ 64" using Cons.prems(2) by simp
  from Cons.IH [OF conjunct1 [OF s] this] p show ?case
    by (simp add: submit_all_def submit_command_def entries_of_def List.map_filter_def)
qed (simp add: submit_all_def entries_of_def List.map_filter_def)

text \<open>
  The log explains the state: after any sequence of commands, fewer than \<open>2 ^ 64 - 1\<close>, the log of a new actor holds, under the indices one, two and so on, exactly the encodings of the
  commands that can be encoded, in their order, and replaying it from the initial state gives the state. So two actors with the same log have the same state.
\<close>

theorem consensus_log_replay:
  assumes "codec_ok cc" and "Suc (length cmds) < 2 ^ 64" and "a = submit_all cc cmds (ConsensusActor_new n)"
  shows "map (\<lambda>(i, e). (i, cl_payload e)) (ca_logs a) =
           map (\<lambda>i. (of_nat (Suc i), Some (entries_of cc cmds ! i))) [0..<length (entries_of cc cmds)]
         \<and> ca_state a = replay cc (map snd (ca_logs a)) ConsensusState_default"
proof -
  have l: "log_ok cc a" and p: "map (\<lambda>e. cl_payload (snd e)) (ca_logs a) = map Some (entries_of cc cmds)"
    using submit_all_log [OF log_ok_new assms(1), of n cmds] assms(2,3) by (simp_all add: ConsensusActor_new_def)
  have len: "length (ca_logs a) = length (entries_of cc cmds)" using p by (metis length_map)
  have "map (\<lambda>(i, e). (i, cl_payload e)) (ca_logs a) = zip (map fst (ca_logs a)) (map (\<lambda>e. cl_payload (snd e)) (ca_logs a))"
    by (simp add: zip_map_map split_beta' zip_same_conv_map)
  also have "\<dots> = map (\<lambda>i. (of_nat (Suc i), Some (entries_of cc cmds ! i))) [0..<length (entries_of cc cmds)]"
    using l unfolding p by (intro nth_equalityI) (simp_all add: log_ok_def len)
  finally show ?thesis using l by (simp add: log_ok_def)
qed

definition tiny_command_codec :: "ConsensusCommand codec" where
  "tiny_command_codec =
     (\<lambda>c. case c of CustomCommand b \<Rightarrow> Some (0 # b) | RemoveNode i \<Rightarrow> if i = 7 then Some [1] else None | _ \<Rightarrow> None,
      \<lambda>b. case b of x # bs \<Rightarrow> if x = 0 then Some (CustomCommand bs) else if bs = [] then Some (RemoveNode 7) else None | [] \<Rightarrow> None)"

theorem consensus_log_replay_witness:
  "map (\<lambda>(i, e). (i, cl_payload e)) (ca_logs (submit_all tiny_command_codec [CustomCommand [5], RegisterActor ''a'' 1, RemoveNode 7] (ConsensusActor_new 1))) =
     [(1, Some [0, 5]), (2, Some [1])]"
proof -
  have "codec_ok tiny_command_codec" by (auto simp: codec_ok_def tiny_command_codec_def split: ConsensusCommand.splits if_splits)
  from consensus_log_replay [OF this _ refl, of "[CustomCommand [5], RegisterActor ''a'' 1, RemoveNode 7]" 1] show ?thesis
    by (simp add: entries_of_def List.map_filter_def tiny_command_codec_def upt_rec)
qed

end
