(* ===== verification/Trading_Cluster.thy ===== *)
theory Trading_Cluster
  imports Prelude
begin

text \<open>
  The cluster manager of the trading system and the two actors that use it (\<^verbatim>\<open>trading/src/cluster.rs\<close>). The manager keeps a table of actor paths and a status; sending
  builds a message and logs it, so the operations that send answer without an effect. The answer to an order is represented by the id it names. Locks are never poisoned,
  because no code panics while it holds one.

  The lemmas show what a lookup finds after registrations, and that the voter of this file votes once per term.
\<close>

section \<open>The manager\<close>

datatype ActorType = OrderType | ExecutionEngineType | RaftConsensusType | RiskManagerType | OtherType string

fun ActorType_show :: "ActorType \<Rightarrow> string" where
  "ActorType_show OrderType = ''Order''"
| "ActorType_show ExecutionEngineType = ''ExecutionEngine''"
| "ActorType_show RaftConsensusType = ''RaftConsensus''"
| "ActorType_show RiskManagerType = ''RiskManager''"
| "ActorType_show (OtherType name) = ''Other('' @ name @ '')''"

datatype TradingNodeStatus = Initializing | RunningNode | Reconnecting | StoppedNode

record TradingActorPath =
  ta_path :: string
  ta_node_id :: string
  ta_actor_type :: ActorType

record TradingClusterManager =
  tm_node_id :: string
  tm_bind_addr :: string
  tm_cluster_name :: string
  tm_seed_nodes :: "string list"
  tm_node_status :: TradingNodeStatus
  tm_actor_paths :: "(string, TradingActorPath) hashmap"

record TradingClusterMessage =
  tx_id :: string
  tx_sender_node :: string
  tx_target_node :: string
  tx_sender_path :: string
  tx_target_path :: string
  tx_message_type :: string
  tx_payload :: "u8 list"
  tx_timestamp :: u64

datatype ClusterMessageResult = ClusterSuccess | ClusterFailure string | NoHandler

definition TradingClusterManager_new :: "string \<Rightarrow> string \<Rightarrow> string \<Rightarrow> TradingClusterManager" where
  "TradingClusterManager_new n addr name =
     \<lparr> tm_node_id = n, tm_bind_addr = addr, tm_cluster_name = name, tm_seed_nodes = [], tm_node_status = Initializing, tm_actor_paths = [] \<rparr>"

definition add_seed_node :: "string \<Rightarrow> TradingClusterManager \<Rightarrow> TradingClusterManager" where
  "add_seed_node a m = m \<lparr> tm_seed_nodes := tm_seed_nodes m @ [a] \<rparr>"

definition initialize :: "TradingClusterManager \<Rightarrow> (string + unit) \<times> TradingClusterManager" where
  "initialize m = (Inr (), m \<lparr> tm_node_status := RunningNode \<rparr>)"

definition register_actor_path :: "string \<Rightarrow> ActorType \<Rightarrow> TradingClusterManager \<Rightarrow> (string + unit) \<times> TradingClusterManager" where
  "register_actor_path path ty m =
     (Inr (), m \<lparr> tm_actor_paths := hm_insert path \<lparr> ta_path = path, ta_node_id = tm_node_id m, ta_actor_type = ty \<rparr> (tm_actor_paths m) \<rparr>)"

definition build_message :: "string \<Rightarrow> u64 \<Rightarrow> string \<Rightarrow> string \<Rightarrow> u8 list \<Rightarrow> TradingClusterManager \<Rightarrow> TradingClusterMessage" where
  "build_message uid wall target ty payload m =
     \<lparr> tx_id = uid, tx_sender_node = tm_node_id m, tx_target_node = ''unknown'', tx_sender_path = ''/local/sender'', tx_target_path = target,
       tx_message_type = ty, tx_payload = payload, tx_timestamp = wall \<rparr>"

definition manager_send_message :: "string \<Rightarrow> u64 \<Rightarrow> string \<Rightarrow> string \<Rightarrow> TradingClusterManager \<Rightarrow> (string + unit) \<times> TradingClusterMessage" where
  "manager_send_message uid wall target ty m = (Inr (), build_message uid wall target ty [] m)"

definition send_typed_message ::
  "string \<Rightarrow> u64 \<Rightarrow> string \<Rightarrow> string \<Rightarrow> u8 list option \<Rightarrow> TradingClusterManager \<Rightarrow> (string + unit) \<times> TradingClusterMessage option" where
  "send_typed_message uid wall target ty encoded m =
     (case encoded of None \<Rightarrow> (Inl ''serialization'', None) | Some b \<Rightarrow> (Inr (), Some (build_message uid wall target ty b m)))"

definition find_actor_path :: "string \<Rightarrow> TradingClusterManager \<Rightarrow> TradingActorPath option" where
  "find_actor_path path m = hm_get (tm_actor_paths m) path"

definition get_registered_paths :: "TradingClusterManager \<Rightarrow> TradingActorPath list" where
  "get_registered_paths m = hm_values (tm_actor_paths m)"

definition get_status :: "TradingClusterManager \<Rightarrow> TradingNodeStatus" where
  "get_status m = tm_node_status m"

definition shutdown :: "TradingClusterManager \<Rightarrow> (string + unit) \<times> TradingClusterManager" where
  "shutdown m = (Inr (), m \<lparr> tm_node_status := StoppedNode \<rparr>)"

section \<open>The order actor\<close>

record ClusterOrderActor =
  co_node_id :: string
  co_cluster_manager :: "TradingClusterManager option"

definition ClusterOrderActor_new :: "string \<Rightarrow> TradingClusterManager option \<Rightarrow> ClusterOrderActor" where
  "ClusterOrderActor_new n m = \<lparr> co_node_id = n, co_cluster_manager = m \<rparr>"

definition order_actor_path :: "ClusterOrderActor \<Rightarrow> string" where
  "order_actor_path a = ''/user/order/'' @ co_node_id a"

definition order_actor_started :: "ClusterOrderActor \<Rightarrow> ClusterOrderActor" where
  "order_actor_started a =
     a \<lparr> co_cluster_manager := map_option (\<lambda>m. snd (register_actor_path (order_actor_path a) OrderType m)) (co_cluster_manager a) \<rparr>"

definition handle_OrderMessage :: "string \<Rightarrow> ClusterOrderActor \<Rightarrow> (string + string) \<times> ClusterOrderActor" where
  "handle_OrderMessage order_id a = (Inr order_id, a)"

definition order_handle_ClusterMessage :: "TradingClusterMessage \<Rightarrow> ClusterOrderActor \<Rightarrow> ClusterMessageResult \<times> ClusterOrderActor" where
  "order_handle_ClusterMessage msg a = (ClusterSuccess, a)"

section \<open>The consensus actor\<close>

record ClusterLogEntry =
  ce_term :: u64
  ce_index :: u64
  ce_command :: "u8 list"

record RaftMessage =
  rm_term :: u64
  rm_leader_id :: "string option"
  rm_prev_log_index :: u64
  rm_prev_log_term :: u64
  rm_entries :: "ClusterLogEntry list"
  rm_leader_commit :: u64

datatype RaftResult = RaftSuccess u64 bool | RaftFailure string

datatype RaftRole = FollowerRole | CandidateRole | LeaderRole

record RaftConsensusActor =
  rc_node_id :: string
  rc_current_term :: u64
  rc_voted_for :: "string option"
  rc_log :: "ClusterLogEntry list"
  rc_commit_index :: u64
  rc_last_applied :: u64
  rc_role :: RaftRole
  rc_leader_id :: "string option"
  rc_cluster_manager :: "TradingClusterManager option"

definition RaftConsensusActor_new :: "string \<Rightarrow> TradingClusterManager option \<Rightarrow> RaftConsensusActor" where
  "RaftConsensusActor_new n m =
     \<lparr> rc_node_id = n, rc_current_term = 0, rc_voted_for = None, rc_log = [], rc_commit_index = 0, rc_last_applied = 0,
       rc_role = FollowerRole, rc_leader_id = None, rc_cluster_manager = m \<rparr>"

definition raft_actor_path :: "RaftConsensusActor \<Rightarrow> string" where
  "raft_actor_path a = ''/system/raft/'' @ rc_node_id a"

definition see_term :: "u64 \<Rightarrow> RaftConsensusActor \<Rightarrow> RaftConsensusActor" where
  "see_term t a = (if rc_current_term a < t then a \<lparr> rc_current_term := t, rc_role := FollowerRole, rc_voted_for := None \<rparr> else a)"

definition handle_append_entries :: "RaftMessage \<Rightarrow> RaftConsensusActor \<Rightarrow> RaftResult \<times> RaftConsensusActor" where
  "handle_append_entries msg a =
     (if rm_term msg < rc_current_term a then (RaftSuccess (rc_current_term a) False, a)
      else let a1 = see_term (rm_term msg) a \<lparr> rc_leader_id := rm_leader_id msg \<rparr>
           in (RaftSuccess (rc_current_term a1) True, a1))"

definition consensus_request_vote :: "u64 \<Rightarrow> string \<Rightarrow> u64 \<Rightarrow> u64 \<Rightarrow> RaftConsensusActor \<Rightarrow> RaftResult \<times> RaftConsensusActor" where
  "consensus_request_vote t candidate last_index last_term a =
     (if t < rc_current_term a then (RaftSuccess (rc_current_term a) False, a)
      else let a1 = see_term t a;
               granted = (rc_voted_for a1 = None \<or> rc_voted_for a1 = Some candidate);
               a2 = (if granted then a1 \<lparr> rc_voted_for := Some candidate \<rparr> else a1)
           in (RaftSuccess (rc_current_term a2) granted, a2))"

definition raft_actor_started :: "RaftConsensusActor \<Rightarrow> RaftConsensusActor" where
  "raft_actor_started a =
     a \<lparr> rc_cluster_manager := map_option (\<lambda>m. snd (register_actor_path (raft_actor_path a) RaftConsensusType m)) (rc_cluster_manager a) \<rparr>"

definition handle_RaftMessage :: "RaftMessage \<Rightarrow> RaftConsensusActor \<Rightarrow> RaftResult \<times> RaftConsensusActor" where
  "handle_RaftMessage msg a = handle_append_entries msg a"

definition raft_handle_ClusterMessage :: "TradingClusterMessage \<Rightarrow> RaftConsensusActor \<Rightarrow> ClusterMessageResult \<times> RaftConsensusActor" where
  "raft_handle_ClusterMessage msg a = (ClusterSuccess, a)"

section \<open>Registered paths\<close>

text \<open>
  Registered paths: after any registrations a path is found exactly if it was registered, with the type it was registered with last and under the id of this node.
\<close>

theorem registered_paths:
  "find_actor_path p (fold (\<lambda>(q, ty) m. snd (register_actor_path q ty m)) rs (TradingClusterManager_new n addr name)) =
     map_option (\<lambda>ty. \<lparr> ta_path = p, ta_node_id = n, ta_actor_type = ty \<rparr>) (map_of (rev rs) p)"
proof (induction rs rule: rev_induct)
  case (snoc r rs)
  have "tm_node_id (fold (\<lambda>(q, ty) m. snd (register_actor_path q ty m)) rs m) = tm_node_id m" for m
    by (induction rs arbitrary: m) (auto simp: register_actor_path_def)
  then show ?case using snoc
    by (cases r) (auto simp: find_actor_path_def register_actor_path_def TradingClusterManager_new_def)
qed (simp add: find_actor_path_def TradingClusterManager_new_def)

section \<open>Votes\<close>

inductive consensus_step :: "RaftConsensusActor \<Rightarrow> RaftConsensusActor \<Rightarrow> bool" where
  appended: "consensus_step a (snd (handle_append_entries msg a))"
| asked: "consensus_step a (snd (consensus_request_vote t c li lt a))"
| notified: "consensus_step a (snd (raft_handle_ClusterMessage m a))"
| begun: "consensus_step a (raft_actor_started a)"

lemmas consensus_defs = handle_append_entries_def consensus_request_vote_def see_term_def raft_handle_ClusterMessage_def raft_actor_started_def

interpretation cluster_voter: voter rc_current_term rc_voted_for consensus_step
proof unfold_locales
  fix a b
  assume "consensus_step a b"
  then show "rc_current_term a < rc_current_term b \<or> rc_current_term b = rc_current_term a \<and> (rc_voted_for a = None \<or> rc_voted_for b = rc_voted_for a)"
  proof cases
    case (appended msg)
    then show ?thesis by (cases "rm_term msg < rc_current_term a"; cases "rc_current_term a < rm_term msg"; simp add: consensus_defs Let_def)
  next
    case (asked t c li lt)
    then show ?thesis by (cases "t < rc_current_term a"; cases "rc_current_term a < t"; simp add: consensus_defs Let_def)
  qed (simp_all add: consensus_defs)
qed

lemma cluster_vote_granted:
  "consensus_request_vote t c li lt a = (RaftSuccess u True, a') \<Longrightarrow> rc_voted_for a' = Some c \<and> rc_current_term a' = u"
  by (auto simp: consensus_defs Let_def split: if_splits)

text \<open>
  Election safety of this actor: whatever messages come between two votes that it grants in one term, the votes are for the same candidate.
\<close>

theorem cluster_one_vote:
  assumes "consensus_request_vote t1 c1 li1 lt1 a = (RaftSuccess t True, a1)" and "consensus_step\<^sup>*\<^sup>* a1 a2"
    and "consensus_request_vote t2 c2 li2 lt2 a2 = (RaftSuccess t True, a3)"
  shows "c2 = c1"
proof -
  have "consensus_step\<^sup>*\<^sup>* a1 a3" using assms(2) asked [of a2 t2 c2 li2 lt2] assms(3) by (auto intro: rtranclp.rtrancl_into_rtrancl)
  from cluster_voter.one_vote [OF this] show ?thesis using cluster_vote_granted [OF assms(1)] cluster_vote_granted [OF assms(3)] by simp
qed

text \<open>Entries are not stored: the log stays empty for ever, although every current append is answered with success.\<close>

theorem append_stores_nothing:
  "consensus_step\<^sup>*\<^sup>* (RaftConsensusActor_new n m) a \<Longrightarrow> rc_log a = [] \<and> rc_commit_index a = 0"
proof (induction rule: rtranclp_induct)
  case (step a b)
  from step.hyps(2) have "rc_log b = rc_log a \<and> rc_commit_index b = rc_commit_index a"
    by cases (simp_all add: consensus_defs Let_def)
  then show ?case using step.IH by simp
qed (simp add: RaftConsensusActor_new_def)

end
