(* ===== verification/Actix_Broker.thy ===== *)
theory Actix_Broker
  imports Prelude "HOL-Library.Multiset"
begin

text \<open>
  The in-process broker (\<^verbatim>\<open>actix-broker/src/broker.rs\<close>), an actor that forwards messages to the subscribers of their type. Types are the keys \<open>'t\<close>, recipients addresses \<open>'r\<close>,
  messages \<open>'m\<close>; the map from types to boxed subscribers holds under a type only recipients of that type, so a downcast always succeeds. What a mailbox
  answers is the argument \<open>mb\<close>. Sending gives the list of deliveries that it makes, in order. A synchronous issue waits for each recipient;
  the waiting futures of a context are polled from the last to the first, each until it is done.

  The lemmas show who gets a message, who stays subscribed, and that the asynchronous way removes exactly the closed mailboxes.
\<close>

section \<open>State\<close>

datatype mailbox = Accepts | IsFull | IsClosed

record ('t, 'r, 'm) Broker =
  bk_sub_map :: "('t, ('t \<times> 'r) list) hashmap"
  bk_msg_map :: "('t, 'm) hashmap"

definition Broker_default :: "('t, 'r, 'm) Broker" where
  "Broker_default = \<lparr> bk_sub_map = [], bk_msg_map = [] \<rparr>"

definition take_subs :: "'t \<Rightarrow> ('t, 'r, 'm) Broker \<Rightarrow> ('t \<times> 'r) list option \<times> ('t, 'r, 'm) Broker" where
  "take_subs ty b =
     (case hm_get (bk_sub_map b) ty of
        None \<Rightarrow> (None, b)
      | Some subs \<Rightarrow> (Some subs, b \<lparr> bk_sub_map := hm_insert ty [] (bk_sub_map b) \<rparr>))"

definition add_sub :: "'t \<Rightarrow> 'r \<Rightarrow> 't \<Rightarrow> ('t, 'r, 'm) Broker \<Rightarrow> ('t, 'r, 'm) Broker" where
  "add_sub ty r i b =
     (case hm_get (bk_sub_map b) ty of
        Some subs \<Rightarrow> b \<lparr> bk_sub_map := hm_insert ty (subs @ [(i, r)]) (bk_sub_map b) \<rparr>
      | None \<Rightarrow> b \<lparr> bk_sub_map := hm_insert ty [(i, r)] (bk_sub_map b) \<rparr>)"

definition get_previous_msg :: "'t \<Rightarrow> ('t, 'r, 'm) Broker \<Rightarrow> 'm option" where
  "get_previous_msg ty b = hm_get (bk_msg_map b) ty"

definition set_msg :: "'t \<Rightarrow> 'm \<Rightarrow> ('t, 'r, 'm) Broker \<Rightarrow> ('t, 'r, 'm) Broker" where
  "set_msg ty msg b = b \<lparr> bk_msg_map := hm_insert ty msg (bk_msg_map b) \<rparr>"

section \<open>Handlers\<close>

definition handle_SubscribeAsync :: "'t \<Rightarrow> 'r \<Rightarrow> 't \<Rightarrow> ('t, 'r, 'm) Broker \<Rightarrow> ('t, 'r, 'm) Broker" where
  "handle_SubscribeAsync ty r i b = add_sub ty r i b"

definition handle_SubscribeSync :: "'t \<Rightarrow> 'r \<Rightarrow> 't \<Rightarrow> ('t, 'r, 'm) Broker \<Rightarrow> 'm option \<times> ('t, 'r, 'm) Broker" where
  "handle_SubscribeSync ty r i b = (let b1 = add_sub ty r i b in (get_previous_msg ty b1, b1))"

definition issue_to ::
  "('r \<Rightarrow> mailbox) \<Rightarrow> 't \<Rightarrow> 'm \<Rightarrow> 't \<Rightarrow> 't \<times> 'r \<Rightarrow> ('r \<times> 'm) list \<times> ('t, 'r, 'm) Broker \<Rightarrow> ('r \<times> 'm) list \<times> ('t, 'r, 'm) Broker" where
  "issue_to mb ty msg sender sub st =
     (let (i, r) = sub; (out, b) = st
      in if i = sender then (out, add_sub ty r i b)
         else case mb r of
                Accepts \<Rightarrow> (out @ [(r, msg)], add_sub ty r i b)
              | IsFull \<Rightarrow> (out @ [(r, msg)], add_sub ty r i b)
              | IsClosed \<Rightarrow> (out, b))"

definition handle_IssueAsync :: "('r \<Rightarrow> mailbox) \<Rightarrow> 't \<Rightarrow> 'm \<Rightarrow> 't \<Rightarrow> ('t, 'r, 'm) Broker \<Rightarrow> ('r \<times> 'm) list \<times> ('t, 'r, 'm) Broker" where
  "handle_IssueAsync mb ty msg sender b =
     (let (subs, b1) = take_subs ty b;
          (out, b2) = (case subs of None \<Rightarrow> ([], b1) | Some ss \<Rightarrow> fold (issue_to mb ty msg sender) ss ([], b1))
      in (out, set_msg ty msg b2))"

text \<open>The drain of a synchronous issue: the sender's own subscriptions are stored at once, the others are sent to and wait.\<close>

definition issue_sync_to ::
  "('r \<Rightarrow> mailbox) \<Rightarrow> 't \<Rightarrow> 'm \<Rightarrow> 't \<Rightarrow> 't \<times> 'r \<Rightarrow> ('r \<times> 'm) list \<times> ('t \<times> 'r) list \<times> ('t, 'r, 'm) Broker
     \<Rightarrow> ('r \<times> 'm) list \<times> ('t \<times> 'r) list \<times> ('t, 'r, 'm) Broker" where
  "issue_sync_to mb ty msg sender sub st =
     (let (i, r) = sub; (out, waiting, b) = st
      in if i = sender then (out, waiting, add_sub ty r i b)
         else (if mb r = IsClosed then out else out @ [(r, msg)], waiting @ [(i, r)], b))"

definition handle_IssueSync :: "('r \<Rightarrow> mailbox) \<Rightarrow> 't \<Rightarrow> 'm \<Rightarrow> 't \<Rightarrow> ('t, 'r, 'm) Broker \<Rightarrow> ('r \<times> 'm) list \<times> ('t, 'r, 'm) Broker" where
  "handle_IssueSync mb ty msg sender b =
     (let (subs, b1) = take_subs ty b;
          (out, waiting, b2) = (case subs of None \<Rightarrow> ([], [], b1) | Some ss \<Rightarrow> fold (issue_sync_to mb ty msg sender) ss ([], [], b1));
          b3 = set_msg ty msg b2
      in (out, fold (\<lambda>(i, r) b. add_sub ty r i b) (rev waiting) b3))"

section \<open>Who gets a message\<close>

definition subs_of :: "('t, 'r, 'm) Broker \<Rightarrow> 't \<Rightarrow> ('t \<times> 'r) list" where
  "subs_of b ty = (case hm_get (bk_sub_map b) ty of Some ss \<Rightarrow> ss | None \<Rightarrow> [])"

lemma subs_of_add_sub [simp]: "subs_of (add_sub ty r i b) ty' = (if ty' = ty then subs_of b ty @ [(i, r)] else subs_of b ty')"
  by (auto simp: subs_of_def add_sub_def split: option.split)

lemma add_sub_fields [simp]: "bk_msg_map (add_sub ty r i b) = bk_msg_map b"
  by (simp add: add_sub_def split: option.split)

lemma subs_of_set_msg [simp]: "subs_of (set_msg ty msg b) = subs_of b"
  by (rule ext) (simp add: subs_of_def set_msg_def)

lemma take_subs_eq:
  "fst (take_subs ty b) = hm_get (bk_sub_map b) ty" "subs_of (snd (take_subs ty b)) ty' = (if ty' = ty then [] else subs_of b ty')"
  "bk_msg_map (snd (take_subs ty b)) = bk_msg_map b"
  by (auto simp: take_subs_def subs_of_def split: option.split)

definition stays :: "('r \<Rightarrow> mailbox) \<Rightarrow> 't \<Rightarrow> 't \<times> 'r \<Rightarrow> bool" where
  "stays mb sender = (\<lambda>(i, r). i = sender \<or> mb r \<noteq> IsClosed)"

definition addressees :: "('r \<Rightarrow> mailbox) \<Rightarrow> 't \<Rightarrow> ('t \<times> 'r) list \<Rightarrow> 'r list" where
  "addressees mb sender ss = map snd (filter (\<lambda>(i, r). i \<noteq> sender \<and> mb r \<noteq> IsClosed) ss)"

lemma issue_to_eq:
  "issue_to mb ty msg sender (i, r) (out, b) =
     (if i \<noteq> sender \<and> mb r \<noteq> IsClosed then out @ [(r, msg)] else out, if i = sender \<or> mb r \<noteq> IsClosed then add_sub ty r i b else b)"
  by (simp add: issue_to_def split: mailbox.split)

lemma issue_fold:
  "fold (issue_to mb ty msg sender) ss (out, b) = (out', b') \<Longrightarrow>
   out' = out @ map (\<lambda>r. (r, msg)) (addressees mb sender ss)
   \<and> subs_of b' ty = subs_of b ty @ filter (stays mb sender) ss
   \<and> (\<forall>ty'. ty' \<noteq> ty \<longrightarrow> subs_of b' ty' = subs_of b ty') \<and> bk_msg_map b' = bk_msg_map b"
proof (induction ss arbitrary: out b)
  case (Cons s ss)
  obtain i r where s: "s = (i, r)" by (cases s)
  from Cons.prems have "fold (issue_to mb ty msg sender) ss (issue_to mb ty msg sender (i, r) (out, b)) = (out', b')" by (simp add: s)
  from Cons.IH [OF this [unfolded issue_to_eq]] show ?case by (auto simp: s addressees_def stays_def)
qed (simp add: addressees_def)

lemma issue_sync_fold:
  "fold (issue_sync_to mb ty msg sender) ss (out, w, b) = (out', w', b') \<Longrightarrow>
   out' = out @ map (\<lambda>r. (r, msg)) (addressees mb sender ss) \<and> w' = w @ filter (\<lambda>(i, r). i \<noteq> sender) ss
   \<and> subs_of b' ty = subs_of b ty @ filter (\<lambda>(i, r). i = sender) ss
   \<and> (\<forall>ty'. ty' \<noteq> ty \<longrightarrow> subs_of b' ty' = subs_of b ty') \<and> bk_msg_map b' = bk_msg_map b"
proof (induction ss arbitrary: out w b)
  case (Cons s ss)
  obtain i r where s: "s = (i, r)" by (cases s)
  have e: "issue_sync_to mb ty msg sender (i, r) (out, w, b) =
      (if i \<noteq> sender \<and> mb r \<noteq> IsClosed then out @ [(r, msg)] else out, if i = sender then w else w @ [(i, r)], if i = sender then add_sub ty r i b else b)"
    by (simp add: issue_sync_to_def)
  from Cons.prems have "fold (issue_sync_to mb ty msg sender) ss (issue_sync_to mb ty msg sender (i, r) (out, w, b)) = (out', w', b')" by (simp add: s)
  from Cons.IH [OF this [unfolded e]] show ?case by (auto simp: s addressees_def)
qed (simp add: addressees_def)

lemma add_all_subs: "subs_of (fold (\<lambda>(i, r) b. add_sub ty r i b) ws b) ty' = (if ty' = ty then subs_of b ty @ ws else subs_of b ty')"
  and add_all_msg: "bk_msg_map (fold (\<lambda>(i, r) b. add_sub ty r i b) ws b) = bk_msg_map b"
  by (induction ws arbitrary: b) auto

lemma async_issue:
  "fst (handle_IssueAsync mb ty msg sender b) = map (\<lambda>r. (r, msg)) (addressees mb sender (subs_of b ty))
   \<and> subs_of (snd (handle_IssueAsync mb ty msg sender b)) t =
       (if t = ty then filter (stays mb sender) (subs_of b ty) else subs_of b t)
   \<and> bk_msg_map (snd (handle_IssueAsync mb ty msg sender b)) = hm_insert ty msg (bk_msg_map b)"
proof -
  obtain out c where a: "fold (issue_to mb ty msg sender) (subs_of b ty) ([], snd (take_subs ty b)) = (out, c)" by (metis surj_pair)
  have "handle_IssueAsync mb ty msg sender b = (out, set_msg ty msg c)"
    using a by (cases "hm_get (bk_sub_map b) ty") (simp_all add: handle_IssueAsync_def take_subs_def subs_of_def)
  then show ?thesis using issue_fold [OF a] by (simp add: take_subs_eq) (simp add: set_msg_def)
qed

lemma sync_issue:
  "fst (handle_IssueSync mb ty msg sender b) = map (\<lambda>r. (r, msg)) (addressees mb sender (subs_of b ty))
   \<and> subs_of (snd (handle_IssueSync mb ty msg sender b)) t =
       (if t = ty then filter (\<lambda>(i, r). i = sender) (subs_of b ty) @ rev (filter (\<lambda>(i, r). i \<noteq> sender) (subs_of b ty)) else subs_of b t)
   \<and> bk_msg_map (snd (handle_IssueSync mb ty msg sender b)) = hm_insert ty msg (bk_msg_map b)"
proof -
  obtain out w c where s: "fold (issue_sync_to mb ty msg sender) (subs_of b ty) ([], [], snd (take_subs ty b)) = (out, w, c)" by (metis surj_pair)
  have "handle_IssueSync mb ty msg sender b = (out, fold (\<lambda>(i, r) b. add_sub ty r i b) (rev w) (set_msg ty msg c))"
    using s by (cases "hm_get (bk_sub_map b) ty") (simp_all add: handle_IssueSync_def take_subs_def subs_of_def)
  then show ?thesis using issue_sync_fold [OF s] by (simp add: take_subs_eq add_all_subs add_all_msg) (simp add: set_msg_def)
qed

text \<open>
  C31. Who gets a message: an asynchronous issue delivers one copy, in the order of subscription, to every subscriber of the type whose mailbox is not closed and which is not of the sender's
  own actor type; closed mailboxes are unsubscribed and all others stay, in order. A synchronous issue delivers to the same subscribers and unsubscribes nobody,
  but it puts the sender's subscriptions first and reverses the others. Both leave other types alone and keep the message for the next synchronous subscriber.
\<close>

theorem issue_delivers:
  "let (out, b1) = handle_IssueAsync mb ty msg sender b; (out2, b2) = handle_IssueSync mb ty msg sender b; ss = subs_of b ty
   in out = map (\<lambda>r. (r, msg)) (addressees mb sender ss) \<and> out2 = out
      \<and> subs_of b1 ty = filter (stays mb sender) ss
      \<and> subs_of b2 ty = filter (\<lambda>(i, r). i = sender) ss @ rev (filter (\<lambda>(i, r). i \<noteq> sender) ss)
      \<and> (ty' = ty \<or> subs_of b1 ty' = subs_of b ty' \<and> subs_of b2 ty' = subs_of b ty')
      \<and> fst (handle_SubscribeSync ty r i b1) = Some msg \<and> fst (handle_SubscribeSync ty r i b2) = Some msg"
  using async_issue [of mb ty msg sender b] sync_issue [of mb ty msg sender b]
  by (auto simp: split_beta Let_def handle_SubscribeSync_def get_previous_msg_def)

text \<open>No subscription is lost by synchronous issues, whatever the mailboxes answer.\<close>

theorem sync_issue_keeps_subscribers: "mset (subs_of (snd (handle_IssueSync mb ty msg sender b)) ty) = mset (subs_of b ty)"
proof -
  have "filter (\<lambda>(i, r). i \<noteq> sender) xs = filter (\<lambda>p. \<not> (\<lambda>(i, r). i = sender) p) xs" for xs :: "('a \<times> 'b) list"
    by (rule filter_cong) auto
  then show ?thesis using sync_issue [of mb ty msg sender b] multiset_partition [of "mset (subs_of b ty)" "\<lambda>(i, r). i = sender"]
    by (simp add: mset_filter)
qed

end
