(* ===== verification/Cluster_Endpoints.thy ===== *)
theory Cluster_Endpoints
  imports Actor_Registry
begin

text \<open>
  What stands between the transport and the actors of a node: authentication of connections (\<^verbatim>\<open>actix-cluster/src/security/mod.rs\<close>), deduplication of messages (\<^verbatim>\<open>message/delivery.rs\<close>), the table of
  envelope handlers (\<^verbatim>\<open>message/handler.rs\<close>), and the properties and the system actor of distributed actors (\<^verbatim>\<open>actor.rs\<close>).

  The deduplicator keeps its times in a least-recently-used cache of the \<^verbatim>\<open>lru\<close> crate: the record \<open>lru\<close> has its operations, and \<open>lru_laws\<close> what its documentation says of them, over the contents of a cache as a
  map. The effect of an envelope handler is the list of calls it is given. Durations and times have one unit.
\<close>

section \<open>Authentication\<close>

record TlsConfig =
  tl_cert_path :: string
  tl_key_path :: string

record MutualTlsConfig =
  mt_cert_path :: string
  mt_key_path :: string
  mt_ca_path :: string

datatype JwtAlgorithm = HS256 | RS256 | ES256

definition JwtAlgorithm_default :: JwtAlgorithm where
  "JwtAlgorithm_default = HS256"

fun JwtAlgorithm_debug :: "JwtAlgorithm \<Rightarrow> string" where
  "JwtAlgorithm_debug HS256 = ''HS256''"
| "JwtAlgorithm_debug RS256 = ''RS256''"
| "JwtAlgorithm_debug ES256 = ''ES256''"

record JwtConfig =
  jw_secret_key :: string
  jw_algorithm :: JwtAlgorithm
  jw_expiry :: int

datatype SecurityMode = NoSecurity | Tls TlsConfig | MutualTls MutualTlsConfig | Jwt JwtConfig

definition SecurityMode_default :: SecurityMode where
  "SecurityMode_default = NoSecurity"

record AuthenticationHandler =
  ah_mode :: SecurityMode
  ah_authorized_nodes :: "NodeId set"

definition AuthenticationHandler_new :: "SecurityMode \<Rightarrow> AuthenticationHandler" where
  "AuthenticationHandler_new m = \<lparr> ah_mode = m, ah_authorized_nodes = {} \<rparr>"

definition add_authorized_node :: "NodeId \<Rightarrow> AuthenticationHandler \<Rightarrow> AuthenticationHandler" where
  "add_authorized_node n h = h \<lparr> ah_authorized_nodes := insert n (ah_authorized_nodes h) \<rparr>"

definition remove_authorized_node :: "NodeId \<Rightarrow> AuthenticationHandler \<Rightarrow> AuthenticationHandler" where
  "remove_authorized_node n h = h \<lparr> ah_authorized_nodes := ah_authorized_nodes h - {n} \<rparr>"

definition is_node_authorized :: "NodeId \<Rightarrow> AuthenticationHandler \<Rightarrow> bool" where
  "is_node_authorized n h = (n \<in> ah_authorized_nodes h)"

definition authenticate_connection :: "TransportMessage \<Rightarrow> AuthenticationHandler \<Rightarrow> ClusterError + bool" where
  "authenticate_connection m h =
     (let listed = (case m of THandshake i \<Rightarrow> Inr (is_node_authorized (ni_id i) h) | _ \<Rightarrow> Inl AuthenticationError)
      in (case ah_mode h of NoSecurity \<Rightarrow> Inr True | Tls _ \<Rightarrow> Inr True | MutualTls _ \<Rightarrow> listed | Jwt _ \<Rightarrow> listed))"

definition generate_token :: "(NodeId \<Rightarrow> string) \<Rightarrow> NodeId \<Rightarrow> AuthenticationHandler \<Rightarrow> ClusterError + string" where
  "generate_token show_id n h =
     (case ah_mode h of
        Jwt c \<Rightarrow> Inr (''jwt-token-for-'' @ show_id n @ ''-using-'' @ JwtAlgorithm_debug (jw_algorithm c))
      | _ \<Rightarrow> Inl InvalidOperation)"

section \<open>Deduplication\<close>

record 'c lru =
  lr_new :: "nat \<Rightarrow> 'c"
  lr_get :: "string \<Rightarrow> 'c \<Rightarrow> int option \<times> 'c"
  lr_put :: "string \<Rightarrow> int \<Rightarrow> 'c \<Rightarrow> 'c"
  lr_pop :: "string \<Rightarrow> 'c \<Rightarrow> 'c"
  lr_iter :: "'c \<Rightarrow> (string \<times> int) list"

record 'c MessageDeduplicator =
  md_seen :: 'c
  md_expiry_time :: int

definition MessageDeduplicator_new :: "'c lru \<Rightarrow> nat \<Rightarrow> int \<Rightarrow> 'c MessageDeduplicator" where
  "MessageDeduplicator_new L capacity expiry = \<lparr> md_seen = lr_new L (if capacity = 0 then 100 else capacity), md_expiry_time = expiry \<rparr>"

definition is_duplicate :: "'c lru \<Rightarrow> int \<Rightarrow> string \<Rightarrow> 'c MessageDeduplicator \<Rightarrow> bool \<times> 'c MessageDeduplicator" where
  "is_duplicate L now i d =
     (case lr_get L i (md_seen d) of
        (Some t, c) \<Rightarrow> (max 0 (now - t) < md_expiry_time d, d \<lparr> md_seen := c \<rparr>)
      | (None, c) \<Rightarrow> (False, d \<lparr> md_seen := lr_put L i now c \<rparr>))"

definition dedup_cleanup :: "'c lru \<Rightarrow> int \<Rightarrow> 'c MessageDeduplicator \<Rightarrow> 'c MessageDeduplicator" where
  "dedup_cleanup L now d =
     d \<lparr> md_seen := fold (lr_pop L) (map fst (filter (\<lambda>(k, t). md_expiry_time d \<le> max 0 (now - t)) (lr_iter L (md_seen d)))) (md_seen d) \<rparr>"

definition dedup_len :: "'c lru \<Rightarrow> 'c MessageDeduplicator \<Rightarrow> nat" where
  "dedup_len L d = length (lr_iter L (md_seen d))"

definition add_message :: "'c lru \<Rightarrow> int \<Rightarrow> string \<Rightarrow> 'c MessageDeduplicator \<Rightarrow> 'c MessageDeduplicator" where
  "add_message L now i d = d \<lparr> md_seen := lr_put L i now (md_seen d) \<rparr>"

section \<open>Envelope handlers\<close>

record MessageEnvelopeHandler =
  eh_node_id :: NodeId
  eh_handlers :: "(string, nat) hashmap"

definition MessageEnvelopeHandler_new :: "NodeId \<Rightarrow> MessageEnvelopeHandler" where
  "MessageEnvelopeHandler_new n = \<lparr> eh_node_id = n, eh_handlers = [] \<rparr>"

definition register_handler :: "string \<Rightarrow> nat \<Rightarrow> MessageEnvelopeHandler \<Rightarrow> MessageEnvelopeHandler" where
  "register_handler path f h = h \<lparr> eh_handlers := hm_insert path f (eh_handlers h) \<rparr>"

definition dispatch_envelope :: "MessageEnvelope \<Rightarrow> MessageEnvelopeHandler \<Rightarrow> (nat \<times> MessageEnvelope) list" where
  "dispatch_envelope e h = (case hm_get (eh_handlers h) (me_target_actor e) of Some f \<Rightarrow> [(f, e)] | None \<Rightarrow> [])"

section \<open>Distributed actors\<close>

record ActorProps =
  ap_custom_path :: "string option"
  ap_strategy :: PlacementStrategy
  ap_format :: SerializationFormat
  ap_affinity_group :: "string option"

definition ActorProps_new :: ActorProps where
  "ActorProps_new = \<lparr> ap_custom_path = None, ap_strategy = Random, ap_format = Bincode, ap_affinity_group = None \<rparr>"

definition with_path :: "string \<Rightarrow> ActorProps \<Rightarrow> ActorProps" where
  "with_path p a = a \<lparr> ap_custom_path := Some p \<rparr>"

definition with_strategy :: "PlacementStrategy \<Rightarrow> ActorProps \<Rightarrow> ActorProps" where
  "with_strategy s a = a \<lparr> ap_strategy := s \<rparr>"

definition with_format :: "SerializationFormat \<Rightarrow> ActorProps \<Rightarrow> ActorProps" where
  "with_format f a = a \<lparr> ap_format := f \<rparr>"

definition with_local_affinity :: "string option \<Rightarrow> PlacementStrategy \<Rightarrow> ActorProps \<Rightarrow> ActorProps" where
  "with_local_affinity g fallback a = a \<lparr> ap_strategy := LocalAffinity fallback g, ap_affinity_group := g \<rparr>"

definition with_round_robin :: "ActorProps \<Rightarrow> ActorProps" where
  "with_round_robin a = a \<lparr> ap_strategy := RoundRobin \<rparr>"

definition with_least_loaded :: "ActorProps \<Rightarrow> ActorProps" where
  "with_least_loaded a = a \<lparr> ap_strategy := LeastLoaded \<rparr>"

definition with_redundancy :: "nat \<Rightarrow> ActorProps \<Rightarrow> ActorProps" where
  "with_redundancy k a = a \<lparr> ap_strategy := Redundant k \<rparr>"

definition on_node :: "NodeId \<Rightarrow> ActorProps \<Rightarrow> ActorProps" where
  "on_node n a = a \<lparr> ap_strategy := OnNode n \<rparr>"

definition props_actor_path :: "string \<Rightarrow> ActorProps \<Rightarrow> string" where
  "props_actor_path own a = (case ap_custom_path a of Some p \<Rightarrow> p | None \<Rightarrow> own)"

text \<open>What an asynchronous request to an actor ends with: an answer, a mailbox error, or the timeout.\<close>

datatype 'r request_end = Answer 'r | MailboxFailed | TimeoutElapsed

definition ask_async :: "'r request_end \<Rightarrow> ClusterError + 'r" where
  "ask_async e = (case e of Answer r \<Rightarrow> Inr r | MailboxFailed \<Rightarrow> Inl ActorError | TimeoutElapsed \<Rightarrow> Inl Timeout)"

definition handle_RegisterDistributedActor :: "string \<Rightarrow> 'a ActorRef \<Rightarrow> 'a RegistryActor \<Rightarrow> (ClusterError + unit) \<times> 'a RegistryActor" where
  "handle_RegisterDistributedActor p r a =
     (case ra_registry a of
        Some g \<Rightarrow> let (x, g') = register_local p r g in (x, a \<lparr> ra_registry := Some g' \<rparr>)
      | None \<Rightarrow> (Inl NotInitialized, a))"

definition handle_RemoteInvocation :: "bool \<Rightarrow> int \<Rightarrow> P2PTransport \<Rightarrow> string \<Rightarrow> 'a RegistryActor \<Rightarrow> (ClusterError + bytes) \<times> 'a RegistryActor" where
  "handle_RemoteInvocation clean now t p a =
     (case ra_registry a of
        Some g \<Rightarrow>
          (let (r, g') = lookup clean now t p g
           in (Inl (if r = None then ActorNotFound p else NotImplemented), a \<lparr> ra_registry := Some g' \<rparr>))
      | None \<Rightarrow> (Inl NotInitialized, a))"

section \<open>What is let through\<close>

text \<open>
  Authentication: a handshake is accepted exactly if the mode has no list or the node is on it; other messages are an error in the modes with a list.
\<close>

definition listed_mode :: "SecurityMode \<Rightarrow> bool" where
  "listed_mode m = (case m of MutualTls _ \<Rightarrow> True | Jwt _ \<Rightarrow> True | _ \<Rightarrow> False)"

theorem authentication_decides:
  "authenticate_connection m h =
     (if \<not> listed_mode (ah_mode h) then Inr True
      else case m of THandshake i \<Rightarrow> Inr (ni_id i \<in> ah_authorized_nodes h) | _ \<Rightarrow> Inl AuthenticationError)
   \<and> authenticate_connection (THandshake i) (add_authorized_node (ni_id i) h) = Inr True
   \<and> authenticate_connection (THandshake i) (remove_authorized_node (ni_id i) h) = Inr (\<not> listed_mode (ah_mode h))"
  by (auto simp: authenticate_connection_def listed_mode_def is_node_authorized_def add_authorized_node_def remove_authorized_node_def
      split: SecurityMode.split TransportMessage.split)

text \<open>The documented laws of the cache: reading changes nothing but the order of use, storing may evict other entries, removing removes one.\<close>

definition lru_laws :: "'c lru \<Rightarrow> ('c \<Rightarrow> string \<rightharpoonup> int) \<Rightarrow> bool" where
  "lru_laws L view =
     ((\<forall>n. view (lr_new L n) = Map.empty)
      \<and> (\<forall>k c. fst (lr_get L k c) = view c k \<and> view (snd (lr_get L k c)) = view c)
      \<and> (\<forall>k v c. view (lr_put L k v c) k = Some v \<and> (\<forall>j. j \<noteq> k \<longrightarrow> view (lr_put L k v c) j = view c j \<or> view (lr_put L k v c) j = None))
      \<and> (\<forall>k c. view (lr_pop L k c) = (view c)(k := None))
      \<and> (\<forall>k v c. (k, v) \<in> set (lr_iter L c) \<longleftrightarrow> view c k = Some v))"

lemma lru_lawsD:
  assumes "lru_laws L view"
  shows "view (lr_new L n) = Map.empty" and "fst (lr_get L k c) = view c k" and "view (snd (lr_get L k c)) = view c" and "view (lr_put L k v c) k = Some v"
    and "view (lr_pop L k c) = (view c)(k := None)" and "(k, v) \<in> set (lr_iter L c) \<longleftrightarrow> view c k = Some v"
  using assms by (simp_all add: lru_laws_def)

lemma is_duplicate_seen:
  assumes "lru_laws L view" and "view (md_seen d) i = Some t"
  shows "is_duplicate L now i d = (max 0 (now - t) < md_expiry_time d, d \<lparr> md_seen := snd (lr_get L i (md_seen d)) \<rparr>)"
  using lru_lawsD(2) [OF assms(1), of i "md_seen d"] assms(2) by (cases "lr_get L i (md_seen d)") (simp add: is_duplicate_def)

lemma is_duplicate_new:
  assumes "lru_laws L view" and "view (md_seen d) i = None"
  shows "fst (is_duplicate L now i d) = False" and "view (md_seen (snd (is_duplicate L now i d))) i = Some now"
  using lru_lawsD(2,4) [OF assms(1)] assms(2) lru_lawsD(2) [OF assms(1), of i "md_seen d"]
  by (cases "lr_get L i (md_seen d)"; simp add: is_duplicate_def)+

text \<open>
  Deduplication: the first arrival of an id is let through and remembered; while it is remembered, arrivals within the expiry time are duplicates. But an arrival after the expiry time is
  let through without renewing the time, so from then on every copy is let through, however close to the last one, until a cleanup removes the entry.
\<close>

fun arrivals :: "'c lru \<Rightarrow> string \<Rightarrow> int list \<Rightarrow> 'c MessageDeduplicator \<Rightarrow> bool list" where
  "arrivals L i [] d = []"
| "arrivals L i (now # nows) d = (let (r, d1) = is_duplicate L now i d in r # arrivals L i nows d1)"

theorem dedup_first_arrival_decides:
  assumes "lru_laws L view" and "view (md_seen d) i = None"
  shows "arrivals L i (t # nows) d = False # map (\<lambda>now. max 0 (now - t) < md_expiry_time d) nows"
proof -
  have "view (md_seen d') i = Some t \<Longrightarrow> arrivals L i nows d' = map (\<lambda>now. max 0 (now - t) < md_expiry_time d') nows" for d'
  proof (induction nows arbitrary: d')
    case (Cons now nows)
    then show ?case using lru_lawsD(3) [OF assms(1), of i "md_seen d'"] by (simp add: is_duplicate_seen [OF assms(1) Cons.prems])
  qed simp
  moreover have "md_expiry_time (snd (is_duplicate L t i d)) = md_expiry_time d" by (simp add: is_duplicate_def split: prod.split option.split)
  ultimately show ?thesis using is_duplicate_new [OF assms, of t] by (simp add: split_beta)
qed

theorem cleanup_removes_expired:
  assumes "lru_laws L view"
  shows "view (md_seen (dedup_cleanup L now d)) i =
    (case view (md_seen d) i of Some t \<Rightarrow> if md_expiry_time d \<le> max 0 (now - t) then None else Some t | None \<Rightarrow> None)"
proof -
  have pops: "view (fold (lr_pop L) ks c) j = (if j \<in> set ks then None else view c j)" for ks c j
    by (induction ks arbitrary: c) (simp_all add: lru_lawsD(5) [OF assms])
  show ?thesis unfolding dedup_cleanup_def by (auto simp: pops lru_lawsD(6) [OF assms] image_iff split: option.split)
qed

end
