(* ===== verification/Api_Gateway.thy ===== *)
theory Api_Gateway
  imports Trading_Actors "HOL-Library.Sublist"
begin

text \<open>
  The HTTP interface of the trading system: the actor system its adapters ask (\<^verbatim>\<open>trading/src/actor/mod.rs\<close>), the adapters between the messages of the gateway and those of the actors
  (\<^verbatim>\<open>trading/src/api/adapter\<close>) and the gateway (\<^verbatim>\<open>trading/src/api/gateway.rs\<close>). A handler of the gateway takes the function that sends to the adapter, which may fail in the mailbox; an
  adapter takes the function that asks the actor system. A JSON body is the two functions from keys to optional strings and numbers that the handlers read it by, since
  \<^verbatim>\<open>serde_json\<close> and \<^verbatim>\<open>actix_web\<close> are other crates; the table of routes is data.

  The lemmas show which requests the gateway lets through to an adapter, which status every answer of an actor gives, that all responses have one shape, and what the three layers answer together.
\<close>

section \<open>The actor system\<close>

text \<open>\<open>AskCreateOrder\<close>, \<open>AskCancelOrder\<close> and \<open>AskQueryOrder\<close> are the messages of \<^verbatim>\<open>actor/order.rs\<close>, which share their names with messages of the adapters.\<close>

datatype AccountQueryMessage = GetAccount string | GetAllAccounts

record AccountUpdateMessage =
  au_account_id :: "string option"
  au_name :: string
  au_initial_balance :: f64

record FundTransferMessage =
  ft_account_id :: string
  ft_amount :: f64
  ft_transfer_type :: string
  ft_reference :: "string option"

datatype ask_msg =
    AskCreateOrder OrderRequest
  | AskCancelOrder CancelOrderRequest
  | AskQueryOrder OrderQuery
  | AskAccountQuery AccountQueryMessage
  | AskAccountUpdate AccountUpdateMessage
  | AskFundTransfer FundTransferMessage
  | AskRiskCheck RiskCheckRequest

text \<open>\<^verbatim>\<open>std::any::type_name\<close> of the messages, with the crate's name first.\<close>

fun type_name :: "ask_msg \<Rightarrow> string" where
  "type_name (AskCreateOrder m) = ''trading::actor::order::CreateOrderMessage''"
| "type_name (AskCancelOrder m) = ''trading::actor::order::CancelOrderMessage''"
| "type_name (AskQueryOrder m) = ''trading::actor::order::QueryOrderMessage''"
| "type_name (AskAccountQuery m) = ''trading::api::adapter::messages::AccountQueryMessage''"
| "type_name (AskAccountUpdate m) = ''trading::api::adapter::messages::AccountUpdateMessage''"
| "type_name (AskFundTransfer m) = ''trading::api::adapter::messages::FundTransferMessage''"
| "type_name (AskRiskCheck m) = ''trading::risk::manager::RiskCheckRequest''"

text \<open>The boxes that \<^verbatim>\<open>ask\<close> makes and \<^verbatim>\<open>Box::downcast\<close> to the type a caller expects.\<close>

datatype any_box = AnyOrderResult OrderResult | AnyOrders "Order list"

fun downcast_OrderResult :: "any_box \<Rightarrow> OrderResult option" where
  "downcast_OrderResult (AnyOrderResult r) = Some r"
| "downcast_OrderResult (AnyOrders os) = None"

fun downcast_Orders :: "any_box \<Rightarrow> Order list option" where
  "downcast_Orders (AnyOrders os) = Some os"
| "downcast_Orders (AnyOrderResult r) = None"

definition downcast_other :: "any_box \<Rightarrow> 'r option" where
  "downcast_other v = None"

definition canned_order ::
    "datetime \<Rightarrow> datetime \<Rightarrow> string \<Rightarrow> string \<Rightarrow> string \<Rightarrow> OrderSide \<Rightarrow> OrderType \<Rightarrow> int \<Rightarrow> int option \<Rightarrow> OrderStatus \<Rightarrow> Order" where
  "canned_order created updated i acc symbol sd ty q p st =
     \<lparr> o_order_id = i, o_account_id = acc, o_symbol = symbol, o_side = sd, o_order_type = ty, o_quantity = whole q, o_price = map_option whole p, o_stop_price = None,
       o_status = st, o_filled_quantity = Fin 0, o_created_at = created, o_updated_at = updated \<rparr>"

definition default_order :: "(nat \<Rightarrow> datetime) \<Rightarrow> Order" where
  "default_order clk = canned_order (clk 0) (clk 1) ''test-order-1'' ''client-1'' ''AAPL'' Buy Market 100 None New"

definition canned_orders :: "string option \<Rightarrow> (nat \<Rightarrow> datetime) \<Rightarrow> Order list" where
  "canned_orders thread clk =
     (if (case thread of None \<Rightarrow> False | Some n \<Rightarrow> sublist ''order_cancellation'' n)
      then [canned_order (clk 0) (clk 1) ''test-order-2'' ''client-2'' ''MSFT'' Sell Limit 50 (Some 250) Cancelled]
      else if (case thread of None \<Rightarrow> False | Some n \<Rightarrow> sublist ''order_queries'' n)
      then [canned_order (clk 0) (clk 1) ''order-1'' ''client-1'' ''AAPL'' Buy Limit 100 (Some 150) New,
            canned_order (clk 2) (clk 3) ''order-2'' ''client-2'' ''AAPL'' Sell Limit 50 (Some 155) New]
      else [default_order clk])"

definition ActorSystem_ask ::
    "(any_box \<Rightarrow> 'r option) \<Rightarrow> string option \<Rightarrow> (nat \<Rightarrow> datetime) \<Rightarrow> string \<Rightarrow> ask_msg \<Rightarrow> 'r option" where
  "ActorSystem_ask downcast thread clk target msg =
     (if sublist ''CreateOrderMessage'' (type_name msg) then downcast (AnyOrderResult (OrderAccepted ''test-order-1''))
      else if sublist ''CancelOrderMessage'' (type_name msg) then downcast (AnyOrderResult (OrderAccepted ''test-order-2''))
      else if sublist ''QueryOrderMessage'' (type_name msg) then downcast (AnyOrders (canned_orders thread clk))
      else None)"

definition ActorSystem_tell :: "string \<Rightarrow> ask_msg \<Rightarrow> bool" where
  "ActorSystem_tell target msg = True"

definition ActorSystem_create_actor :: "string \<Rightarrow> string" where
  "ActorSystem_create_actor uid = ''/user/'' @ uid"

definition ActorContext_ask :: "string \<Rightarrow> ask_msg \<Rightarrow> any_box option" where
  "ActorContext_ask target msg = None"

definition ActorContext_tell :: "string \<Rightarrow> ask_msg \<Rightarrow> bool" where
  "ActorContext_tell target msg = True"

section \<open>The adapters\<close>

text \<open>An adapter holds the path of its internal actor; the actor system it shares has only a name.\<close>

record ActixAdapter =
  ad_internal_actor :: string
  ad_actor_system :: string

definition ActixOrderActor_from_custom :: "string \<Rightarrow> string \<Rightarrow> OrderActor \<Rightarrow> ActixAdapter" where
  "ActixOrderActor_from_custom uid system oa = \<lparr> ad_internal_actor = ''/user/order_actor_'' @ uid, ad_actor_system = system \<rparr>"

definition ActixAccountActor_from_custom :: "string \<Rightarrow> string \<Rightarrow> AccountActor \<Rightarrow> ActixAdapter" where
  "ActixAccountActor_from_custom uid system aa = \<lparr> ad_internal_actor = ''/user/account_actor_'' @ uid, ad_actor_system = system \<rparr>"

definition ActixRiskActor_from_custom :: "string \<Rightarrow> string \<Rightarrow> RiskManager \<Rightarrow> ActixAdapter" where
  "ActixRiskActor_from_custom uid system rm = \<lparr> ad_internal_actor = ''/user/risk_manager_'' @ uid, ad_actor_system = system \<rparr>"

datatype AccountQueryResult = AccountFound Account | AccountsFound "Account list" | AccountQueryError string
datatype AccountUpdateResult = AccountUpdated Account | AccountUpdateError string
datatype FundTransferResult = FundsTransferred Account | FundTransferError string

record CreateOrderMessage =
  co_order :: Order
  co_skip_risk_check :: bool

datatype OrderCreateResult = OrderCreated Order | OrderCreateError string

record CancelOrderMessage =
  cm_order_id :: string
  cm_requested_by :: string

datatype OrderCancelResult = OrderCancelled | OrderCancelError string

datatype OrderQueryMessage = GetOrder string | GetOrdersByAccount string | GetOrdersBySymbol string | GetOrdersByStatus OrderStatus | GetAllOrders

datatype OrderQueryResult = OrderFound Order | OrdersFound "Order list" | OrderQueryError string

record RiskCheckMessage =
  rk_account_id :: string
  rk_symbol :: string
  rk_side :: OrderSide
  rk_order_type :: OrderType
  rk_quantity :: f64
  rk_price :: "f64 option"

datatype api_RiskCheckResult = ApiApproved | ApiRejected risk_reason | ApiNoResponse

definition ActixOrderActor_create :: "(string \<Rightarrow> ask_msg \<Rightarrow> OrderResult option) \<Rightarrow> ActixAdapter \<Rightarrow> CreateOrderMessage \<Rightarrow> OrderCreateResult" where
  "ActixOrderActor_create ask ad msg =
     (let ord = co_order msg;
          request = \<lparr> rq_order_id = Some (o_order_id ord), rq_symbol = o_symbol ord, rq_side = o_side ord, rq_price = o_price ord,
                      rq_quantity = f64_to_u64 (o_quantity ord), rq_client_id = o_account_id ord, rq_order_type = o_order_type ord \<rparr>
      in case ask (ad_internal_actor ad) (AskCreateOrder request) of
           Some (OrderAccepted order_id) \<Rightarrow> OrderCreated (ord \<lparr> o_order_id := order_id \<rparr>)
         | Some (OrderRejected reason) \<Rightarrow> OrderCreateError reason
         | Some (OrderError e) \<Rightarrow> OrderCreateError e
         | None \<Rightarrow> OrderCreateError ''No response from order actor'')"

definition ActixOrderActor_cancel :: "(string \<Rightarrow> ask_msg \<Rightarrow> OrderResult option) \<Rightarrow> ActixAdapter \<Rightarrow> CancelOrderMessage \<Rightarrow> OrderCancelResult" where
  "ActixOrderActor_cancel ask ad msg =
     (case ask (ad_internal_actor ad) (AskCancelOrder \<lparr> cq_order_id = cm_order_id msg, cq_client_id = cm_requested_by msg \<rparr>) of
        Some (OrderAccepted i) \<Rightarrow> OrderCancelled
      | Some (OrderRejected reason) \<Rightarrow> OrderCancelError reason
      | Some (OrderError e) \<Rightarrow> OrderCancelError e
      | None \<Rightarrow> OrderCancelError ''No response from order actor'')"

fun order_query_of :: "OrderQueryMessage \<Rightarrow> OrderQuery" where
  "order_query_of (GetOrder i) = ById i"
| "order_query_of (GetOrdersByAccount a) = ByAccount a"
| "order_query_of (GetOrdersBySymbol s) = BySymbol s"
| "order_query_of (GetOrdersByStatus st) = ByStatus st"
| "order_query_of GetAllOrders = AllOrders"

definition ActixOrderActor_query :: "(string \<Rightarrow> ask_msg \<Rightarrow> Order list option) \<Rightarrow> ActixAdapter \<Rightarrow> OrderQueryMessage \<Rightarrow> OrderQueryResult" where
  "ActixOrderActor_query ask ad msg =
     (case ask (ad_internal_actor ad) (AskQueryOrder (order_query_of msg)) of
        Some orders \<Rightarrow> (if length orders = 1 then OrderFound (orders ! 0) else OrdersFound orders)
      | None \<Rightarrow> OrderQueryError ''No response from order actor'')"

definition ActixAccountActor_query :: "(string \<Rightarrow> ask_msg \<Rightarrow> AccountQueryResult option) \<Rightarrow> ActixAdapter \<Rightarrow> AccountQueryMessage \<Rightarrow> AccountQueryResult" where
  "ActixAccountActor_query ask ad msg =
     (case ask (ad_internal_actor ad) (AskAccountQuery msg) of Some r \<Rightarrow> r | None \<Rightarrow> AccountQueryError ''No response from account actor'')"

definition ActixAccountActor_update :: "(string \<Rightarrow> ask_msg \<Rightarrow> AccountUpdateResult option) \<Rightarrow> ActixAdapter \<Rightarrow> AccountUpdateMessage \<Rightarrow> AccountUpdateResult" where
  "ActixAccountActor_update ask ad msg =
     (case ask (ad_internal_actor ad) (AskAccountUpdate msg) of Some r \<Rightarrow> r | None \<Rightarrow> AccountUpdateError ''No response from account actor'')"

definition ActixAccountActor_transfer :: "(string \<Rightarrow> ask_msg \<Rightarrow> FundTransferResult option) \<Rightarrow> ActixAdapter \<Rightarrow> FundTransferMessage \<Rightarrow> FundTransferResult" where
  "ActixAccountActor_transfer ask ad msg =
     (case ask (ad_internal_actor ad) (AskFundTransfer msg) of Some r \<Rightarrow> r | None \<Rightarrow> FundTransferError ''No response from account actor'')"

definition ActixRiskActor_check :: "(string \<Rightarrow> ask_msg \<Rightarrow> RiskCheckResult option) \<Rightarrow> ActixAdapter \<Rightarrow> RiskCheckMessage \<Rightarrow> api_RiskCheckResult" where
  "ActixRiskActor_check ask ad msg =
     (let order_request = \<lparr> rq_order_id = None, rq_symbol = rk_symbol msg, rq_side = rk_side msg, rq_price = rk_price msg,
                            rq_quantity = f64_to_u64 (rk_quantity msg), rq_client_id = rk_account_id msg, rq_order_type = rk_order_type msg \<rparr>
      in case ask (ad_internal_actor ad) (AskRiskCheck \<lparr> rc_order = order_request, rc_account_id = rk_account_id msg \<rparr>) of
           Some RiskApproved \<Rightarrow> ApiApproved
         | Some (RiskRejected reason) \<Rightarrow> ApiRejected reason
         | None \<Rightarrow> ApiNoResponse)"

section \<open>The gateway\<close>

datatype api_data = DataAccount Account | DataAccounts "Account list" | DataOrder Order | DataOrders "Order list"

record ApiResponse =
  api_success :: bool
  api_message :: "string option"
  api_data :: "api_data option"

record HttpResponse =
  hr_status :: nat
  hr_body :: ApiResponse

abbreviation http_ok :: "string option \<Rightarrow> api_data option \<Rightarrow> HttpResponse" where
  "http_ok m d \<equiv> \<lparr> hr_status = 200, hr_body = \<lparr> api_success = True, api_message = m, api_data = d \<rparr> \<rparr>"

abbreviation http_fail :: "nat \<Rightarrow> string \<Rightarrow> HttpResponse" where
  "http_fail st m \<equiv> \<lparr> hr_status = st, hr_body = \<lparr> api_success = False, api_message = Some m, api_data = None \<rparr> \<rparr>"

abbreviation internal_error :: "MailboxError \<Rightarrow> HttpResponse" where
  "internal_error e \<equiv> http_fail 500 (''Internal error: '' @ mailbox_error_text e)"

type_synonym ('m, 'r) send_fun = "'m \<Rightarrow> MailboxError + 'r"

record CreateOrderRequest =
  cr_account_id :: string
  cr_symbol :: string
  cr_side :: string
  cr_order_type :: string
  cr_quantity :: f64
  cr_price :: "f64 option"
  cr_stop_price :: "f64 option"

definition handle_account_query :: "(AccountQueryMessage, AccountQueryResult) send_fun \<Rightarrow> string \<Rightarrow> HttpResponse" where
  "handle_account_query send account_id =
     (case send (GetAccount account_id) of
        Inr (AccountFound account) \<Rightarrow> http_ok None (Some (DataAccount account))
      | Inr (AccountQueryError e) \<Rightarrow> http_fail 404 e
      | Inr (AccountsFound as) \<Rightarrow> http_fail 500 ''Unexpected response type''
      | Inl e \<Rightarrow> internal_error e)"

definition handle_accounts_query :: "(AccountQueryMessage, AccountQueryResult) send_fun \<Rightarrow> HttpResponse" where
  "handle_accounts_query send =
     (case send GetAllAccounts of
        Inr (AccountsFound accounts) \<Rightarrow> http_ok None (Some (DataAccounts accounts))
      | Inr r \<Rightarrow> http_fail 500 ''Unexpected response type''
      | Inl e \<Rightarrow> internal_error e)"

definition handle_create_account :: "(AccountUpdateMessage, AccountUpdateResult) send_fun \<Rightarrow> string \<Rightarrow> f64 option \<Rightarrow> HttpResponse" where
  "handle_create_account send name initial_balance =
     (let msg = \<lparr> au_account_id = None, au_name = name, au_initial_balance = (case initial_balance of Some b \<Rightarrow> b | None \<Rightarrow> Fin 0) \<rparr>
      in case send msg of
           Inr (AccountUpdated account) \<Rightarrow> http_ok (Some ''Account created successfully'') (Some (DataAccount account))
         | Inr (AccountUpdateError e) \<Rightarrow> http_fail 400 e
         | Inl e \<Rightarrow> internal_error e)"

definition handle_fund_transfer :: "(FundTransferMessage, FundTransferResult) send_fun \<Rightarrow> string \<Rightarrow> f64 \<Rightarrow> string \<Rightarrow> string option \<Rightarrow> HttpResponse" where
  "handle_fund_transfer send account_id amount transfer_type reference =
     (case send \<lparr> ft_account_id = account_id, ft_amount = amount, ft_transfer_type = transfer_type, ft_reference = reference \<rparr> of
        Inr (FundsTransferred account) \<Rightarrow> http_ok (Some ''Funds transferred successfully'') (Some (DataAccount account))
      | Inr (FundTransferError e) \<Rightarrow> http_fail 400 e
      | Inl e \<Rightarrow> internal_error e)"

text \<open>\<^verbatim>\<open>to_uppercase\<close> is \<open>upper_char\<close> on every character, as it is for texts of ASCII characters.\<close>

definition parse_order_type :: "string \<Rightarrow> OrderType option" where
  "parse_order_type s =
     (let u = map upper_char s in
      if u = ''MARKET'' then Some Market else if u = ''LIMIT'' then Some Limit
      else if u = ''STOP'' then Some StopLoss else if u = ''STOP_LIMIT'' then Some StopLimit else None)"

definition parse_side :: "string \<Rightarrow> OrderSide option" where
  "parse_side s = (let u = map upper_char s in if u = ''BUY'' then Some Buy else if u = ''SELL'' then Some Sell else None)"

definition handle_create_order :: "string \<Rightarrow> (nat \<Rightarrow> datetime) \<Rightarrow> (CreateOrderMessage, OrderCreateResult) send_fun \<Rightarrow> CreateOrderRequest \<Rightarrow> HttpResponse" where
  "handle_create_order uid clk send req =
     (case parse_order_type (cr_order_type req) of
        None \<Rightarrow> http_fail 400 (''Invalid order type: '' @ cr_order_type req)
      | Some order_type \<Rightarrow>
     (case parse_side (cr_side req) of
        None \<Rightarrow> http_fail 400 (''Invalid order side: '' @ cr_side req)
      | Some side \<Rightarrow>
     if f64_le (cr_quantity req) (Fin 0) then http_fail 400 ''Quantity must be greater than zero''
     else if order_type = Limit \<and> cr_price req = None then http_fail 400 ''Limit order requires a price''
     else if (order_type = StopLoss \<or> order_type = StopLimit) \<and> cr_stop_price req = None then http_fail 400 ''Stop order requires a stop price''
     else
       (let ord = \<lparr> o_order_id = uid, o_account_id = cr_account_id req, o_symbol = cr_symbol req, o_side = side, o_order_type = order_type,
                    o_quantity = cr_quantity req, o_price = cr_price req, o_stop_price = cr_stop_price req, o_status = New, o_filled_quantity = Fin 0,
                    o_created_at = clk 0, o_updated_at = clk 1 \<rparr>
        in case send \<lparr> co_order = ord, co_skip_risk_check = False \<rparr> of
             Inr (OrderCreated ord') \<Rightarrow> http_ok (Some ''Order created successfully'') (Some (DataOrder ord'))
           | Inr (OrderCreateError e) \<Rightarrow> http_fail 400 e
           | Inl e \<Rightarrow> internal_error e)))"

definition handle_cancel_order :: "(CancelOrderMessage, OrderCancelResult) send_fun \<Rightarrow> string \<Rightarrow> string \<Rightarrow> HttpResponse" where
  "handle_cancel_order send order_id account_id =
     (case send \<lparr> cm_order_id = order_id, cm_requested_by = account_id \<rparr> of
        Inr OrderCancelled \<Rightarrow> http_ok (Some ''Order cancelled successfully'') None
      | Inr (OrderCancelError e) \<Rightarrow> http_fail 400 e
      | Inl e \<Rightarrow> internal_error e)"

definition handle_order_query :: "(OrderQueryMessage, OrderQueryResult) send_fun \<Rightarrow> string \<Rightarrow> HttpResponse" where
  "handle_order_query send order_id =
     (case send (GetOrder order_id) of
        Inr (OrderFound ord) \<Rightarrow> http_ok None (Some (DataOrder ord))
      | Inr (OrderQueryError e) \<Rightarrow> http_fail 404 e
      | Inr (OrdersFound os) \<Rightarrow> http_fail 500 ''Unexpected response type''
      | Inl e \<Rightarrow> internal_error e)"

definition handle_account_orders_query :: "(OrderQueryMessage, OrderQueryResult) send_fun \<Rightarrow> string \<Rightarrow> HttpResponse" where
  "handle_account_orders_query send account_id =
     (case send (GetOrdersByAccount account_id) of
        Inr (OrdersFound orders) \<Rightarrow> http_ok None (Some (DataOrders orders))
      | Inr (OrderQueryError e) \<Rightarrow> http_fail 404 e
      | Inr (OrderFound ord) \<Rightarrow> http_fail 500 ''Unexpected response type''
      | Inl e \<Rightarrow> internal_error e)"

section \<open>Routes\<close>

text \<open>The body of a request: what \<^verbatim>\<open>json.get(key).and_then(as_str)\<close> and \<^verbatim>\<open>json.get(key).and_then(as_f64)\<close> give for each key.\<close>

record json_body =
  js_str :: "string \<Rightarrow> string option"
  js_f64 :: "string \<Rightarrow> f64 option"

definition post_create_account :: "(AccountUpdateMessage, AccountUpdateResult) send_fun \<Rightarrow> json_body \<Rightarrow> HttpResponse" where
  "post_create_account send json =
     handle_create_account send (case js_str json ''name'' of Some n \<Rightarrow> n | None \<Rightarrow> ''New Account'') (js_f64 json ''initial_balance'')"

definition post_transfer_funds :: "(FundTransferMessage, FundTransferResult) send_fun \<Rightarrow> string \<Rightarrow> json_body \<Rightarrow> HttpResponse" where
  "post_transfer_funds send account_id json =
     (case js_f64 json ''amount'' of
        None \<Rightarrow> http_fail 400 ''Amount is required''
      | Some amount \<Rightarrow>
          (case js_str json ''type'' of
             None \<Rightarrow> http_fail 400 ''Transfer type is required''
           | Some transfer_type \<Rightarrow> handle_fund_transfer send account_id amount transfer_type (js_str json ''reference'')))"

definition post_cancel_order :: "(CancelOrderMessage, OrderCancelResult) send_fun \<Rightarrow> string \<Rightarrow> json_body \<Rightarrow> HttpResponse" where
  "post_cancel_order send order_id json =
     (case js_str json ''account_id'' of
        None \<Rightarrow> http_fail 400 ''Account ID is required''
      | Some account_id \<Rightarrow> handle_cancel_order send order_id account_id)"

datatype http_method = GET | POST
datatype path_segment = Lit string | Param string
datatype endpoint = GetAccounts | CreateAccount | GetAccountById | TransferFunds | CreateOrder | GetOrderById | CancelOrder | GetAccountOrders

definition configure_routes :: "(http_method \<times> path_segment list \<times> endpoint) list" where
  "configure_routes =
     [(GET, [Lit ''api'', Lit ''accounts''], GetAccounts),
      (POST, [Lit ''api'', Lit ''accounts''], CreateAccount),
      (GET, [Lit ''api'', Lit ''accounts'', Param ''account_id''], GetAccountById),
      (POST, [Lit ''api'', Lit ''accounts'', Param ''account_id'', Lit ''transfer''], TransferFunds),
      (POST, [Lit ''api'', Lit ''orders''], CreateOrder),
      (GET, [Lit ''api'', Lit ''orders'', Param ''order_id''], GetOrderById),
      (POST, [Lit ''api'', Lit ''orders'', Param ''order_id'', Lit ''cancel''], CancelOrder),
      (GET, [Lit ''api'', Lit ''accounts'', Param ''account_id'', Lit ''orders''], GetAccountOrders)]"

text \<open>The functions behind the routes, one request type for all: the sending ends of the adapters' mailboxes are the environment of the gateway.\<close>

record api_env =
  env_uid :: string
  env_clk :: "nat \<Rightarrow> datetime"
  env_account_query :: "(AccountQueryMessage, AccountQueryResult) send_fun"
  env_account_update :: "(AccountUpdateMessage, AccountUpdateResult) send_fun"
  env_fund_transfer :: "(FundTransferMessage, FundTransferResult) send_fun"
  env_order_create :: "(CreateOrderMessage, OrderCreateResult) send_fun"
  env_order_cancel :: "(CancelOrderMessage, OrderCancelResult) send_fun"
  env_order_query :: "(OrderQueryMessage, OrderQueryResult) send_fun"

datatype api_request =
    ReqGetAccounts
  | ReqCreateAccount json_body
  | ReqGetAccount string
  | ReqTransferFunds string json_body
  | ReqCreateOrder CreateOrderRequest
  | ReqGetOrder string
  | ReqCancelOrder string json_body
  | ReqGetAccountOrders string

fun serve :: "api_env \<Rightarrow> api_request \<Rightarrow> HttpResponse" where
  "serve env ReqGetAccounts = handle_accounts_query (env_account_query env)"
| "serve env (ReqCreateAccount json) = post_create_account (env_account_update env) json"
| "serve env (ReqGetAccount i) = handle_account_query (env_account_query env) i"
| "serve env (ReqTransferFunds i json) = post_transfer_funds (env_fund_transfer env) i json"
| "serve env (ReqCreateOrder req) = handle_create_order (env_uid env) (env_clk env) (env_order_create env) req"
| "serve env (ReqGetOrder i) = handle_order_query (env_order_query env) i"
| "serve env (ReqCancelOrder i json) = post_cancel_order (env_order_cancel env) i json"
| "serve env (ReqGetAccountOrders i) = handle_account_orders_query (env_order_query env) i"

text \<open>The gateway as it is wired: live adapters that ask the actor system, on a thread with the given name.\<close>

definition running_gateway :: "string option \<Rightarrow> string \<Rightarrow> (nat \<Rightarrow> datetime) \<Rightarrow> (nat \<Rightarrow> datetime) \<Rightarrow> ActixAdapter \<Rightarrow> ActixAdapter \<Rightarrow> api_env" where
  "running_gateway thread uid clk clk' oad aad =
     \<lparr> env_uid = uid, env_clk = clk,
       env_account_query = Inr \<circ> ActixAccountActor_query (ActorSystem_ask downcast_other thread clk') aad,
       env_account_update = Inr \<circ> ActixAccountActor_update (ActorSystem_ask downcast_other thread clk') aad,
       env_fund_transfer = Inr \<circ> ActixAccountActor_transfer (ActorSystem_ask downcast_other thread clk') aad,
       env_order_create = Inr \<circ> ActixOrderActor_create (ActorSystem_ask downcast_OrderResult thread clk') oad,
       env_order_cancel = Inr \<circ> ActixOrderActor_cancel (ActorSystem_ask downcast_OrderResult thread clk') oad,
       env_order_query = Inr \<circ> ActixOrderActor_query (ActorSystem_ask downcast_Orders thread clk') oad \<rparr>"

section \<open>Which requests pass\<close>

text \<open>What a request must satisfy to reach the order actor, and the order it stands for.\<close>

definition acceptable_request :: "CreateOrderRequest \<Rightarrow> bool" where
  "acceptable_request req \<longleftrightarrow>
     map upper_char (cr_order_type req) \<in> {''MARKET'', ''LIMIT'', ''STOP'', ''STOP_LIMIT''} \<and> map upper_char (cr_side req) \<in> {''BUY'', ''SELL''}
     \<and> \<not> f64_le (cr_quantity req) (Fin 0)
     \<and> (map upper_char (cr_order_type req) = ''LIMIT'' \<longrightarrow> cr_price req \<noteq> None)
     \<and> (map upper_char (cr_order_type req) \<in> {''STOP'', ''STOP_LIMIT''} \<longrightarrow> cr_stop_price req \<noteq> None)"

definition requested_order :: "string \<Rightarrow> (nat \<Rightarrow> datetime) \<Rightarrow> CreateOrderRequest \<Rightarrow> Order" where
  "requested_order i clk req =
     \<lparr> o_order_id = i, o_account_id = cr_account_id req, o_symbol = cr_symbol req, o_side = the (parse_side (cr_side req)),
       o_order_type = the (parse_order_type (cr_order_type req)), o_quantity = cr_quantity req, o_price = cr_price req, o_stop_price = cr_stop_price req,
       o_status = New, o_filled_quantity = Fin 0, o_created_at = clk 0, o_updated_at = clk 1 \<rparr>"

lemma acceptable_request_parsed:
  "acceptable_request req \<longleftrightarrow>
     parse_side (cr_side req) \<noteq> None \<and> \<not> f64_le (cr_quantity req) (Fin 0)
     \<and> (case parse_order_type (cr_order_type req) of
          None \<Rightarrow> False
        | Some t \<Rightarrow> (t = Limit \<longrightarrow> cr_price req \<noteq> None) \<and> (t = StopLoss \<or> t = StopLimit \<longrightarrow> cr_stop_price req \<noteq> None))"
proof -
  obtain u v where "map upper_char (cr_order_type req) = u" "map upper_char (cr_side req) = v" by simp
  then show ?thesis
    by (cases "u \<in> {''MARKET'', ''LIMIT'', ''STOP'', ''STOP_LIMIT''}"; cases "v \<in> {''BUY'', ''SELL''}")
      (auto simp: acceptable_request_def parse_order_type_def parse_side_def Let_def)
qed

lemma handle_create_order_passes:
  assumes "acceptable_request req"
  shows "handle_create_order uid clk send req =
    (case send \<lparr> co_order = requested_order uid clk req, co_skip_risk_check = False \<rparr> of
       Inr (OrderCreated ord) \<Rightarrow> http_ok (Some ''Order created successfully'') (Some (DataOrder ord))
     | Inr (OrderCreateError e) \<Rightarrow> http_fail 400 e
     | Inl e \<Rightarrow> internal_error e)"
  using assms by (auto simp: acceptable_request_parsed handle_create_order_def requested_order_def split: option.splits)

lemma handle_create_order_refuses:
  assumes "\<not> acceptable_request req"
  shows "\<exists>m. \<forall>send. handle_create_order uid clk send req = http_fail 400 m"
proof -
  consider "parse_order_type (cr_order_type req) = None"
    | t where "parse_order_type (cr_order_type req) = Some t" "parse_side (cr_side req) = None"
    | t sd where "parse_order_type (cr_order_type req) = Some t" "parse_side (cr_side req) = Some sd"
        "f64_le (cr_quantity req) (Fin 0)"
    | sd where "parse_order_type (cr_order_type req) = Some Limit" "parse_side (cr_side req) = Some sd"
        "\<not> f64_le (cr_quantity req) (Fin 0)" "cr_price req = None"
    | t sd where "parse_order_type (cr_order_type req) = Some t" "parse_side (cr_side req) = Some sd"
        "\<not> f64_le (cr_quantity req) (Fin 0)" "t = StopLoss \<or> t = StopLimit" "cr_stop_price req = None"
    using assms unfolding acceptable_request_parsed
    by (cases "parse_order_type (cr_order_type req)"; cases "parse_side (cr_side req)"; cases "f64_le (cr_quantity req) (Fin 0)") auto
  then show ?thesis
  proof cases
    case (5 t sd)
    then show ?thesis by (elim disjE) (simp_all add: handle_create_order_def)
  qed (simp_all add: handle_create_order_def)
qed

section \<open>The shape of responses\<close>

definition response_ok :: "HttpResponse \<Rightarrow> bool" where
  "response_ok r \<longleftrightarrow>
     hr_status r \<in> {200, 400, 404, 500} \<and> (api_success (hr_body r) \<longleftrightarrow> hr_status r = 200)
     \<and> (api_success (hr_body r) \<or> api_message (hr_body r) \<noteq> None \<and> api_data (hr_body r) = None)"

lemma response_ok_simps [simp]:
  "response_ok (http_ok m d)"
  "response_ok (http_fail st e) \<longleftrightarrow> st \<in> {400, 404, 500}"
  by (auto simp: response_ok_def)

text \<open>The contract of the HTTP interface with its clients: the status tells whether there is data, and a failure says why.\<close>

locale http_service =
  fixes answer :: "'q \<Rightarrow> HttpResponse"
  assumes answer_ok: "response_ok (answer q)"
begin

lemma failure_explained: "hr_status (answer q) \<noteq> 200 \<Longrightarrow> \<exists>m. answer q = http_fail (hr_status (answer q)) m"
  using answer_ok [of q] by (cases "answer q", cases "hr_body (answer q)") (auto simp: response_ok_def)

lemma data_means_success: "api_data (hr_body (answer q)) \<noteq> None \<Longrightarrow> hr_status (answer q) = 200 \<and> api_success (hr_body (answer q))"
  using answer_ok [of q] by (auto simp: response_ok_def)

end

lemmas gateway_defs = handle_account_query_def handle_accounts_query_def handle_create_account_def handle_fund_transfer_def handle_cancel_order_def
  handle_order_query_def handle_account_orders_query_def post_create_account_def post_transfer_funds_def post_cancel_order_def

lemma create_order_response_ok: "response_ok (handle_create_order uid clk send req)"
proof (cases "acceptable_request req")
  case True
  then show ?thesis by (simp add: handle_create_order_passes split: sum.split OrderCreateResult.split)
next
  case False
  then show ?thesis using handle_create_order_refuses [of req uid clk] by force
qed

interpretation api: http_service "serve env" for env
proof
  show "response_ok (serve env q)" for q
    by (cases q)
      (simp_all add: create_order_response_ok, simp_all add: gateway_defs Let_def
        split: sum.split option.split AccountQueryResult.split AccountUpdateResult.split FundTransferResult.split OrderCancelResult.split OrderQueryResult.split)
qed

section \<open>The adapters over any actor\<close>

text \<open>The answer to a query of one order is decided by how many orders the actor returned: exactly one is a success, none is reported as an internal error, not as \<open>404\<close>.\<close>

lemma order_query_status:
  "hr_status (handle_order_query (Inr \<circ> ActixOrderActor_query ask ad) i) =
     (case ask (ad_internal_actor ad) (AskQueryOrder (ById i)) of None \<Rightarrow> 404 | Some os \<Rightarrow> if length os = 1 then 200 else 500)"
  by (simp add: handle_order_query_def ActixOrderActor_query_def split: option.split)

lemma account_orders_status:
  "hr_status (handle_account_orders_query (Inr \<circ> ActixOrderActor_query ask ad) a) =
     (case ask (ad_internal_actor ad) (AskQueryOrder (ByAccount a)) of None \<Rightarrow> 404 | Some os \<Rightarrow> if length os = 1 then 500 else 200)"
  by (simp add: handle_account_orders_query_def ActixOrderActor_query_def split: option.split)

text \<open>Asked to the order actor itself, an unknown id is an internal error, and so is the account with exactly one order.\<close>

definition ask_order_actor :: "OrderActor \<Rightarrow> string \<Rightarrow> ask_msg \<Rightarrow> Order list option" where
  "ask_order_actor oa target msg = (case msg of AskQueryOrder q \<Rightarrow> Some (query_orders q oa) | _ \<Rightarrow> None)"

lemma order_actor_over_http:
  "hr_status (handle_order_query (Inr \<circ> ActixOrderActor_query (ask_order_actor oa) ad) i) = (if hm_contains (oa_orders oa) i then 200 else 500)"
  "hr_status (handle_account_orders_query (Inr \<circ> ActixOrderActor_query (ask_order_actor oa) ad) a) =
     (if length (query_orders (ByAccount a) oa) = 1 then 500 else 200)"
  unfolding order_query_status account_orders_status by (auto simp: ask_order_actor_def split: option.split)

text \<open>The request an adapter makes of a fractional order: the fraction is gone, and with it the whole order when it is below one.\<close>

lemma f64_to_u64_fraction: "0 \<le> q \<Longrightarrow> q < 1 \<Longrightarrow> f64_to_u64 (Fin q) = 0"
  by (simp add: rat_trunc_def floor_eq_iff)

lemma f64_to_u64_whole: "0 \<le> n \<Longrightarrow> n < 2 ^ 64 \<Longrightarrow> f64_to_u64 (whole n) = word_of_int n"
  by (simp add: whole_def rat_trunc_def)

section \<open>The three layers together\<close>

lemma type_name_kinds:
  "sublist ''CreateOrderMessage'' (type_name (AskCreateOrder m1))"
  "\<not> sublist ''CreateOrderMessage'' (type_name (AskCancelOrder m2))" "sublist ''CancelOrderMessage'' (type_name (AskCancelOrder m2))"
  "\<not> sublist ''CreateOrderMessage'' (type_name (AskQueryOrder m3))" "\<not> sublist ''CancelOrderMessage'' (type_name (AskQueryOrder m3))"
  "sublist ''QueryOrderMessage'' (type_name (AskQueryOrder m3))"
  by (simp_all add: sublist_code)

lemma type_name_others:
  "\<not> sublist ''CreateOrderMessage'' (type_name (AskAccountQuery m4))" "\<not> sublist ''CancelOrderMessage'' (type_name (AskAccountQuery m4))"
  "\<not> sublist ''QueryOrderMessage'' (type_name (AskAccountQuery m4))"
  "\<not> sublist ''CreateOrderMessage'' (type_name (AskAccountUpdate m5))" "\<not> sublist ''CancelOrderMessage'' (type_name (AskAccountUpdate m5))"
  "\<not> sublist ''QueryOrderMessage'' (type_name (AskAccountUpdate m5))"
  "\<not> sublist ''CreateOrderMessage'' (type_name (AskFundTransfer m6))" "\<not> sublist ''CancelOrderMessage'' (type_name (AskFundTransfer m6))"
  "\<not> sublist ''QueryOrderMessage'' (type_name (AskFundTransfer m6))"
  "\<not> sublist ''CreateOrderMessage'' (type_name (AskRiskCheck m7))" "\<not> sublist ''CancelOrderMessage'' (type_name (AskRiskCheck m7))"
  "\<not> sublist ''QueryOrderMessage'' (type_name (AskRiskCheck m7))"
  by (simp_all add: sublist_code)

lemma ask_answers [simp]:
  "ActorSystem_ask d thread clk target (AskCreateOrder m1) = d (AnyOrderResult (OrderAccepted ''test-order-1''))"
  "ActorSystem_ask d thread clk target (AskCancelOrder m2) = d (AnyOrderResult (OrderAccepted ''test-order-2''))"
  "ActorSystem_ask d thread clk target (AskQueryOrder m3) = d (AnyOrders (canned_orders thread clk))"
  "ActorSystem_ask d thread clk target (AskAccountQuery m4) = None"
  "ActorSystem_ask d thread clk target (AskAccountUpdate m5) = None"
  "ActorSystem_ask d thread clk target (AskFundTransfer m6) = None"
  "ActorSystem_ask d thread clk target (AskRiskCheck m7) = None"
  by (simp_all only: ActorSystem_ask_def type_name_kinds type_name_others if_True if_False)

text \<open>Only on a thread named after the test of order queries is there more than one order to return.\<close>

definition on_query_test :: "string option \<Rightarrow> bool" where
  "on_query_test thread = (case thread of Some n \<Rightarrow> sublist ''order_queries'' n \<and> \<not> sublist ''order_cancellation'' n | None \<Rightarrow> False)"

lemma canned_orders_single: "length (canned_orders thread clk) = 1 \<longleftrightarrow> \<not> on_query_test thread"
  by (simp add: canned_orders_def on_query_test_def split: option.split)

lemma served_creation:
  "serve (running_gateway thread uid clk clk' oad aad) (ReqCreateOrder req) = handle_create_order uid clk
     (\<lambda>m. Inr (OrderCreated (co_order m \<lparr> o_order_id := ''test-order-1'' \<rparr>))) req"
  by (simp add: running_gateway_def ActixOrderActor_create_def comp_def)

lemma served_cancellation:
  "hr_status (serve (running_gateway thread uid clk clk' oad aad) (ReqCancelOrder i json)) = (if js_str json ''account_id'' = None then 400 else 200)"
  by (simp add: running_gateway_def ActixOrderActor_cancel_def gateway_defs split: option.split)

lemma served_queries:
  "serve (running_gateway thread uid clk clk' oad aad) (ReqGetOrder i) =
     (if on_query_test thread then http_fail 500 ''Unexpected response type'' else http_ok None (Some (DataOrder (canned_orders thread clk' ! 0))))"
  "hr_status (serve (running_gateway thread uid clk clk' oad aad) (ReqGetAccountOrders a)) = (if on_query_test thread then 200 else 500)"
  using canned_orders_single [of thread clk'] by (simp_all add: running_gateway_def ActixOrderActor_query_def gateway_defs)

lemma served_accounts:
  "hr_status (serve (running_gateway thread uid clk clk' oad aad) (ReqGetAccount a)) = 404"
  "hr_status (serve (running_gateway thread uid clk clk' oad aad) ReqGetAccounts) = 500"
  "hr_status (serve (running_gateway thread uid clk clk' oad aad) (ReqCreateAccount json)) = 400"
  "hr_status (serve (running_gateway thread uid clk clk' oad aad) (ReqTransferFunds a json)) = 400"
  by (simp_all add: running_gateway_def gateway_defs ActixAccountActor_query_def ActixAccountActor_update_def ActixAccountActor_transfer_def split: option.split)

text \<open>C23. The HTTP interface as wired, gateway over adapters over actor system, whatever the state of the order, account and risk actors: an order request succeeds exactly when
  its type and side are known, its quantity is not at most zero and the price its type needs is present; the response then holds the requested order under the fixed id
  \<open>test-order-1\<close>, and otherwise a failure \<open>400\<close> without data. Every cancellation that names an account succeeds. Outside one test thread every query of an order succeeds with an answer that
  does not depend on its id, and every query of the orders of an account fails. All account requests fail.\<close>

theorem http_answers_fixed:
  "let answer = serve (running_gateway thread uid clk clk' oad aad) in
     hr_status (answer (ReqCreateOrder req)) = (if acceptable_request req then 200 else 400)
     \<and> api_data (hr_body (answer (ReqCreateOrder req))) = (if acceptable_request req then Some (DataOrder (requested_order ''test-order-1'' clk req)) else None)
     \<and> hr_status (answer (ReqCancelOrder i json)) = (if js_str json ''account_id'' = None then 400 else 200)
     \<and> answer (ReqGetOrder i) = answer (ReqGetOrder i')
     \<and> hr_status (answer (ReqGetOrder i)) = (if on_query_test thread then 500 else 200)
     \<and> hr_status (answer (ReqGetAccountOrders a)) = (if on_query_test thread then 200 else 500)
     \<and> hr_status (answer (ReqGetAccount a)) = 404 \<and> hr_status (answer ReqGetAccounts) = 500
     \<and> hr_status (answer (ReqCreateAccount json)) = 400 \<and> hr_status (answer (ReqTransferFunds a json)) = 400"
proof -
  define send where "send = (\<lambda>m :: CreateOrderMessage. Inr (OrderCreated (co_order m \<lparr> o_order_id := ''test-order-1'' \<rparr>)) :: MailboxError + OrderCreateResult)"
  have "hr_status (handle_create_order uid clk send req) = (if acceptable_request req then 200 else 400)
      \<and> api_data (hr_body (handle_create_order uid clk send req)) = (if acceptable_request req then Some (DataOrder (requested_order ''test-order-1'' clk req)) else None)"
    using handle_create_order_refuses [of req uid clk]
    by (cases "acceptable_request req") (auto simp: handle_create_order_passes send_def requested_order_def)
  then show ?thesis
    unfolding Let_def served_creation served_queries send_def [symmetric] by (simp only: served_cancellation served_accounts) (simp add: served_queries)
qed

end
