(* ===== verification/Writers.thy ===== *)
theory Writers
  imports Actor_Context
begin

text \<open>
  Buffered output of actors (\<^verbatim>\<open>actix/src/io.rs\<close>): \<open>Writer\<close> and \<open>FramedWrite\<close> keep bytes in a buffer that a future spawned on the actor's context moves to an \<^verbatim>\<open>AsyncWrite\<close>; \<open>SinkWrite\<close> keeps items for
  a \<^verbatim>\<open>Sink\<close>. The transport is the list of its answers to the calls that one poll makes, arbitrary and ending with \<^verbatim>\<open>Poll::Pending\<close>; its content is the bytes it has taken. The
  write handler of the actor is a pair of functions of the actor; encoders and sinks are parameters. A waker is the flag that one is stored.

  The lemmas show that nothing is lost, repeated or reordered between the callers and the transport under any sequence of operations and any behaviour of the transport, that a writer is closed only when all it was given has been
  taken, that a transport that keeps accepting empties the buffer, and where the code falls short: closing an idle writer wakes nobody, and dropping a framed writer writes nothing.
\<close>

section \<open>Writer\<close>

datatype io_kind = WouldBlock | WriteZero | OtherKind string

text \<open>Answers of \<^verbatim>\<open>poll_write\<close> and \<^verbatim>\<open>poll_flush\<close>.\<close>

datatype w_response = WroteN nat | WriteErr io_kind | WritePending
datatype f_response = FlushOk | FlushErr io_kind | FlushPending

record ('e, 'a) write_handler =
  wh_error :: "'e \<Rightarrow> 'a \<Rightarrow> Running \<times> 'a"
  wh_finished :: "'a \<Rightarrow> 'a"
  wh_from_io :: "io_kind \<Rightarrow> 'e"

record 'e InnerWriter =
  iw_closing :: bool
  iw_closed :: bool
  iw_buffer :: "u8 list"
  iw_error :: "'e option"
  iw_low :: nat
  iw_high :: nat
  iw_handle :: nat
  iw_task :: bool

definition LOW_WATERMARK :: nat where "LOW_WATERMARK = 4 * 1024"
definition HIGH_WATERMARK :: nat where "HIGH_WATERMARK = 4 * LOW_WATERMARK"

definition Writer_new :: "nat \<Rightarrow> 'e InnerWriter" where
  "Writer_new h = \<lparr> iw_closing = False, iw_closed = False, iw_buffer = [], iw_error = None, iw_low = LOW_WATERMARK, iw_high = HIGH_WATERMARK, iw_handle = h, iw_task = False \<rparr>"

definition Writer_close :: "'e InnerWriter \<Rightarrow> 'e InnerWriter" where
  "Writer_close w = w \<lparr> iw_closing := True \<rparr>"

definition set_buffer_capacity :: "nat \<Rightarrow> nat \<Rightarrow> 'e InnerWriter \<Rightarrow> 'e InnerWriter" where
  "set_buffer_capacity low high w = w \<lparr> iw_low := low, iw_high := high \<rparr>"

text \<open>The first component says that a stored waker was taken and called.\<close>

definition Writer_write :: "u8 list \<Rightarrow> 'e InnerWriter \<Rightarrow> bool \<times> 'e InnerWriter" where
  "Writer_write msg w = (iw_task w, w \<lparr> iw_buffer := iw_buffer w @ msg, iw_task := False \<rparr>)"

section \<open>The future of a writer\<close>

text \<open>How the loop of \<open>WriterFut\<close> ends; \<open>LoopPending b\<close> says whether the actor is told to wait for a drain. \<open>LoopPanic\<close> is \<^verbatim>\<open>split_to\<close> beyond the end of the buffer.\<close>

datatype loop_end = Drained | LoopPending bool | LoopReady | LoopPanic

primrec write_loop :: "('e, 'a) write_handler \<Rightarrow> nat \<Rightarrow> w_response list \<Rightarrow> u8 list \<Rightarrow> u8 list \<Rightarrow> 'a \<Rightarrow> loop_end \<times> u8 list \<times> u8 list \<times> 'a" where
  "write_loop h high [] buf out act = (if buf = [] then Drained else LoopPending False, buf, out, act)"
| "write_loop h high (r # rs) buf out act =
     (if buf = [] then (Drained, buf, out, act)
      else case r of
        WroteN n \<Rightarrow>
          (if n = 0
           then (case wh_error h (wh_from_io h WriteZero) act of
                   (Stop, act') \<Rightarrow> (LoopReady, buf, out, wh_finished h act')
                 | (Continue, act') \<Rightarrow> write_loop h high rs buf out act')
           else if length buf < n then (LoopPanic, buf, out, act)
           else write_loop h high rs (drop n buf) (out @ take n buf) act)
      | WriteErr e \<Rightarrow>
          (if e = WouldBlock then (LoopPending (high < length buf), buf, out, act)
           else case wh_error h (wh_from_io h e) act of
                  (Stop, act') \<Rightarrow> (LoopReady, buf, out, wh_finished h act')
                | (Continue, act') \<Rightarrow> write_loop h high rs buf out act')
      | WritePending \<Rightarrow> (LoopPending False, buf, out, act))"

datatype poll_end = FutReady | FutPending bool | FutPanic

definition close_if_closing :: "('e, 'a) write_handler \<Rightarrow> 'e InnerWriter \<Rightarrow> 'a \<Rightarrow> poll_end \<times> 'e InnerWriter \<times> 'a" where
  "close_if_closing h w act =
     (if iw_closing w then (FutReady, w \<lparr> iw_closed := True \<rparr>, wh_finished h act)
      else (FutPending False, w \<lparr> iw_task := True \<rparr>, act))"

definition flush_and_close :: "('e, 'a) write_handler \<Rightarrow> f_response \<Rightarrow> 'e InnerWriter \<Rightarrow> 'a \<Rightarrow> poll_end \<times> 'e InnerWriter \<times> 'a" where
  "flush_and_close h f w act =
     (case f of
        FlushOk \<Rightarrow> close_if_closing h w act
      | FlushPending \<Rightarrow> (FutPending False, w, act)
      | FlushErr e \<Rightarrow>
          (if e = WouldBlock then (FutPending False, w, act)
           else case wh_error h (wh_from_io h e) act of
                  (Stop, act') \<Rightarrow> (FutReady, w, wh_finished h act')
                | (Continue, act') \<Rightarrow> close_if_closing h w act'))"

definition write_out :: "('e, 'a) write_handler \<Rightarrow> w_response list \<Rightarrow> f_response \<Rightarrow> 'e InnerWriter \<Rightarrow> u8 list \<Rightarrow> 'a \<Rightarrow> poll_end \<times> 'e InnerWriter \<times> u8 list \<times> 'a" where
  "write_out h ws f w out act =
     (case write_loop h (iw_high w) ws (iw_buffer w) out act of
        (r, buf, out', act') \<Rightarrow>
          (let w' = w \<lparr> iw_task := False, iw_buffer := buf \<rparr>
           in case r of
                Drained \<Rightarrow> (case flush_and_close h f w' act' of (p, w'', act'') \<Rightarrow> (p, w'', out', act''))
              | LoopPending b \<Rightarrow> (FutPending b, w', out', act')
              | LoopReady \<Rightarrow> (FutReady, w', out', act')
              | LoopPanic \<Rightarrow> (FutPanic, w', out', act')))"

definition WriterFut_poll :: "('e, 'a) write_handler \<Rightarrow> w_response list \<Rightarrow> f_response \<Rightarrow> 'e InnerWriter \<Rightarrow> u8 list \<Rightarrow> 'a \<Rightarrow> poll_end \<times> 'e InnerWriter \<times> u8 list \<times> 'a" where
  "WriterFut_poll h ws f w out act =
     (case iw_error w of
        None \<Rightarrow> write_out h ws f w out act
      | Some err \<Rightarrow>
          (let w' = w \<lparr> iw_error := None \<rparr>
           in case wh_error h err act of
                (Stop, act') \<Rightarrow> (FutReady, w', out, wh_finished h act')
              | (Continue, act') \<Rightarrow> write_out h ws f w' out act'))"

text \<open>\<open>WriterDrain\<close>: the result says whether the future is ready; an error is stored for the next poll of the writer.\<close>

primrec drain_loop :: "(io_kind \<Rightarrow> 'e) \<Rightarrow> nat \<Rightarrow> w_response list \<Rightarrow> u8 list \<Rightarrow> u8 list \<Rightarrow> poll_end \<times> 'e option \<times> u8 list \<times> u8 list" where
  "drain_loop from_io low [] buf out = (if buf = [] then FutReady else FutPending False, None, buf, out)"
| "drain_loop from_io low (r # rs) buf out =
     (if buf = [] then (FutReady, None, buf, out)
      else case r of
        WroteN n \<Rightarrow>
          (if n = 0 then (FutReady, Some (from_io WriteZero), buf, out)
           else if length buf < n then (FutPanic, None, buf, out)
           else drain_loop from_io low rs (drop n buf) (out @ take n buf))
      | WriteErr e \<Rightarrow>
          (if e = WouldBlock then (if length buf < low then FutReady else FutPending False, None, buf, out)
           else (FutReady, Some (from_io e), buf, out))
      | WritePending \<Rightarrow> (FutPending False, None, buf, out))"

definition WriterDrain_poll :: "(io_kind \<Rightarrow> 'e) \<Rightarrow> w_response list \<Rightarrow> 'e InnerWriter \<Rightarrow> u8 list \<Rightarrow> poll_end \<times> 'e InnerWriter \<times> u8 list" where
  "WriterDrain_poll from_io ws w out =
     (if iw_error w \<noteq> None then (FutReady, w, out)
      else case drain_loop from_io (iw_low w) ws (iw_buffer w) out of
             (p, err, buf, out') \<Rightarrow> (p, w \<lparr> iw_buffer := buf, iw_error := err \<rparr>, out'))"

section \<open>Framed writers\<close>

text \<open>The encoder is a function of its state and the item; it answers with its new state, the bytes it appended to the buffer and the error, if any.\<close>

definition FramedWrite_from_buffer :: "nat \<Rightarrow> u8 list \<Rightarrow> 'e InnerWriter" where
  "FramedWrite_from_buffer h buffer = (Writer_new h) \<lparr> iw_buffer := buffer \<rparr>"

definition FramedWrite_write :: "('s \<Rightarrow> 'i \<Rightarrow> 's \<times> u8 list \<times> 'e option) \<Rightarrow> 's \<Rightarrow> 'i \<Rightarrow> 'e InnerWriter \<Rightarrow> bool \<times> 's \<times> 'e InnerWriter" where
  "FramedWrite_write enc s item w =
     (case enc s item of
        (s', bs, err) \<Rightarrow>
          (iw_task w, s', w \<lparr> iw_buffer := iw_buffer w @ bs, iw_error := (case err of Some e \<Rightarrow> Some e | None \<Rightarrow> iw_error w), iw_task := False \<rparr>))"

text \<open>\<^verbatim>\<open>write\<close> and \<^verbatim>\<open>flush\<close> of \<^verbatim>\<open>AsyncWriteExt\<close> return futures, which do nothing until they are polled; \<^verbatim>\<open>drop\<close> discards them.\<close>

definition drop_future :: "(u8 list \<Rightarrow> u8 list) \<Rightarrow> u8 list \<Rightarrow> u8 list" where
  "drop_future fut out = out"

definition FramedWrite_drop :: "'e InnerWriter \<Rightarrow> u8 list \<Rightarrow> u8 list" where
  "FramedWrite_drop w out =
     (if iw_buffer w \<noteq> [] then drop_future (\<lambda>o'. o') (drop_future (\<lambda>o'. o' @ iw_buffer w) out) else out)"

section \<open>Sinks\<close>

text \<open>Answers of \<^verbatim>\<open>poll_ready\<close>, and of \<^verbatim>\<open>poll_flush\<close> and \<^verbatim>\<open>poll_close\<close>. The answer of \<^verbatim>\<open>start_send\<close> is discarded by the code.\<close>

datatype ready_response = SinkReady | SinkReadyErr | SinkNotReady
datatype 'e sink_response = SinkOk | SinkErr 'e | SinkPending

record 'i InnerSinkWrite =
  sw_closing :: bool
  sw_closed :: bool
  sw_task :: bool
  sw_handle :: nat
  sw_buffer :: "'i list"

definition SinkWrite_new :: "nat \<Rightarrow> 'i InnerSinkWrite" where
  "SinkWrite_new h = \<lparr> sw_closing = False, sw_closed = False, sw_task = False, sw_handle = h, sw_buffer = [] \<rparr>"

text \<open>\<open>Inl\<close> returns the item; \<open>Inr\<close> says whether a waker was called.\<close>

definition SinkWrite_write :: "'i \<Rightarrow> 'i InnerSinkWrite \<Rightarrow> ('i + bool) \<times> 'i InnerSinkWrite" where
  "SinkWrite_write item s =
     (if \<not> sw_closing s \<and> \<not> sw_closed s then (Inr (sw_task s), s \<lparr> sw_buffer := sw_buffer s @ [item] \<rparr>)
      else (Inl item, s))"

definition SinkWrite_close :: "'i InnerSinkWrite \<Rightarrow> bool \<times> 'i InnerSinkWrite" where
  "SinkWrite_close s = (sw_task s, s \<lparr> sw_closing := True \<rparr>)"

primrec sink_loop :: "ready_response list \<Rightarrow> 'i list \<Rightarrow> 'i list \<Rightarrow> 'i list \<times> 'i list" where
  "sink_loop [] buf out = (buf, out)"
| "sink_loop (r # rs) buf out =
     (case r of
        SinkReady \<Rightarrow> (case buf of i # buf' \<Rightarrow> sink_loop rs buf' (out @ [i]) | [] \<Rightarrow> (buf, out))
      | SinkReadyErr \<Rightarrow> (buf, out)
      | SinkNotReady \<Rightarrow> (buf, out))"

definition SinkWriteFuture_poll ::
    "('e, 'a) write_handler \<Rightarrow> ready_response list \<Rightarrow> 'e sink_response \<Rightarrow> 'i InnerSinkWrite \<Rightarrow> 'i list \<Rightarrow> 'a \<Rightarrow> poll_end \<times> 'i InnerSinkWrite \<times> 'i list \<times> 'a" where
  "SinkWriteFuture_poll h rs c s out act =
     (case sink_loop rs (sw_buffer s) out of
        (buf, out') \<Rightarrow>
          (let s' = s \<lparr> sw_buffer := buf \<rparr>
           in if \<not> sw_closing s'
              then (case c of
                      SinkErr e \<Rightarrow> (case wh_error h e act of
                          (Stop, act') \<Rightarrow> (FutReady, s', out', wh_finished h act')
                        | (Continue, act') \<Rightarrow> (FutPending False, s' \<lparr> sw_task := True \<rparr>, out', act'))
                    | _ \<Rightarrow> (FutPending False, s' \<lparr> sw_task := True \<rparr>, out', act))
              else if sw_closed s' then (FutPanic, s', out', act)
              else (case c of
                      SinkErr e \<Rightarrow> (case wh_error h e act of
                          (Stop, act') \<Rightarrow> (FutReady, s', out', wh_finished h act')
                        | (Continue, act') \<Rightarrow> (FutPending False, s' \<lparr> sw_task := True \<rparr>, out', act'))
                    | SinkOk \<Rightarrow> (if buf = [] then (FutReady, s' \<lparr> sw_closed := True \<rparr>, out', wh_finished h act)
                                 else (FutPending False, s' \<lparr> sw_task := True \<rparr>, out', act))
                    | SinkPending \<Rightarrow> (FutPending False, s' \<lparr> sw_task := True \<rparr>, out', act))))"

section \<open>Operations in sequence\<close>

text \<open>A writer with its transport and actor. The futures are polled until they are ready; \<open>OpDrain\<close> polls a drain that was waited for. \<open>ww_woken\<close> says that the writer's future was woken since its last poll by
  an operation of the writer, and \<open>ww_enc\<close> is the state of the encoder of a framed writer.\<close>

record ('s, 'e, 'a) writer_world =
  ww_inner :: "'e InnerWriter"
  ww_out :: "u8 list"
  ww_act :: 'a
  ww_enc :: 's
  ww_done :: bool
  ww_woken :: bool
  ww_waits :: bool

datatype 'i writer_op =
    OpWrite "u8 list"
  | OpItem 'i
  | OpClose
  | OpCapacity nat nat
  | OpPoll "w_response list" f_response
  | OpDrain "w_response list"

type_synonym ('s, 'i, 'e) encoder = "'s \<Rightarrow> 'i \<Rightarrow> 's \<times> u8 list \<times> 'e option"

fun writer_step :: "('e, 'a) write_handler \<Rightarrow> ('s, 'i, 'e) encoder \<Rightarrow> 'i writer_op \<Rightarrow> ('s, 'e, 'a) writer_world \<Rightarrow> ('s, 'e, 'a) writer_world" where
  "writer_step h enc (OpWrite msg) W = (case Writer_write msg (ww_inner W) of (k, w) \<Rightarrow> W \<lparr> ww_inner := w, ww_woken := ww_woken W \<or> k \<rparr>)"
| "writer_step h enc (OpItem i) W = (case FramedWrite_write enc (ww_enc W) i (ww_inner W) of (k, s, w) \<Rightarrow> W \<lparr> ww_inner := w, ww_enc := s, ww_woken := ww_woken W \<or> k \<rparr>)"
| "writer_step h enc OpClose W = W \<lparr> ww_inner := Writer_close (ww_inner W) \<rparr>"
| "writer_step h enc (OpCapacity low high) W = W \<lparr> ww_inner := set_buffer_capacity low high (ww_inner W) \<rparr>"
| "writer_step h enc (OpPoll ws f) W =
     (if ww_done W then W
      else case WriterFut_poll h ws f (ww_inner W) (ww_out W) (ww_act W) of
             (p, w, out, act) \<Rightarrow> W \<lparr> ww_inner := w, ww_out := out, ww_act := act, ww_done := (case p of FutPending b \<Rightarrow> False | _ \<Rightarrow> True),
               ww_woken := False, ww_waits := ww_waits W \<or> p = FutPending True \<rparr>)"
| "writer_step h enc (OpDrain ws) W =
     (if \<not> ww_waits W then W
      else case WriterDrain_poll (wh_from_io h) ws (ww_inner W) (ww_out W) of
             (p, w, out) \<Rightarrow> W \<lparr> ww_inner := w, ww_out := out, ww_waits := (case p of FutPending b \<Rightarrow> True | _ \<Rightarrow> False) \<rparr>)"

definition writer_world :: "'e InnerWriter \<Rightarrow> 's \<Rightarrow> 'a \<Rightarrow> ('s, 'e, 'a) writer_world" where
  "writer_world w s act = \<lparr> ww_inner = w, ww_out = [], ww_act = act, ww_enc = s, ww_done = False, ww_woken = False, ww_waits = False \<rparr>"

fun writer_input :: "('s, 'i, 'e) encoder \<Rightarrow> 'i writer_op \<Rightarrow> ('s, 'e, 'a) writer_world \<Rightarrow> u8 list" where
  "writer_input enc (OpWrite msg) W = msg"
| "writer_input enc (OpItem i) W = fst (snd (enc (ww_enc W) i))"
| "writer_input enc _ W = []"

record ('i, 'a) sink_world =
  sk_inner :: "'i InnerSinkWrite"
  sk_out :: "'i list"
  sk_act :: 'a
  sk_done :: bool
  sk_panicked :: bool

datatype ('i, 'e) sink_op = SkWrite 'i | SkClose | SkPoll "ready_response list" "'e sink_response"

fun sink_step :: "('e, 'a) write_handler \<Rightarrow> ('i, 'e) sink_op \<Rightarrow> ('i, 'a) sink_world \<Rightarrow> ('i, 'a) sink_world" where
  "sink_step h (SkWrite i) W = W \<lparr> sk_inner := snd (SinkWrite_write i (sk_inner W)) \<rparr>"
| "sink_step h SkClose W = W \<lparr> sk_inner := snd (SinkWrite_close (sk_inner W)) \<rparr>"
| "sink_step h (SkPoll rs c) W =
     (if sk_done W then W
      else case SinkWriteFuture_poll h rs c (sk_inner W) (sk_out W) (sk_act W) of
             (p, s, out, act) \<Rightarrow> W \<lparr> sk_inner := s, sk_out := out, sk_act := act, sk_done := (case p of FutPending b \<Rightarrow> False | _ \<Rightarrow> True),
               sk_panicked := sk_panicked W \<or> p = FutPanic \<rparr>)"

definition sink_world :: "nat \<Rightarrow> 'a \<Rightarrow> ('i, 'a) sink_world" where
  "sink_world k act = \<lparr> sk_inner = SinkWrite_new k, sk_out = [], sk_act = act, sk_done = False, sk_panicked = False \<rparr>"

fun sink_input :: "('i, 'e) sink_op \<Rightarrow> ('i, 'a) sink_world \<Rightarrow> 'i list" where
  "sink_input (SkWrite i) W = (case fst (SinkWrite_write i (sk_inner W)) of Inr k \<Rightarrow> [i] | Inl i' \<Rightarrow> [])"
| "sink_input _ W = []"

section \<open>What a buffered output promises\<close>

primrec run_inputs :: "('op \<Rightarrow> 'w \<Rightarrow> 'w) \<Rightarrow> ('op \<Rightarrow> 'w \<Rightarrow> 'x list) \<Rightarrow> 'op list \<Rightarrow> 'w \<Rightarrow> 'x list" where
  "run_inputs step input [] w = []"
| "run_inputs step input (op # ops) w = input op w @ run_inputs step input ops (step op w)"

text \<open>Each operation takes some input and moves some of what is buffered to the output; the operation that closes leaves nothing buffered.\<close>

locale buffered_output =
  fixes step :: "'op \<Rightarrow> 'w \<Rightarrow> 'w"
    and input :: "'op \<Rightarrow> 'w \<Rightarrow> 'x list"
    and out :: "'w \<Rightarrow> 'x list"
    and pend :: "'w \<Rightarrow> 'x list"
    and shut :: "'w \<Rightarrow> bool"
  assumes step_conserves: "out (step op w) @ pend (step op w) = out w @ pend w @ input op w"
    and step_shuts: "\<not> shut w \<Longrightarrow> shut (step op w) \<Longrightarrow> pend (step op w) = []"
begin

lemma run_conserves: "out (fold step ops w) @ pend (fold step ops w) = out w @ pend w @ run_inputs step input ops w"
proof (induction ops arbitrary: w)
  case (Cons op ops)
  show ?case using Cons.IH [of "step op w"] step_conserves [of op w] by (metis append_assoc run_inputs.simps(2) fold_simps(2))
qed simp

lemma run_append: "fold step (xs @ ys) w = fold step ys (fold step xs w)" "run_inputs step input (xs @ ys) w = run_inputs step input xs w @ run_inputs step input ys (fold step xs w)"
  by (induction xs arbitrary: w) simp_all

lemma shut_when_all_out:
  assumes "\<not> shut w" and "shut (fold step ops w)"
  shows "\<exists>xs ys. ops = xs @ ys \<and> shut (fold step xs w) \<and> out (fold step xs w) = out w @ pend w @ run_inputs step input xs w"
  using assms
proof (induction ops rule: rev_induct)
  case (snoc op ops)
  show ?case
  proof (cases "shut (fold step ops w)")
    case True
    with snoc obtain xs ys where "ops = xs @ ys" "shut (fold step xs w)" "out (fold step xs w) = out w @ pend w @ run_inputs step input xs w" by blast
    then show ?thesis by (intro exI [of _ xs] exI [of _ "ys @ [op]"]) simp
  next
    case False
    moreover have "shut (step op (fold step ops w))" using snoc.prems by (simp add: run_append)
    ultimately have "pend (fold step (ops @ [op]) w) = []" by (simp add: run_append step_shuts)
    then have "out (fold step (ops @ [op]) w) = out w @ pend w @ run_inputs step input (ops @ [op]) w" using run_conserves [of "ops @ [op]" w] by simp
    then show ?thesis using snoc.prems by blast
  qed
qed simp

end

lemma write_loop_conserves:
  "write_loop h high rs buf out act = (r, buf', out', act') \<Longrightarrow> out' @ buf' = out @ buf \<and> (r = Drained \<longrightarrow> buf' = [])"
  by (induction rs arbitrary: buf out act) (auto split: if_splits w_response.splits prod.splits Running.splits)

lemma drain_loop_conserves: "drain_loop from_io low rs buf out = (p, err, buf', out') \<Longrightarrow> out' @ buf' = out @ buf"
  by (induction rs arbitrary: buf out) (auto split: if_splits w_response.splits)

lemma flush_and_close_buffer:
  "flush_and_close h f w act = (p, w', act') \<Longrightarrow> iw_buffer w' = iw_buffer w"
  by (auto simp: flush_and_close_def close_if_closing_def split: f_response.splits if_splits prod.splits Running.splits)

lemma write_out_conserves:
  assumes "write_out h ws f w out act = (p, w', out', act')"
  shows "out' @ iw_buffer w' = out @ iw_buffer w" and "iw_closed w' \<Longrightarrow> \<not> iw_closed w \<Longrightarrow> iw_buffer w' = []"
proof -
  obtain r buf o1 a1 where l: "write_loop h (iw_high w) ws (iw_buffer w) out act = (r, buf, o1, a1)" by (metis prod_cases4)
  note c = write_loop_conserves [OF l]
  show "out' @ iw_buffer w' = out @ iw_buffer w" "iw_closed w' \<Longrightarrow> \<not> iw_closed w \<Longrightarrow> iw_buffer w' = []"
    using assms c by (auto simp: write_out_def l Let_def split: loop_end.splits prod.splits dest: flush_and_close_buffer)
qed

lemma WriterFut_poll_conserves:
  assumes "WriterFut_poll h ws f w out act = (p, w', out', act')"
  shows "out' @ iw_buffer w' = out @ iw_buffer w" and "iw_closed w' \<Longrightarrow> \<not> iw_closed w \<Longrightarrow> iw_buffer w' = []"
  using assms
  by (auto simp: WriterFut_poll_def Let_def split: option.splits prod.splits Running.splits dest: write_out_conserves)

lemma WriterDrain_poll_conserves:
  assumes "WriterDrain_poll from_io ws w out = (p, w', out')"
  shows "out' @ iw_buffer w' = out @ iw_buffer w" and "iw_closed w' = iw_closed w"
  using assms by (auto simp: WriterDrain_poll_def split: if_splits prod.splits dest: drain_loop_conserves)

interpretation wr: buffered_output "writer_step h enc" "writer_input enc" ww_out "\<lambda>W. iw_buffer (ww_inner W)" "\<lambda>W. iw_closed (ww_inner W)" for h enc
proof
  fix op and W :: "('c, 'a, 'b) writer_world"
  show "ww_out (writer_step h enc op W) @ iw_buffer (ww_inner (writer_step h enc op W)) = ww_out W @ iw_buffer (ww_inner W) @ writer_input enc op W"
    by (cases op) (auto simp: Writer_write_def FramedWrite_write_def Writer_close_def set_buffer_capacity_def split: prod.splits
        dest: WriterFut_poll_conserves WriterDrain_poll_conserves)
  show "\<not> iw_closed (ww_inner W) \<Longrightarrow> iw_closed (ww_inner (writer_step h enc op W)) \<Longrightarrow> iw_buffer (ww_inner (writer_step h enc op W)) = []"
    by (cases op) (auto simp: Writer_write_def FramedWrite_write_def Writer_close_def set_buffer_capacity_def split: prod.splits if_splits
        dest: WriterFut_poll_conserves WriterDrain_poll_conserves)
qed

lemma sink_loop_conserves: "sink_loop rs buf out = (buf', out') \<Longrightarrow> out' @ buf' = out @ buf"
  by (induction rs arbitrary: buf out) (auto split: ready_response.splits list.splits)

lemma SinkWriteFuture_poll_conserves:
  assumes "SinkWriteFuture_poll h rs c s out act = (p, s', out', act')"
  shows "out' @ sw_buffer s' = out @ sw_buffer s" and "sw_closed s' \<Longrightarrow> \<not> sw_closed s \<Longrightarrow> sw_buffer s' = [] \<and> p = FutReady"
    and "sw_closed s \<Longrightarrow> sw_closed s'" and "sw_closing s' = sw_closing s" and "\<not> sw_closed s \<Longrightarrow> p \<noteq> FutPanic"
  using assms
  by (auto simp: SinkWriteFuture_poll_def Let_def split: prod.splits if_splits sink_response.splits Running.splits dest: sink_loop_conserves)

interpretation sw: buffered_output "sink_step h" sink_input sk_out "\<lambda>W. sw_buffer (sk_inner W)" "\<lambda>W. sw_closed (sk_inner W)" for h
proof
  fix op and W :: "('c, 'b) sink_world"
  show "sk_out (sink_step h op W) @ sw_buffer (sk_inner (sink_step h op W)) = sk_out W @ sw_buffer (sk_inner W) @ sink_input op W"
    by (cases op) (auto simp: SinkWrite_write_def SinkWrite_close_def split: prod.splits dest: SinkWriteFuture_poll_conserves)
  show "\<not> sw_closed (sk_inner W) \<Longrightarrow> sw_closed (sk_inner (sink_step h op W)) \<Longrightarrow> sw_buffer (sk_inner (sink_step h op W)) = []"
    by (cases op) (auto simp: SinkWrite_write_def SinkWrite_close_def split: prod.splits if_splits dest: SinkWriteFuture_poll_conserves)
qed

section \<open>Nothing is lost\<close>



definition sink_inv :: "('i, 'a) sink_world \<Rightarrow> bool" where
  "sink_inv W \<longleftrightarrow> \<not> sk_panicked W \<and> (sw_closed (sk_inner W) \<longrightarrow> sw_closing (sk_inner W) \<and> sk_done W \<and> sw_buffer (sk_inner W) = [])"

lemma SinkWriteFuture_poll_closes:
  "SinkWriteFuture_poll h rs c s out act = (p, s', out', act') \<Longrightarrow> sw_closed s' \<Longrightarrow> \<not> sw_closed s \<Longrightarrow> sw_closing s'"
  by (auto simp: SinkWriteFuture_poll_def Let_def split: prod.splits if_splits sink_response.splits Running.splits)

lemma sink_inv_step [inv_intros]:
  assumes "sink_inv W"
  shows "sink_inv (sink_step h op W)"
proof (cases op)
  case (SkPoll rs c)
  show ?thesis
  proof (cases "sk_done W")
    case False
    obtain p s out act where p: "SinkWriteFuture_poll h rs c (sk_inner W) (sk_out W) (sk_act W) = (p, s, out, act)" by (metis prod_cases4)
    then show ?thesis
      using assms False SinkWriteFuture_poll_conserves [OF p] SinkWriteFuture_poll_closes [OF p] by (auto simp: SkPoll sink_inv_def)
  qed (use assms in \<open>simp add: SkPoll\<close>)
qed (use assms in \<open>auto simp: sink_inv_def SinkWrite_write_def SinkWrite_close_def\<close>)

lemma sink_inv_run: "sink_inv W \<Longrightarrow> sink_inv (fold (sink_step h) ops W)"
  by (induction ops arbitrary: W) (simp_all add: sink_inv_step)

text \<open>A sink is handed the accepted items, in order; when it reports closed, all of them, and its future never meets its own assertion.\<close>

theorem sink_keeps_items:
  "let W = fold (sink_step h) ops (sink_world k act) in
     sk_out W @ sw_buffer (sk_inner W) = run_inputs (sink_step h) sink_input ops (sink_world k act)
     \<and> \<not> sk_panicked W \<and> (sw_closed (sk_inner W) \<longrightarrow> sk_out W = run_inputs (sink_step h) sink_input ops (sink_world k act))"
proof -
  have "sink_inv (sink_world k act)" and start: "sk_out (sink_world k act) = []" "sw_buffer (sk_inner (sink_world k act)) = []"
    by (simp_all add: sink_inv_def sink_world_def SinkWrite_new_def)
  from sink_inv_run [OF this(1), of h ops] show ?thesis
    using sw.run_conserves [of h ops "sink_world k act"] unfolding Let_def sink_inv_def start by auto
qed

section \<open>Progress and its limits\<close>

text \<open>A transport that takes the whole buffer, in any positive portions, empties it in one poll, whatever the handler.\<close>

lemma write_loop_drains:
  "(\<And>n. n \<in> set ns \<Longrightarrow> 0 < n) \<Longrightarrow> sum_list ns = length buf \<Longrightarrow> write_loop h high (map WroteN ns) buf out act = (Drained, [], out @ buf, act)"
proof (induction ns arbitrary: buf out)
  case (Cons n ns)
  then have "0 < n" "n \<le> length buf" "sum_list ns = length (drop n buf)" by auto
  then show ?case using Cons.IH [of "drop n buf" "out @ take n buf"] Cons.prems(1) by auto
qed simp

lemma poll_empties_buffer:
  assumes "\<And>n. n \<in> set ns \<Longrightarrow> 0 < n" and "sum_list ns = length (iw_buffer w)" and "iw_error w = None" and "iw_closing w"
  shows "WriterFut_poll h (map WroteN ns) FlushOk w out act = (FutReady, w \<lparr> iw_task := False, iw_buffer := [], iw_closed := True \<rparr>, out @ iw_buffer w, wh_finished h act)"
  using write_loop_drains [OF assms(1,2), of h "iw_high w" out act] assms(3,4)
  by (simp add: WriterFut_poll_def write_out_def flush_and_close_def close_if_closing_def)

text \<open>Closing does not wake the future: an idle writer that is closed stays unclosed until something else polls it, whatever else is done but writing.\<close>

lemma close_wakes_nobody:
  assumes "\<not> ww_woken W" and "\<not> iw_closed (ww_inner W)" and "set ops \<subseteq> {OpClose} \<union> range (\<lambda>(l, u). OpCapacity l u)"
  shows "\<not> ww_woken (fold (writer_step h enc) ops W) \<and> \<not> iw_closed (ww_inner (fold (writer_step h enc) ops W))"
  using assms by (induction ops arbitrary: W) (auto simp: Writer_close_def set_buffer_capacity_def)

text \<open>Bytes still in the buffer when a framed writer is dropped never reach the transport.\<close>

lemma drop_writes_nothing: "FramedWrite_drop w out = out"
  by (simp add: FramedWrite_drop_def drop_future_def)

text \<open>A failed item is reported by the next poll, before anything is written.\<close>

lemma encode_error_reported:
  assumes "enc (ww_enc W) i = (s, bs, Some e)" and "wh_error h e (ww_act W) = (Stop, act)" and "\<not> ww_done W"
  shows "let W' = fold (writer_step h enc) [OpItem i, OpPoll ws f] W in ww_out W' = ww_out W \<and> ww_done W' \<and> ww_act W' = wh_finished h act"
  using assms by (simp add: Let_def FramedWrite_write_def WriterFut_poll_def)

end
