(* ===== verification/Actor_Futures.thy ===== *)
theory Actor_Futures
  imports Channel
begin

text \<open>
  Futures and streams that run inside an actor (\<^verbatim>\<open>actix/src/fut\<close>), the future that feeds a stream to an actor's handler (\<^verbatim>\<open>actix/src/stream.rs\<close>) and the future of a sent message (\<^verbatim>\<open>actix/src/address/message.rs\<close>).
  A future is its state and a poll function of the state and of the actor with its context; the poll answers with the new state and actor, or with \<open>None\<close> when it panics or never returns.
  A stream is the same with optional items as answers. A closure of the user is a function of its argument and the actor. Between two polls the actor may be changed by anybody, so the actor of each poll is arbitrary.

  \<open>settles\<close> says that a future, polled again and again with any actors, does not fail, ends, and gives the stated value; \<open>delivers\<close> says the same of the list of items of a stream. The lemmas give for every combinator the value or
  the list it settles on from those of its parts, so they compose.
\<close>

section \<open>Futures\<close>

type_synonym ('f, 'a, 'o) poll_fun = "'f \<Rightarrow> 'a \<Rightarrow> ('o Poll \<times> 'f \<times> 'a) option"

text \<open>\<open>ready_poll\<close>: a value that is ready, which panics when it is polled again.\<close>

fun ready_poll :: "('o option, 'a, 'o) poll_fun" where
  "ready_poll (Some v) a = Some (Ready v, None, a)"
| "ready_poll None a = None"

datatype 'f map_state = MapIncomplete 'f | MapComplete

fun fut_map_poll :: "('o \<Rightarrow> 'a \<Rightarrow> 'u \<times> 'a) \<Rightarrow> ('f, 'a, 'o) poll_fun \<Rightarrow> ('f map_state, 'a, 'u) poll_fun" where
  "fut_map_poll f p (MapIncomplete s) a =
     (case p s a of
        None \<Rightarrow> None
      | Some (Pending, s', a') \<Rightarrow> Some (Pending, MapIncomplete s', a')
      | Some (Ready v, s', a') \<Rightarrow> (case f v a' of (u, a'') \<Rightarrow> Some (Ready u, MapComplete, a'')))"
| "fut_map_poll f p MapComplete a = None"

datatype ('f, 'g) then_state = ThenFirst 'f | ThenSecond 'g | ThenEmpty

definition then_second_poll :: "('g, 'a, 'o) poll_fun \<Rightarrow> 'g \<Rightarrow> 'a \<Rightarrow> ('o Poll \<times> ('f, 'g) then_state \<times> 'a) option" where
  "then_second_poll q g a =
     (case q g a of
        None \<Rightarrow> None
      | Some (Pending, g', a') \<Rightarrow> Some (Pending, ThenSecond g', a')
      | Some (Ready v, g', a') \<Rightarrow> Some (Ready v, ThenEmpty, a'))"

fun fut_then_poll :: "('u \<Rightarrow> 'a \<Rightarrow> 'g \<times> 'a) \<Rightarrow> ('f, 'a, 'u) poll_fun \<Rightarrow> ('g, 'a, 'o) poll_fun \<Rightarrow> (('f, 'g) then_state, 'a, 'o) poll_fun" where
  "fut_then_poll f p q (ThenFirst s) a =
     (case p s a of
        None \<Rightarrow> None
      | Some (Pending, s', a') \<Rightarrow> Some (Pending, ThenFirst s', a')
      | Some (Ready u, s', a') \<Rightarrow> (case f u a' of (g, a'') \<Rightarrow> then_second_poll q g a''))"
| "fut_then_poll f p q (ThenSecond g) a = then_second_poll q g a"
| "fut_then_poll f p q ThenEmpty a = None"

text \<open>The clock that a timeout reads is a part of the context. An elapsed timeout answers \<open>Inl\<close>.\<close>

definition fut_timeout_poll :: "('a \<Rightarrow> int) \<Rightarrow> ('f, 'a, 'o) poll_fun \<Rightarrow> ('f \<times> int, 'a, unit + 'o) poll_fun" where
  "fut_timeout_poll clk p st a =
     (case st of (s, deadline) \<Rightarrow>
       (case p s a of
          None \<Rightarrow> None
        | Some (Ready v, s', a') \<Rightarrow> Some (Ready (Inr v), (s', deadline), a')
        | Some (Pending, s', a') \<Rightarrow> Some (if deadline \<le> clk a' then Ready (Inl ()) else Pending, (s', deadline), a')))"

fun either_poll :: "('f, 'a, 'o) poll_fun \<Rightarrow> ('g, 'a, 'o) poll_fun \<Rightarrow> ('f + 'g, 'a, 'o) poll_fun" where
  "either_poll p q (Inl s) a = map_option (\<lambda>(r, s', a'). (r, Inl s', a')) (p s a)"
| "either_poll p q (Inr g) a = map_option (\<lambda>(r, g', a'). (r, Inr g', a')) (q g a)"

text \<open>Futures of results: \<open>Inl\<close> is the error. An error leaves \<open>and_then\<close> in its first state.\<close>

fun and_then_poll :: "('u \<Rightarrow> 'a \<Rightarrow> 'g \<times> 'a) \<Rightarrow> ('f, 'a, 'e + 'u) poll_fun \<Rightarrow> ('g, 'a, 'e + 'o) poll_fun \<Rightarrow> (('f, 'g) then_state, 'a, 'e + 'o) poll_fun" where
  "and_then_poll f p q (ThenFirst s) a =
     (case p s a of
        None \<Rightarrow> None
      | Some (Pending, s', a') \<Rightarrow> Some (Pending, ThenFirst s', a')
      | Some (Ready (Inl e), s', a') \<Rightarrow> Some (Ready (Inl e), ThenFirst s', a')
      | Some (Ready (Inr u), s', a') \<Rightarrow> (case f u a' of (g, a'') \<Rightarrow> then_second_poll q g a''))"
| "and_then_poll f p q (ThenSecond g) a = then_second_poll q g a"
| "and_then_poll f p q ThenEmpty a = None"

fun map_ok_poll :: "('o \<Rightarrow> 'a \<Rightarrow> 'u \<times> 'a) \<Rightarrow> ('f, 'a, 'e + 'o) poll_fun \<Rightarrow> ('f map_state, 'a, 'e + 'u) poll_fun" where
  "map_ok_poll f p (MapIncomplete s) a =
     (case p s a of
        None \<Rightarrow> None
      | Some (Pending, s', a') \<Rightarrow> Some (Pending, MapIncomplete s', a')
      | Some (Ready (Inl e), s', a') \<Rightarrow> Some (Ready (Inl e), MapComplete, a')
      | Some (Ready (Inr v), s', a') \<Rightarrow> (case f v a' of (u, a'') \<Rightarrow> Some (Ready (Inr u), MapComplete, a'')))"
| "map_ok_poll f p MapComplete a = None"

fun map_err_poll :: "('e \<Rightarrow> 'a \<Rightarrow> 'u \<times> 'a) \<Rightarrow> ('f, 'a, 'e + 'o) poll_fun \<Rightarrow> ('f map_state, 'a, 'u + 'o) poll_fun" where
  "map_err_poll f p (MapIncomplete s) a =
     (case p s a of
        None \<Rightarrow> None
      | Some (Pending, s', a') \<Rightarrow> Some (Pending, MapIncomplete s', a')
      | Some (Ready (Inr v), s', a') \<Rightarrow> Some (Ready (Inr v), MapComplete, a')
      | Some (Ready (Inl e), s', a') \<Rightarrow> (case f e a' of (u, a'') \<Rightarrow> Some (Ready (Inl u), MapComplete, a'')))"
| "map_err_poll f p MapComplete a = None"

section \<open>Streams\<close>

type_synonym ('s, 'a, 'x) next_fun = "('s, 'a, 'x option) poll_fun"

text \<open>A stream from outside, wrapped for an actor: the list of its answers, after which it has ended.\<close>

fun wrap_stream_poll :: "('x Poll list, 'a, 'x) next_fun" where
  "wrap_stream_poll [] a = Some (Ready None, [], a)"
| "wrap_stream_poll (Ready x # rs) a = Some (Ready (Some x), rs, a)"
| "wrap_stream_poll (Pending # rs) a = Some (Pending, rs, a)"

definition stream_map_poll :: "('x \<Rightarrow> 'a \<Rightarrow> 'y \<times> 'a) \<Rightarrow> ('s, 'a, 'x) next_fun \<Rightarrow> ('s, 'a, 'y) next_fun" where
  "stream_map_poll f p s a =
     (case p s a of
        None \<Rightarrow> None
      | Some (Pending, s', a') \<Rightarrow> Some (Pending, s', a')
      | Some (Ready None, s', a') \<Rightarrow> Some (Ready None, s', a')
      | Some (Ready (Some x), s', a') \<Rightarrow> (case f x a' of (y, a'') \<Rightarrow> Some (Ready (Some y), s', a'')))"

text \<open>\<^verbatim>\<open>Then\<close>: the stream and the future of the item being computed. The loop of the source ends in its second round.\<close>

definition stream_then_fut :: "('g, 'a, 'y) poll_fun \<Rightarrow> 's \<Rightarrow> 'g \<Rightarrow> 'a \<Rightarrow> ('y option Poll \<times> ('s \<times> 'g option) \<times> 'a) option" where
  "stream_then_fut q s g a =
     (case q g a of
        None \<Rightarrow> None
      | Some (Pending, g', a') \<Rightarrow> Some (Pending, (s, Some g'), a')
      | Some (Ready y, g', a') \<Rightarrow> Some (Ready (Some y), (s, None), a'))"

fun stream_then_poll :: "('x \<Rightarrow> 'a \<Rightarrow> 'g \<times> 'a) \<Rightarrow> ('s, 'a, 'x) next_fun \<Rightarrow> ('g, 'a, 'y) poll_fun \<Rightarrow> ('s \<times> 'g option, 'a, 'y) next_fun" where
  "stream_then_poll f p q (s, Some g) a = stream_then_fut q s g a"
| "stream_then_poll f p q (s, None) a =
     (case p s a of
        None \<Rightarrow> None
      | Some (Pending, s', a') \<Rightarrow> Some (Pending, (s', None), a')
      | Some (Ready None, s', a') \<Rightarrow> Some (Ready None, (s', None), a')
      | Some (Ready (Some x), s', a') \<Rightarrow> (case f x a' of (g, a'') \<Rightarrow> stream_then_fut q s' g a''))"

text \<open>The predicates of \<^verbatim>\<open>TakeWhile\<close> and \<^verbatim>\<open>SkipWhile\<close> are futures; the item they judge is kept beside them.\<close>

record ('s, 'x, 'g) while_state =
  wl_stream :: 's
  wl_fut :: "'g option"
  wl_item :: "'x option"
  wl_done :: bool

definition while_new :: "'s \<Rightarrow> ('s, 'x, 'g) while_state" where
  "while_new s = \<lparr> wl_stream = s, wl_fut = None, wl_item = None, wl_done = False \<rparr>"

definition take_while_judge :: "('g, 'a, bool) poll_fun \<Rightarrow> 'g \<Rightarrow> ('s, 'x, 'g) while_state \<Rightarrow> 'a \<Rightarrow> ('x option Poll \<times> ('s, 'x, 'g) while_state \<times> 'a) option" where
  "take_while_judge q g st a =
     (case q g a of
        None \<Rightarrow> None
      | Some (Pending, g', a') \<Rightarrow> Some (Pending, st \<lparr> wl_fut := Some g' \<rparr>, a')
      | Some (Ready taken, g', a') \<Rightarrow>
          (let st' = st \<lparr> wl_fut := None, wl_item := None \<rparr>
           in if taken then Some (Ready (wl_item st), st', a') else Some (Ready None, st' \<lparr> wl_done := True \<rparr>, a')))"

definition take_while_poll :: "('x \<Rightarrow> 'a \<Rightarrow> 'g \<times> 'a) \<Rightarrow> ('s, 'a, 'x) next_fun \<Rightarrow> ('g, 'a, bool) poll_fun \<Rightarrow> (('s, 'x, 'g) while_state, 'a, 'x) next_fun" where
  "take_while_poll f p q st a =
     (if wl_done st then Some (Ready None, st, a)
      else case wl_fut st of
        Some g \<Rightarrow> take_while_judge q g st a
      | None \<Rightarrow>
          (case p (wl_stream st) a of
             None \<Rightarrow> None
           | Some (Pending, s', a') \<Rightarrow> Some (Pending, st \<lparr> wl_stream := s' \<rparr>, a')
           | Some (Ready None, s', a') \<Rightarrow> Some (Ready None, st \<lparr> wl_stream := s' \<rparr>, a')
           | Some (Ready (Some x), s', a') \<Rightarrow>
               (case f x a' of (g, a'') \<Rightarrow> take_while_judge q g (st \<lparr> wl_stream := s', wl_fut := Some g, wl_item := Some x \<rparr>) a'')))"

partial_function (option) skip_while_loop ::
    "('x \<Rightarrow> 'a \<Rightarrow> 'g \<times> 'a) \<Rightarrow> ('s, 'a, 'x) next_fun \<Rightarrow> ('g, 'a, bool) poll_fun \<Rightarrow> ('s, 'x, 'g) while_state \<Rightarrow> 'a \<Rightarrow> ('x option Poll \<times> ('s, 'x, 'g) while_state \<times> 'a) option" where
  "skip_while_loop f p q st a =
     (case wl_fut st of
        Some g \<Rightarrow>
          (case q g a of
             None \<Rightarrow> None
           | Some (Pending, g', a') \<Rightarrow> Some (Pending, st \<lparr> wl_fut := Some g' \<rparr>, a')
           | Some (Ready skipped, g', a') \<Rightarrow>
               (if skipped then skip_while_loop f p q (st \<lparr> wl_fut := None, wl_item := None \<rparr>) a'
                else Some (Ready (wl_item st), st \<lparr> wl_fut := None, wl_item := None, wl_done := True \<rparr>, a')))
      | None \<Rightarrow>
          (case p (wl_stream st) a of
             None \<Rightarrow> None
           | Some (Pending, s', a') \<Rightarrow> Some (Pending, st \<lparr> wl_stream := s' \<rparr>, a')
           | Some (Ready None, s', a') \<Rightarrow> Some (Ready None, st \<lparr> wl_stream := s' \<rparr>, a')
           | Some (Ready (Some x), s', a') \<Rightarrow>
               (case f x a' of (g, a'') \<Rightarrow> skip_while_loop f p q (st \<lparr> wl_stream := s', wl_fut := Some g, wl_item := Some x \<rparr>) a'')))"

definition skip_while_poll :: "('x \<Rightarrow> 'a \<Rightarrow> 'g \<times> 'a) \<Rightarrow> ('s, 'a, 'x) next_fun \<Rightarrow> ('g, 'a, bool) poll_fun \<Rightarrow> (('s, 'x, 'g) while_state, 'a, 'x) next_fun" where
  "skip_while_poll f p q st a =
     (if wl_done st then map_option (\<lambda>(r, s', a'). (r, st \<lparr> wl_stream := s' \<rparr>, a')) (p (wl_stream st) a)
      else skip_while_loop f p q st a)"

record ('s, 'g, 't) fold_state =
  fd_stream :: 's
  fd_accum :: "'t option"
  fd_future :: "'g option"

definition fold_new :: "'s \<Rightarrow> 't \<Rightarrow> ('s, 'g, 't) fold_state" where
  "fold_new s t = \<lparr> fd_stream = s, fd_accum = Some t, fd_future = None \<rparr>"

partial_function (option) fold_poll ::
    "('t \<Rightarrow> 'x \<Rightarrow> 'a \<Rightarrow> 'g \<times> 'a) \<Rightarrow> ('s, 'a, 'x) next_fun \<Rightarrow> ('g, 'a, 't) poll_fun \<Rightarrow> ('s, 'g, 't) fold_state \<Rightarrow> 'a \<Rightarrow> ('t Poll \<times> ('s, 'g, 't) fold_state \<times> 'a) option" where
  "fold_poll f p q st a =
     (case fd_future st of
        Some g \<Rightarrow>
          (case q g a of
             None \<Rightarrow> None
           | Some (Pending, g', a') \<Rightarrow> Some (Pending, st \<lparr> fd_future := Some g' \<rparr>, a')
           | Some (Ready t, g', a') \<Rightarrow> fold_poll f p q (st \<lparr> fd_accum := Some t, fd_future := None \<rparr>) a')
      | None \<Rightarrow>
          (case fd_accum st of
             None \<Rightarrow> None
           | Some t \<Rightarrow>
               (case p (fd_stream st) a of
                  None \<Rightarrow> None
                | Some (Pending, s', a') \<Rightarrow> Some (Pending, st \<lparr> fd_stream := s' \<rparr>, a')
                | Some (Ready None, s', a') \<Rightarrow> Some (Ready t, st \<lparr> fd_stream := s', fd_accum := None \<rparr>, a')
                | Some (Ready (Some x), s', a') \<Rightarrow>
                    (case f t x a' of (g, a'') \<Rightarrow> fold_poll f p q (st \<lparr> fd_stream := s', fd_accum := None, fd_future := Some g \<rparr>) a''))))"

text \<open>\<^verbatim>\<open>Collect\<close> into a list; \<^verbatim>\<open>mem::take\<close> leaves the empty collection.\<close>

partial_function (option) collect_poll :: "('s, 'a, 'x) next_fun \<Rightarrow> 's \<times> 'x list \<Rightarrow> 'a \<Rightarrow> ('x list Poll \<times> ('s \<times> 'x list) \<times> 'a) option" where
  "collect_poll p st a =
     (case p (fst st) a of
        None \<Rightarrow> None
      | Some (Pending, s', a') \<Rightarrow> Some (Pending, (s', snd st), a')
      | Some (Ready None, s', a') \<Rightarrow> Some (Ready (snd st), (s', []), a')
      | Some (Ready (Some x), s', a') \<Rightarrow> collect_poll p (s', snd st @ [x]) a')"

partial_function (option) finish_poll :: "('s, 'a, 'x) next_fun \<Rightarrow> 's \<Rightarrow> 'a \<Rightarrow> (unit Poll \<times> 's \<times> 'a) option" where
  "finish_poll p s a =
     (case p s a of
        None \<Rightarrow> None
      | Some (Pending, s', a') \<Rightarrow> Some (Pending, s', a')
      | Some (Ready None, s', a') \<Rightarrow> Some (Ready (), s', a')
      | Some (Ready (Some x), s', a') \<Rightarrow> finish_poll p s' a')"

record 's stream_timeout =
  st_stream :: 's
  st_dur :: int
  st_reset :: bool
  st_deadline :: int

definition stream_timeout_new :: "int \<Rightarrow> int \<Rightarrow> 's \<Rightarrow> 's stream_timeout" where
  "stream_timeout_new now dur s = \<lparr> st_stream = s, st_dur = dur, st_reset = False, st_deadline = now + dur \<rparr>"

definition stream_timeout_poll :: "('a \<Rightarrow> int) \<Rightarrow> ('s, 'a, 'x) next_fun \<Rightarrow> ('s stream_timeout, 'a, unit + 'x) next_fun" where
  "stream_timeout_poll clk p st a =
     (case p (st_stream st) a of
        None \<Rightarrow> None
      | Some (Ready (Some x), s', a') \<Rightarrow> Some (Ready (Some (Inr x)), st \<lparr> st_stream := s', st_reset := True \<rparr>, a')
      | Some (Ready None, s', a') \<Rightarrow> Some (Ready None, st \<lparr> st_stream := s' \<rparr>, a')
      | Some (Pending, s', a') \<Rightarrow>
          (let st1 = st \<lparr> st_stream := s' \<rparr>;
               st2 = (if st_reset st1 then st1 \<lparr> st_reset := False, st_deadline := clk a' + st_dur st \<rparr> else st1)
           in Some (if st_deadline st2 \<le> clk a' then Ready (Some (Inl ())) else Pending, st2, a')))"

section \<open>Streams of an actor\<close>

record ('a, 'x) stream_handler =
  sh_started :: "'a \<Rightarrow> 'a"
  sh_handle :: "'x \<Rightarrow> 'a \<Rightarrow> 'a"
  sh_finished :: "'a \<Rightarrow> 'a"
  sh_waiting :: "'a \<Rightarrow> bool"

text \<open>The loop of \<^verbatim>\<open>ActorStream::poll\<close> after \<open>polled\<close> items; the last component says that the task was woken.\<close>

fun handler_loop :: "('a, 'x) stream_handler \<Rightarrow> nat \<Rightarrow> 'x Poll list \<Rightarrow> 'a \<Rightarrow> unit Poll \<times> 'x Poll list \<times> 'a \<times> bool" where
  "handler_loop h polled [] a = (Ready (), [], sh_finished h a, False)"
| "handler_loop h polled (Pending # rs) a = (Pending, rs, a, False)"
| "handler_loop h polled (Ready x # rs) a =
     (let a' = sh_handle h x a
      in if sh_waiting h a' then (Pending, rs, a', False)
         else if polled + 1 = 16 then (Pending, rs, a', True)
         else handler_loop h (polled + 1) rs a')"

definition actor_stream_poll :: "('a, 'x) stream_handler \<Rightarrow> bool \<times> 'x Poll list \<Rightarrow> 'a \<Rightarrow> unit Poll \<times> (bool \<times> 'x Poll list) \<times> 'a \<times> bool" where
  "actor_stream_poll h st a =
     (case st of (started, rs) \<Rightarrow>
       (case handler_loop h 0 rs (if started then a else sh_started h a) of (r, rs', a', k) \<Rightarrow> (r, (True, rs'), a', k)))"

section \<open>Requests\<close>

text \<open>The future of a sent message: it holds the receiver of the answer, or a sender of its own, dropped once it has been used, and the message that is still to be sent. \<open>rx_answer\<close> is what polling the receiver answers.\<close>

datatype 'r rx_answer = RxReady 'r | RxGone | RxPending

record 'm MsgRequest =
  mr_rx :: bool
  mr_info :: "(nat \<times> 'm) option"
  mr_timeout :: "int option"

definition MsgRequest_new :: "bool \<Rightarrow> (nat \<times> 'm) option \<Rightarrow> 'm MsgRequest" where
  "MsgRequest_new rx info = \<lparr> mr_rx = rx, mr_info = info, mr_timeout = None \<rparr>"

definition MsgRequest_timeout :: "int \<Rightarrow> int \<Rightarrow> 'm MsgRequest \<Rightarrow> 'm MsgRequest" where
  "MsgRequest_timeout now dur r = r \<lparr> mr_timeout := Some (now + dur) \<rparr>"

definition Addr_send :: "nat \<Rightarrow> 'm \<Rightarrow> 'm Channel \<Rightarrow> ('m MsgRequest \<times> 'm Channel) option" where
  "Addr_send sid msg ch =
     (case send sid msg ch of
        None \<Rightarrow> None
      | Some (Inr _, ch') \<Rightarrow> Some (MsgRequest_new True None, ch')
      | Some (Inl (Full m), ch') \<Rightarrow> map_option (\<lambda>(sid', ch''). (MsgRequest_new False (Some (sid', m)), ch'')) (sender_clone ch')
      | Some (Inl (Closed m), ch') \<Rightarrow> Some (MsgRequest_new False None, ch'))"

definition Addr_do_send :: "'m \<Rightarrow> 'm Channel \<Rightarrow> 'm Channel option" where
  "Addr_do_send msg ch = map_option snd (do_send msg ch)"

definition Addr_try_send :: "nat \<Rightarrow> 'm \<Rightarrow> 'm Channel \<Rightarrow> (('m SendError + unit) \<times> 'm Channel) option" where
  "Addr_try_send sid msg ch = try_send sid msg True ch"

definition await_answer :: "'r rx_answer \<Rightarrow> int \<Rightarrow> 'm MsgRequest \<Rightarrow> (MailboxError + 'r) Poll" where
  "await_answer rx now r =
     (if mr_rx r
      then (case rx of
              RxReady v \<Rightarrow> Ready (Inr v)
            | RxGone \<Rightarrow> Ready (Inl MailboxClosed)
            | RxPending \<Rightarrow>
                (case mr_timeout r of
                   Some deadline \<Rightarrow> if deadline \<le> now then Ready (Inl MailboxTimeout) else Pending
                 | None \<Rightarrow> Pending))
      else Ready (Inl MailboxClosed))"

definition MsgRequest_poll :: "'r rx_answer \<Rightarrow> int \<Rightarrow> 'm MsgRequest \<Rightarrow> 'm Channel \<Rightarrow> ((MailboxError + 'r) Poll \<times> 'm MsgRequest \<times> 'm Channel) option" where
  "MsgRequest_poll rx now r ch =
     (case mr_info r of
        None \<Rightarrow> Some (await_answer rx now r, r, ch)
      | Some (sid, msg) \<Rightarrow>
          (case send sid msg ch of
             None \<Rightarrow> None
           | Some (Inr _, ch') \<Rightarrow> (let r' = r \<lparr> mr_info := None, mr_rx := True \<rparr> in Some (await_answer rx now r', r', sender_drop ch'))
           | Some (Inl (Full m), ch') \<Rightarrow> Some (Pending, r \<lparr> mr_info := Some (sid, m) \<rparr>, ch')
           | Some (Inl (Closed m), ch') \<Rightarrow> Some (Ready (Inl MailboxClosed), r \<lparr> mr_info := None \<rparr>, sender_drop ch')))"

section \<open>What futures settle on and streams deliver\<close>

definition settled_answer :: "('f \<Rightarrow> bool) \<Rightarrow> 'o \<Rightarrow> ('o Poll \<times> 'f \<times> 'a) option \<Rightarrow> bool" where
  "settled_answer R v res \<longleftrightarrow> (\<exists>s' a'. res = Some (Ready v, s', a')) \<or> (\<exists>s' a'. res = Some (Pending, s', a') \<and> R s')"

lemma settled_answer_mono: "R \<le> S \<Longrightarrow> settled_answer R v res \<longrightarrow> settled_answer S v res"
  by (auto simp: settled_answer_def)

lemma settled_answer_simps [simp]:
  "settled_answer R v (Some (Ready w, s, a)) \<longleftrightarrow> w = v" "settled_answer R v (Some (Pending, s, a)) \<longleftrightarrow> R s" "\<not> settled_answer R v None"
  by (auto simp: settled_answer_def)

lemma settled_cases:
  assumes "settled_answer R v res"
  obtains s' a' where "res = Some (Ready v, s', a')" | s' a' where "res = Some (Pending, s', a')" "R s'"
  using assms by (auto simp: settled_answer_def)

inductive settles :: "('f, 'a, 'o) poll_fun \<Rightarrow> 'o \<Rightarrow> 'f \<Rightarrow> bool" for p v where
  settlesI: "(\<And>a. settled_answer (settles p v) v (p s a)) \<Longrightarrow> settles p v s"
monos settled_answer_mono

definition delivered_answer :: "('x list \<Rightarrow> 's \<Rightarrow> bool) \<Rightarrow> 'x list \<Rightarrow> ('x option Poll \<times> 's \<times> 'a) option \<Rightarrow> bool" where
  "delivered_answer R xs res \<longleftrightarrow>
     (\<exists>s' a'. res = Some (Ready None, s', a') \<and> xs = []) \<or> (\<exists>x ys s' a'. res = Some (Ready (Some x), s', a') \<and> xs = x # ys \<and> R ys s')
     \<or> (\<exists>s' a'. res = Some (Pending, s', a') \<and> R xs s')"

lemma delivered_answer_mono: "R \<le> S \<Longrightarrow> delivered_answer R xs res \<longrightarrow> delivered_answer S xs res"
  by (auto simp: delivered_answer_def le_fun_def)

lemma delivered_answer_simps [simp]:
  "delivered_answer R xs (Some (Ready None, s, a)) \<longleftrightarrow> xs = []" "delivered_answer R xs (Some (Pending, s, a)) \<longleftrightarrow> R xs s" "\<not> delivered_answer R xs None"
  "delivered_answer R xs (Some (Ready (Some x), s, a)) \<longleftrightarrow> (\<exists>ys. xs = x # ys \<and> R ys s)"
  by (auto simp: delivered_answer_def)

lemma delivered_cases:
  assumes "delivered_answer R xs res"
  obtains s' a' where "res = Some (Ready None, s', a')" "xs = []" | x ys s' a' where "res = Some (Ready (Some x), s', a')" "xs = x # ys" "R ys s'"
  | s' a' where "res = Some (Pending, s', a')" "R xs s'"
  using assms by (auto simp: delivered_answer_def)

inductive delivers :: "('s, 'a, 'x) next_fun \<Rightarrow> 'x list \<Rightarrow> 's \<Rightarrow> bool" for p where
  deliversI: "(\<And>a. delivered_answer (delivers p) xs (p s a)) \<Longrightarrow> delivers p xs s"
monos delivered_answer_mono

text \<open>A poll that continues as the poll of another state settles as that state does: the step of the loops.\<close>

lemma settles_poll: "settles p v s \<Longrightarrow> settled_answer (settles p v) v (p s a)"
  by (auto elim: settles.cases)

lemma delivers_poll: "delivers p xs s \<Longrightarrow> delivered_answer (delivers p) xs (p s a)"
  by (auto elim: delivers.cases)

lemma settles_unique: "settles p v s \<Longrightarrow> settles p v' s \<Longrightarrow> v = v'"
proof (induction rule: settles.induct)
  case (settlesI s)
  from settlesI(1) [of undefined] settles_poll [OF settlesI(2), of undefined] show ?case by (auto simp: settled_answer_def)
qed

lemma ready_settles: "settles ready_poll v (Some v)"
  by (rule settlesI) (simp add: settled_answer_def)

lemma fut_map_settles:
  assumes "settles p v s" and "\<And>a. fst (f v a) = u"
  shows "settles (fut_map_poll f p) u (MapIncomplete s)"
  using assms(1)
proof (induction rule: settles.induct)
  case (settlesI s)
  show ?case
  proof (rule settles.intros)
    show "settled_answer (settles (fut_map_poll f p) u) u (fut_map_poll f p (MapIncomplete s) a)" for a
      using settlesI [of a] by (elim settled_cases) (simp_all add: assms(2) split_beta)
  qed
qed

lemma fut_then_second: "settles q v g \<Longrightarrow> settles (fut_then_poll f p q) v (ThenSecond g)"
proof (induction rule: settles.induct)
  case (settlesI g)
  show ?case
  proof (rule settles.intros)
    show "settled_answer (settles (fut_then_poll f p q) v) v (fut_then_poll f p q (ThenSecond g) a)" for a
      using settlesI [of a] by (elim settled_cases) (simp_all add: then_second_poll_def)
  qed
qed

lemma fut_then_settles:
  assumes "settles p u s" and "\<And>a. settles q v (fst (f u a))"
  shows "settles (fut_then_poll f p q) v (ThenFirst s)"
  using assms(1)
proof (induction rule: settles.induct)
  case (settlesI s)
  show ?case
  proof (rule settles.intros)
    fix a
    have "settled_answer (settles (fut_then_poll f p q) v) v (then_second_poll q (fst (f u a')) a'')" for a' a''
      using settles_poll [OF fut_then_second [OF assms(2)], of f p a' a''] by simp
    with settlesI [of a] show "settled_answer (settles (fut_then_poll f p q) v) v (fut_then_poll f p q (ThenFirst s) a)"
      by (elim settled_cases) (simp_all add: split_beta)
  qed
qed

lemma and_then_second: "settles q v g \<Longrightarrow> settles (and_then_poll f p q) v (ThenSecond g)"
proof (induction rule: settles.induct)
  case (settlesI g)
  show ?case
  proof (rule settles.intros)
    show "settled_answer (settles (and_then_poll f p q) v) v (and_then_poll f p q (ThenSecond g) a)" for a
      using settlesI [of a] by (elim settled_cases) (simp_all add: then_second_poll_def)
  qed
qed

text \<open>\<^verbatim>\<open>and_then\<close> runs its second future exactly when the first gives a value; its error is that of the first, or of the second.\<close>

lemma and_then_settles:
  assumes "settles p r s" and "case r of Inl e \<Rightarrow> v = Inl e | Inr u \<Rightarrow> \<forall>a. settles q v (fst (f u a))"
  shows "settles (and_then_poll f p q) v (ThenFirst s)"
  using assms(1)
proof (induction rule: settles.induct)
  case (settlesI s)
  show ?case
  proof (rule settles.intros)
    fix a
    have "settled_answer (settles (and_then_poll f p q) v) v (then_second_poll q (fst (f u a')) a'')" if "r = Inr u" for u a' a''
      using settles_poll [OF and_then_second, of q v "fst (f u a')" f p a''] assms(2) that by simp
    with settlesI [of a] show "settled_answer (settles (and_then_poll f p q) v) v (and_then_poll f p q (ThenFirst s) a)"
      using assms(2) by (elim settled_cases) (auto simp: split_beta split: sum.split)
  qed
qed

lemma map_ok_settles:
  assumes "settles p r s" and "\<And>x a. fst (f x a) = F x"
  shows "settles (map_ok_poll f p) (map_sum (\<lambda>e. e) F r) (MapIncomplete s)"
  using assms(1)
proof (induction rule: settles.induct)
  case (settlesI s)
  show ?case
  proof (rule settles.intros)
    show "settled_answer (settles (map_ok_poll f p) (map_sum (\<lambda>e. e) F r)) (map_sum (\<lambda>e. e) F r) (map_ok_poll f p (MapIncomplete s) a)" for a
      using settlesI [of a] by (elim settled_cases) (simp_all add: assms(2) split_beta split: sum.split)
  qed
qed

lemma map_err_settles:
  assumes "settles p r s" and "\<And>x a. fst (f x a) = F x"
  shows "settles (map_err_poll f p) (map_sum F (\<lambda>v. v) r) (MapIncomplete s)"
  using assms(1)
proof (induction rule: settles.induct)
  case (settlesI s)
  show ?case
  proof (rule settles.intros)
    show "settled_answer (settles (map_err_poll f p) (map_sum F (\<lambda>v. v) r)) (map_sum F (\<lambda>v. v) r) (map_err_poll f p (MapIncomplete s) a)" for a
      using settlesI [of a] by (elim settled_cases) (simp_all add: assms(2) split_beta split: sum.split)
  qed
qed

lemma either_settles:
  "settles p v s \<Longrightarrow> settles (either_poll p q) v (Inl s)"
  "settles q v g \<Longrightarrow> settles (either_poll p q) v (Inr g)"
proof -
  show "settles p v s \<Longrightarrow> settles (either_poll p q) v (Inl s)"
  proof (induction rule: settles.induct)
    case (settlesI s)
    show ?case
    proof (rule settles.intros)
      show "settled_answer (settles (either_poll p q) v) v (either_poll p q (Inl s) a)" for a
        using settlesI [of a] by (elim settled_cases) simp_all
    qed
  qed
  show "settles q v g \<Longrightarrow> settles (either_poll p q) v (Inr g)"
  proof (induction rule: settles.induct)
    case (settlesI g)
    show ?case
    proof (rule settles.intros)
      show "settled_answer (settles (either_poll p q) v) v (either_poll p q (Inr g) a)" for a
        using settlesI [of a] by (elim settled_cases) simp_all
    qed
  qed
qed

text \<open>The future is polled before the clock is read: a value that is ready is given even after the deadline, and a future under a timeout ends no later than a poll after it.\<close>

lemma fut_timeout_answer:
  assumes "p s a = Some (r, s', a')"
  shows "fst (the (fut_timeout_poll clk p (s, d) a)) = (case r of Ready v \<Rightarrow> Ready (Inr v) | Pending \<Rightarrow> if d \<le> clk a' then Ready (Inl ()) else Pending)"
  using assms by (cases r) (simp_all add: fut_timeout_poll_def)

section \<open>Streams deliver lists\<close>

fun script_items :: "'x Poll list \<Rightarrow> 'x list" where
  "script_items [] = []"
| "script_items (Ready x # rs) = x # script_items rs"
| "script_items (Pending # rs) = script_items rs"

lemma wrap_stream_delivers: "delivers wrap_stream_poll (script_items rs) rs"
  by (induction rs rule: script_items.induct) (auto intro: delivers.intros)

lemma stream_map_delivers:
  assumes "delivers p xs s" and "\<And>x a. fst (f x a) = F x"
  shows "delivers (stream_map_poll f p) (map F xs) s"
  using assms(1)
proof (induction rule: delivers.induct)
  case (deliversI xs s)
  show ?case
  proof (rule delivers.intros)
    show "delivered_answer (delivers (stream_map_poll f p)) (map F xs) (stream_map_poll f p s a)" for a
      using deliversI [of a] by (elim delivered_cases) (simp_all add: stream_map_poll_def [of f p s a] assms(2) split_beta)
  qed
qed

lemma stream_then_item:
  assumes "settles q y g" and "delivers (stream_then_poll f p q) ys (s, None)"
  shows "delivers (stream_then_poll f p q) (y # ys) (s, Some g)"
  using assms(1)
proof (induction rule: settles.induct)
  case (settlesI g)
  show ?case
  proof (rule delivers.intros)
    show "delivered_answer (delivers (stream_then_poll f p q)) (y # ys) (stream_then_poll f p q (s, Some g) a)" for a
      using settlesI [of a] assms(2) by (elim settled_cases) (simp_all add: stream_then_fut_def)
  qed
qed

lemma stream_then_delivers:
  assumes "delivers p xs s" and "\<And>x a. settles q (F x) (fst (f x a))"
  shows "delivers (stream_then_poll f p q) (map F xs) (s, None)"
  using assms(1)
proof (induction rule: delivers.induct)
  case (deliversI xs s)
  show ?case
  proof (rule delivers.intros)
    fix a
    have "delivered_answer (delivers (stream_then_poll f p q)) (F x # ys) (stream_then_fut q s' (fst (f x a')) a'')"
      if "delivers (stream_then_poll f p q) ys (s', None)" for x ys s' a' a''
      using delivers_poll [OF stream_then_item [OF assms(2) that], of x a' a''] by simp
    with deliversI [of a] show "delivered_answer (delivers (stream_then_poll f p q)) (map F xs) (stream_then_poll f p q (s, None) a)"
      by (elim delivered_cases) (simp_all add: split_beta)
  qed
qed

definition judging :: "'s \<Rightarrow> 'g \<Rightarrow> 'x \<Rightarrow> ('s, 'x, 'g) while_state" where
  "judging s g x = \<lparr> wl_stream = s, wl_fut = Some g, wl_item = Some x, wl_done = False \<rparr>"

lemma take_while_poll_judging: "take_while_poll f p q (judging s g x) a = take_while_judge q g (judging s g x) a"
  by (simp add: take_while_poll_def judging_def)

lemma take_while_poll_new:
  "take_while_poll f p q (while_new s) a =
     (case p s a of
        None \<Rightarrow> None
      | Some (Pending, s', a') \<Rightarrow> Some (Pending, while_new s', a')
      | Some (Ready None, s', a') \<Rightarrow> Some (Ready None, while_new s', a')
      | Some (Ready (Some x), s', a') \<Rightarrow> (case f x a' of (g, a'') \<Rightarrow> take_while_poll f p q (judging s' g x) a''))"
  by (auto simp: take_while_poll_def while_new_def judging_def split: option.split Poll.split prod.split)

lemma skip_while_poll_judging:
  "skip_while_poll f p q (judging s g x) a =
     (case q g a of
        None \<Rightarrow> None
      | Some (Pending, g', a') \<Rightarrow> Some (Pending, judging s g' x, a')
      | Some (Ready skipped, g', a') \<Rightarrow>
          (if skipped then skip_while_poll f p q (while_new s) a' else Some (Ready (Some x), while_new s \<lparr> wl_done := True \<rparr>, a')))"
proof -
  have "skip_while_poll f p q (judging s g x) a = skip_while_loop f p q (judging s g x) a" by (simp add: skip_while_poll_def judging_def)
  also have "\<dots> = (case q g a of
        None \<Rightarrow> None
      | Some (Pending, g', a') \<Rightarrow> Some (Pending, judging s g' x, a')
      | Some (Ready skipped, g', a') \<Rightarrow>
          (if skipped then skip_while_loop f p q (while_new s) a' else Some (Ready (Some x), while_new s \<lparr> wl_done := True \<rparr>, a')))"
    by (subst skip_while_loop.simps) (auto simp: judging_def while_new_def split: option.split Poll.split prod.split)
  also have "skip_while_loop f p q (while_new s) = skip_while_poll f p q (while_new s)" by (rule ext) (simp add: skip_while_poll_def while_new_def)
  finally show ?thesis .
qed

lemma skip_while_poll_new:
  "skip_while_poll f p q (while_new s) a =
     (case p s a of
        None \<Rightarrow> None
      | Some (Pending, s', a') \<Rightarrow> Some (Pending, while_new s', a')
      | Some (Ready None, s', a') \<Rightarrow> Some (Ready None, while_new s', a')
      | Some (Ready (Some x), s', a') \<Rightarrow> (case f x a' of (g, a'') \<Rightarrow> skip_while_poll f p q (judging s' g x) a''))"
proof -
  have "skip_while_loop f p q (judging s' g x) = skip_while_poll f p q (judging s' g x)" for s' g x by (rule ext) (simp add: skip_while_poll_def judging_def)
  moreover have "skip_while_poll f p q (while_new s) a = skip_while_loop f p q (while_new s) a" by (simp add: skip_while_poll_def while_new_def)
  ultimately show ?thesis
    by (simp only:) (subst skip_while_loop.simps, auto simp: while_new_def judging_def split: option.split Poll.split prod.split)
qed

lemma take_while_done: "wl_done st \<Longrightarrow> delivers (take_while_poll f p q) [] st"
  by (rule delivers.intros) (simp add: take_while_poll_def)

lemma take_while_judging:
  assumes "settles q b g" and "delivers (take_while_poll f p q) zs (while_new s)"
  shows "delivers (take_while_poll f p q) (if b then x # zs else []) (judging s g x)"
  using assms(1)
proof (induction rule: settles.induct)
  case (settlesI g)
  show ?case
  proof (rule delivers.intros)
    show "delivered_answer (delivers (take_while_poll f p q)) (if b then x # zs else []) (take_while_poll f p q (judging s g x) a)" for a
      using settlesI [of a] assms(2) by (elim settled_cases) (simp_all add: take_while_poll_judging take_while_judge_def, simp_all add: judging_def while_new_def take_while_done split: if_splits)
  qed
qed

lemma take_while_delivers:
  assumes "delivers p xs s" and "\<And>x a. settles q (P x) (fst (f x a))"
  shows "delivers (take_while_poll f p q) (takeWhile P xs) (while_new s)"
  using assms(1)
proof (induction rule: delivers.induct)
  case (deliversI xs s)
  show ?case
  proof (rule delivers.intros)
    fix a
    have j: "delivered_answer (delivers (take_while_poll f p q)) (if P x then x # zs else []) (take_while_poll f p q (judging s' (fst (f x a')) x) a'')"
      if "delivers (take_while_poll f p q) zs (while_new s')" for x zs s' a' a''
      using delivers_poll [OF take_while_judging [OF assms(2) that]] by blast
    show "delivered_answer (delivers (take_while_poll f p q)) (takeWhile P xs) (take_while_poll f p q (while_new s) a)"
      using deliversI [of a] by (elim delivered_cases) (use j in \<open>simp_all add: take_while_poll_new split_beta\<close>)
  qed
qed

lemma skip_while_through:
  assumes "delivers p xs s" and "wl_done st" and "wl_stream st = s"
  shows "delivers (skip_while_poll f p q) xs st"
  using assms
proof (induction arbitrary: st rule: delivers.induct)
  case (deliversI xs s)
  show ?case
  proof (rule delivers.intros)
    show "delivered_answer (delivers (skip_while_poll f p q)) xs (skip_while_poll f p q st a)" for a
      using deliversI(1) [of a] deliversI(2,3) by (elim delivered_cases) (simp_all add: skip_while_poll_def [of f p q st a])
  qed
qed

lemma skip_while_judging:
  assumes "settles q b g" and "delivers (skip_while_poll f p q) zs (while_new s)" and "delivers p ys s"
  shows "delivers (skip_while_poll f p q) (if b then zs else x # ys) (judging s g x)"
  using assms(1)
proof (induction rule: settles.induct)
  case (settlesI g)
  show ?case
  proof (rule delivers.intros)
    show "delivered_answer (delivers (skip_while_poll f p q)) (if b then zs else x # ys) (skip_while_poll f p q (judging s g x) a)" for a
      using settlesI [of a] delivers_poll [OF assms(2)] skip_while_through [OF assms(3), of "while_new s \<lparr> wl_done := True \<rparr>" f q]
      by (elim settled_cases) (simp_all add: skip_while_poll_judging, simp_all add: while_new_def)
  qed
qed

lemma skip_while_delivers:
  assumes "delivers p xs s" and "\<And>x a. settles q (P x) (fst (f x a))"
  shows "delivers (skip_while_poll f p q) (dropWhile P xs) (while_new s)"
  using assms(1)
proof (induction rule: delivers.induct)
  case (deliversI xs s)
  show ?case
  proof (rule delivers.intros)
    fix a
    have j: "delivered_answer (delivers (skip_while_poll f p q)) (if P x then zs else x # ys) (skip_while_poll f p q (judging s' (fst (f x a')) x) a'')"
      if "delivers (skip_while_poll f p q) zs (while_new s')" "delivers p ys s'" for x ys zs s' a' a''
      using delivers_poll [OF skip_while_judging [OF assms(2) that]] by blast
    show "delivered_answer (delivers (skip_while_poll f p q)) (dropWhile P xs) (skip_while_poll f p q (while_new s) a)"
      using deliversI [of a] by (elim delivered_cases) (use j in \<open>simp_all add: skip_while_poll_new split_beta\<close>)
  qed
qed

section \<open>Futures of streams\<close>

lemma fold_poll_item:
  assumes "settles q t g" and "settles (fold_poll f p q) v (fold_new s t)"
  shows "settles (fold_poll f p q) v \<lparr> fd_stream = s, fd_accum = None, fd_future = Some g \<rparr>"
  using assms(1)
proof (induction rule: settles.induct)
  case (settlesI g)
  show ?case
  proof (rule settles.intros)
    show "settled_answer (settles (fold_poll f p q) v) v (fold_poll f p q \<lparr> fd_stream = s, fd_accum = None, fd_future = Some g \<rparr> a)" for a
      using settlesI [of a] settles_poll [OF assms(2)] by (elim settled_cases) (subst fold_poll.simps, simp add: fold_new_def)+
  qed
qed

lemma fold_settles:
  assumes "delivers p xs s" and "\<And>t x a. settles q (F t x) (fst (f t x a))"
  shows "settles (fold_poll f p q) (foldl F t xs) (fold_new s t)"
  using assms(1)
proof (induction arbitrary: t rule: delivers.induct)
  case (deliversI xs s)
  show ?case
  proof (rule settles.intros)
    fix a
    have j: "settled_answer (settles (fold_poll f p q) v) v (fold_poll f p q \<lparr> fd_stream = s', fd_accum = None, fd_future = Some (fst (f t x a')) \<rparr> a'')"
      if "settles (fold_poll f p q) v (fold_new s' (F t x))" for v x s' a' a''
      using settles_poll [OF fold_poll_item [OF assms(2) that]] by blast
    show "settled_answer (settles (fold_poll f p q) (foldl F t xs)) (foldl F t xs) (fold_poll f p q (fold_new s t) a)"
      using deliversI [of a] by (elim delivered_cases) (use j in \<open>subst fold_poll.simps, simp add: fold_new_def split_beta\<close>)+
  qed
qed

lemma collect_settles: "delivers p xs s \<Longrightarrow> settles (collect_poll p) (c @ xs) (s, c)"
proof (induction arbitrary: c rule: delivers.induct)
  case (deliversI xs s)
  show ?case
  proof (rule settles.intros)
    fix a
    show "settled_answer (settles (collect_poll p) (c @ xs)) (c @ xs) (collect_poll p (s, c) a)"
      using deliversI [of a]
    proof (cases rule: delivered_cases)
      case (2 x ys s' a')
      then have "settles (collect_poll p) (c @ xs) (s', c @ [x])" by (metis append.assoc append_Cons append_Nil)
      then show ?thesis using 2(1) settles_poll by (subst collect_poll.simps) auto
    qed (subst collect_poll.simps, simp)+
  qed
qed

lemma finish_settles: "delivers p xs s \<Longrightarrow> settles (finish_poll p) () s"
proof (induction rule: delivers.induct)
  case (deliversI xs s)
  show ?case
  proof (rule settles.intros)
    show "settled_answer (settles (finish_poll p) ()) () (finish_poll p s a)" for a
      using deliversI [of a] by (elim delivered_cases) (subst finish_poll.simps, simp add: settles_poll)+
  qed
qed

section \<open>Polling to the end\<close>

text \<open>Polls with the actors \<open>env 0\<close>, \<open>env 1\<close>, \<open>\<dots>\<close> until the future is ready or the polls are used up.\<close>

primrec drive :: "('f, 'a, 'o) poll_fun \<Rightarrow> nat \<Rightarrow> (nat \<Rightarrow> 'a) \<Rightarrow> 'f \<Rightarrow> 'o option" where
  "drive p 0 env s = None"
| "drive p (Suc n) env s =
     (case p s (env 0) of
        None \<Rightarrow> None
      | Some (Ready v, s', a') \<Rightarrow> Some v
      | Some (Pending, s', a') \<Rightarrow> drive p n (\<lambda>i. env (Suc i)) s')"

lemma settles_drive: "settles p v s \<Longrightarrow> \<exists>N. \<forall>n\<ge>N. drive p n env s = Some v"
proof (induction arbitrary: env rule: settles.induct)
  case (settlesI s)
  from settlesI [of "env 0"] show ?case
  proof (cases rule: settled_cases)
    case (1 s' a')
    then have "drive p n env s = Some v" if "1 \<le> n" for n using that by (cases n) simp_all
    then show ?thesis by blast
  next
    case (2 s' a')
    then obtain N where "\<forall>n\<ge>N. drive p n (\<lambda>i. env (Suc i)) s' = Some v" by blast
    then have "drive p n env s = Some v" if "Suc N \<le> n" for n using that 2(1) by (cases n) simp_all
    then show ?thesis by blast
  qed
qed

text \<open>C28. A pipeline of combinators over any stream from outside: taking while one asynchronous test holds, skipping while another one does, mapping and folding. However often the stream and the futures of the user answer
  pending and whatever happens to the actor between the polls, polling ends without a panic, and the result is that of the list functions on the items of the stream.\<close>

theorem pipeline_folds_list:
  assumes "\<And>x a. settles q (P x) (fst (pf x a))" and "\<And>x a. settles q' (Q x) (fst (qf x a))"
    and "\<And>x a. fst (f x a) = F x" and "\<And>t y a. settles r (G t y) (fst (g t y a))"
  shows "\<exists>N. \<forall>n\<ge>N.
      drive (fold_poll g (stream_map_poll f (skip_while_poll qf (take_while_poll pf wrap_stream_poll q) q')) r) n env (fold_new (while_new (while_new rs)) t)
      = Some (foldl G t (map F (dropWhile Q (takeWhile P (script_items rs)))))"
  by (intro settles_drive fold_settles stream_map_delivers skip_while_delivers take_while_delivers wrap_stream_delivers assms)

theorem pipeline_folds_list_witness:
  "\<exists>N. drive (fold_poll (\<lambda>t y a. (Some (t + y), a)) (stream_map_poll (\<lambda>x a. (2 * x, a + 1)) (skip_while_poll (\<lambda>x a. (Some (x < 3), a))
       (take_while_poll (\<lambda>x a. (Some (x < 9), a)) wrap_stream_poll ready_poll) ready_poll)) ready_poll) N (\<lambda>i. 0 :: nat)
     (fold_new (while_new (while_new [Ready 1, Pending, Ready 3, Pending, Ready 2, Ready 9, Ready (4 :: nat)])) 0) = Some 10"
proof -
  let ?rs = "[Ready 1, Pending, Ready 3, Pending, Ready 2, Ready 9, Ready (4 :: nat)]"
  obtain N where "\<forall>n\<ge>N. drive (fold_poll (\<lambda>t y a. (Some (t + y), a)) (stream_map_poll (\<lambda>x a. (2 * x, a + 1)) (skip_while_poll (\<lambda>x a. (Some (x < 3), a))
       (take_while_poll (\<lambda>x a. (Some (x < 9), a)) wrap_stream_poll ready_poll) ready_poll)) ready_poll) n (\<lambda>i. 0 :: nat) (fold_new (while_new (while_new ?rs)) 0)
     = Some (foldl (+) 0 (map (\<lambda>x. 2 * x) (dropWhile (\<lambda>x. x < 3) (takeWhile (\<lambda>x. x < 9) (script_items ?rs)))))"
    using pipeline_folds_list [of ready_poll "\<lambda>x. x < 9" "\<lambda>x a. (Some (x < 9), a)" ready_poll "\<lambda>x. x < 3" "\<lambda>x a. (Some (x < 3), a)"
      "\<lambda>x a. (2 * x, a + 1)" "\<lambda>x. 2 * x" ready_poll "(+)" "\<lambda>t y a. (Some (t + y), a)" "\<lambda>i. 0 :: nat" ?rs "0 :: nat"]
    unfolding fst_conv by (blast intro: ready_settles)
  moreover have "foldl (+) 0 (map (\<lambda>x. 2 * x) (dropWhile (\<lambda>x. x < 3) (takeWhile (\<lambda>x. x < 9) (script_items ?rs)))) = 10" by simp
  ultimately show ?thesis by (metis order_refl)
qed

section \<open>Items of a stream reach the handler\<close>

lemma handler_loop_progress:
  "handler_loop h k rs a = (r, rs', a', w) \<Longrightarrow>
     (case r of
        Ready _ \<Rightarrow> rs' = [] \<and> a' = sh_finished h (fold (sh_handle h) (script_items rs) a)
      | Pending \<Rightarrow> length rs' < length rs \<and> fold (sh_handle h) (script_items rs') a' = fold (sh_handle h) (script_items rs) a)"
  by (induction h k rs a rule: handler_loop.induct) (force simp: Let_def split: if_splits Poll.splits)+

text \<open>A poll takes at most sixteen items, and wakes its task exactly when it stops for that reason.\<close>

lemma handler_loop_batch:
  "handler_loop h k rs a = (r, rs', a', w) \<Longrightarrow> k < 16 \<Longrightarrow>
     length (script_items rs) \<le> length (script_items rs') + (16 - k) \<and> (w \<longrightarrow> length (script_items rs) = length (script_items rs') + (16 - k))"
  by (induction h k rs a rule: handler_loop.induct) (fastforce simp: Let_def split: if_splits)+

primrec run_actor_stream :: "('a, 'x) stream_handler \<Rightarrow> nat \<Rightarrow> bool \<times> 'x Poll list \<Rightarrow> 'a \<Rightarrow> unit Poll \<times> (bool \<times> 'x Poll list) \<times> 'a" where
  "run_actor_stream h 0 st a = (Pending, st, a)"
| "run_actor_stream h (Suc n) st a =
     (case actor_stream_poll h st a of
        (Ready u, st', a', w) \<Rightarrow> (Ready u, st', a')
      | (Pending, st', a', w) \<Rightarrow> run_actor_stream h n st' a')"

lemma run_started_stream:
  "length rs < n \<Longrightarrow> run_actor_stream h n (True, rs) a = (Ready (), (True, []), sh_finished h (fold (sh_handle h) (script_items rs) a))"
proof (induction n arbitrary: rs a)
  case (Suc n)
  obtain r rs' a' w where l: "handler_loop h 0 rs a = (r, rs', a', w)" by (metis prod_cases4)
  show ?case
  proof (cases r)
    case (Ready u)
    then show ?thesis using handler_loop_progress [OF l] l by (simp add: actor_stream_poll_def)
  next
    case Pending
    then show ?thesis using handler_loop_progress [OF l] l Suc.IH [of rs' a'] Suc.prems by (simp add: actor_stream_poll_def)
  qed
qed simp

text \<open>Every item of a stream is handled once and in order between the two callbacks, whenever the handler makes the actor wait.\<close>

theorem stream_handled_in_order:
  assumes "length rs < n"
  shows "run_actor_stream h n (False, rs) a = (Ready (), (True, []), sh_finished h (fold (sh_handle h) (script_items rs) (sh_started h a)))"
proof (cases n)
  case (Suc m)
  have "run_actor_stream h n (False, rs) a = run_actor_stream h n (True, rs) (sh_started h a)" by (simp add: Suc actor_stream_poll_def)
  then show ?thesis using run_started_stream [OF assms] by simp
qed (use assms in simp)

section \<open>Requests to a full mailbox\<close>

lemma fresh_sender_not_full:
  assumes "\<not> as_maybe_parked (ch_senders ch sid)"
  shows "send sid msg ch \<noteq> Some (Inl (Full m), ch')"
  using assms by (auto simp: send_def poll_unparked_def Let_def split: option.splits prod.splits bind_splits)

text \<open>
  A request to a full mailbox gets a sender of its own, which is not parked: polled before anything else uses that sender, it puts its message into the queue although the mailbox is full, or finds it closed. It is never left
  waiting for space, so the capacity does not hold back requests.
\<close>

theorem full_mailbox_takes_requests:
  assumes "Addr_send sid msg ch = Some (r, ch1)" and "mr_info r = Some (sid', m)"
    and "ch_senders ch2 sid' = ch_senders ch1 sid'" and "MsgRequest_poll rx now r ch2 = Some (res, r', ch3)"
  shows "m = msg \<and> mr_info r' = None \<and> ((\<exists>c. send sid' msg ch2 = Some (Inr (), c) \<and> ch3 = sender_drop c) \<or> res = Ready (Inl MailboxClosed))"
proof -
  from assms(1,2) have m: "m = msg" and fresh: "ch_senders ch1 sid' = AddressSender_new"
    by (auto simp: Addr_send_def MsgRequest_new_def sender_clone_def send_def split: option.splits prod.splits sum.splits SendError.splits Poll.splits if_splits bind_splits)
  then have "send sid' m ch2 \<noteq> Some (Inl (Full m'), c)" for m' c
    using fresh_sender_not_full [of ch2 sid' m m' c] assms(3) by (simp add: AddressSender_new_def)
  then show ?thesis using assms(2,4) m
    by (auto simp: MsgRequest_poll_def Let_def split: option.splits sum.splits SendError.splits)
qed

end
