(* ===== verification/Addresses.thy ===== *)
theory Addresses
  imports Actor_Futures "HOL-Library.Multiset"
begin

text \<open>
  The handles of a mailbox (\<^verbatim>\<open>actix/src/address/mod.rs\<close> and the handle types of \<^verbatim>\<open>address/channel.rs\<close>): addresses, weak
  addresses, recipients and weak recipients, the producer of senders, and how they count each other. The shared part of a channel is an
  \<^verbatim>\<open>Arc\<close>: a cell of an explicit heap with its strong count, reached by pointers and gone when the count falls to zero. An
  operation that panics or follows a pointer to a cell that is gone is \<open>None\<close>.
\<close>

section \<open>Reference counting\<close>

record 'm arc =
  arc_strong :: nat
  arc_inner :: "'m Channel"

type_synonym 'm heap = "nat \<Rightarrow> 'm arc option"

definition arc_clone :: "nat \<Rightarrow> 'm heap \<Rightarrow> 'm heap option" where
  "arc_clone p h = do { c \<leftarrow> h p; Some (h(p \<mapsto> c \<lparr> arc_strong := arc_strong c + 1 \<rparr>)) }"

definition arc_drop :: "nat \<Rightarrow> 'm heap \<Rightarrow> 'm heap option" where
  "arc_drop p h = do { c \<leftarrow> h p; Some (if arc_strong c = 1 then h(p := None) else h(p \<mapsto> c \<lparr> arc_strong := arc_strong c - 1 \<rparr>)) }"

definition with_inner :: "nat \<Rightarrow> ('m Channel \<Rightarrow> ('r \<times> 'm Channel) option) \<Rightarrow> 'm heap \<Rightarrow> ('r \<times> 'm heap) option" where
  "with_inner p f h = do { c \<leftarrow> h p; (r, ch) \<leftarrow> f (arc_inner c); Some (r, h(p \<mapsto> c \<lparr> arc_inner := ch \<rparr>)) }"

section \<open>Senders\<close>

text \<open>An \<^verbatim>\<open>AddressSender\<close> is the pointer to the shared part with the number of its own task cell.\<close>

record Addr =
  ad_inner :: nat
  ad_sender :: nat

record WeakAddr =
  wd_inner :: nat

text \<open>\<^verbatim>\<open>channel\<close> at a free place of the heap: a sender, and the receiver, which is named by the pointer.\<close>

definition address_channel :: "u64 \<Rightarrow> nat \<Rightarrow> 'm heap \<Rightarrow> (Addr \<times> 'm heap) option" where
  "address_channel buffer p h = do { ch \<leftarrow> channel buffer; Some (\<lparr> ad_inner = p, ad_sender = 0 \<rparr>, h(p \<mapsto> \<lparr> arc_strong = 2, arc_inner = ch \<rparr>)) }"

definition AddressSender_connected :: "Addr \<Rightarrow> 'm heap \<Rightarrow> bool option" where
  "AddressSender_connected tx h = map_option (\<lambda>c. sender_connected (arc_inner c)) (h (ad_inner tx))"

definition new_sender :: "nat \<Rightarrow> 'm heap \<Rightarrow> (Addr \<times> 'm heap) option" where
  "new_sender p h = do {
     (sid, h1) \<leftarrow> with_inner p sender_clone h;
     h2 \<leftarrow> arc_clone p h1;
     Some (\<lparr> ad_inner = p, ad_sender = sid \<rparr>, h2)
   }"

definition AddressSender_clone :: "Addr \<Rightarrow> 'm heap \<Rightarrow> (Addr \<times> 'm heap) option" where
  "AddressSender_clone tx h = new_sender (ad_inner tx) h"

definition AddressSender_drop :: "Addr \<Rightarrow> 'm heap \<Rightarrow> 'm heap option" where
  "AddressSender_drop tx h = do {
     (_, h1) \<leftarrow> with_inner (ad_inner tx) (\<lambda>ch. Some ((), sender_drop ch)) h;
     arc_drop (ad_inner tx) h1
   }"

definition AddressSender_eq :: "Addr \<Rightarrow> Addr \<Rightarrow> bool" where
  "AddressSender_eq tx other = (ad_inner tx = ad_inner other)"

definition Sender_hash :: "Addr \<Rightarrow> nat" where
  "Sender_hash tx = ad_inner tx"

definition AddressSender_downgrade :: "Addr \<Rightarrow> WeakAddr" where
  "AddressSender_downgrade tx = \<lparr> wd_inner = ad_inner tx \<rparr>"

definition WeakAddressSender_eq :: "WeakAddr \<Rightarrow> WeakAddr \<Rightarrow> bool" where
  "WeakAddressSender_eq w other = (wd_inner w = wd_inner other)"

subsection \<open>The producer of senders and the receiver\<close>

definition producer_connected :: "nat \<Rightarrow> 'm heap \<Rightarrow> bool option" where
  "producer_connected p h = map_option (\<lambda>c. ch_num_senders (arc_inner c) \<noteq> 0) (h p)"

definition producer_capacity :: "nat \<Rightarrow> 'm heap \<Rightarrow> u64 option" where
  "producer_capacity p h = map_option (\<lambda>c. ch_buffer (arc_inner c)) (h p)"

definition producer_set_capacity :: "u64 \<Rightarrow> nat \<Rightarrow> 'm heap \<Rightarrow> 'm heap option" where
  "producer_set_capacity cap p h = map_option snd (with_inner p (\<lambda>ch. map_option (Pair ()) (set_capacity cap ch)) h)"

definition producer_sender :: "nat \<Rightarrow> 'm heap \<Rightarrow> (Addr \<times> 'm heap) option" where
  "producer_sender p h = new_sender p h"

definition receiver_sender :: "nat \<Rightarrow> 'm heap \<Rightarrow> (Addr \<times> 'm heap) option" where
  "receiver_sender p h = new_sender p h"

definition sender_producer :: "nat \<Rightarrow> 'm heap \<Rightarrow> (nat \<times> 'm heap) option" where
  "sender_producer p h = map_option (Pair p) (arc_clone p h)"

definition producer_drop :: "nat \<Rightarrow> 'm heap \<Rightarrow> 'm heap option" where
  "producer_drop p h = arc_drop p h"

definition AddressReceiver_drop :: "nat \<Rightarrow> 'm heap \<Rightarrow> 'm heap option" where
  "AddressReceiver_drop p h = do { (_, h1) \<leftarrow> with_inner p (\<lambda>ch. map_option (Pair ()) (receiver_drop ch)) h; arc_drop p h1 }"

text \<open>\<^verbatim>\<open>Weak::upgrade\<close> gives a strong pointer while the cell exists; it becomes a producer, which is dropped after it made a sender.\<close>

definition WeakAddressSender_upgrade :: "WeakAddr \<Rightarrow> 'm heap \<Rightarrow> (Addr option \<times> 'm heap) option" where
  "WeakAddressSender_upgrade w h =
     (case h (wd_inner w) of
        None \<Rightarrow> Some (None, h)
      | Some _ \<Rightarrow> do {
          h1 \<leftarrow> arc_clone (wd_inner w) h;
          (tx, h2) \<leftarrow> producer_sender (wd_inner w) h1;
          h3 \<leftarrow> producer_drop (wd_inner w) h2;
          Some (Some tx, h3)
        })"

section \<open>Addresses\<close>

definition Addr_connected :: "Addr \<Rightarrow> 'm heap \<Rightarrow> bool option" where
  "Addr_connected a h = AddressSender_connected a h"

definition Addr_downgrade :: "Addr \<Rightarrow> WeakAddr" where
  "Addr_downgrade a = AddressSender_downgrade a"

definition Addr_clone :: "Addr \<Rightarrow> 'm heap \<Rightarrow> (Addr \<times> 'm heap) option" where
  "Addr_clone a h = AddressSender_clone a h"

definition Addr_eq :: "Addr \<Rightarrow> Addr \<Rightarrow> bool" where
  "Addr_eq a b = AddressSender_eq a b"

definition WeakAddr_upgrade :: "WeakAddr \<Rightarrow> 'm heap \<Rightarrow> (Addr option \<times> 'm heap) option" where
  "WeakAddr_upgrade w h = do {
     (r, h1) \<leftarrow> WeakAddressSender_upgrade w h;
     (case r of
        Some tx \<Rightarrow> do {
          conn \<leftarrow> AddressSender_connected tx h1;
          if conn then Some (Some tx, h1) else do { h2 \<leftarrow> AddressSender_drop tx h1; Some (None, h2) }
        }
      | None \<Rightarrow> Some (None, h1))
   }"

definition WeakAddr_eq :: "WeakAddr \<Rightarrow> WeakAddr \<Rightarrow> bool" where
  "WeakAddr_eq w v = WeakAddressSender_eq w v"

section \<open>Recipients\<close>

text \<open>
  A recipient is a boxed sender for one type of message: the sender and the way its messages become messages of the actor's mailbox,
  \<^verbatim>\<open>ToEnvelope::pack\<close>.
\<close>

record ('n, 'm) Recipient =
  rc_tx :: Addr
  rc_pack :: "'n \<Rightarrow> 'm"

record ('n, 'm) WeakRecipient =
  wr_wtx :: WeakAddr
  wr_pack :: "'n \<Rightarrow> 'm"

definition Addr_recipient :: "('n \<Rightarrow> 'm) \<Rightarrow> Addr \<Rightarrow> ('n, 'm) Recipient" where
  "Addr_recipient pack a = \<lparr> rc_tx = a, rc_pack = pack \<rparr>"

definition WeakAddr_recipient :: "('n \<Rightarrow> 'm) \<Rightarrow> WeakAddr \<Rightarrow> ('n, 'm) WeakRecipient" where
  "WeakAddr_recipient pack w = \<lparr> wr_wtx = w, wr_pack = pack \<rparr>"

definition weak_recipient_of_addr :: "('n \<Rightarrow> 'm) \<Rightarrow> Addr \<Rightarrow> ('n, 'm) WeakRecipient" where
  "weak_recipient_of_addr pack a = WeakAddr_recipient pack (Addr_downgrade a)"

fun give_back :: "'n \<Rightarrow> 'm SendError + unit \<Rightarrow> 'n SendError + unit" where
  "give_back msg (Inl (Full _)) = Inl (Full msg)"
| "give_back msg (Inl (Closed _)) = Inl (Closed msg)"
| "give_back msg (Inr u) = Inr u"

definition Recipient_do_send :: "('n, 'm) Recipient \<Rightarrow> 'n \<Rightarrow> 'm heap \<Rightarrow> 'm heap option" where
  "Recipient_do_send r msg h = map_option snd (with_inner (ad_inner (rc_tx r)) (do_send (rc_pack r msg)) h)"

definition Recipient_try_send :: "('n, 'm) Recipient \<Rightarrow> 'n \<Rightarrow> 'm heap \<Rightarrow> (('n SendError + unit) \<times> 'm heap) option" where
  "Recipient_try_send r msg h =
     map_option (apfst (give_back msg)) (with_inner (ad_inner (rc_tx r)) (try_send (ad_sender (rc_tx r)) (rc_pack r msg) True) h)"

text \<open>The request holds a boxed clone of the sender with the message when the mailbox was full.\<close>

definition Recipient_send :: "('n, 'm) Recipient \<Rightarrow> 'n \<Rightarrow> 'm heap \<Rightarrow> ((bool \<times> (Addr \<times> 'n) option) \<times> 'm heap) option" where
  "Recipient_send r msg h = do {
     (res, h1) \<leftarrow> with_inner (ad_inner (rc_tx r)) (send (ad_sender (rc_tx r)) (rc_pack r msg)) h;
     (case res of
        Inr _ \<Rightarrow> Some ((True, None), h1)
      | Inl (Full _) \<Rightarrow> do { (tx, h2) \<leftarrow> AddressSender_clone (rc_tx r) h1; Some ((False, Some (tx, msg)), h2) }
      | Inl (Closed _) \<Rightarrow> Some ((False, None), h1))
   }"

definition Recipient_connected :: "('n, 'm) Recipient \<Rightarrow> 'm heap \<Rightarrow> bool option" where
  "Recipient_connected r h = AddressSender_connected (rc_tx r) h"

definition Recipient_downgrade :: "('n, 'm) Recipient \<Rightarrow> ('n, 'm) WeakRecipient" where
  "Recipient_downgrade r = \<lparr> wr_wtx = AddressSender_downgrade (rc_tx r), wr_pack = rc_pack r \<rparr>"

definition Recipient_clone :: "('n, 'm) Recipient \<Rightarrow> 'm heap \<Rightarrow> (('n, 'm) Recipient \<times> 'm heap) option" where
  "Recipient_clone r h = do { (tx, h1) \<leftarrow> AddressSender_clone (rc_tx r) h; Some (r \<lparr> rc_tx := tx \<rparr>, h1) }"

definition Recipient_eq :: "('n, 'm) Recipient \<Rightarrow> ('n, 'm) Recipient \<Rightarrow> bool" where
  "Recipient_eq r s = (Sender_hash (rc_tx r) = Sender_hash (rc_tx s))"

definition WeakRecipient_upgrade :: "('n, 'm) WeakRecipient \<Rightarrow> 'm heap \<Rightarrow> (('n, 'm) Recipient option \<times> 'm heap) option" where
  "WeakRecipient_upgrade w h = do {
     (r, h1) \<leftarrow> WeakAddressSender_upgrade (wr_wtx w) h;
     Some (map_option (\<lambda>tx. \<lparr> rc_tx = tx, rc_pack = wr_pack w \<rparr>) r, h1)
   }"

section \<open>Errors\<close>

fun SendError_into_inner :: "'m SendError \<Rightarrow> 'm" where
  "SendError_into_inner (Full msg) = msg"
| "SendError_into_inner (Closed msg) = msg"

fun SendError_debug :: "'m SendError \<Rightarrow> string" where
  "SendError_debug (Full _) = ''SendError::Full(..)''"
| "SendError_debug (Closed _) = ''SendError::Closed(..)''"

fun SendError_display :: "'m SendError \<Rightarrow> string" where
  "SendError_display (Full _) = ''send failed because receiver is full''"
| "SendError_display (Closed _) = ''send failed because receiver is gone''"

definition mailbox_error_debug :: "MailboxError \<Rightarrow> string" where
  "mailbox_error_debug e = ''MailboxError('' @ mailbox_error_text e @ '')''"

section \<open>Counts of one mailbox\<close>

text \<open>
  A cell is in order for the senders, the receiver and the producers that point to it: the strong count is their number, the channel counts the
  senders, and it is open as long as the receiver exists. Without handles there is no cell.
\<close>

definition cell_ok :: "Addr multiset \<Rightarrow> bool \<Rightarrow> nat \<Rightarrow> 'm arc \<Rightarrow> bool" where
  "cell_ok A r n c \<longleftrightarrow> arc_strong c = size A + of_bool r + n \<and> 0 < arc_strong c
     \<and> (\<exists>a. chan_rep a (arc_inner c) \<and> ac_live a = size A \<and> ac_open a = r \<and> (\<forall>x\<in>#A. ad_sender x < ac_senders a))"

fun slot_ok :: "Addr multiset \<Rightarrow> bool \<Rightarrow> nat \<Rightarrow> 'm arc option \<Rightarrow> bool" where
  "slot_ok A r n None \<longleftrightarrow> A = {#} \<and> \<not> r \<and> n = 0"
| "slot_ok A r n (Some c) \<longleftrightarrow> cell_ok A r n c"

lemma slot_live: "slot_ok A r n (h p) \<Longrightarrow> A \<noteq> {#} \<or> r \<or> 0 < n \<Longrightarrow> \<exists>c. h p = Some c \<and> cell_ok A r n c"
  by (cases "h p") auto

lemma slot_drop:
  assumes "h p = Some c" "cell_ok A r n c'" "arc_strong c = Suc (arc_strong c')" "arc_inner c = arc_inner c'"
  shows "\<exists>x. arc_drop p h = Some (h(p := x)) \<and> slot_ok A r n x"
proof -
  have "c \<lparr> arc_strong := arc_strong c' \<rparr> = c'" using assms(4) by (cases c; cases c') simp
  then show ?thesis using assms by (intro exI [of _ "Some c'"]) (auto simp: arc_drop_def cell_ok_def)
qed

lemma cell_drop:
  assumes "h p = Some c" "arc_strong c = Suc (size A + of_bool r + n)"
    "chan_rep a (arc_inner c)" "ac_live a = size A" "ac_open a = r" "\<forall>x\<in>#A. ad_sender x < ac_senders a"
  shows "\<exists>x. arc_drop p h = Some (h(p := x)) \<and> slot_ok A r n x"
proof (cases "size A + of_bool r + n = 0")
  case True
  then show ?thesis using assms by (intro exI [of _ None]) (auto simp: arc_drop_def split: if_splits)
next
  case False
  let ?c = "c \<lparr> arc_strong := size A + of_bool r + n \<rparr>"
  have "cell_ok A r n ?c" unfolding cell_ok_def using assms False by auto
  then show ?thesis using slot_drop [of h p c A r n ?c] assms(1,2) by simp
qed

lemma new_sender_slot:
  assumes "h p = Some c" "cell_ok A r n c" "new_sender p h = Some (x, h')"
  shows "ad_inner x = p \<and> (\<exists>c'. h' = h(p \<mapsto> c') \<and> cell_ok (add_mset x A) r n c')"
proof -
  obtain a where a: "chan_rep a (arc_inner c)" "ac_live a = size A" "ac_open a = r" "\<forall>x\<in>#A. ad_sender x < ac_senders a"
    using assms(2) by (auto simp: cell_ok_def)
  obtain sid ch where s: "sender_clone (arc_inner c) = Some (sid, ch)"
    and x: "x = \<lparr> ad_inner = p, ad_sender = sid \<rparr>" and h': "h' = h(p \<mapsto> c \<lparr> arc_inner := ch, arc_strong := arc_strong c + 1 \<rparr>)"
    using assms(1,3) by (auto simp: new_sender_def with_inner_def arc_clone_def split: bind_splits)
  have "of_nat (ac_live a) \<noteq> MAX_CAPACITY - ac_buffer a"
    using s a(1) by (auto simp: sender_clone_def max_senders_def chan_rep_def split: if_splits)
  from rep_clone [OF a(1) this] s have sid: "sid = ac_senders a" and r: "chan_rep (snd (spec_step Clone a)) ch" by auto
  let ?a = "snd (spec_step Clone a)"
  have "ac_live ?a = size (add_mset x A)" "ac_open ?a = r" "\<forall>z\<in>#add_mset x A. ad_sender z < ac_senders ?a"
    using a(2-4) sid by (auto simp: x less_SucI)
  moreover have "arc_strong c + 1 = size (add_mset x A) + of_bool r + n" using assms(2) by (simp add: cell_ok_def)
  ultimately have "cell_ok (add_mset x A) r n (c \<lparr> arc_inner := ch, arc_strong := arc_strong c + 1 \<rparr>)"
    unfolding cell_ok_def using r by (intro conjI exI [of _ ?a]) simp_all
  then show ?thesis using h' by (auto simp: x)
qed

lemma arc_clone_slot:
  assumes "h p = Some c" "cell_ok A r n c"
  shows "\<exists>c'. arc_clone p h = Some (h(p \<mapsto> c')) \<and> cell_ok A r (Suc n) c' \<and> arc_inner c' = arc_inner c"
  using assms by (intro exI [of _ "c \<lparr> arc_strong := Suc (arc_strong c) \<rparr>"]) (auto simp: arc_clone_def cell_ok_def)

lemma producer_drop_slot:
  assumes "slot_ok A r (Suc n) (h p)"
  shows "\<exists>x. producer_drop p h = Some (h(p := x)) \<and> slot_ok A r n x"
proof -
  obtain c where "h p = Some c" "cell_ok A r (Suc n) c" using slot_live [of A r "Suc n" h p] assms by auto
  then show ?thesis unfolding producer_drop_def cell_ok_def using cell_drop [of h p c A r n] by auto
qed

lemma sender_drop_slot:
  assumes "slot_ok A r n (h p)" "x \<in># A" "ad_inner x = p"
  shows "\<exists>y. AddressSender_drop x h = Some (h(p := y)) \<and> slot_ok (A - {#x#}) r n y"
proof -
  obtain c where c: "h p = Some c" "cell_ok A r n c" using slot_live [of A r n h p] assms(1,2) by (cases "A = {#}") auto
  obtain a where a: "chan_rep a (arc_inner c)" "ac_live a = size A" "ac_open a = r" "\<forall>x\<in>#A. ad_sender x < ac_senders a"
    using c(2) by (auto simp: cell_ok_def)
  have sz: "size A = Suc (size (A - {#x#}))" using assms(2) by (metis insert_DiffM size_add_mset)
  let ?c = "c \<lparr> arc_inner := sender_drop (arc_inner c) \<rparr>"
  let ?a = "snd (spec_step DropSender a)"
  have "chan_rep ?a (arc_inner ?c)" using rep_sender_drop [OF a(1)] a(2) sz by simp
  moreover have "arc_strong ?c = Suc (size (A - {#x#}) + of_bool r + n)" using c(2) sz by (simp add: cell_ok_def)
  moreover have "ac_live ?a = size (A - {#x#})" "ac_open ?a = r" using a sz by simp_all
  moreover have "\<forall>z\<in># A - {#x#}. ad_sender z < ac_senders ?a" using a(4) by (auto dest: in_diffD)
  ultimately obtain y where "arc_drop p (h(p \<mapsto> ?c)) = Some ((h(p \<mapsto> ?c))(p := y))" "slot_ok (A - {#x#}) r n y"
    using cell_drop [of "h(p \<mapsto> ?c)" p ?c "A - {#x#}" r n ?a] by auto
  then show ?thesis using c(1) assms(3) by (auto simp: AddressSender_drop_def with_inner_def)
qed

lemma receiver_drop_slot:
  assumes "slot_ok A True n (h p)"
  shows "\<exists>y. AddressReceiver_drop p h = Some (h(p := y)) \<and> slot_ok A False n y"
proof -
  obtain c where c: "h p = Some c" "cell_ok A True n c" using slot_live [of A True n h p] assms by auto
  obtain a where a: "chan_rep a (arc_inner c)" "ac_live a = size A" "ac_open a" "\<forall>x\<in>#A. ad_sender x < ac_senders a"
    using c(2) by (auto simp: cell_ok_def)
  obtain ch where d: "receiver_drop (arc_inner c) = Some ch" "chan_rep (snd (spec_step Drop a)) ch" using rep_drop [OF a(1)] by blast
  let ?c = "c \<lparr> arc_inner := ch \<rparr>"
  obtain y where "arc_drop p (h(p \<mapsto> ?c)) = Some ((h(p \<mapsto> ?c))(p := y))" "slot_ok A False n y"
    using cell_drop [of "h(p \<mapsto> ?c)" p ?c A False n "snd (spec_step Drop a)"] d(2) a c(2) by (auto simp: cell_ok_def)
  then show ?thesis using c(1) d(1) by (auto simp: AddressReceiver_drop_def with_inner_def)
qed

lemma weak_sender_upgrade_slot:
  assumes "slot_ok A r n (h p)" "WeakAddressSender_upgrade \<lparr> wd_inner = p \<rparr> h = Some (res, h')"
  shows "(h p = None \<and> res = None \<and> h' = h)
    \<or> (\<exists>x c. h p \<noteq> None \<and> res = Some x \<and> ad_inner x = p \<and> h' = h(p \<mapsto> c) \<and> cell_ok (add_mset x A) r n c)"
proof (cases "h p")
  case None
  then show ?thesis using assms by (simp add: WeakAddressSender_upgrade_def)
next
  case (Some c)
  then have c: "cell_ok A r n c" using assms(1) by simp
  obtain c1 where c1: "arc_clone p h = Some (h(p \<mapsto> c1))" "cell_ok A r (Suc n) c1" using arc_clone_slot [of h p c A r n] Some c by blast
  obtain x h2 h3 where u: "new_sender p (h(p \<mapsto> c1)) = Some (x, h2)" "producer_drop p h2 = Some h3" "res = Some x" "h' = h3"
    using assms(2) Some c1(1) by (auto simp: WeakAddressSender_upgrade_def producer_sender_def split: bind_splits)
  obtain c2 where x: "ad_inner x = p" and h2: "h2 = (h(p \<mapsto> c1))(p \<mapsto> c2)" and c2: "cell_ok (add_mset x A) r (Suc n) c2"
    using new_sender_slot [of "h(p \<mapsto> c1)" p c1, OF _ c1(2) u(1)] by auto
  obtain y where y: "producer_drop p h2 = Some (h2(p := y))" "slot_ok (add_mset x A) r n y"
    using producer_drop_slot [of "add_mset x A" r n h2 p] c2 h2 by auto
  then obtain c3 where "y = Some c3" "cell_ok (add_mset x A) r n c3" by (cases y) auto
  then show ?thesis using Some u x y(1) h2 by auto
qed

lemma connected_slot: "h p = Some c \<Longrightarrow> cell_ok A r n c \<Longrightarrow> ad_inner x = p \<Longrightarrow> AddressSender_connected x h = Some r"
  by (auto simp: AddressSender_connected_def sender_connected_def cell_ok_def rep_open)

lemma weak_addr_upgrade_slot:
  assumes "slot_ok A r n (h p)" "WeakAddr_upgrade \<lparr> wd_inner = p \<rparr> h = Some (res, h')"
  shows "if r then \<exists>x c. res = Some x \<and> ad_inner x = p \<and> h' = h(p \<mapsto> c) \<and> cell_ok (add_mset x A) r n c
         else res = None \<and> (\<exists>y. h' = h(p := y) \<and> slot_ok A r n y)"
proof -
  obtain tx h1 where u: "WeakAddressSender_upgrade \<lparr> wd_inner = p \<rparr> h = Some (tx, h1)"
    using assms(2) by (auto simp: WeakAddr_upgrade_def split: bind_splits)
  show ?thesis
  proof (cases "h p = None")
    case True
    then have "tx = None" "h1 = h" using weak_sender_upgrade_slot [of A r n h p tx h1] assms(1) u by auto
    then show ?thesis using assms True u by (auto simp: WeakAddr_upgrade_def intro!: exI [of _ None])
  next
    case False
    then obtain x c where x: "tx = Some x" "ad_inner x = p" "h1 = h(p \<mapsto> c)" "cell_ok (add_mset x A) r n c"
      using weak_sender_upgrade_slot [of A r n h p tx h1] assms(1) u by auto
    have conn: "AddressSender_connected x h1 = Some r" using connected_slot [of h1 p c] x by simp
    show ?thesis
    proof (cases r)
      case True
      then show ?thesis using assms(2) u x conn by (auto simp: WeakAddr_upgrade_def)
    next
      case r: False
      obtain y where "AddressSender_drop x h1 = Some (h1(p := y))" "slot_ok A r n y"
        using sender_drop_slot [of "add_mset x A" r n h1 p x] x by auto
      then show ?thesis using assms(2) u x conn r by (auto simp: WeakAddr_upgrade_def)
    qed
  qed
qed

section \<open>All mailboxes of a program\<close>

text \<open>The heap with the handles that exist.\<close>

record 'm world =
  wo_heap :: "'m heap"
  wo_addrs :: "Addr multiset"
  wo_weaks :: "WeakAddr set"
  wo_receivers :: "nat set"
  wo_producers :: "nat multiset"

definition addrs_of :: "'m world \<Rightarrow> nat \<Rightarrow> Addr multiset" where
  "addrs_of W p = filter_mset (\<lambda>x. ad_inner x = p) (wo_addrs W)"

text \<open>Who may use the channel at \<open>p\<close>, for message traffic and for the capacity.\<close>

fun may_use :: "'m world \<Rightarrow> nat \<Rightarrow> 'm chan_op \<Rightarrow> bool" where
  "may_use W p (Send sid m) \<longleftrightarrow> \<lparr> ad_inner = p, ad_sender = sid \<rparr> \<in># wo_addrs W"
| "may_use W p (TrySend sid m pk) \<longleftrightarrow> \<lparr> ad_inner = p, ad_sender = sid \<rparr> \<in># wo_addrs W"
| "may_use W p (DoSend m) \<longleftrightarrow> addrs_of W p \<noteq> {#}"
| "may_use W p (Receive cx) \<longleftrightarrow> p \<in> wo_receivers W"
| "may_use W p (SetCapacity c) \<longleftrightarrow> p \<in> wo_receivers W \<or> p \<in># wo_producers W"
| "may_use W p _ \<longleftrightarrow> False"

definition has_room :: "'m Channel \<Rightarrow> bool" where
  "has_room ch \<longleftrightarrow> Suc (unat (num_messages (decode_state (ch_state ch)))) < msg_limit"

text \<open>Everything that can be done with handles, each one only while it exists.\<close>

inductive addr_step :: "'m world \<Rightarrow> 'm world \<Rightarrow> bool" where
  make: "wo_heap W p = None \<Longrightarrow> \<lparr> wd_inner = p \<rparr> \<notin> wo_weaks W \<Longrightarrow> address_channel buffer p (wo_heap W) = Some (x, h)
    \<Longrightarrow> addr_step W (W \<lparr> wo_heap := h, wo_addrs := add_mset x (wo_addrs W), wo_receivers := insert p (wo_receivers W) \<rparr>)"
| clone: "x \<in># wo_addrs W \<Longrightarrow> Addr_clone x (wo_heap W) = Some (y, h)
    \<Longrightarrow> addr_step W (W \<lparr> wo_heap := h, wo_addrs := add_mset y (wo_addrs W) \<rparr>)"
| drop: "x \<in># wo_addrs W \<Longrightarrow> AddressSender_drop x (wo_heap W) = Some h
    \<Longrightarrow> addr_step W (W \<lparr> wo_heap := h, wo_addrs := wo_addrs W - {#x#} \<rparr>)"
| downgrade: "x \<in># wo_addrs W \<Longrightarrow> addr_step W (W \<lparr> wo_weaks := insert (Addr_downgrade x) (wo_weaks W) \<rparr>)"
| upgrade: "w \<in> wo_weaks W \<Longrightarrow> WeakAddr_upgrade w (wo_heap W) = Some (r, h)
    \<Longrightarrow> addr_step W (W \<lparr> wo_heap := h, wo_addrs := (case r of Some x \<Rightarrow> add_mset x (wo_addrs W) | None \<Rightarrow> wo_addrs W) \<rparr>)"
| upgrade_recipient: "w \<in> wo_weaks W \<Longrightarrow> WeakRecipient_upgrade (WeakAddr_recipient (\<lambda>m. m) w) (wo_heap W) = Some (r, h)
    \<Longrightarrow> addr_step W (W \<lparr> wo_heap := h, wo_addrs := (case r of Some x \<Rightarrow> add_mset (rc_tx x) (wo_addrs W) | None \<Rightarrow> wo_addrs W) \<rparr>)"
| producer: "p \<in> wo_receivers W \<Longrightarrow> sender_producer p (wo_heap W) = Some (q, h)
    \<Longrightarrow> addr_step W (W \<lparr> wo_heap := h, wo_producers := add_mset q (wo_producers W) \<rparr>)"
| producer_sender: "p \<in># wo_producers W \<Longrightarrow> producer_sender p (wo_heap W) = Some (x, h)
    \<Longrightarrow> addr_step W (W \<lparr> wo_heap := h, wo_addrs := add_mset x (wo_addrs W) \<rparr>)"
| receiver_sender: "p \<in> wo_receivers W \<Longrightarrow> receiver_sender p (wo_heap W) = Some (x, h)
    \<Longrightarrow> addr_step W (W \<lparr> wo_heap := h, wo_addrs := add_mset x (wo_addrs W) \<rparr>)"
| producer_drop: "p \<in># wo_producers W \<Longrightarrow> producer_drop p (wo_heap W) = Some h
    \<Longrightarrow> addr_step W (W \<lparr> wo_heap := h, wo_producers := wo_producers W - {#p#} \<rparr>)"
| receiver_drop: "p \<in> wo_receivers W \<Longrightarrow> AddressReceiver_drop p (wo_heap W) = Some h
    \<Longrightarrow> addr_step W (W \<lparr> wo_heap := h, wo_receivers := wo_receivers W - {p} \<rparr>)"
| traffic: "may_use W p op \<Longrightarrow> wo_heap W p = Some c \<Longrightarrow> has_room (arc_inner c) \<Longrightarrow> chan_step op (arc_inner c) = Some (out, ch)
    \<Longrightarrow> addr_step W (W \<lparr> wo_heap := (wo_heap W)(p \<mapsto> c \<lparr> arc_inner := ch \<rparr>) \<rparr>)"

inductive reachable :: "'m world \<Rightarrow> bool" where
  empty: "reachable \<lparr> wo_heap = (\<lambda>_. None), wo_addrs = {#}, wo_weaks = {}, wo_receivers = {}, wo_producers = {#} \<rparr>"
| step: "reachable W \<Longrightarrow> addr_step W W' \<Longrightarrow> reachable W'"

definition world_ok :: "'m world \<Rightarrow> bool" where
  "world_ok W \<longleftrightarrow> (\<forall>p. slot_ok (addrs_of W p) (p \<in> wo_receivers W) (count (wo_producers W) p) (wo_heap W p))"

lemma world_okD: "world_ok W \<Longrightarrow> slot_ok (addrs_of W p) (p \<in> wo_receivers W) (count (wo_producers W) p) (wo_heap W p)"
  by (simp add: world_ok_def)

lemma world_ok_update:
  assumes "world_ok W" "slot_ok (addrs_of W' p) (p \<in> wo_receivers W') (count (wo_producers W') p) x" "wo_heap W' = (wo_heap W)(p := x)"
    "\<And>q. q \<noteq> p \<Longrightarrow> addrs_of W' q = addrs_of W q \<and> (q \<in> wo_receivers W' \<longleftrightarrow> q \<in> wo_receivers W) \<and> count (wo_producers W') q = count (wo_producers W) q"
  shows "world_ok W'"
  using assms unfolding world_ok_def by auto

lemma addrs_of_simps [simp]:
  "addrs_of (W \<lparr> wo_heap := h \<rparr>) p = addrs_of W p"
  "addrs_of (W \<lparr> wo_receivers := R \<rparr>) p = addrs_of W p"
  "addrs_of (W \<lparr> wo_producers := P \<rparr>) p = addrs_of W p"
  "addrs_of (W \<lparr> wo_weaks := V \<rparr>) p = addrs_of W p"
  "addrs_of (W \<lparr> wo_addrs := add_mset x M \<rparr>) p = (if ad_inner x = p then add_mset x (filter_mset (\<lambda>x. ad_inner x = p) M) else filter_mset (\<lambda>x. ad_inner x = p) M)"
  "addrs_of (W \<lparr> wo_addrs := M - {#x#} \<rparr>) p = filter_mset (\<lambda>x. ad_inner x = p) M - (if ad_inner x = p then {#x#} else {#})"
  by (simp_all add: addrs_of_def)

lemma world_add_sender:
  assumes "world_ok W" "ad_inner x = p" "cell_ok (add_mset x (addrs_of W p)) (p \<in> wo_receivers W) (count (wo_producers W) p) c"
  shows "world_ok (W \<lparr> wo_heap := (wo_heap W)(p \<mapsto> c), wo_addrs := add_mset x (wo_addrs W) \<rparr>)"
  by (rule world_ok_update [OF assms(1), where p = p and x = "Some c"]) (use assms(2,3) in \<open>auto simp: addrs_of_def\<close>)

lemma world_new_sender:
  assumes "world_ok W" "addrs_of W p \<noteq> {#} \<or> p \<in> wo_receivers W \<or> p \<in># wo_producers W" "new_sender p (wo_heap W) = Some (x, h)"
  shows "world_ok (W \<lparr> wo_heap := h, wo_addrs := add_mset x (wo_addrs W) \<rparr>)"
proof -
  obtain c where "wo_heap W p = Some c" "cell_ok (addrs_of W p) (p \<in> wo_receivers W) (count (wo_producers W) p) c"
    using slot_live [of _ _ _ "wo_heap W" p] world_okD [OF assms(1), of p] assms(2) by (metis count_greater_zero_iff)
  then show ?thesis using new_sender_slot [of "wo_heap W" p c] assms(1,3) world_add_sender [of W x p] by blast
qed

lemma addrs_of_mem: "x \<in># wo_addrs W \<Longrightarrow> x \<in># addrs_of W (ad_inner x)"
  by (simp add: addrs_of_def)

lemma addr_live: "x \<in># wo_addrs W \<Longrightarrow> addrs_of W (ad_inner x) \<noteq> {#}"
  using addrs_of_mem [of x W] by force

lemma world_make:
  assumes "world_ok W" "wo_heap W p = None" "address_channel buffer p (wo_heap W) = Some (x, h)"
  shows "world_ok (W \<lparr> wo_heap := h, wo_addrs := add_mset x (wo_addrs W), wo_receivers := insert p (wo_receivers W) \<rparr>)"
proof -
  obtain ch where ch: "channel buffer = Some ch" and x: "x = \<lparr> ad_inner = p, ad_sender = 0 \<rparr>"
    and h: "h = (wo_heap W)(p \<mapsto> \<lparr> arc_strong = 2, arc_inner = ch \<rparr>)"
    using assms(3) by (auto simp: address_channel_def split: bind_splits)
  have no: "addrs_of W p = {#}" "count (wo_producers W) p = 0" using world_okD [OF assms(1), of p] assms(2) by simp_all
  have "cell_ok {#x#} True 0 \<lparr> arc_strong = 2, arc_inner = ch \<rparr>"
    using rep_new [OF ch] by (auto simp: cell_ok_def x achan_new_def intro!: exI [of _ "achan_new buffer"])
  then show ?thesis
    by (intro world_ok_update [OF assms(1), where p = p and x = "Some \<lparr> arc_strong = 2, arc_inner = ch \<rparr>"])
      (use no in \<open>simp_all add: h x addrs_of_def [symmetric]\<close>)
qed

lemma world_drop:
  assumes "world_ok W" "x \<in># wo_addrs W" "AddressSender_drop x (wo_heap W) = Some h"
  shows "world_ok (W \<lparr> wo_heap := h, wo_addrs := wo_addrs W - {#x#} \<rparr>)"
proof -
  let ?p = "ad_inner x"
  obtain y where "h = (wo_heap W)(ad_inner x := y)"
    "slot_ok (addrs_of W (ad_inner x) - {#x#}) (ad_inner x \<in> wo_receivers W) (count (wo_producers W) (ad_inner x)) y"
    using sender_drop_slot [of "addrs_of W ?p" "?p \<in> wo_receivers W" "count (wo_producers W) ?p" "wo_heap W" ?p x]
      world_okD [OF assms(1), of ?p] addrs_of_mem [OF assms(2)] assms(3) by auto
  then show ?thesis by (intro world_ok_update [OF assms(1), where p = "ad_inner x" and x = y]) (auto simp: addrs_of_def)
qed

lemma world_upgrade:
  assumes "world_ok W" "WeakAddr_upgrade w (wo_heap W) = Some (r, h)"
  shows "world_ok (W \<lparr> wo_heap := h, wo_addrs := (case r of Some x \<Rightarrow> add_mset x (wo_addrs W) | None \<Rightarrow> wo_addrs W) \<rparr>)"
proof -
  define p where "p = wd_inner w"
  have w: "w = \<lparr> wd_inner = p \<rparr>" by (simp add: p_def)
  note u = weak_addr_upgrade_slot [of "addrs_of W p" "p \<in> wo_receivers W" "count (wo_producers W) p" "wo_heap W" p r h, folded w, OF world_okD [OF assms(1)] assms(2)]
  show ?thesis
  proof (cases "p \<in> wo_receivers W")
    case True
    then obtain x c where "r = Some x" "ad_inner x = p" "h = (wo_heap W)(p \<mapsto> c)"
      "cell_ok (add_mset x (addrs_of W p)) (p \<in> wo_receivers W) (count (wo_producers W) p) c"
      using u by auto
    then show ?thesis using world_add_sender [OF assms(1)] by simp
  next
    case False
    then obtain y where "r = None" "h = (wo_heap W)(p := y)" "slot_ok (addrs_of W p) (p \<in> wo_receivers W) (count (wo_producers W) p) y"
      using u by auto
    then show ?thesis by (intro world_ok_update [OF assms(1), where p = p and x = y]) auto
  qed
qed

lemma world_upgrade_recipient:
  assumes "world_ok W" "WeakRecipient_upgrade (WeakAddr_recipient (\<lambda>m. m) w) (wo_heap W) = Some (r, h)"
  shows "world_ok (W \<lparr> wo_heap := h, wo_addrs := (case r of Some x \<Rightarrow> add_mset (rc_tx x) (wo_addrs W) | None \<Rightarrow> wo_addrs W) \<rparr>)"
proof -
  define p where "p = wd_inner w"
  have w: "w = \<lparr> wd_inner = p \<rparr>" by (simp add: p_def)
  obtain tx where tx: "WeakAddressSender_upgrade w (wo_heap W) = Some (tx, h)" "map_option rc_tx r = tx"
    using assms(2) by (auto simp: WeakRecipient_upgrade_def WeakAddr_recipient_def option.map_comp comp_def map_option.identity split: bind_splits)
  from weak_sender_upgrade_slot [of "addrs_of W p" "p \<in> wo_receivers W" "count (wo_producers W) p" "wo_heap W" p tx h, folded w, OF world_okD [OF assms(1)] tx(1)]
  consider "tx = None" "h = wo_heap W"
    | x c where "tx = Some x" "ad_inner x = p" "h = (wo_heap W)(p \<mapsto> c)"
      "cell_ok (add_mset x (addrs_of W p)) (p \<in> wo_receivers W) (count (wo_producers W) p) c"
    by auto
  then show ?thesis
  proof cases
    case 1
    then show ?thesis using tx(2) assms(1) by (cases r) (auto simp: world_ok_def)
  next
    case 2
    then show ?thesis using tx(2) world_add_sender [OF assms(1) 2(2,4)] by (cases r) auto
  qed
qed

lemma world_producer:
  assumes "world_ok W" "p \<in> wo_receivers W" "sender_producer p (wo_heap W) = Some (q, h)"
  shows "world_ok (W \<lparr> wo_heap := h, wo_producers := add_mset q (wo_producers W) \<rparr>)"
proof -
  obtain c where c: "wo_heap W p = Some c" "cell_ok (addrs_of W p) (p \<in> wo_receivers W) (count (wo_producers W) p) c"
    using slot_live [of "addrs_of W p" "p \<in> wo_receivers W" "count (wo_producers W) p" "wo_heap W" p] world_okD [OF assms(1), of p] assms(2) by auto
  obtain c' where "arc_clone p (wo_heap W) = Some ((wo_heap W)(p \<mapsto> c'))"
    "cell_ok (addrs_of W p) (p \<in> wo_receivers W) (Suc (count (wo_producers W) p)) c'"
    using arc_clone_slot [of "wo_heap W" p c] c by blast
  then show ?thesis using assms(3)
    by (intro world_ok_update [OF assms(1), where p = p and x = "Some c'"]) (auto simp: sender_producer_def)
qed

lemma world_producer_drop:
  assumes "world_ok W" "p \<in># wo_producers W" "producer_drop p (wo_heap W) = Some h"
  shows "world_ok (W \<lparr> wo_heap := h, wo_producers := wo_producers W - {#p#} \<rparr>)"
proof -
  obtain n where n: "count (wo_producers W) p = Suc n" using assms(2) by (metis count_eq_zero_iff not0_implies_Suc)
  obtain x where "h = (wo_heap W)(p := x)" "slot_ok (addrs_of W p) (p \<in> wo_receivers W) n x"
    using producer_drop_slot [of "addrs_of W p" "p \<in> wo_receivers W" n "wo_heap W" p] world_okD [OF assms(1), of p] assms(3) n by auto
  then show ?thesis using n by (intro world_ok_update [OF assms(1), where p = p and x = x]) auto
qed

lemma world_receiver_drop:
  assumes "world_ok W" "p \<in> wo_receivers W" "AddressReceiver_drop p (wo_heap W) = Some h"
  shows "world_ok (W \<lparr> wo_heap := h, wo_receivers := wo_receivers W - {p} \<rparr>)"
proof -
  obtain x where "h = (wo_heap W)(p := x)" "slot_ok (addrs_of W p) False (count (wo_producers W) p) x"
    using receiver_drop_slot [of "addrs_of W p" "count (wo_producers W) p" "wo_heap W" p] world_okD [OF assms(1), of p] assms(2,3) by auto
  then show ?thesis by (intro world_ok_update [OF assms(1), where p = p and x = x]) auto
qed

lemma may_use_ok:
  assumes "may_use W p op" "has_room ch" "chan_rep a ch" "\<forall>x\<in>#addrs_of W p. ad_sender x < ac_senders a"
  shows "op_ok a op \<and> ac_live (snd (spec_step op a)) = ac_live a \<and> ac_open (snd (spec_step op a)) = ac_open a
    \<and> ac_senders (snd (spec_step op a)) = ac_senders a"
proof -
  have "length (ac_msgs a) < msg_limit" using assms(3) by (simp add: chan_rep_def)
  then have "room a" using assms(2) by (simp add: has_room_def room_def rep_open [OF assms(3)] packed_num)
  moreover have "sid < ac_senders a" if "\<lparr> ad_inner = p, ad_sender = sid \<rparr> \<in># wo_addrs W" for sid
    using assms(4) that by (force simp: addrs_of_def)
  ultimately show ?thesis using assms(1)
    by (cases op) (auto simp: spec_send_def Let_def split: list.split)
qed

lemma world_traffic:
  assumes "world_ok W" "may_use W p op" "wo_heap W p = Some c" "has_room (arc_inner c)" "chan_step op (arc_inner c) = Some (out, ch)"
  shows "world_ok (W \<lparr> wo_heap := (wo_heap W)(p \<mapsto> c \<lparr> arc_inner := ch \<rparr>) \<rparr>)"
proof -
  have ok: "cell_ok (addrs_of W p) (p \<in> wo_receivers W) (count (wo_producers W) p) c" using world_okD [OF assms(1), of p] assms(3) by simp
  then obtain a where a: "chan_rep a (arc_inner c)" "ac_live a = size (addrs_of W p)" "ac_open a = (p \<in> wo_receivers W)"
    "\<forall>x\<in>#addrs_of W p. ad_sender x < ac_senders a" by (auto simp: cell_ok_def)
  note m = may_use_ok [OF assms(2,4) a(1,4)]
  have "chan_rep (snd (spec_step op a)) ch" using chan_step_sim [OF a(1), of op] m assms(5) by simp
  then have "cell_ok (addrs_of W p) (p \<in> wo_receivers W) (count (wo_producers W) p) (c \<lparr> arc_inner := ch \<rparr>)"
    using ok m a unfolding cell_ok_def by (intro conjI exI [of _ "snd (spec_step op a)"]) auto
  then show ?thesis by (intro world_ok_update [OF assms(1), where p = p and x = "Some (c \<lparr> arc_inner := ch \<rparr>)"]) auto
qed

lemma world_ok_step: "addr_step W W' \<Longrightarrow> world_ok W \<Longrightarrow> world_ok W'"
proof (induction rule: addr_step.induct)
  case (clone x W y h)
  then show ?case using world_new_sender [of W "ad_inner x"] addr_live [of x W] by (simp add: Addr_clone_def AddressSender_clone_def)
next
  case (downgrade x W)
  then show ?case by (simp add: world_ok_def)
next
  case (producer_sender p W x h)
  then show ?case using world_new_sender [of W p x h] by (simp add: producer_sender_def)
next
  case (receiver_sender p W x h)
  then show ?case using world_new_sender [of W p x h] by (simp add: receiver_sender_def)
qed (blast intro: world_make world_drop world_upgrade world_upgrade_recipient world_producer world_producer_drop world_receiver_drop world_traffic)+

lemma world_ok_reachable: "reachable W \<Longrightarrow> world_ok W"
proof (induction rule: reachable.induct)
  case empty
  then show ?case by (simp add: world_ok_def addrs_of_def)
qed (rule world_ok_step)

lemma new_sender_total:
  "h p = Some c \<Longrightarrow> ch_num_senders (arc_inner c) \<noteq> max_senders (arc_inner c) \<Longrightarrow> \<exists>x h'. new_sender p h = Some (x, h')"
  by (auto simp: new_sender_def with_inner_def sender_clone_def arc_clone_def)

lemma weak_sender_upgrade_total:
  assumes "slot_ok A r n (h p)" "\<forall>c. h p = Some c \<longrightarrow> ch_num_senders (arc_inner c) \<noteq> max_senders (arc_inner c)"
  shows "\<exists>res h'. WeakAddressSender_upgrade \<lparr> wd_inner = p \<rparr> h = Some (res, h')"
proof (cases "h p")
  case None
  then show ?thesis by (simp add: WeakAddressSender_upgrade_def)
next
  case (Some c)
  then have ok: "cell_ok A r n c" using assms(1) by simp
  obtain c1 where c1: "arc_clone p h = Some (h(p \<mapsto> c1))" "cell_ok A r (Suc n) c1" "arc_inner c1 = arc_inner c"
    using arc_clone_slot [of h p c A r n] Some ok by blast
  obtain x h2 where u: "new_sender p (h(p \<mapsto> c1)) = Some (x, h2)" using new_sender_total [of "h(p \<mapsto> c1)" p c1] c1(3) Some assms(2) by auto
  obtain c2 where "h2 = (h(p \<mapsto> c1))(p \<mapsto> c2)" "cell_ok (add_mset x A) r (Suc n) c2"
    using new_sender_slot [of "h(p \<mapsto> c1)" p c1, OF _ c1(2) u] by auto
  then obtain y where "producer_drop p h2 = Some (h2(p := y))" using producer_drop_slot [of "add_mset x A" r n h2 p] by auto
  then show ?thesis using Some c1(1) u by (simp add: WeakAddressSender_upgrade_def producer_sender_def)
qed

lemma weak_addr_upgrade_total:
  assumes "slot_ok A r n (h p)" "\<forall>c. h p = Some c \<longrightarrow> ch_num_senders (arc_inner c) \<noteq> max_senders (arc_inner c)"
  shows "\<exists>res h'. WeakAddr_upgrade \<lparr> wd_inner = p \<rparr> h = Some (res, h')"
proof -
  obtain tx h1 where u: "WeakAddressSender_upgrade \<lparr> wd_inner = p \<rparr> h = Some (tx, h1)" using weak_sender_upgrade_total [of A r n h p] assms by blast
  show ?thesis
  proof (cases "h p = None")
    case True
    then show ?thesis by (simp add: WeakAddr_upgrade_def WeakAddressSender_upgrade_def)
  next
    case False
    then obtain x c where x: "tx = Some x" "ad_inner x = p" "h1 = h(p \<mapsto> c)" "cell_ok (add_mset x A) r n c"
      using weak_sender_upgrade_slot [of A r n h p tx h1] assms(1) u by auto
    have conn: "AddressSender_connected x h1 = Some r" using connected_slot [of h1 p c] x by simp
    obtain y where "AddressSender_drop x h1 = Some (h1(p := y))" using sender_drop_slot [of "add_mset x A" r n h1 p x] x by auto
    then show ?thesis using u x(1) conn by (cases r) (simp_all add: WeakAddr_upgrade_def)
  qed
qed

lemma slot_gone: "slot_ok A r n x \<Longrightarrow> x = None \<longleftrightarrow> A = {#} \<and> \<not> r \<and> n = 0"
  by (cases x) (auto simp: cell_ok_def)

text \<open>
  C6. Handles keep each other counted. In every state that operations on handles can reach, the shared part of a mailbox exists exactly while an address, its
  receiver or a producer exists, so no live handle points to memory that is gone. Unless the limit of senders is reached, upgrading a weak address
  returns, and gives an address exactly while the receiver of the actor exists; upgrading a weak recipient returns, and gives a recipient
  exactly while any handle exists, also after the actor is gone.
\<close>

theorem weak_upgrade:
  assumes "reachable W" "\<forall>c. wo_heap W p = Some c \<longrightarrow> ch_num_senders (arc_inner c) \<noteq> max_senders (arc_inner c)"
  shows "(wo_heap W p \<noteq> None \<longleftrightarrow> addrs_of W p \<noteq> {#} \<or> p \<in> wo_receivers W \<or> p \<in># wo_producers W)
    \<and> (\<exists>r h. WeakAddr_upgrade \<lparr> wd_inner = p \<rparr> (wo_heap W) = Some (r, h) \<and> (r \<noteq> None \<longleftrightarrow> p \<in> wo_receivers W))
    \<and> (\<exists>r h. WeakRecipient_upgrade (WeakAddr_recipient pack \<lparr> wd_inner = p \<rparr>) (wo_heap W) = Some (r, h)
          \<and> (r \<noteq> None \<longleftrightarrow> addrs_of W p \<noteq> {#} \<or> p \<in> wo_receivers W \<or> p \<in># wo_producers W))"
proof (intro conjI)
  note ok = world_okD [OF world_ok_reachable [OF assms(1)], of p]
  show live: "wo_heap W p \<noteq> None \<longleftrightarrow> addrs_of W p \<noteq> {#} \<or> p \<in> wo_receivers W \<or> p \<in># wo_producers W"
    using slot_gone [OF ok] by (auto simp: count_eq_zero_iff)
  obtain r h where u: "WeakAddr_upgrade \<lparr> wd_inner = p \<rparr> (wo_heap W) = Some (r, h)" using weak_addr_upgrade_total [of _ _ _ "wo_heap W" p, OF ok assms(2)] by blast
  then show "\<exists>r h. WeakAddr_upgrade \<lparr> wd_inner = p \<rparr> (wo_heap W) = Some (r, h) \<and> (r \<noteq> None \<longleftrightarrow> p \<in> wo_receivers W)"
    using weak_addr_upgrade_slot [of _ _ _ "wo_heap W" p, OF ok u] by (cases "p \<in> wo_receivers W") auto
  obtain tx h' where v: "WeakAddressSender_upgrade \<lparr> wd_inner = p \<rparr> (wo_heap W) = Some (tx, h')"
    using weak_sender_upgrade_total [of _ _ _ "wo_heap W" p, OF ok assms(2)] by blast
  then show "\<exists>r h. WeakRecipient_upgrade (WeakAddr_recipient pack \<lparr> wd_inner = p \<rparr>) (wo_heap W) = Some (r, h)
      \<and> (r \<noteq> None \<longleftrightarrow> addrs_of W p \<noteq> {#} \<or> p \<in> wo_receivers W \<or> p \<in># wo_producers W)"
    using weak_sender_upgrade_slot [of _ _ _ "wo_heap W" p, OF ok v] live by (auto simp: WeakRecipient_upgrade_def WeakAddr_recipient_def)
qed

text \<open>An actor is gone while an address of it is left: its weak address cannot be upgraded any more, its weak recipient still can.\<close>

theorem weak_upgrade_witness:
  "\<exists>(W :: nat world) h x h'. reachable W \<and> WeakAddr_upgrade \<lparr> wd_inner = 0 \<rparr> (wo_heap W) = Some (None, h)
     \<and> WeakRecipient_upgrade (WeakAddr_recipient Suc \<lparr> wd_inner = 0 \<rparr>) (wo_heap W) = Some (Some x, h')"
proof -
  define W0 :: "nat world" where "W0 = \<lparr> wo_heap = (\<lambda>_. None), wo_addrs = {#}, wo_weaks = {}, wo_receivers = {}, wo_producers = {#} \<rparr>"
  let ?x = "\<lparr> ad_inner = 0, ad_sender = 0 \<rparr>"
  obtain ch :: "nat Channel" where ch: "channel 4 = Some ch" by (simp add: channel_def MAX_BUFFER_value)
  let ?c = "\<lparr> arc_strong = 2, arc_inner = ch \<rparr>"
  have "address_channel 4 0 (wo_heap W0) = Some (?x, (wo_heap W0)(0 \<mapsto> ?c))" by (simp add: address_channel_def ch)
  then have "addr_step W0 (W0 \<lparr> wo_heap := (wo_heap W0)(0 \<mapsto> ?c), wo_addrs := {#?x#}, wo_receivers := {0} \<rparr>)" (is "addr_step _ ?W1")
    using addr_step.make [of W0 0 4 ?x] by (simp add: W0_def)
  then have r1: "reachable ?W1" using reachable.empty W0_def by (auto intro: reachable.step)
  obtain ch' where ch': "receiver_drop ch = Some ch'" "chan_rep (snd (spec_step Drop (achan_new 4))) ch'" using rep_drop [OF rep_new [OF ch]] by blast
  let ?h = "(\<lambda>_. None)(0 \<mapsto> \<lparr> arc_strong = 1, arc_inner = ch' \<rparr>)"
  let ?W2 = "?W1 \<lparr> wo_heap := ?h, wo_receivers := {} \<rparr>"
  have "AddressReceiver_drop 0 (wo_heap ?W1) = Some ?h"
    by (simp add: AddressReceiver_drop_def with_inner_def arc_drop_def ch' W0_def)
  then have "addr_step ?W1 ?W2" using addr_step.receiver_drop [of 0 ?W1 ?h] by simp
  with r1 have r2: "reachable ?W2" by (rule reachable.step)
  have "ch_num_senders ch' = 1" "ch_buffer ch' = 4" using ch'(2) by (simp_all add: chan_rep_def achan_new_def)
  then have "ch_num_senders ch' \<noteq> max_senders ch'" by (simp add: max_senders_def MAX_CAPACITY_value)
  then show ?thesis using weak_upgrade [OF r2, of 0 Suc] r2 by (auto simp: addrs_of_def)
qed

text \<open>Recipients are equal exactly when they reach the same mailbox, and equal addresses have equal hashes.\<close>

lemma recipient_eq_iff: "Recipient_eq (Addr_recipient f a) (Addr_recipient f b) \<longleftrightarrow> Addr_eq a b"
  by (simp add: Recipient_eq_def Addr_recipient_def Addr_eq_def AddressSender_eq_def Sender_hash_def)

text \<open>Message traffic over a live address is refused with \<open>Closed\<close> exactly after the receiver is gone, and the message comes back.\<close>

theorem recipient_send_closed:
  assumes "reachable W" "x \<in># wo_addrs W" "wo_heap W (ad_inner x) = Some c" "has_room (arc_inner c)"
  shows "\<exists>e h. Recipient_try_send (Addr_recipient pack x) msg (wo_heap W) = Some (e, h)
    \<and> (e = Inl (Closed msg) \<longrightarrow> ad_inner x \<notin> wo_receivers W) \<and> (ad_inner x \<notin> wo_receivers W \<longrightarrow> isl e)"
proof -
  let ?p = "ad_inner x"
  have ok: "cell_ok (addrs_of W ?p) (?p \<in> wo_receivers W) (count (wo_producers W) ?p) c"
    using world_okD [OF world_ok_reachable [OF assms(1)], of ?p] assms(3) by simp
  then obtain a where a: "chan_rep a (arc_inner c)" "ac_open a = (?p \<in> wo_receivers W)" "\<forall>x\<in>#addrs_of W ?p. ad_sender x < ac_senders a"
    by (auto simp: cell_ok_def)
  let ?op = "TrySend (ad_sender x) (pack msg) True"
  have "may_use W ?p ?op" using assms(2) by (cases x) simp
  then have "op_ok a ?op" using may_use_ok [of W ?p ?op "arc_inner c" a] assms(4) a by blast
  then obtain r ch where t: "try_send (ad_sender x) (pack msg) True (arc_inner c) = Some (r, ch)"
    "send_out r = fst (spec_step ?op a)"
    using chan_step_sim [OF a(1), of ?op] by auto
  show ?thesis using t(2) a(2) assms(3)
    by (cases r; cases "projl r")
      (auto simp: Recipient_try_send_def Addr_recipient_def with_inner_def t(1) send_out_def spec_send_def Let_def split: if_splits)
qed

end
