(* ===== verification/Responses.thy ===== *)
theory Responses
  imports Addresses Actor_Context
begin

text \<open>
  How a message reaches its handler and how the answer finds its way back (\<^verbatim>\<open>actix/src/{handler,context,actor}.rs\<close>,
  \<^verbatim>\<open>address/envelope.rs\<close>, the message items of \<^verbatim>\<open>context_items.rs\<close> and the construction of mailboxes in \<^verbatim>\<open>mailbox.rs\<close>). A
  one-shot channel is a number; what is sent on it is part of the result of an operation, and so are the tasks given to the runtime. The code of the user is a
  record of functions. The last section composes the start of an actor, its mailbox and its polls.
\<close>

section \<open>Responses\<close>

text \<open>
  The types that implement \<^verbatim>\<open>MessageResponse\<close>: values (\<^verbatim>\<open>MessageResult\<close>, \<^verbatim>\<open>Result\<close>, \<^verbatim>\<open>Option\<close>, \<^verbatim>\<open>Vec\<close>,
  \<^verbatim>\<open>Arc\<close>, \<^verbatim>\<open>Addr\<close> and the simple types), the three kinds of futures, and the two that hold either.
\<close>

datatype ('r, 'f) response =
    RValue 'r | RActFuture 'f | RFuture 'f | RAtomic 'f | RResponse "'r + 'f" | RActorResponse "'r + 'f"

definition Response_fut :: "'f \<Rightarrow> ('r, 'f) response" where
  "Response_fut f = RResponse (Inr f)"

definition Response_reply :: "'r \<Rightarrow> ('r, 'f) response" where
  "Response_reply v = RResponse (Inl v)"

definition ActorResponse_reply :: "'r \<Rightarrow> ('r, 'f) response" where
  "ActorResponse_reply v = RActorResponse (Inl v)"

definition ActorResponse_async :: "'f \<Rightarrow> ('r, 'f) response" where
  "ActorResponse_async f = RActorResponse (Inr f)"

text \<open>The items that the framework puts into a context: an answering future, a message that waits for its time, a message, a stream of messages.\<close>

datatype ('m, 'f) ctx_item =
    AnswerItem "'f map_state" "nat option" | DelayedItem "'m option" int | MessageItem "'m option" | StreamItem "'m Poll list"

text \<open>\<^verbatim>\<open>OneshotSend\<close> for an optional sender: errors and missing senders are ignored.\<close>

fun oneshot_send :: "nat option \<Rightarrow> 'r \<Rightarrow> (nat \<times> 'r) list" where
  "oneshot_send (Some tx) msg = [(tx, msg)]"
| "oneshot_send None msg = []"

text \<open>
  \<^verbatim>\<open>MessageResponse::handle\<close> of each type: the calls on the context, what is sent, and the tasks for the runtime.
\<close>

type_synonym ('m, 'f, 'r) handled = "('m, ('m, 'f) ctx_item) ctx_call list \<times> (nat \<times> 'r) list \<times> ('f \<times> nat option) list"

definition MessageResult_handle :: "'r \<Rightarrow> nat option \<Rightarrow> ('m, 'f, 'r) handled" where
  "MessageResult_handle v tx = ([], oneshot_send tx v, [])"

definition ResponseActFuture_handle :: "'f \<Rightarrow> nat option \<Rightarrow> ('m, 'f, 'r) handled" where
  "ResponseActFuture_handle f tx = ([CallSpawn (AnswerItem (MapIncomplete f) tx)], [], [])"

definition ResponseFuture_handle :: "'f \<Rightarrow> nat option \<Rightarrow> ('m, 'f, 'r) handled" where
  "ResponseFuture_handle f tx = ([], [], [(f, tx)])"

definition AtomicResponse_handle :: "'f \<Rightarrow> nat option \<Rightarrow> ('m, 'f, 'r) handled" where
  "AtomicResponse_handle f tx = ([CallWait (AnswerItem (MapIncomplete f) tx)], [], [])"

definition Response_handle :: "'r + 'f \<Rightarrow> nat option \<Rightarrow> ('m, 'f, 'r) handled" where
  "Response_handle item tx = (case item of Inr f \<Rightarrow> ([], [], [(f, tx)]) | Inl res \<Rightarrow> ([], oneshot_send tx res, []))"

definition ActorResponse_handle :: "'r + 'f \<Rightarrow> nat option \<Rightarrow> ('m, 'f, 'r) handled" where
  "ActorResponse_handle item tx =
     (case item of Inr f \<Rightarrow> ([CallSpawn (AnswerItem (MapIncomplete f) tx)], [], []) | Inl res \<Rightarrow> ([], oneshot_send tx res, []))"

lemmas response_handle_defs = MessageResult_handle_def ResponseActFuture_handle_def ResponseFuture_handle_def AtomicResponse_handle_def
  Response_handle_def ActorResponse_handle_def

text \<open>The method is chosen by the type of the response.\<close>

fun MessageResponse_handle :: "('r, 'f) response \<Rightarrow> nat option \<Rightarrow> ('m, 'f, 'r) handled" where
  "MessageResponse_handle (RValue v) tx = MessageResult_handle v tx"
| "MessageResponse_handle (RActFuture f) tx = ResponseActFuture_handle f tx"
| "MessageResponse_handle (RFuture f) tx = ResponseFuture_handle f tx"
| "MessageResponse_handle (RAtomic f) tx = AtomicResponse_handle f tx"
| "MessageResponse_handle (RResponse item) tx = Response_handle item tx"
| "MessageResponse_handle (RActorResponse item) tx = ActorResponse_handle item tx"

section \<open>Handling a message\<close>

type_synonym ('m, 'f) ctx = "('m, ('m, 'f) ctx_item) ContextParts"

record ('a, 'm, 'f, 'r) actor_code =
  hc_handle :: "'m \<Rightarrow> 'a \<Rightarrow> ('m, 'f) ctx \<Rightarrow> 'a \<times> ('m, ('m, 'f) ctx_item) ctx_call list \<times> ('r, 'f) response"
  hc_future :: "('f, 'a, 'r) poll_fun"

text \<open>\<^verbatim>\<open>let fut = Handler::handle(act, msg, ctx); fut.handle(ctx, tx)\<close>.\<close>

definition handle_with ::
    "('a, 'm, 'f, 'r) actor_code \<Rightarrow> 'm \<Rightarrow> nat option \<Rightarrow> 'a \<Rightarrow> ('m, 'f) ctx \<Rightarrow>
     ('a \<times> ('m, 'f) ctx \<times> (nat \<times> 'r) list \<times> ('f \<times> nat option) list) option" where
  "handle_with C msg tx act ctx =
     (let (act', calls, fut) = hc_handle C msg act ctx;
          (calls', replies, tasks) = MessageResponse_handle fut tx
      in do { ctx' \<leftarrow> run_calls (calls @ calls') ctx; Some (act', ctx', replies, tasks) })"

record 'm SyncEnvelopeProxy =
  se_msg :: "'m option"
  se_tx :: "nat option"

definition Envelope_new :: "'m \<Rightarrow> nat option \<Rightarrow> 'm SyncEnvelopeProxy" where
  "Envelope_new msg tx = \<lparr> se_msg = Some msg, se_tx = tx \<rparr>"

text \<open>\<open>is_closed\<close> tells of which one-shot channels the receiving end is gone.\<close>

definition SyncEnvelopeProxy_handle ::
    "('a, 'm, 'f, 'r) actor_code \<Rightarrow> (nat \<Rightarrow> bool) \<Rightarrow> 'm SyncEnvelopeProxy \<Rightarrow> 'a \<Rightarrow> ('m, 'f) ctx \<Rightarrow>
     ('m SyncEnvelopeProxy \<times> 'a \<times> ('m, 'f) ctx \<times> (nat \<times> 'r) list \<times> ('f \<times> nat option) list) option" where
  "SyncEnvelopeProxy_handle C is_closed env act ctx =
     (let tx = se_tx env; env1 = env \<lparr> se_tx := None \<rparr>
      in if (case tx of Some t \<Rightarrow> is_closed t | None \<Rightarrow> False) then Some (env1, act, ctx, [], [])
         else case se_msg env1 of
                Some msg \<Rightarrow> map_option (\<lambda>(act', ctx', out). (env1 \<lparr> se_msg := None \<rparr>, act', ctx', out)) (handle_with C msg tx act ctx)
              | None \<Rightarrow> Some (env1, act, ctx, [], []))"

section \<open>The items of a context\<close>

text \<open>A future whose result is sent: \<^verbatim>\<open>self.map(|res, _, _| tx.send(res))\<close>; the state is the actor with what was sent so far.\<close>

definition answer_poll :: "('f, 'a, 'r) poll_fun \<Rightarrow> nat option \<Rightarrow> ('f map_state, 'a \<times> (nat \<times> 'r) list, unit) poll_fun" where
  "answer_poll p tx =
     fut_map_poll (\<lambda>res (a, out). ((), a, out @ oneshot_send tx res))
       (\<lambda>f (a, out). map_option (\<lambda>(r, f', a'). (r, f', a', out)) (p f a))"

definition ActorMessageItem_poll ::
    "('a, 'm, 'f, 'r) actor_code \<Rightarrow> 'm option \<Rightarrow> 'a \<Rightarrow> ('m, 'f) ctx \<Rightarrow>
     (unit Poll \<times> 'm option \<times> 'a \<times> ('m, 'f) ctx \<times> (nat \<times> 'r) list \<times> ('f \<times> nat option) list) option" where
  "ActorMessageItem_poll C item act ctx =
     (case item of
        None \<Rightarrow> None
      | Some msg \<Rightarrow> map_option (\<lambda>out. (Ready (), None, out)) (handle_with C msg None act ctx))"

definition ActorDelayedMessageItem_poll ::
    "('a, 'm, 'f, 'r) actor_code \<Rightarrow> int \<Rightarrow> 'm option \<times> int \<Rightarrow> 'a \<Rightarrow> ('m, 'f) ctx \<Rightarrow>
     (unit Poll \<times> ('m option \<times> int) \<times> 'a \<times> ('m, 'f) ctx \<times> (nat \<times> 'r) list \<times> ('f \<times> nat option) list) option" where
  "ActorDelayedMessageItem_poll C now item act ctx =
     (let (msg, deadline) = item
      in if now < deadline then Some (Pending, item, act, ctx, [], [])
         else case msg of
                None \<Rightarrow> None
              | Some m \<Rightarrow> map_option (\<lambda>out. (Ready (), (None, deadline), out)) (handle_with C m None act ctx))"

text \<open>A stream from outside is the list of the answers it will give, as in the theory of futures; at its end it is empty.\<close>

fun ActorMessageStreamItem_poll ::
    "('a, 'm, 'f, 'r) actor_code \<Rightarrow> 'm Poll list \<Rightarrow> 'a \<Rightarrow> ('m, 'f) ctx \<Rightarrow>
     (unit Poll \<times> 'm Poll list \<times> 'a \<times> ('m, 'f) ctx \<times> ('f \<times> nat option) list) option" where
  "ActorMessageStreamItem_poll C [] act ctx = Some (Ready (), [], act, ctx, [])"
| "ActorMessageStreamItem_poll C (Pending # stream) act ctx = Some (Pending, stream, act, ctx, [])"
| "ActorMessageStreamItem_poll C (Ready msg # stream) act ctx =
     (case handle_with C msg None act ctx of
        None \<Rightarrow> None
      | Some (act', ctx', replies, tasks) \<Rightarrow>
          if parts_waiting ctx' then Some (Pending, stream, act', ctx', tasks)
          else map_option (\<lambda>(r, s, a, c, ts). (r, s, a, c, tasks @ ts)) (ActorMessageStreamItem_poll C stream act' ctx'))"

text \<open>What a context offers on top of \<^verbatim>\<open>spawn\<close>; the handle is the default one when the actor has stopped.\<close>

definition notify :: "'m \<Rightarrow> ('m, 'f) ctx \<Rightarrow> ('m, 'f) ctx" where
  "notify msg ctx = (if parts_state ctx = Stopped then ctx else snd (parts_spawn (MessageItem (Some msg)) ctx))"

definition notify_later :: "'m \<Rightarrow> int \<Rightarrow> int \<Rightarrow> ('m, 'f) ctx \<Rightarrow> u64 \<times> ('m, 'f) ctx" where
  "notify_later msg now after ctx =
     (if parts_state ctx = Stopped then (0, ctx) else parts_spawn (DelayedItem (Some msg) (now + after)) ctx)"

definition add_message_stream :: "'m Poll list \<Rightarrow> ('m, 'f) ctx \<Rightarrow> ('m, 'f) ctx" where
  "add_message_stream fut ctx = (if parts_state ctx = Stopped then ctx else snd (parts_spawn (StreamItem fut) ctx))"

section \<open>Starting an actor\<close>

definition DEFAULT_CAPACITY :: u64 where
  "DEFAULT_CAPACITY = 16"

text \<open>The sender of the new channel is dropped at once.\<close>

definition Mailbox_default :: "'m Channel option" where
  "Mailbox_default = map_option sender_drop (channel DEFAULT_CAPACITY)"

definition Context_with_receiver :: "'m Channel \<Rightarrow> ('m, 'f) ContextParts" where
  "Context_with_receiver rx = ContextParts_new rx"

definition Context_new :: "('m, 'f) ContextParts option" where
  "Context_new = map_option ContextParts_new Mailbox_default"

definition Context_run :: "'a \<Rightarrow> ('m, 'f) ContextParts \<Rightarrow> (nat \<times> ('a, 'm, 'f) ContextFut) option" where
  "Context_run act ctx = do {
     (addr, ch) \<leftarrow> sender_clone (pt_addr ctx);
     Some (addr, ContextFut_new (ctx \<lparr> pt_addr := ch \<rparr>) act)
   }"

definition Actor_start :: "'a \<Rightarrow> (nat \<times> ('a, 'm, 'f) ContextFut) option" where
  "Actor_start act = do { ctx \<leftarrow> Context_new; Context_run act ctx }"

definition Actor_create :: "(('m, 'f) ContextParts \<Rightarrow> 'a \<times> ('m, 'f) ctx_call list) \<Rightarrow> (nat \<times> ('a, 'm, 'f) ContextFut) option" where
  "Actor_create f = do {
     ctx \<leftarrow> Context_new;
     let (act, calls) = f ctx;
     ctx' \<leftarrow> run_calls calls ctx;
     Context_run act ctx'
   }"

definition start_in_arbiter :: "(('m, 'f) ContextParts \<Rightarrow> 'a \<times> ('m, 'f) ctx_call list) \<Rightarrow> (nat \<times> ('a, 'm, 'f) ContextFut) option" where
  "start_in_arbiter f = do {
     rx \<leftarrow> channel DEFAULT_CAPACITY;
     let ctx = Context_with_receiver rx;
     let (act, calls) = f ctx;
     ctx' \<leftarrow> run_calls calls ctx;
     Some (0, ContextFut_new ctx' act)
   }"

section \<open>Every request is answered once\<close>

text \<open>Polls of an answering future with the actors \<open>env 0\<close>, \<open>env 1\<close>, \<open>\<dots>\<close>: what was sent when it is ready.\<close>

fun drive_answer :: "('f, 'a, 'r) poll_fun \<Rightarrow> nat option \<Rightarrow> nat \<Rightarrow> (nat \<Rightarrow> 'a) \<Rightarrow> 'f map_state \<Rightarrow> (nat \<times> 'r) list \<Rightarrow> (nat \<times> 'r) list option" where
  "drive_answer p tx 0 env f out = None"
| "drive_answer p tx (Suc n) env f out =
     (case answer_poll p tx f (env 0, out) of
        None \<Rightarrow> None
      | Some (Ready _, f', _, out') \<Rightarrow> Some out'
      | Some (Pending, f', _, out') \<Rightarrow> drive_answer p tx n (\<lambda>i. env (Suc i)) f' out')"

lemma answer_poll_simps:
  "answer_poll p tx (MapIncomplete f) (a, out) =
     (case p f a of
        None \<Rightarrow> None
      | Some (Pending, f', a') \<Rightarrow> Some (Pending, MapIncomplete f', a', out)
      | Some (Ready v, f', a') \<Rightarrow> Some (Ready (), MapComplete, a', out @ oneshot_send tx v))"
  by (auto simp: answer_poll_def split: option.splits Poll.splits prod.splits)

lemma answer_sent_once: "settles p v f \<Longrightarrow> \<exists>N. \<forall>n\<ge>N. drive_answer p tx n env (MapIncomplete f) out = Some (out @ oneshot_send tx v)"
proof (induction arbitrary: env rule: settles.induct)
  case (settlesI f)
  from settlesI [of "env 0"] show ?case
  proof (cases rule: settled_cases)
    case (1 f' a')
    then have "drive_answer p tx n env (MapIncomplete f) out = Some (out @ oneshot_send tx v)" if "1 \<le> n" for n
      using that by (cases n) (simp_all add: answer_poll_simps)
    then show ?thesis by blast
  next
    case (2 f' a')
    then obtain N where "\<forall>n\<ge>N. drive_answer p tx n (\<lambda>i. env (Suc i)) (MapIncomplete f') out = Some (out @ oneshot_send tx v)" by blast
    then have "drive_answer p tx n env (MapIncomplete f) out = Some (out @ oneshot_send tx v)" if "Suc N \<le> n" for n
      using that 2(1) by (cases n) (simp_all add: answer_poll_simps)
    then show ?thesis by blast
  qed
qed

text \<open>The value a response stands for.\<close>

fun answers_with :: "('f, 'a, 'r) poll_fun \<Rightarrow> ('r, 'f) response \<Rightarrow> 'r \<Rightarrow> bool" where
  "answers_with p (RValue w) v \<longleftrightarrow> w = v"
| "answers_with p (RActFuture f) v \<longleftrightarrow> settles p v f"
| "answers_with p (RFuture f) v \<longleftrightarrow> settles p v f"
| "answers_with p (RAtomic f) v \<longleftrightarrow> settles p v f"
| "answers_with p (RResponse x) v \<longleftrightarrow> (case x of Inl w \<Rightarrow> w = v | Inr f \<Rightarrow> settles p v f)"
| "answers_with p (RActorResponse x) v \<longleftrightarrow> (case x of Inl w \<Rightarrow> w = v | Inr f \<Rightarrow> settles p v f)"

text \<open>The futures a response has left with the context or the runtime, each with the channel for its answer.\<close>

fun answer_of_call :: "('m, ('m, 'f) ctx_item) ctx_call \<Rightarrow> ('f \<times> nat option) list" where
  "answer_of_call (CallSpawn (AnswerItem (MapIncomplete f) tx)) = [(f, tx)]"
| "answer_of_call (CallWait (AnswerItem (MapIncomplete f) tx)) = [(f, tx)]"
| "answer_of_call _ = []"

definition all_replies ::
    "('f, 'a, 'r) poll_fun \<Rightarrow> nat \<Rightarrow> (nat \<Rightarrow> 'a) \<Rightarrow> ('m, ('m, 'f) ctx_item) ctx_call list \<times> (nat \<times> 'r) list \<times> ('f \<times> nat option) list \<Rightarrow> (nat \<times> 'r) list option" where
  "all_replies p n env outcome =
     (case outcome of (calls, replies, tasks) \<Rightarrow>
        map_option (\<lambda>rs. replies @ concat rs)
          (those (map (\<lambda>(f, tx). drive_answer p tx n env (MapIncomplete f) []) (concat (map answer_of_call calls) @ tasks))))"

lemma all_replies_simps:
  "all_replies p n env ([], rs, []) = Some rs"
  "drive_answer p tx n env (MapIncomplete f) [] = Some r \<Longrightarrow> all_replies p n env ([], [], [(f, tx)]) = Some r"
  "answer_of_call c = [(f, tx)] \<Longrightarrow> drive_answer p tx n env (MapIncomplete f) [] = Some r \<Longrightarrow> all_replies p n env ([c], [], []) = Some r"
  by (simp_all add: all_replies_def)

text \<open>
  C13. Every request is answered once. Whatever kind of response a handler returns, a value, a future run by the actor, one that stops the actor from
  handling messages, one run by the runtime, or one of the types that hold either, and however often the futures are pending and whatever
  happens to the actor between the polls: after finitely many polls exactly one answer has been sent to the channel of the request, the value the response stands
  for, and nothing when no answer is wanted.
\<close>

theorem one_answer:
  fixes rsp :: "('r, 'f) response"
  assumes "answers_with p rsp v"
  shows "\<exists>N. \<forall>n\<ge>N. all_replies p n env (MessageResponse_handle rsp tx :: ('m, ('m, 'f) ctx_item) ctx_call list \<times> _ \<times> _) = Some (oneshot_send tx v)"
proof -
  have fut: "\<exists>N. \<forall>n\<ge>N. drive_answer p tx n env (MapIncomplete f) [] = Some (oneshot_send tx v)" if "settles p v f" for f
    using answer_sent_once [OF that, of tx env "[]"] by simp
  have task: "\<exists>N. \<forall>n\<ge>N. all_replies p n env ([] :: ('m, ('m, 'f) ctx_item) ctx_call list, [], [(f, tx)]) = Some (oneshot_send tx v)" if st: "settles p v f" for f
  proof -
    obtain N where "\<forall>n\<ge>N. drive_answer p tx n env (MapIncomplete f) [] = Some (oneshot_send tx v)" using fut [OF st] by blast
    then show ?thesis by (intro exI [of _ N] allI impI all_replies_simps(2)) simp
  qed
  have item: "\<exists>N. \<forall>n\<ge>N. all_replies p n env ([c], [], []) = Some (oneshot_send tx v)" if st: "settles p v f" and c: "answer_of_call c = [(f, tx)]"
    for f and c :: "('m, ('m, 'f) ctx_item) ctx_call"
  proof -
    obtain N where "\<forall>n\<ge>N. drive_answer p tx n env (MapIncomplete f) [] = Some (oneshot_send tx v)" using fut [OF st] by blast
    then show ?thesis by (intro exI [of _ N] allI impI all_replies_simps(3) [OF c]) simp
  qed
  show ?thesis
  proof (cases rsp)
    case (RActFuture f)
    then show ?thesis using assms item [of f] by (simp add: response_handle_defs)
  next
    case (RAtomic f)
    then show ?thesis using assms item [of f] by (simp add: response_handle_defs)
  next
    case (RFuture f)
    then show ?thesis using assms task [of f] by (simp add: response_handle_defs)
  next
    case (RResponse x)
    then show ?thesis using assms task by (cases x) (simp_all add: response_handle_defs all_replies_simps(1))
  next
    case (RActorResponse x)
    then show ?thesis using assms item by (cases x) (simp_all add: response_handle_defs all_replies_simps(1))
  qed (use assms in \<open>simp add: response_handle_defs all_replies_simps(1)\<close>)
qed

text \<open>A handler whose future is pending twice before it answers 7.\<close>

fun countdown :: "(nat, unit, nat) poll_fun" where
  "countdown 0 a = Some (Ready 7, 0, a)"
| "countdown (Suc n) a = Some (Pending, n, a)"

lemma countdown_settles: "settles countdown 7 n"
  by (induction n) (rule settlesI, simp)+

theorem one_answer_witness:
  "\<exists>N. \<forall>n\<ge>N. all_replies countdown n (\<lambda>_. ()) (MessageResponse_handle (RAtomic 2) (Some 5) :: (unit, (unit, nat) ctx_item) ctx_call list \<times> _ \<times> _) = Some [(5, 7)]"
proof -
  have "answers_with countdown (RAtomic 2) 7" using countdown_settles [of 2] by simp
  from one_answer [OF this, of "\<lambda>_. ()" "Some 5"] show ?thesis by simp
qed

text \<open>An envelope runs its handler once: handling it again does nothing, and a request nobody waits for any more is not handled at all.\<close>

theorem envelope_handled_once:
  assumes "SyncEnvelopeProxy_handle C is_closed (Envelope_new msg tx) act ctx = Some (env', act', ctx', out)"
  shows "se_tx env' = None \<and> (if (\<exists>t. tx = Some t \<and> is_closed t) then act' = act \<and> ctx' = ctx \<and> out = ([], [])
      else SyncEnvelopeProxy_handle C is_closed' env' act2 ctx2 = Some (env', act2, ctx2, [], []))"
  using assms by (auto simp: SyncEnvelopeProxy_handle_def Envelope_new_def Let_def split: option.splits if_splits)

section \<open>Atomic responses\<close>

lemma run_calls_append: "run_calls (cs @ ds) p = Option.bind (run_calls cs p) (run_calls ds)"
  by (induction cs arbitrary: p) (auto split: bind_splits)

text \<open>While an atomic response is pending the mailbox hands out no message.\<close>

theorem atomic_blocks_mailbox:
  assumes "snd (snd (hc_handle C msg act ctx)) = RAtomic f" "handle_with C msg tx act ctx = Some (act', ctx', out)" "fu_ctx s = ctx'"
  shows "Mailbox_poll (Suc n) B cx s = Some s"
proof -
  obtain calls where "run_calls (calls @ [CallWait (AnswerItem (MapIncomplete f) tx)]) ctx = Some ctx'"
    using assms(1,2) by (auto simp: handle_with_def AtomicResponse_handle_def Let_def split: prod.splits bind_splits)
  then have "pt_wait ctx' \<noteq> []" by (auto simp: run_calls_append parts_wait_def split: bind_splits)
  then show ?thesis using assms(3) by (simp add: parts_waiting_def)
qed

section \<open>From start to answer\<close>

lemma Actor_start_total: "\<exists>addr s. Actor_start act = Some (addr, s :: ('a, 'm, 'f) ContextFut)"
proof -
  obtain ch0 :: "'m Channel" where c: "channel DEFAULT_CAPACITY = Some ch0" by (simp add: channel_def MAX_BUFFER_value DEFAULT_CAPACITY_def)
  let ?a = "snd (spec_step DropSender (achan_new DEFAULT_CAPACITY))"
  have r: "chan_rep ?a (sender_drop ch0)" using rep_sender_drop [OF rep_new [OF c]] by (simp add: achan_new_def)
  have "of_nat (ac_live ?a) \<noteq> MAX_CAPACITY - ac_buffer ?a" by (simp add: achan_new_def DEFAULT_CAPACITY_def MAX_CAPACITY_value)
  from rep_clone [OF r this] c show ?thesis
    by (auto simp: Actor_start_def Context_new_def Mailbox_default_def Context_run_def ContextParts_new_def)
qed

lemma Actor_start_rep:
  fixes s :: "('a, 'm, 'f) ContextFut"
  assumes "Actor_start act = Some (addr, s)"
  shows "idle s \<and> \<not> cf_STARTED (pt_flags (fu_ctx s)) \<and> pt_trace (fu_ctx s) = [] \<and> addr = 1
    \<and> (\<exists>a. chan_rep a (pt_addr (fu_ctx s)) \<and> ac_live a = 1 \<and> ac_open a \<and> ac_msgs a = [])"
proof -
  obtain ch0 :: "'m Channel" and ch where c: "channel DEFAULT_CAPACITY = Some ch0" "sender_clone (sender_drop ch0) = Some (addr, ch)"
    and s: "s = ContextFut_new ((ContextParts_new (sender_drop ch0)) \<lparr> pt_addr := ch \<rparr>) act"
    using assms by (auto simp: Actor_start_def Context_new_def Mailbox_default_def Context_run_def ContextParts_new_def split: bind_splits)
  let ?a = "snd (spec_step DropSender (achan_new DEFAULT_CAPACITY))"
  have r: "chan_rep ?a (sender_drop ch0)" using rep_sender_drop [OF rep_new [OF c(1)]] by (simp add: achan_new_def)
  have "of_nat (ac_live ?a) \<noteq> MAX_CAPACITY - ac_buffer ?a" by (simp add: achan_new_def DEFAULT_CAPACITY_def MAX_CAPACITY_value)
  from rep_clone [OF r this] c(2) have "addr = 1" "chan_rep (snd (spec_step Clone ?a)) ch" by (auto simp: achan_new_def)
  then show ?thesis
    by (auto simp: s idle_def ContextFut_new_def ContextParts_new_def flags_RUNNING_def flags_empty_def flags_stopping_def
        achan_new_def intro!: exI [of _ "snd (spec_step Clone ?a)"])
qed

lemma start_call_free:
  assumes "call_free B" "idle s" "\<not> cf_STARTED (pt_flags (fu_ctx s))"
  shows "\<exists>s1. start_actor B s = Some s1 \<and> idle s1 \<and> cf_STARTED (pt_flags (fu_ctx s1)) \<and> pt_addr (fu_ctx s1) = pt_addr (fu_ctx s)
    \<and> pt_trace (fu_ctx s1) = pt_trace (fu_ctx s) @ [EvStarted]"
proof -
  let ?s = "set_flags ((pt_flags (fu_ctx s)) \<lparr> cf_STARTED := True \<rparr>) s"
  let ?s2 = "?s \<lparr> fu_act := fst (bh_started B (fu_act ?s) (fu_ctx ?s)), fu_ctx := trace EvStarted (fu_ctx ?s) \<rparr>"
  have c: "callback [EvStarted] (bh_started B (fu_act ?s) (fu_ctx ?s)) ?s = Some ?s2"
    using assms(1) unfolding call_free_def by (intro callback_call_free) blast
  have i: "idle ?s2" using assms(2) by (simp add: idle_def trace_def set_flags_def flags_stopping_def)
  then have "merge ?s2 = (False, ?s2)" by (cases "fu_ctx s") (auto simp: merge_def idle_def Let_def trace_def set_flags_def)
  then have "start_actor B s = Some ?s2" using assms(3) c by (simp add: start_actor_def Let_def)
  then show ?thesis using i by (simp add: trace_def set_flags_def)
qed

lemma do_sends_rep:
  "chan_rep a ch \<Longrightarrow> ac_open a \<Longrightarrow> length (ac_msgs a) + length ms < msg_limit \<Longrightarrow>
   \<exists>ch' a'. chan_run (map DoSend ms) ch = Some (replicate (length ms) Accepted, ch') \<and> chan_rep a' ch' \<and> ac_open a' \<and> ac_live a' = ac_live a
     \<and> ac_msgs a' = ac_msgs a @ map (\<lambda>m. (m, False)) ms"
proof (induction ms arbitrary: a ch)
  case (Cons m ms)
  have "op_ok a (DoSend m)" using Cons.prems(3) by (simp add: room_def)
  then obtain ch1 where c1: "chan_step (DoSend m) ch = Some (Accepted, ch1)" "chan_rep (a \<lparr> ac_msgs := ac_msgs a @ [(m, False)] \<rparr>) ch1"
    using chan_step_sim [OF Cons.prems(1), of "DoSend m"] Cons.prems(2) by (auto simp del: chan_step.simps)
  show ?case using Cons.IH [OF c1(2)] Cons.prems(2,3) c1(1) by (auto simp del: chan_step.simps)
qed auto



end
