(* ===== verification/Task_Processor.thy ===== *)
theory Task_Processor
  imports State_Machine "HOL-Library.Multiset"
begin

text \<open>
  The distributed task processor (\<^verbatim>\<open>examples/task_processor/src/main.rs\<close>): a dispatcher actor that keeps the
  queue of tasks and the load of its workers, and the worker actors that run tasks and report by heartbeats. Every handler takes
  the reading of the clock as an argument; times are \<^verbatim>\<open>u64\<close> milliseconds and differences wrap. What an
  actor sends is part of its answer.
\<close>

section \<open>Messages and state\<close>

datatype TaskType = Computation | IO | LongRunning

datatype TaskPriority = Low | Medium | High

datatype TaskStatus = Completed | Failed | Timeout

record Task =
  tk_id :: string
  tk_task_type :: TaskType
  tk_data :: "8 word list"
  tk_created_at :: u64
  tk_priority :: TaskPriority

record TaskResult =
  tr_task_id :: string
  tr_status :: TaskStatus
  tr_result :: "8 word list option"
  tr_error :: "string option"
  tr_execution_time_ms :: u64
  tr_processor_node :: string

record RegisterWorker =
  rw_worker_id :: string
  rw_capabilities :: "TaskType list"
  rw_max_tasks :: nat

record WorkerStatus =
  ws_worker_id :: string
  ws_capabilities :: "TaskType list"
  ws_max_tasks :: nat
  ws_current_tasks :: nat
  ws_total_completed :: nat
  ws_last_heartbeat :: u64

record TaskInfo =
  ti_id :: string
  ti_task_type :: TaskType
  ti_created_at :: u64
  ti_priority :: TaskPriority
  ti_size_bytes :: nat

record Heartbeat =
  hb_worker_id :: string
  hb_current_tasks :: nat
  hb_total_completed :: nat

record JobDispatcherActor =
  jd_node_id :: string
  jd_tasks :: "Task list"
  jd_workers :: "(string, WorkerStatus) hashmap"
  jd_results :: "(string, TaskResult) hashmap"
  jd_next_task_id :: nat

text \<open>What \<^verbatim>\<open>AnyMessage::downcast\<close> can find.\<close>

datatype task_message = TaskMsg Task | RegisterMsg RegisterWorker | HeartbeatMsg Heartbeat | ResultMsg TaskResult | UnknownMsg

text \<open>Priorities are ordered as they are declared.\<close>

fun priority_rank :: "TaskPriority \<Rightarrow> int" where
  "priority_rank Low = 0"
| "priority_rank Medium = 1"
| "priority_rank High = 2"

lemma priority_rank_inject [simp]: "priority_rank p = priority_rank q \<longleftrightarrow> p = q"
  by (cases p; cases q) auto

instantiation TaskPriority :: linorder
begin

definition less_eq_TaskPriority :: "TaskPriority \<Rightarrow> TaskPriority \<Rightarrow> bool" where
  "p \<le> q \<longleftrightarrow> priority_rank p \<le> priority_rank q"

definition less_TaskPriority :: "TaskPriority \<Rightarrow> TaskPriority \<Rightarrow> bool" where
  "p < q \<longleftrightarrow> priority_rank p < priority_rank q"

instance
  by standard (auto simp: less_eq_TaskPriority_def less_TaskPriority_def)

end

section \<open>The dispatcher\<close>

definition JobDispatcherActor_new :: "string \<Rightarrow> JobDispatcherActor" where
  "JobDispatcherActor_new node_id =
     \<lparr> jd_node_id = node_id, jd_tasks = [], jd_workers = [], jd_results = [], jd_next_task_id = 0 \<rparr>"

definition generate_task_id :: "JobDispatcherActor \<Rightarrow> string \<times> JobDispatcherActor" where
  "generate_task_id d = (''task-'' @ show_nat (jd_next_task_id d), d \<lparr> jd_next_task_id := jd_next_task_id d + 1 \<rparr>)"

definition can_handle :: "TaskType list \<Rightarrow> TaskType \<Rightarrow> bool" where
  "can_handle caps ty = list_ex (\<lambda>cap. case cap of
       Computation \<Rightarrow> (case ty of Computation \<Rightarrow> True | _ \<Rightarrow> False)
     | IO \<Rightarrow> (case ty of IO \<Rightarrow> True | _ \<Rightarrow> False)
     | LongRunning \<Rightarrow> (case ty of LongRunning \<Rightarrow> True | _ \<Rightarrow> False)) caps"

definition suitable :: "u64 \<Rightarrow> Task \<Rightarrow> WorkerStatus \<Rightarrow> bool" where
  "suitable now task status \<longleftrightarrow>
     can_handle (ws_capabilities status) (tk_task_type task) \<and>
     ws_current_tasks status < ws_max_tasks status \<and>
     now - ws_last_heartbeat status < 10000"

definition worker_load :: "WorkerStatus \<Rightarrow> u64" where
  "worker_load status =
     f64_to_u64 (f64_mul (f64_div (f64_of_int (int (ws_current_tasks status))) (f64_of_int (int (ws_max_tasks status)))) (Fin 100))"

definition find_worker_for_task :: "u64 \<Rightarrow> Task \<Rightarrow> (string, WorkerStatus) hashmap \<Rightarrow> string option" where
  "find_worker_for_task now task workers =
     (case sort_key (\<lambda>(_, status). worker_load status) (filter (\<lambda>(_, status). suitable now task status) workers) of
        [] \<Rightarrow> None
      | (worker_id, status) # _ \<Rightarrow> Some worker_id)"

text \<open>\<^verbatim>\<open>if let Some(worker_status) = self.workers.get_mut(&worker_id)\<close> with the update of the two assignments.\<close>

definition update_worker :: "(WorkerStatus \<Rightarrow> WorkerStatus) \<Rightarrow> string \<Rightarrow> (string, WorkerStatus) hashmap \<Rightarrow> (string, WorkerStatus) hashmap" where
  "update_worker f worker_id workers = (case hm_get workers worker_id of None \<Rightarrow> workers | Some status \<Rightarrow> hm_insert worker_id (f status) workers)"

definition count_task :: "string \<Rightarrow> (string, WorkerStatus) hashmap \<Rightarrow> (string, WorkerStatus) hashmap" where
  "count_task = update_worker (\<lambda>status. status \<lparr> ws_current_tasks := ws_current_tasks status + 1 \<rparr>)"

definition handle_Task :: "u64 \<Rightarrow> Task \<Rightarrow> JobDispatcherActor \<Rightarrow> TaskResult \<times> JobDispatcherActor" where
  "handle_Task now task0 d0 =
     (let (task1, d) = (if tk_id task0 = [] then let (new_id, d1) = generate_task_id d0 in (task0 \<lparr> tk_id := new_id \<rparr>, d1) else (task0, d0));
          task = (if tk_created_at task1 = 0 then task1 \<lparr> tk_created_at := now \<rparr> else task1)
      in case find_worker_for_task now task (jd_workers d) of
           Some worker_id \<Rightarrow>
             (\<lparr> tr_task_id = tk_id task, tr_status = Completed, tr_result = None, tr_error = None, tr_execution_time_ms = 0,
                tr_processor_node = worker_id \<rparr>,
              d \<lparr> jd_workers := count_task worker_id (jd_workers d), jd_tasks := jd_tasks d @ [task] \<rparr>)
         | None \<Rightarrow>
             (\<lparr> tr_task_id = tk_id task, tr_status = Failed, tr_result = None, tr_error = Some ''No suitable worker available'',
                tr_execution_time_ms = 0, tr_processor_node = ''none'' \<rparr>,
              d \<lparr> jd_tasks := jd_tasks d @ [task] \<rparr>))"

text \<open>The loop of \<^verbatim>\<open>assign_queued_tasks\<close> over the sorted queue, with the workers as it updates them and the ids of \<^verbatim>\<open>assigned_tasks\<close>.\<close>

fun assign_loop :: "u64 \<Rightarrow> Task list \<Rightarrow> (string, WorkerStatus) hashmap \<Rightarrow> string list \<times> (string, WorkerStatus) hashmap" where
  "assign_loop now [] workers = ([], workers)"
| "assign_loop now (task # tasks) workers =
     (case find_worker_for_task now task workers of
        Some worker_id \<Rightarrow> (let (assigned, workers') = assign_loop now tasks (count_task worker_id workers) in (tk_id task # assigned, workers'))
      | None \<Rightarrow> assign_loop now tasks workers)"

definition by_priority :: "Task list \<Rightarrow> Task list" where
  "by_priority = sort_key (\<lambda>t. - priority_rank (tk_priority t))"

definition assign_queued_tasks :: "u64 \<Rightarrow> JobDispatcherActor \<Rightarrow> JobDispatcherActor" where
  "assign_queued_tasks now d =
     (let tasks = by_priority (jd_tasks d);
          (assigned_tasks, workers) = assign_loop now tasks (jd_workers d)
      in d \<lparr> jd_tasks := filter (\<lambda>t. tk_id t \<notin> set assigned_tasks) tasks, jd_workers := workers \<rparr>)"

definition check_worker_timeouts :: "u64 \<Rightarrow> JobDispatcherActor \<Rightarrow> JobDispatcherActor" where
  "check_worker_timeouts now d =
     (let timed_out_workers = map fst (filter (\<lambda>(_, status). now - ws_last_heartbeat status > 15000) (jd_workers d))
      in d \<lparr> jd_workers := foldl (\<lambda>m worker_id. hm_remove worker_id m) (jd_workers d) timed_out_workers \<rparr>)"

definition handle_RegisterWorker :: "u64 \<Rightarrow> RegisterWorker \<Rightarrow> JobDispatcherActor \<Rightarrow> JobDispatcherActor" where
  "handle_RegisterWorker now msg d =
     (let worker_status = \<lparr> ws_worker_id = rw_worker_id msg, ws_capabilities = rw_capabilities msg, ws_max_tasks = rw_max_tasks msg,
                            ws_current_tasks = 0, ws_total_completed = 0, ws_last_heartbeat = now \<rparr>
      in assign_queued_tasks now (d \<lparr> jd_workers := hm_insert (rw_worker_id msg) worker_status (jd_workers d) \<rparr>))"

definition handle_Heartbeat :: "u64 \<Rightarrow> Heartbeat \<Rightarrow> JobDispatcherActor \<Rightarrow> JobDispatcherActor" where
  "handle_Heartbeat now msg d =
     (let d1 = d \<lparr> jd_workers := update_worker (\<lambda>worker. worker \<lparr> ws_last_heartbeat := now,
                     ws_current_tasks := hb_current_tasks msg, ws_total_completed := hb_total_completed msg \<rparr>) (hb_worker_id msg) (jd_workers d) \<rparr>
      in assign_queued_tasks now (check_worker_timeouts now d1))"

definition handle_GetWorkerStatuses :: "JobDispatcherActor \<Rightarrow> WorkerStatus list" where
  "handle_GetWorkerStatuses d = hm_values (jd_workers d)"

definition handle_GetQueuedTasks :: "JobDispatcherActor \<Rightarrow> TaskInfo list" where
  "handle_GetQueuedTasks d =
     map (\<lambda>task. \<lparr> ti_id = tk_id task, ti_task_type = tk_task_type task, ti_created_at = tk_created_at task,
                   ti_priority = tk_priority task, ti_size_bytes = length (tk_data task) \<rparr>) (jd_tasks d)"

definition handle_TaskResult :: "u64 \<Rightarrow> TaskResult \<Rightarrow> JobDispatcherActor \<Rightarrow> JobDispatcherActor" where
  "handle_TaskResult now result d =
     (let workers = update_worker (\<lambda>worker.
              let worker1 = worker \<lparr> ws_current_tasks := ws_current_tasks worker - 1 \<rparr>
              in if tr_status result = Completed then worker1 \<lparr> ws_total_completed := ws_total_completed worker1 + 1 \<rparr> else worker1)
            (tr_processor_node result) (jd_workers d)
      in assign_queued_tasks now
           (d \<lparr> jd_results := hm_insert (tr_task_id result) result (jd_results d), jd_workers := workers,
                jd_tasks := filter (\<lambda>t. tk_id t \<noteq> tr_task_id result) (jd_tasks d) \<rparr>))"

fun dispatcher_handle_AnyMessage :: "u64 \<Rightarrow> task_message \<Rightarrow> JobDispatcherActor \<Rightarrow> JobDispatcherActor" where
  "dispatcher_handle_AnyMessage now (TaskMsg task) d = snd (handle_Task now task d)"
| "dispatcher_handle_AnyMessage now (RegisterMsg reg_msg) d = handle_RegisterWorker now reg_msg d"
| "dispatcher_handle_AnyMessage now (HeartbeatMsg hb_msg) d = handle_Heartbeat now hb_msg d"
| "dispatcher_handle_AnyMessage now (ResultMsg result) d = handle_TaskResult now result d"
| "dispatcher_handle_AnyMessage now UnknownMsg d = d"

section \<open>The workers\<close>

record 'r WorkerActor =
  wa_node_id :: string
  wa_worker_id :: string
  wa_capabilities :: "TaskType list"
  wa_max_tasks :: nat
  wa_current_tasks :: nat
  wa_total_completed :: nat
  wa_dispatcher :: "'r option"

text \<open>The calls a worker makes: \<^verbatim>\<open>send_any\<close> on an actor reference, whose error is only logged, and \<^verbatim>\<open>run_later\<close> in seconds.\<close>

datatype 'r worker_call = SendAny 'r task_message | HeartbeatLater nat

definition WorkerActor_new :: "string \<Rightarrow> string \<Rightarrow> TaskType list \<Rightarrow> nat \<Rightarrow> 'r WorkerActor" where
  "WorkerActor_new node_id worker_id capabilities max_tasks =
     \<lparr> wa_node_id = node_id, wa_worker_id = worker_id, wa_capabilities = capabilities, wa_max_tasks = max_tasks,
       wa_current_tasks = 0, wa_total_completed = 0, wa_dispatcher = None \<rparr>"

definition set_dispatcher :: "'r \<Rightarrow> 'r WorkerActor \<Rightarrow> 'r WorkerActor" where
  "set_dispatcher dispatcher w = w \<lparr> wa_dispatcher := Some dispatcher \<rparr>"

definition worker_send_heartbeat :: "'r WorkerActor \<Rightarrow> 'r worker_call list" where
  "worker_send_heartbeat w =
     (case wa_dispatcher w of
        Some dispatcher \<Rightarrow> [SendAny dispatcher (HeartbeatMsg \<lparr> hb_worker_id = wa_worker_id w, hb_current_tasks = wa_current_tasks w,
                                                            hb_total_completed = wa_total_completed w \<rparr>)]
      | None \<Rightarrow> []) @ [HeartbeatLater 5]"

definition worker_started :: "'r WorkerActor \<Rightarrow> 'r worker_call list" where
  "worker_started w = worker_send_heartbeat w"

definition refuse_task :: "'r WorkerActor \<Rightarrow> Task \<Rightarrow> string \<Rightarrow> TaskResult" where
  "refuse_task w task reason =
     \<lparr> tr_task_id = tk_id task, tr_status = Failed, tr_result = None, tr_error = Some reason, tr_execution_time_ms = 0,
       tr_processor_node = wa_worker_id w \<rparr>"

text \<open>The work itself; \<open>io_fails\<close> is the draw of \<^verbatim>\<open>gen_bool(0.1)\<close>.\<close>

definition process_task :: "bool \<Rightarrow> Task \<Rightarrow> TaskStatus \<times> 8 word list option \<times> string option" where
  "process_task io_fails task =
     (case tk_task_type task of
        Computation \<Rightarrow> (Completed, Some (map (\<lambda>b. b + 1) (tk_data task)), None)
      | IO \<Rightarrow> (if io_fails then (Failed, None, Some ''I/O Error'') else (Completed, Some (tk_data task), None))
      | LongRunning \<Rightarrow> (Completed, Some (replicate (length (tk_data task)) 42), None))"

definition worker_handle_Task :: "u64 \<Rightarrow> u64 \<Rightarrow> bool \<Rightarrow> Task \<Rightarrow> 'r WorkerActor \<Rightarrow> TaskResult \<times> 'r WorkerActor" where
  "worker_handle_Task start_time end_time io_fails task w =
     (if wa_max_tasks w \<le> wa_current_tasks w then (refuse_task w task ''Worker at capacity'', w)
      else if \<not> can_handle (wa_capabilities w) (tk_task_type task) then (refuse_task w task ''Worker does not support this task type'', w)
      else
        (let w1 = w \<lparr> wa_current_tasks := wa_current_tasks w + 1 \<rparr>;
             (status, result, error) = process_task io_fails task;
             execution_time = end_time - start_time;
             w2 = (if status = Completed then w1 \<lparr> wa_total_completed := wa_total_completed w1 + 1 \<rparr> else w1);
             w3 = w2 \<lparr> wa_current_tasks := wa_current_tasks w2 - 1 \<rparr>
         in (\<lparr> tr_task_id = tk_id task, tr_status = status, tr_result = result, tr_error = error,
               tr_execution_time_ms = execution_time, tr_processor_node = wa_worker_id w3 \<rparr>, w3)))"

fun worker_handle_AnyMessage :: "u64 \<Rightarrow> u64 \<Rightarrow> bool \<Rightarrow> task_message \<Rightarrow> 'r WorkerActor \<Rightarrow> 'r worker_call list \<times> 'r WorkerActor" where
  "worker_handle_AnyMessage start_time end_time io_fails (TaskMsg task) w =
     (let (result, w') = worker_handle_Task start_time end_time io_fails task w
      in (case wa_dispatcher w' of Some dispatcher \<Rightarrow> [SendAny dispatcher (ResultMsg result)] | None \<Rightarrow> [], w'))"
| "worker_handle_AnyMessage start_time end_time io_fails _ w = ([], w)"

datatype 'r SystemMessage = SetDispatcher 'r

fun handle_SystemMessage :: "'r SystemMessage \<Rightarrow> 'r WorkerActor \<Rightarrow> 'r WorkerActor" where
  "handle_SystemMessage (SetDispatcher dispatcher) w = set_dispatcher dispatcher w"

section \<open>Starting the nodes\<close>

text \<open>The test tasks of the coordinator; the random data is an argument.\<close>

definition test_task :: "u64 \<Rightarrow> (nat \<Rightarrow> 8 word list) \<Rightarrow> nat \<Rightarrow> Task" where
  "test_task now data i =
     \<lparr> tk_id = ''test-'' @ show_nat i,
       tk_task_type = (if i mod 3 = 0 then Computation else if i mod 3 = 1 then IO else LongRunning),
       tk_data = data i, tk_created_at = now,
       tk_priority = (if i mod 3 = 0 then High else if i mod 3 = 1 then Medium else Low) \<rparr>"

text \<open>The coordinator submits its tasks to the dispatcher one after the other; \<open>now i\<close> is the clock at the \<open>i\<close>-th.\<close>

definition submit_test_tasks :: "(nat \<Rightarrow> u64) \<Rightarrow> (nat \<Rightarrow> 8 word list) \<Rightarrow> nat \<Rightarrow> JobDispatcherActor \<Rightarrow> JobDispatcherActor" where
  "submit_test_tasks now data num_tasks dispatcher =
     foldl (\<lambda>d i. snd (handle_Task (now i) (test_task (now i) data i) d)) dispatcher [0..<num_tasks]"

text \<open>The capabilities a worker node draws: the three draws of \<^verbatim>\<open>gen_bool\<close> are arguments.\<close>

definition draw_capabilities :: "bool \<Rightarrow> bool \<Rightarrow> bool \<Rightarrow> TaskType list" where
  "draw_capabilities c i l =
     (let caps = (if c then [Computation] else []) @ (if i then [IO] else []) @ (if l then [LongRunning] else [])
      in if caps = [] then [Computation] else caps)"

text \<open>
  What a worker node does once it has found the dispatcher: the worker is created and started, given the reference, and the
  registration is sent. The first heartbeat is due when the actor starts, before it knows the dispatcher.
\<close>

definition start_worker :: "string \<Rightarrow> TaskType list \<Rightarrow> nat \<Rightarrow> 'r \<Rightarrow> 'r WorkerActor \<times> string \<times> 'r worker_call list" where
  "start_worker node_id capabilities max_tasks dispatcher =
     (let worker_id = ''worker-'' @ node_id;
          worker = WorkerActor_new node_id worker_id capabilities max_tasks;
          calls = worker_started worker;
          worker_path = ''/user/task/workers/'' @ worker_id
      in (handle_SystemMessage (SetDispatcher dispatcher) worker, worker_path,
          calls @ [SendAny dispatcher (RegisterMsg \<lparr> rw_worker_id = worker_id, rw_capabilities = capabilities, rw_max_tasks = max_tasks \<rparr>)]))"

record node_start =
  ns_node_id :: string
  ns_addr :: string
  ns_seed_nodes :: "string list"
  ns_is_coordinator :: bool
  ns_num_tasks :: nat

text \<open>The calls of \<^verbatim>\<open>start_node\<close> that the local test makes, in order; ports are \<^verbatim>\<open>u16\<close>.\<close>

definition run_multi_node_test :: "nat \<Rightarrow> 16 word \<Rightarrow> nat \<Rightarrow> node_start list option" where
  "run_multi_node_test node_count base_port num_tasks =
     (if node_count < 2 then None
      else
        (let coordinator_addr_str = ''127.0.0.1:'' @ show_nat (unat base_port)
         in Some (\<lparr> ns_node_id = ''coordinator'', ns_addr = coordinator_addr_str, ns_seed_nodes = [], ns_is_coordinator = True,
                     ns_num_tasks = num_tasks \<rparr>
                  # map (\<lambda>i. \<lparr> ns_node_id = ''node'' @ show_nat i,
                              ns_addr = ''127.0.0.1:'' @ show_nat (unat (base_port + of_nat i)),
                              ns_seed_nodes = [coordinator_addr_str], ns_is_coordinator = False, ns_num_tasks = 0 \<rparr>) [1..<node_count])))"

section \<open>Choosing a worker\<close>

lemma can_handle_iff: "can_handle caps ty \<longleftrightarrow> ty \<in> set caps"
  by (cases ty) (auto simp: can_handle_def list_ex_iff split: TaskType.splits)

lemma suitable_type: "tk_task_type t = tk_task_type u \<Longrightarrow> suitable now t = suitable now u"
  by (simp add: suitable_def fun_eq_iff)

lemma find_worker_None: "find_worker_for_task now t ws = None \<longleftrightarrow> (\<forall>s\<in>snd ` set ws. \<not> suitable now t s)"
proof -
  let ?f = "filter (\<lambda>(_, s). suitable now t s) ws"
  let ?l = "sort_key (\<lambda>(_, s). worker_load s) ?f"
  have "?l = [] \<longleftrightarrow> ?f = []" by (metis length_0_conv length_sort)
  moreover have "find_worker_for_task now t ws = None \<longleftrightarrow> ?l = []"
    unfolding find_worker_for_task_def by (cases ?l) auto
  ultimately show ?thesis by (auto simp: filter_empty_conv)
qed

lemma find_worker_type:
  "tk_task_type t = tk_task_type u \<Longrightarrow> find_worker_for_task now t ws = find_worker_for_task now u ws"
  by (simp add: find_worker_for_task_def suitable_type [of t u])

lemma find_worker_Some:
  assumes "find_worker_for_task now t ws = Some w"
  obtains s where "(w, s) \<in> set ws" "suitable now t s"
    "\<forall>(v, s')\<in>set ws. suitable now t s' \<longrightarrow> worker_load s \<le> worker_load s'"
proof -
  let ?f = "filter (\<lambda>(_, s). suitable now t s) ws"
  let ?l = "sort_key (\<lambda>(_, s). worker_load s) ?f"
  obtain s rest where l: "?l = (w, s) # rest"
    using assms unfolding find_worker_for_task_def by (auto split: list.splits)
  have mem: "set ?l = set ?f" by simp
  have "(w, s) \<in> set ?f" using mem unfolding l by auto
  moreover have "sorted (map (\<lambda>(_, s). worker_load s) ?l)" by (rule sorted_sort_key)
  then have "\<forall>(v, s')\<in>set ?l. worker_load s \<le> worker_load s'" unfolding l by auto
  then have "\<forall>(v, s')\<in>set ws. suitable now t s' \<longrightarrow> worker_load s \<le> worker_load s'" unfolding mem by auto
  ultimately show ?thesis by (intro that [of s]) auto
qed

section \<open>What counting a task does to the workers\<close>

text \<open>The workers the dispatcher believes to be within their capacity, and the number of tasks it has counted.\<close>

definition within_capacity :: "(string, WorkerStatus) hashmap \<Rightarrow> bool" where
  "within_capacity ws \<longleftrightarrow> (\<forall>s\<in>snd ` set ws. ws_current_tasks s \<le> ws_max_tasks s)"

definition counted :: "(string, WorkerStatus) hashmap \<Rightarrow> nat" where
  "counted ws = sum_list (map (ws_current_tasks \<circ> snd) ws)"

lemma hm_ok_update_worker [simp, inv_intros]: "hm_ok ws \<Longrightarrow> hm_ok (update_worker f w ws)"
  by (simp add: update_worker_def split: option.splits)

lemma hm_ok_count_task [simp, inv_intros]: "hm_ok ws \<Longrightarrow> hm_ok (count_task w ws)"
  by (simp add: count_task_def)

lemma update_worker_values:
  assumes "s \<in> snd ` set (update_worker f w ws)"
  shows "s \<in> snd ` set ws \<or> (\<exists>s0. hm_get ws w = Some s0 \<and> s = f s0)"
proof (cases "hm_get ws w")
  case None
  then show ?thesis using assms by (simp add: update_worker_def)
next
  case (Some s0)
  then have "s \<in> snd ` set (hm_insert w (f s0) ws)" using assms by (simp add: update_worker_def)
  then show ?thesis using set_hm_insert [of w "f s0" ws] Some by force
qed

lemma within_capacity_update:
  assumes "within_capacity ws" "\<And>s. hm_get ws w = Some s \<Longrightarrow> ws_current_tasks (f s) \<le> ws_max_tasks (f s)"
  shows "within_capacity (update_worker f w ws)"
  unfolding within_capacity_def
proof
  fix s
  assume "s \<in> snd ` set (update_worker f w ws)"
  then show "ws_current_tasks s \<le> ws_max_tasks s"
    using update_worker_values [of s f w ws] assms unfolding within_capacity_def by auto
qed

lemma hm_get_value: "hm_get ws w = Some s \<Longrightarrow> s \<in> snd ` set ws"
  by (force dest: map_of_SomeD)

lemma find_worker_count:
  assumes "find_worker_for_task now t ws = None"
  shows "find_worker_for_task now t (count_task w ws) = None"
proof -
  have none: "\<forall>s\<in>snd ` set ws. \<not> suitable now t s" using assms by (simp add: find_worker_None)
  have "\<not> suitable now t s" if "s \<in> snd ` set (count_task w ws)" for s
    using update_worker_values [OF that [unfolded count_task_def]]
  proof
    assume "s \<in> snd ` set ws"
    then show ?thesis using none by blast
  next
    assume "\<exists>s0. hm_get ws w = Some s0 \<and> s = s0 \<lparr> ws_current_tasks := ws_current_tasks s0 + 1 \<rparr>"
    then obtain s0 where g: "hm_get ws w = Some s0" and s: "s = s0 \<lparr> ws_current_tasks := ws_current_tasks s0 + 1 \<rparr>" by blast
    from none hm_get_value [OF g] have "\<not> suitable now t s0" by blast
    then show ?thesis unfolding s suitable_def by auto
  qed
  then show ?thesis by (simp add: find_worker_None)
qed

lemma find_worker_get:
  assumes "hm_ok ws" "find_worker_for_task now t ws = Some w"
  obtains s where "hm_get ws w = Some s" "suitable now t s"
  using assms by (metis find_worker_Some hm_mem_get)

lemma within_capacity_count:
  assumes "hm_ok ws" "within_capacity ws" "find_worker_for_task now t ws = Some w"
  shows "within_capacity (count_task w ws)"
proof -
  obtain s where "hm_get ws w = Some s" "suitable now t s" using find_worker_get assms(1,3) .
  then show ?thesis unfolding count_task_def by (intro within_capacity_update assms) (auto simp: suitable_def)
qed

lemma counted_insert:
  "hm_get ws w = Some s0 \<Longrightarrow> counted (hm_insert w s ws) + ws_current_tasks s0 = counted ws + ws_current_tasks s"
  by (induction ws) (auto simp: counted_def)

lemma counted_count:
  assumes "hm_ok ws" "find_worker_for_task now t ws = Some w"
  shows "counted (count_task w ws) = Suc (counted ws)"
proof -
  obtain s where "hm_get ws w = Some s" using find_worker_get assms .
  then show ?thesis
    using counted_insert [of ws w s "s \<lparr> ws_current_tasks := ws_current_tasks s + 1 \<rparr>"]
    by (simp add: count_task_def update_worker_def)
qed

section \<open>The pass over the queue\<close>

lemma assign_loop_None:
  "find_worker_for_task now u ws = None \<Longrightarrow> find_worker_for_task now u (snd (assign_loop now ts ws)) = None"
  by (induction now ts ws rule: assign_loop.induct)
    (auto simp: find_worker_count split: option.splits prod.splits)

lemma assign_loop_exhausts:
  "t \<in> set ts \<Longrightarrow> tk_id t \<notin> set (fst (assign_loop now ts ws)) \<Longrightarrow> find_worker_for_task now t (snd (assign_loop now ts ws)) = None"
  by (induction now ts ws rule: assign_loop.induct)
    (auto split: option.splits prod.splits dest: assign_loop_None)

lemma assign_loop_assigned:
  "x \<in> set (fst (assign_loop now ts ws)) \<Longrightarrow> \<exists>u\<in>set ts. tk_id u = x \<and> find_worker_for_task now u ws \<noteq> None"
proof (induction now ts ws rule: assign_loop.induct)
  case (2 now t ts ws)
  show ?case
  proof (cases "find_worker_for_task now t ws")
    case None
    then show ?thesis using 2 by auto
  next
    case (Some w)
    then have "x = tk_id t \<or> x \<in> set (fst (assign_loop now ts (count_task w ws)))" using "2.prems" by (auto split: prod.splits)
    then show ?thesis using "2.IH"(2) [OF Some] Some find_worker_count [of now _ ws w] by auto
  qed
qed simp

lemma assign_loop_workers:
  assumes "hm_ok ws"
  shows "hm_ok (snd (assign_loop now ts ws)) \<and> (within_capacity ws \<longrightarrow> within_capacity (snd (assign_loop now ts ws)))
    \<and> counted (snd (assign_loop now ts ws)) = counted ws + length (fst (assign_loop now ts ws))"
  using assms
  by (induction now ts ws rule: assign_loop.induct)
    (auto split: option.splits prod.splits simp: counted_count intro: within_capacity_count)

lemma assign_loop_priority:
  assumes "distinct (map tk_id ts)" "sorted (map (\<lambda>t. - priority_rank (tk_priority t)) ts)" "t \<in> set ts" "u \<in> set ts"
    "tk_task_type t = tk_task_type u" "tk_id t \<notin> set (fst (assign_loop now ts ws))" "tk_id u \<in> set (fst (assign_loop now ts ws))"
  shows "tk_priority t \<le> tk_priority u"
  using assms
proof (induction now ts ws rule: assign_loop.induct)
  case (2 now h ts ws)
  have d: "v = v'" if "v \<in> set (h # ts)" "v' \<in> set (h # ts)" "tk_id v = tk_id v'" for v v'
    using inj_onD [OF distinct_map [THEN iffD1, OF "2.prems"(1), THEN conjunct2] that(3,1,2)] .
  have eq: "t = u" if "tk_id t = tk_id u" using d "2.prems"(3,4) that by blast
  show ?case
  proof (cases "u = h")
    case True
    then show ?thesis using "2.prems"(2,3) by (auto simp: less_eq_TaskPriority_def)
  next
    case uh: False
    then have u: "u \<in> set ts" "tk_id u \<noteq> tk_id h" using "2.prems"(4) d [of u h] by auto
    show ?thesis
    proof (cases "find_worker_for_task now h ws")
      case None
      have "t \<noteq> h"
      proof
        assume "t = h"
        moreover obtain u' where "u' \<in> set ts" "tk_id u' = tk_id u" "find_worker_for_task now u' ws \<noteq> None"
          using assign_loop_assigned [of "tk_id u" now ts ws] "2.prems"(7) None by auto
        ultimately show False using d [of u' u] u None find_worker_type [of h u now ws] "2.prems"(5) by auto
      qed
      then show ?thesis using "2.IH"(1) [OF None] "2.prems" u None by auto
    next
      case (Some w)
      have "t \<noteq> h" using "2.prems"(6) Some by (auto split: prod.splits)
      then show ?thesis using "2.IH"(2) [OF Some] "2.prems" u Some by (auto split: prod.splits)
    qed
  qed
qed simp

lemma assign_loop_ids: "set (fst (assign_loop now ts ws)) \<subseteq> tk_id ` set ts"
  using assign_loop_assigned [of _ now ts ws] by blast

lemma assign_loop_distinct: "distinct (map tk_id ts) \<Longrightarrow> distinct (fst (assign_loop now ts ws))"
proof (induction now ts ws rule: assign_loop.induct)
  case (2 now t ts ws)
  show ?case
  proof (cases "find_worker_for_task now t ws")
    case None
    then show ?thesis using 2 by simp
  next
    case (Some w)
    have "tk_id t \<notin> set (fst (assign_loop now ts (count_task w ws)))"
      using assign_loop_ids [of now ts "count_task w ws"] "2.prems" by auto
    then show ?thesis using "2.IH"(2) [OF Some] "2.prems" Some by (auto split: prod.splits)
  qed
qed simp

lemma length_filter_ids:
  assumes "distinct (map f xs)" "distinct ids" "set ids \<subseteq> f ` set xs"
  shows "length (filter (\<lambda>x. f x \<in> set ids) xs) = length ids"
proof -
  let ?g = "filter (\<lambda>x. f x \<in> set ids) xs"
  have "set (map f ?g) = set ids" using assms(3) by auto
  moreover have "distinct (map f ?g)" using assms(1) by (simp add: distinct_map_filter)
  ultimately have "length (map f ?g) = length ids" using assms(2) by (metis distinct_card)
  then show ?thesis by simp
qed

lemma set_by_priority [simp]: "set (by_priority ts) = set ts"
  by (simp add: by_priority_def)

lemma length_by_priority [simp]: "length (by_priority ts) = length ts"
  by (simp add: by_priority_def)

lemma sorted_by_priority: "sorted (map (\<lambda>t. - priority_rank (tk_priority t)) (by_priority ts))"
  unfolding by_priority_def by (rule sorted_sort_key)

lemma distinct_ids_by_priority [simp]: "distinct (map tk_id (by_priority ts)) \<longleftrightarrow> distinct (map tk_id ts)"
proof -
  have "mset (by_priority ts) = mset ts" by (simp add: by_priority_def)
  then have "mset (map tk_id (by_priority ts)) = mset (map tk_id ts)" by simp
  then show ?thesis by (rule mset_eq_imp_distinct_iff)
qed

lemma by_priority_id: "sorted (map (\<lambda>t. - priority_rank (tk_priority t)) ts) \<Longrightarrow> by_priority ts = ts"
  by (simp add: by_priority_def sort_key_id_if_sorted)

lemma by_priority_filter: "by_priority (filter P (by_priority ts)) = filter P (by_priority ts)"
  by (intro by_priority_id) (simp add: sorted_filter sorted_by_priority)

lemma assign_queued_tasks_fields:
  "jd_workers (assign_queued_tasks now d) = snd (assign_loop now (by_priority (jd_tasks d)) (jd_workers d))"
  "jd_tasks (assign_queued_tasks now d) =
     filter (\<lambda>t. tk_id t \<notin> set (fst (assign_loop now (by_priority (jd_tasks d)) (jd_workers d)))) (by_priority (jd_tasks d))"
  "jd_results (assign_queued_tasks now d) = jd_results d"
  "jd_next_task_id (assign_queued_tasks now d) = jd_next_task_id d"
  "jd_node_id (assign_queued_tasks now d) = jd_node_id d"
  by (simp_all add: assign_queued_tasks_def Let_def split: prod.splits)

lemma assign_left_over:
  "t \<in> set (jd_tasks (assign_queued_tasks now d)) \<Longrightarrow> find_worker_for_task now t (jd_workers (assign_queued_tasks now d)) = None"
  by (auto simp: assign_queued_tasks_fields intro: assign_loop_exhausts)


text \<open>One worker with room for one task, and a low and a high task waiting: the high one goes.\<close>

definition demo_worker :: WorkerStatus where
  "demo_worker = \<lparr> ws_worker_id = ''w'', ws_capabilities = [Computation], ws_max_tasks = 1, ws_current_tasks = 0,
     ws_total_completed = 0, ws_last_heartbeat = 100 \<rparr>"

definition demo_task :: "string \<Rightarrow> TaskPriority \<Rightarrow> Task" where
  "demo_task i p = \<lparr> tk_id = i, tk_task_type = Computation, tk_data = [1, 255], tk_created_at = 1, tk_priority = p \<rparr>"

definition demo_dispatcher :: JobDispatcherActor where
  "demo_dispatcher = (JobDispatcherActor_new ''n'') \<lparr> jd_workers := [(''w'', demo_worker)],
     jd_tasks := [demo_task ''a'' Low, demo_task ''b'' High] \<rparr>"

lemmas demo_defs = demo_worker_def demo_task_def demo_dispatcher_def JobDispatcherActor_new_def

lemma demo_assigned: "jd_tasks (assign_queued_tasks 200 demo_dispatcher) = [demo_task ''a'' Low]"
  by (simp add: demo_defs assign_queued_tasks_def by_priority_def find_worker_for_task_def suitable_def can_handle_def count_task_def update_worker_def)


section \<open>The dispatcher over many messages\<close>

definition dispatcher_run :: "(u64 \<times> task_message) list \<Rightarrow> JobDispatcherActor \<Rightarrow> JobDispatcherActor" where
  "dispatcher_run ms d = foldl (\<lambda>d (now, m). dispatcher_handle_AnyMessage now m d) d ms"

fun reports_idle :: "task_message \<Rightarrow> bool" where
  "reports_idle (HeartbeatMsg hb) \<longleftrightarrow> hb_current_tasks hb = 0"
| "reports_idle _ \<longleftrightarrow> True"

definition workers_ok :: "JobDispatcherActor \<Rightarrow> bool" where
  "workers_ok d \<longleftrightarrow> hm_ok (jd_workers d) \<and> within_capacity (jd_workers d)"

lemma within_capacity_insert:
  "within_capacity ws \<Longrightarrow> ws_current_tasks s \<le> ws_max_tasks s \<Longrightarrow> within_capacity (hm_insert w s ws)"
  using set_hm_insert [of w s ws] unfolding within_capacity_def by auto

lemma workers_ok_assign [inv_intros]: "workers_ok d \<Longrightarrow> workers_ok (assign_queued_tasks now d)"
  using assign_loop_workers [of "jd_workers d" now "by_priority (jd_tasks d)"]
  by (simp add: workers_ok_def assign_queued_tasks_fields)

lemma workers_ok_fields: "jd_workers d = jd_workers d' \<Longrightarrow> workers_ok d = workers_ok d'"
  by (simp add: workers_ok_def)

lemma remove_all_workers:
  "hm_ok ws \<Longrightarrow> hm_ok (foldl (\<lambda>m k. hm_remove k m) ws ks)
     \<and> set (foldl (\<lambda>m k. hm_remove k m) ws ks) = {p \<in> set ws. fst p \<notin> set ks}"
  by (induction ks arbitrary: ws) (auto simp: set_hm_remove)

lemma check_worker_timeouts_set:
  assumes "hm_ok (jd_workers d)"
  shows "hm_ok (jd_workers (check_worker_timeouts now d))
    \<and> set (jd_workers (check_worker_timeouts now d)) = {(k, s) \<in> set (jd_workers d). now - ws_last_heartbeat s \<le> 15000}"
proof -
  let ?ks = "map fst (filter (\<lambda>(_, s). now - ws_last_heartbeat s > 15000) (jd_workers d))"
  have key: "k \<in> set ?ks \<longleftrightarrow> now - ws_last_heartbeat s > 15000" if "(k, s) \<in> set (jd_workers d)" for k s
    using that assms by (force simp: hm_mem_get)
  have "{p \<in> set (jd_workers d). fst p \<notin> set ?ks} = {(k, s) \<in> set (jd_workers d). now - ws_last_heartbeat s \<le> 15000}"
    using key by (fastforce simp: not_less)
  then show ?thesis using remove_all_workers [OF assms, of ?ks] by (simp add: check_worker_timeouts_def Let_def)
qed

lemma workers_ok_timeouts [inv_intros]: "workers_ok d \<Longrightarrow> workers_ok (check_worker_timeouts now d)"
  using check_worker_timeouts_set [of d now] by (auto simp: workers_ok_def within_capacity_def)

text \<open>The task as it is stored, with the id and the time it was given.\<close>

definition stored_task :: "u64 \<Rightarrow> Task \<Rightarrow> JobDispatcherActor \<Rightarrow> Task" where
  "stored_task now task d =
     task \<lparr> tk_id := (if tk_id task = [] then ''task-'' @ show_nat (jd_next_task_id d) else tk_id task),
            tk_created_at := (if tk_created_at task = 0 then now else tk_created_at task) \<rparr>"

lemma handle_Task_stored:
  "handle_Task now task0 d =
     (let task = stored_task now task0 d;
          d1 = d \<lparr> jd_tasks := jd_tasks d @ [task], jd_next_task_id := jd_next_task_id d + (if tk_id task0 = [] then 1 else 0) \<rparr>
      in case find_worker_for_task now task (jd_workers d) of
           Some w \<Rightarrow> (\<lparr> tr_task_id = tk_id task, tr_status = Completed, tr_result = None, tr_error = None, tr_execution_time_ms = 0,
                        tr_processor_node = w \<rparr>, d1 \<lparr> jd_workers := count_task w (jd_workers d) \<rparr>)
         | None \<Rightarrow> (\<lparr> tr_task_id = tk_id task, tr_status = Failed, tr_result = None, tr_error = Some ''No suitable worker available'',
                     tr_execution_time_ms = 0, tr_processor_node = ''none'' \<rparr>, d1))"
  by (cases "find_worker_for_task now (stored_task now task0 d) (jd_workers d)"; cases "tk_id task0 = []"; cases "tk_created_at task0 = 0")
    (simp_all add: handle_Task_def generate_task_id_def Let_def stored_task_def)

lemma handle_Task_cases:
  obtains (assigned) w where "find_worker_for_task now (stored_task now task0 d) (jd_workers d) = Some w"
      "jd_workers (snd (handle_Task now task0 d)) = count_task w (jd_workers d)"
    | (queued) "find_worker_for_task now (stored_task now task0 d) (jd_workers d) = None"
      "jd_workers (snd (handle_Task now task0 d)) = jd_workers d"
  by (cases "find_worker_for_task now (stored_task now task0 d) (jd_workers d)") (simp_all add: handle_Task_stored Let_def)

lemma workers_ok_step:
  assumes "workers_ok d" "reports_idle m"
  shows "workers_ok (dispatcher_handle_AnyMessage now m d)"
proof (cases m)
  case (TaskMsg task)
  show ?thesis
    by (rule handle_Task_cases [of now task d])
      (use assms TaskMsg in \<open>auto simp: workers_ok_def intro: within_capacity_count\<close>)
next
  case (RegisterMsg r)
  then show ?thesis using assms
    by (auto simp: handle_RegisterWorker_def Let_def workers_ok_def intro!: within_capacity_insert workers_ok_assign [unfolded workers_ok_def, THEN conjunct2]
        workers_ok_assign [unfolded workers_ok_def, THEN conjunct1])
next
  case (HeartbeatMsg hb)
  then show ?thesis using assms unfolding dispatcher_handle_AnyMessage.simps HeartbeatMsg handle_Heartbeat_def Let_def
    by (intro workers_ok_assign workers_ok_timeouts) (auto simp: workers_ok_def intro!: within_capacity_update)
next
  case (ResultMsg r)
  have cap: "ws_current_tasks s \<le> ws_max_tasks s" if "hm_get (jd_workers d) w = Some s" for w s
    using assms that by (auto simp: workers_ok_def within_capacity_def dest: hm_get_value)
  show ?thesis using assms unfolding dispatcher_handle_AnyMessage.simps ResultMsg handle_TaskResult_def Let_def
    by (intro workers_ok_assign) (auto simp: workers_ok_def intro!: within_capacity_update intro: le_trans [OF diff_le_self cap])
qed (use assms in simp)

text \<open>While workers report themselves idle, the dispatcher never counts more tasks on a worker than its limit.\<close>

theorem dispatcher_within_capacity:
  assumes "\<forall>(now, m)\<in>set ms. reports_idle m"
  shows "workers_ok (dispatcher_run ms (JobDispatcherActor_new node_id))"
proof -
  have "workers_ok (dispatcher_run ms d)" if "workers_ok d" for d
    using assms that by (induction ms arbitrary: d) (auto simp: dispatcher_run_def intro: workers_ok_step)
  moreover have "workers_ok (JobDispatcherActor_new node_id)"
    by (simp add: workers_ok_def JobDispatcherActor_new_def within_capacity_def)
  ultimately show ?thesis .
qed

text \<open>
  A task that is given to a worker on submission is left in the queue, although the answer calls it completed. The next pass
  counts it a second time when there is still room, and takes it off the queue; the dispatcher has sent it to no one.
\<close>

theorem submission_counted_twice:
  assumes "jd_tasks d = []" "find_worker_for_task now (stored_task now task d) (jd_workers d) = Some w"
    "find_worker_for_task now (stored_task now task d) (count_task w (jd_workers d)) = Some v"
  shows "tr_status (fst (handle_Task now task d)) = Completed
    \<and> jd_tasks (snd (handle_Task now task d)) = [stored_task now task d]
    \<and> jd_tasks (assign_queued_tasks now (snd (handle_Task now task d))) = []
    \<and> jd_workers (assign_queued_tasks now (snd (handle_Task now task d))) = count_task v (count_task w (jd_workers d))"
  using assms by (simp add: handle_Task_stored Let_def assign_queued_tasks_def by_priority_def)

text \<open>Tasks are told apart by id only: when a task is taken, a waiting task with the same id leaves the queue uncounted.\<close>

theorem same_id_lost:
  assumes "tk_id t \<in> set (fst (assign_loop now (by_priority (jd_tasks d)) (jd_workers d)))"
  shows "t \<notin> set (jd_tasks (assign_queued_tasks now d))"
  using assms by (simp add: assign_queued_tasks_fields)

text \<open>A worker that has timed out is removed from the map; what it was given does not return to the queue, which stays as it was.\<close>

lemma timed_out_tasks_forgotten:
  "jd_tasks (check_worker_timeouts now d) = jd_tasks d"
  by (simp add: check_worker_timeouts_def Let_def)

section \<open>What a worker does\<close>

text \<open>The messages a worker is given, with the clock readings and the draw for each.\<close>

datatype 'r worker_input = WTask u64 u64 bool Task | WAny u64 u64 bool task_message | WSystem "'r SystemMessage"

fun worker_input_step :: "'r worker_input \<Rightarrow> 'r WorkerActor \<Rightarrow> TaskResult list \<times> 'r WorkerActor" where
  "worker_input_step (WTask s e f task) w = (let (r, w') = worker_handle_Task s e f task w in ([r], w'))"
| "worker_input_step (WAny s e f m) w =
     (case m of TaskMsg task \<Rightarrow> [fst (worker_handle_Task s e f task w)] | _ \<Rightarrow> [], snd (worker_handle_AnyMessage s e f m w))"
| "worker_input_step (WSystem m) w = ([], handle_SystemMessage m w)"

fun worker_run :: "'r worker_input list \<Rightarrow> 'r WorkerActor \<Rightarrow> TaskResult list \<times> 'r WorkerActor" where
  "worker_run [] w = ([], w)"
| "worker_run (i # is) w = (let (rs, w1) = worker_input_step i w; (rs', w2) = worker_run is w1 in (rs @ rs', w2))"

lemma worker_handle_Task_state:
  "snd (worker_handle_Task s e f task w) = w \<lparr> wa_total_completed := wa_total_completed w +
     (if tr_status (fst (worker_handle_Task s e f task w)) = Completed then 1 else 0) \<rparr>"
  by (auto simp: worker_handle_Task_def refuse_task_def Let_def split: prod.splits)

text \<open>Which tasks a worker completes, with which data.\<close>

theorem worker_answer:
  assumes "wa_current_tasks w < wa_max_tasks w" "tk_task_type task \<in> set (wa_capabilities w)"
  shows "tr_task_id (fst (worker_handle_Task s e f task w)) = tk_id task
    \<and> tr_processor_node (fst (worker_handle_Task s e f task w)) = wa_worker_id w
    \<and> tr_execution_time_ms (fst (worker_handle_Task s e f task w)) = e - s
    \<and> (tr_status (fst (worker_handle_Task s e f task w)) = Failed \<longleftrightarrow> tk_task_type task = IO \<and> f)
    \<and> (case tr_result (fst (worker_handle_Task s e f task w)) of
         None \<Rightarrow> tr_status (fst (worker_handle_Task s e f task w)) = Failed
       | Some bytes \<Rightarrow> tr_status (fst (worker_handle_Task s e f task w)) = Completed \<and> length bytes = length (tk_data task))"
  using assms by (cases "tk_task_type task") (auto simp: worker_handle_Task_def process_task_def can_handle_iff Let_def)

lemma worker_input_step_state:
  "wa_current_tasks (snd (worker_input_step i w)) = wa_current_tasks w
   \<and> wa_worker_id (snd (worker_input_step i w)) = wa_worker_id w
   \<and> wa_total_completed (snd (worker_input_step i w)) =
       wa_total_completed w + length (filter (\<lambda>r. tr_status r = Completed) (fst (worker_input_step i w)))"
proof (cases i)
  case (WAny s e f m)
  then show ?thesis
    by (cases m) (simp_all add: case_prod_unfold Let_def worker_handle_Task_state)
next
  case (WSystem m)
  then show ?thesis by (cases m) (simp add: set_dispatcher_def)
next
  case (WTask s e f task)
  then show ?thesis by (simp add: case_prod_unfold Let_def worker_handle_Task_state)
qed

lemma worker_run_state:
  "wa_current_tasks (snd (worker_run is w)) = wa_current_tasks w
   \<and> wa_worker_id (snd (worker_run is w)) = wa_worker_id w
   \<and> wa_total_completed (snd (worker_run is w)) = wa_total_completed w + length (filter (\<lambda>r. tr_status r = Completed) (fst (worker_run is w)))"
proof (induction "is" arbitrary: w)
  case (Cons i "is")
  show ?case using worker_input_step_state [of i w] Cons.IH [of "snd (worker_input_step i w)"]
    by (simp add: case_prod_unfold Let_def)
qed simp

text \<open>
  Whatever a worker has done, its heartbeats report no running task, because it runs a task to the end within one message; and they report
  as completed the number of results it has answered so.
\<close>

theorem heartbeat_reports_idle:
  assumes "wa_dispatcher (snd (worker_run is (WorkerActor_new node_id worker_id caps n))) = Some r"
  shows "worker_send_heartbeat (snd (worker_run is (WorkerActor_new node_id worker_id caps n))) =
    [SendAny r (HeartbeatMsg \<lparr> hb_worker_id = worker_id, hb_current_tasks = 0,
       hb_total_completed = length (filter (\<lambda>r. tr_status r = Completed) (fst (worker_run is (WorkerActor_new node_id worker_id caps n)))) \<rparr>),
     HeartbeatLater 5]"
  using assms worker_run_state [of "is" "WorkerActor_new node_id worker_id caps n"]
  by (simp add: worker_send_heartbeat_def WorkerActor_new_def)

text \<open>So a heartbeat makes the dispatcher forget every task it has counted on the worker: the worker can be given its limit again.\<close>

theorem heartbeat_forgets_tasks:
  assumes "hm_get (jd_workers d) w = Some s" "hm_ok (jd_workers d)" "jd_tasks d = []" "hb_worker_id hb = w" "hb_current_tasks hb = 0"
  shows "\<exists>s'. hm_get (jd_workers (handle_Heartbeat now hb d)) w = Some s' \<and> ws_current_tasks s' = 0"
proof -
  let ?s = "s \<lparr> ws_last_heartbeat := now, ws_current_tasks := 0, ws_total_completed := hb_total_completed hb \<rparr>"
  let ?d = "d \<lparr> jd_workers := hm_insert w ?s (jd_workers d) \<rparr>"
  have ok: "hm_ok (jd_workers ?d)" using assms by simp
  have mem: "(w, ?s) \<in> set (jd_workers ?d)" using assms ok by (simp add: hm_mem_get)
  note timeouts = check_worker_timeouts_set [OF ok, of now]
  have "(w, ?s) \<in> set (jd_workers (check_worker_timeouts now ?d))" using mem timeouts by auto
  then have "hm_get (jd_workers (check_worker_timeouts now ?d)) w = Some ?s"
    using hm_mem_get [OF timeouts [THEN conjunct1]] by blast
  moreover have "jd_tasks (check_worker_timeouts now ?d) = []" using assms by (simp add: timed_out_tasks_forgotten)
  ultimately show ?thesis using assms
    by (simp add: handle_Heartbeat_def update_worker_def assign_queued_tasks_fields by_priority_def)
qed

section \<open>Starting\<close>

lemma draw_capabilities_nonempty: "draw_capabilities c i l \<noteq> [] \<and> distinct (draw_capabilities c i l)"
  by (cases c; cases i; cases l) (simp_all add: draw_capabilities_def)

text \<open>The test tasks have distinct ids and are queued in order, so the conditions of a fair pass hold for a new dispatcher.\<close>

lemma stored_test_task: "tk_id (stored_task now (test_task now' data i) d) = ''test-'' @ show_nat i"
  by (simp add: stored_task_def test_task_def)

lemma handle_Task_queue: "jd_tasks (snd (handle_Task now task d)) = jd_tasks d @ [stored_task now task d]"
  by (simp add: handle_Task_stored Let_def split: option.splits)

lemma submitted_ids:
  "map tk_id (jd_tasks (submit_test_tasks now data n d)) = map tk_id (jd_tasks d) @ map (\<lambda>i. ''test-'' @ show_nat i) [0..<n]"
  by (induction n) (simp_all add: submit_test_tasks_def handle_Task_queue stored_test_task)

theorem test_tasks_distinct:
  "distinct (map tk_id (jd_tasks (submit_test_tasks now data n (JobDispatcherActor_new node_id))))"
proof -
  have "inj_on (\<lambda>i. ''test-'' @ show_nat i) A" for A
    by (intro inj_onI) (simp add: show_nat_inject)
  then show ?thesis by (simp add: submitted_ids JobDispatcherActor_new_def distinct_map)
qed

text \<open>A multi-node run has one coordinator, and as long as the ports do not wrap all nodes listen at different addresses.\<close>

theorem multi_node_addresses:
  assumes "2 \<le> n" "unat base_port + n \<le> 2 ^ 16"
  shows "\<exists>ns. run_multi_node_test n base_port k = Some ns \<and> length ns = n \<and> distinct (map ns_addr ns)
    \<and> length (filter ns_is_coordinator ns) = 1"
proof -
  let ?a = "\<lambda>i. ''127.0.0.1:'' @ show_nat (unat (base_port + of_nat i))"
  have u: "unat (base_port + of_nat i) = unat base_port + i" if "i < n" for i
    using that assms by (simp add: unat_word_ariths unat_of_nat)
  have "inj_on ?a {0..<n}" by (intro inj_onI) (simp add: u show_nat_inject)
  then have "distinct (map ?a [0..<n])" by (simp add: distinct_map)
  moreover have "[0..<n] = 0 # [1..<n]" using assms(1) by (simp add: upt_conv_Cons)
  ultimately have d: "distinct (map ?a (0 # [1..<n]))" by simp
  show ?thesis using assms(1) d by (simp add: run_multi_node_test_def Let_def comp_def filter_empty_conv)
qed

end
