(* ===== verification/File_Sync.thy ===== *)
theory File_Sync
  imports State_Machine "HOL-Library.Sublist"
begin

text \<open>
  The file synchronisation service (\<^verbatim>\<open>examples/file_sync/src/main.rs\<close>): an actor that keeps a list of the files below a directory and
  serves, writes and deletes them on request. The file system of the operating system is a map of absolute paths, given as lists of names, to directories and contents; a path is followed
  name by name, with \<^verbatim>\<open>..\<close> leading to the parent, and \<open>deny\<close> tells on which paths the system refuses an access. Times of modification are what the system
  reports.
\<close>

section \<open>Paths and files of the system\<close>

type_synonym path = "string list"

datatype fentry = FsDir | FsFile "8 word list"

type_synonym fsys = "(path, fentry) hashmap"

datatype io_error = NotFound | AlreadyExists | IsADirectory | NotADirectory | Refused

fun split_slash :: "string \<Rightarrow> string \<Rightarrow> string list" where
  "split_slash acc [] = [rev acc]"
| "split_slash acc (c # cs) = (if c = CHR ''/'' then rev acc # split_slash [] cs else split_slash (c # acc) cs)"

text \<open>\<^verbatim>\<open>Path::components\<close>: empty names and the current directory are dropped.\<close>

definition components :: "string \<Rightarrow> path" where
  "components s = filter (\<lambda>c. c \<noteq> [] \<and> c \<noteq> ''.'') (split_slash [] s)"

definition path_join :: "path \<Rightarrow> string \<Rightarrow> path" where
  "path_join base s = (if s \<noteq> [] \<and> hd s = CHR ''/'' then components s else base @ components s)"

definition is_dir_at :: "fsys \<Rightarrow> path \<Rightarrow> bool" where
  "is_dir_at fs p \<longleftrightarrow> p = [] \<or> hm_get fs p = Some FsDir"

fun resolve_from :: "fsys \<Rightarrow> path \<Rightarrow> path \<Rightarrow> path option" where
  "resolve_from fs cur [] = Some cur"
| "resolve_from fs cur (c # cs) =
     (if \<not> is_dir_at fs cur then None
      else if c = ''..'' then resolve_from fs (butlast cur) cs else resolve_from fs (cur @ [c]) cs)"

definition resolve :: "fsys \<Rightarrow> path \<Rightarrow> path option" where
  "resolve fs p = resolve_from fs [] p"

definition fs_exists :: "fsys \<Rightarrow> path \<Rightarrow> bool" where
  "fs_exists fs p = (case resolve fs p of None \<Rightarrow> False | Some q \<Rightarrow> q = [] \<or> hm_get fs q \<noteq> None)"

definition fs_is_dir :: "fsys \<Rightarrow> path \<Rightarrow> bool" where
  "fs_is_dir fs p = (case resolve fs p of None \<Rightarrow> False | Some q \<Rightarrow> is_dir_at fs q)"

definition fs_read :: "(path \<Rightarrow> bool) \<Rightarrow> path \<Rightarrow> fsys \<Rightarrow> io_error + 8 word list" where
  "fs_read deny p fs =
     (case resolve fs p of
        None \<Rightarrow> Inl NotFound
      | Some q \<Rightarrow> if deny q then Inl Refused
                  else if q = [] then Inl IsADirectory
                  else case hm_get fs q of None \<Rightarrow> Inl NotFound | Some FsDir \<Rightarrow> Inl IsADirectory | Some (FsFile b) \<Rightarrow> Inr b)"

definition fs_write :: "(path \<Rightarrow> bool) \<Rightarrow> path \<Rightarrow> 8 word list \<Rightarrow> fsys \<Rightarrow> io_error + fsys" where
  "fs_write deny p content fs =
     (case resolve fs p of
        None \<Rightarrow> Inl NotFound
      | Some q \<Rightarrow> if deny q then Inl Refused else if is_dir_at fs q then Inl IsADirectory else Inr (hm_insert q (FsFile content) fs))"

definition fs_mkdir :: "(path \<Rightarrow> bool) \<Rightarrow> path \<Rightarrow> fsys \<Rightarrow> io_error + fsys" where
  "fs_mkdir deny p fs =
     (case resolve fs p of
        None \<Rightarrow> Inl NotFound
      | Some q \<Rightarrow> if q = [] \<or> hm_get fs q \<noteq> None then Inl AlreadyExists else if deny q then Inl Refused else Inr (hm_insert q FsDir fs))"

text \<open>The parents are created first; a directory that exists is accepted.\<close>

function create_dir_all :: "(path \<Rightarrow> bool) \<Rightarrow> path \<Rightarrow> fsys \<Rightarrow> (io_error + unit) \<times> fsys" where
  "create_dir_all deny p fs =
     (case fs_mkdir deny p fs of
        Inr fs' \<Rightarrow> (Inr (), fs')
      | Inl e \<Rightarrow>
          if e \<noteq> NotFound then (if fs_is_dir fs p then Inr () else Inl e, fs)
          else if p = [] then (Inl NotFound, fs)
          else case create_dir_all deny (butlast p) fs of
                 (Inl e', fs1) \<Rightarrow> (Inl e', fs1)
               | (Inr _, fs1) \<Rightarrow> (case fs_mkdir deny p fs1 of
                                   Inr fs2 \<Rightarrow> (Inr (), fs2)
                                 | Inl e' \<Rightarrow> (if fs_is_dir fs1 p then Inr () else Inl e', fs1)))"
  by pat_completeness auto
termination
  by (relation "measure (\<lambda>(deny, p, fs). length p)") simp_all

declare create_dir_all.simps [simp del]

definition fs_remove_file :: "(path \<Rightarrow> bool) \<Rightarrow> path \<Rightarrow> fsys \<Rightarrow> io_error + fsys" where
  "fs_remove_file deny p fs =
     (case resolve fs p of
        None \<Rightarrow> Inl NotFound
      | Some q \<Rightarrow> if deny q then Inl Refused else if is_dir_at fs q then Inl IsADirectory
                  else if hm_get fs q = None then Inl NotFound else Inr (hm_remove q fs))"

definition fs_remove_dir_all :: "(path \<Rightarrow> bool) \<Rightarrow> path \<Rightarrow> fsys \<Rightarrow> io_error + fsys" where
  "fs_remove_dir_all deny p fs =
     (case resolve fs p of
        None \<Rightarrow> Inl NotFound
      | Some q \<Rightarrow> if deny q \<or> q = [] then Inl Refused else if \<not> is_dir_at fs q then Inl NotADirectory
                  else Inr (filter (\<lambda>(r, _). \<not> prefix q r) fs))"

definition children :: "fsys \<Rightarrow> path \<Rightarrow> string list" where
  "children fs p = map (last \<circ> fst) (filter (\<lambda>(q, _). q \<noteq> [] \<and> butlast q = p) fs)"

definition fs_read_dir :: "(path \<Rightarrow> bool) \<Rightarrow> path \<Rightarrow> fsys \<Rightarrow> io_error + string list" where
  "fs_read_dir deny p fs = (if deny p then Inl Refused else if \<not> is_dir_at fs p then Inl NotADirectory else Inr (children fs p))"

section \<open>The actor\<close>

record FileInfo =
  fi_path :: string
  fi_is_dir :: bool
  fi_size :: u64
  fi_modified :: u64
  fi_hash :: "string option"

record FileContent =
  fc_info :: FileInfo
  fc_content :: "8 word list"

record 'r FileSyncActor =
  fa_node_id :: string
  fa_base_dir :: path
  fa_files :: "(string, FileInfo) hashmap"
  fa_last_sync :: u64
  fa_remote_actors :: "(string, 'r) hashmap"

datatype sync_error = CannotGetDirectory string | ReadFailed string io_error | FileNotFound string | CreateFailed string io_error
  | WriteFailed string io_error | DeleteFailed string io_error

definition FileSyncActor_new :: "string \<Rightarrow> path \<Rightarrow> 'r FileSyncActor" where
  "FileSyncActor_new node_id base_dir =
     \<lparr> fa_node_id = node_id, fa_base_dir = base_dir, fa_files = [], fa_last_sync = 0, fa_remote_actors = [] \<rparr>"

text \<open>\<^verbatim>\<open>to_string_lossy\<close> of a relative path.\<close>

fun path_string :: "path \<Rightarrow> string" where
  "path_string [] = []"
| "path_string [c] = c"
| "path_string (c # cs) = c @ ''/'' @ path_string cs"

text \<open>The entry for a directory and for a file; \<open>ms\<close> is the time of modification in milliseconds since the epoch.\<close>

definition dir_info :: "path \<Rightarrow> nat \<Rightarrow> FileInfo" where
  "dir_info rel ms = \<lparr> fi_path = path_string rel, fi_is_dir = True, fi_size = 0, fi_modified = of_nat ms, fi_hash = None \<rparr>"

definition file_info :: "path \<Rightarrow> 8 word list \<Rightarrow> nat \<Rightarrow> FileInfo" where
  "file_info rel content ms =
     \<lparr> fi_path = path_string rel, fi_is_dir = False, fi_size = of_nat (length content), fi_modified = of_nat ms,
       fi_hash = Some (show_nat (length content) @ ''-'' @ show_nat (ms div 1000)) \<rparr>"

definition below :: "fsys \<Rightarrow> path \<Rightarrow> nat" where
  "below fs p = length (filter (\<lambda>(q, _). strict_prefix p q) fs)"

lemma length_filter_mono: "(\<And>x. x \<in> set xs \<Longrightarrow> P x \<Longrightarrow> Q x) \<Longrightarrow> length (filter P xs) \<le> length (filter Q xs)"
  by (induction xs) (auto simp: le_SucI)

lemma length_filter_less:
  assumes "\<And>x. P x \<Longrightarrow> Q x" "y \<in> set xs" "Q y" "\<not> P y"
  shows "length (filter P xs) < length (filter Q xs)"
  using assms(2)
proof (induction xs)
  case (Cons x xs)
  then show ?case
    using assms length_filter_mono [of xs P Q] by (cases "x = y") (auto simp: less_Suc_eq_le)
qed simp

lemma below_child: "hm_get fs (p @ [n]) = Some e \<Longrightarrow> below fs (p @ [n]) < below fs p"
  unfolding below_def
  by (rule length_filter_less [where y = "(p @ [n], e)"])
    (auto dest: map_of_SomeD elim: strict_prefixE intro: prefix_order.less_trans simp: strict_prefix_def dest: append_prefixD)

text \<open>The recursive scan below \<open>base\<close>, and its loop over the entries of one directory.\<close>

function (sequential)
  scan_dir :: "(path \<Rightarrow> nat) \<Rightarrow> (path \<Rightarrow> bool) \<Rightarrow> fsys \<Rightarrow> path \<Rightarrow> path \<Rightarrow> (string, FileInfo) hashmap \<Rightarrow> io_error + (string, FileInfo) hashmap" and
  scan_entries :: "(path \<Rightarrow> nat) \<Rightarrow> (path \<Rightarrow> bool) \<Rightarrow> fsys \<Rightarrow> path \<Rightarrow> path \<Rightarrow> string list \<Rightarrow> (string, FileInfo) hashmap \<Rightarrow> io_error + (string, FileInfo) hashmap"
where
  "scan_dir mt deny fs base rel files =
     (if \<not> (base @ rel = [] \<or> hm_get fs (base @ rel) \<noteq> None) then Inr files
      else case fs_read_dir deny (base @ rel) fs of
             Inl e \<Rightarrow> Inl e
           | Inr entries \<Rightarrow> scan_entries mt deny fs base rel entries files)"
| "scan_entries mt deny fs base rel [] files = Inr files"
| "scan_entries mt deny fs base rel (n # ns) files =
     (let p = rel @ [n]
      in case hm_get fs (base @ rel @ [n]) of
           None \<Rightarrow> Inl NotFound
         | Some FsDir \<Rightarrow>
             (case scan_dir mt deny fs base p (hm_insert (path_string p) (dir_info p (mt (base @ p))) files) of
                Inl e \<Rightarrow> Inl e
              | Inr files1 \<Rightarrow> scan_entries mt deny fs base rel ns files1)
         | Some (FsFile content) \<Rightarrow>
             scan_entries mt deny fs base rel ns (hm_insert (path_string p) (file_info p content (mt (base @ p))) files))"
  by pat_completeness auto
termination
proof (relation "measures [\<lambda>x. case x of Inl (mt, deny, fs, base, rel, files) \<Rightarrow> below fs (base @ rel)
                             | Inr (mt, deny, fs, base, rel, ns, files) \<Rightarrow> below fs (base @ rel),
                           \<lambda>x. case x of Inl (mt, deny, fs, base, rel, files) \<Rightarrow> Suc (length (children fs (base @ rel)))
                             | Inr (mt, deny, fs, base, rel, ns, files) \<Rightarrow> length ns]", goal_cases)
  case (2 mt deny fs base rel files entries)
  then show ?case by (auto simp: fs_read_dir_def split: if_splits)
next
  case (3 mt deny fs base rel n ns files)
  then show ?case using below_child [of fs "base @ rel" n] by auto
qed auto

declare scan_dir.simps [simp del]

definition scan_directory :: "(path \<Rightarrow> nat) \<Rightarrow> (path \<Rightarrow> bool) \<Rightarrow> fsys \<Rightarrow> u64 \<Rightarrow> 'r FileSyncActor \<Rightarrow> (io_error + unit) \<times> 'r FileSyncActor" where
  "scan_directory mt deny fs now a =
     (case (case resolve fs (fa_base_dir a) of None \<Rightarrow> Inr [] | Some base \<Rightarrow> scan_dir mt deny fs base [] []) of
        Inl e \<Rightarrow> (Inl e, a)
      | Inr new_files \<Rightarrow> (Inr (), a \<lparr> fa_files := new_files, fa_last_sync := now \<rparr>))"

definition sync_read_file :: "(path \<Rightarrow> bool) \<Rightarrow> fsys \<Rightarrow> string \<Rightarrow> 'r FileSyncActor \<Rightarrow> io_error + 8 word list" where
  "sync_read_file deny fs rel_path a = fs_read deny (path_join (fa_base_dir a) rel_path) fs"

definition sync_write_file :: "(path \<Rightarrow> bool) \<Rightarrow> fsys \<Rightarrow> string \<Rightarrow> 8 word list \<Rightarrow> 'r FileSyncActor \<Rightarrow> (io_error + unit) \<times> fsys" where
  "sync_write_file deny fs rel_path content a =
     (let full_path = path_join (fa_base_dir a) rel_path;
          made = (if full_path = [] then (Inr (), fs) else create_dir_all deny (butlast full_path) fs)
      in case made of
           (Inl e, fs1) \<Rightarrow> (Inl e, fs1)
         | (Inr _, fs1) \<Rightarrow> (case fs_write deny full_path content fs1 of Inl e \<Rightarrow> (Inl e, fs1) | Inr fs2 \<Rightarrow> (Inr (), fs2)))"

definition create_directory :: "(path \<Rightarrow> bool) \<Rightarrow> fsys \<Rightarrow> string \<Rightarrow> 'r FileSyncActor \<Rightarrow> (io_error + unit) \<times> fsys" where
  "create_directory deny fs rel_path a = create_dir_all deny (path_join (fa_base_dir a) rel_path) fs"

definition delete_file :: "(path \<Rightarrow> bool) \<Rightarrow> fsys \<Rightarrow> string \<Rightarrow> 'r FileSyncActor \<Rightarrow> io_error + fsys" where
  "delete_file deny fs rel_path a =
     (let full_path = path_join (fa_base_dir a) rel_path
      in if fs_is_dir fs full_path then fs_remove_dir_all deny full_path fs else fs_remove_file deny full_path fs)"

definition add_remote_actor :: "string \<Rightarrow> 'r \<Rightarrow> 'r FileSyncActor \<Rightarrow> 'r FileSyncActor" where
  "add_remote_actor i actor_ref a = a \<lparr> fa_remote_actors := hm_insert i actor_ref (fa_remote_actors a) \<rparr>"

section \<open>Messages\<close>

definition trim_slashes :: "string \<Rightarrow> string" where
  "trim_slashes s = dropWhile (\<lambda>c. c = CHR ''/'') s"

definition handle_GetFileList :: "string \<Rightarrow> 'r FileSyncActor \<Rightarrow> FileInfo list" where
  "handle_GetFileList msg_prefix a =
     (let pre = trim_slashes msg_prefix
      in if pre = [] then hm_values (fa_files a) else filter (\<lambda>info. prefix pre (fi_path info)) (hm_values (fa_files a)))"

definition handle_GetFile :: "(path \<Rightarrow> bool) \<Rightarrow> fsys \<Rightarrow> string \<Rightarrow> 'r FileSyncActor \<Rightarrow> sync_error + FileContent" where
  "handle_GetFile deny fs msg_path a =
     (let p = trim_slashes msg_path
      in case hm_get (fa_files a) p of
           Some info \<Rightarrow>
             if fi_is_dir info then Inl (CannotGetDirectory p)
             else (case sync_read_file deny fs p a of
                     Inr content \<Rightarrow> Inr \<lparr> fc_info = info, fc_content = content \<rparr>
                   | Inl e \<Rightarrow> Inl (ReadFailed p e))
         | None \<Rightarrow> Inl (FileNotFound p))"

definition handle_UpdateFile ::
    "(path \<Rightarrow> bool) \<Rightarrow> FileInfo \<Rightarrow> 8 word list \<Rightarrow> fsys \<Rightarrow> 'r FileSyncActor \<Rightarrow> (sync_error + bool) \<times> fsys \<times> 'r FileSyncActor" where
  "handle_UpdateFile deny info content fs a =
     (let p = trim_slashes (fi_path info)
      in if fi_is_dir info
         then (case create_directory deny fs p a of
                 (Inr _, fs') \<Rightarrow> (Inr True, fs', a \<lparr> fa_files := hm_insert p info (fa_files a) \<rparr>)
               | (Inl e, fs') \<Rightarrow> (Inl (CreateFailed p e), fs', a))
         else (case sync_write_file deny fs p content a of
                 (Inr _, fs') \<Rightarrow> (Inr True, fs', a \<lparr> fa_files := hm_insert p info (fa_files a) \<rparr>)
               | (Inl e, fs') \<Rightarrow> (Inl (WriteFailed p e), fs', a)))"

definition handle_DeleteFile :: "(path \<Rightarrow> bool) \<Rightarrow> string \<Rightarrow> fsys \<Rightarrow> 'r FileSyncActor \<Rightarrow> (sync_error + bool) \<times> fsys \<times> 'r FileSyncActor" where
  "handle_DeleteFile deny msg_path fs a =
     (let p = trim_slashes msg_path; a1 = a \<lparr> fa_files := hm_remove p (fa_files a) \<rparr>
      in case delete_file deny fs p a1 of
           Inr fs' \<Rightarrow> (Inr True, fs', a1)
         | Inl e \<Rightarrow> (Inl (DeleteFailed p e), fs, a1))"

text \<open>The calls an actor makes: messages to the actors of other nodes, and the timer of the next synchronisation in seconds.\<close>

datatype 'r sync_call = SendSync 'r string | SyncLater nat

text \<open>A synchronisation request builds a future that would ask for the list of files and drops it: nothing is sent.\<close>

definition handle_SyncFiles :: "string \<Rightarrow> 'r FileSyncActor \<Rightarrow> 'r sync_call list" where
  "handle_SyncFiles source_node a = (case hm_get (fa_remote_actors a) source_node of Some remote_actor \<Rightarrow> [] | None \<Rightarrow> [])"

definition handle_StartSync ::
    "(path \<Rightarrow> nat) \<Rightarrow> (path \<Rightarrow> bool) \<Rightarrow> fsys \<Rightarrow> u64 \<Rightarrow> 'r FileSyncActor \<Rightarrow> 'r sync_call list \<times> 'r FileSyncActor" where
  "handle_StartSync mt deny fs now a =
     (let (_, a1) = scan_directory mt deny fs now a
      in (map (\<lambda>(_, actor_ref). SendSync actor_ref (fa_node_id a1)) (fa_remote_actors a1) @ [SyncLater 30], a1))"

definition sync_started ::
    "(path \<Rightarrow> nat) \<Rightarrow> (path \<Rightarrow> bool) \<Rightarrow> fsys \<Rightarrow> u64 \<Rightarrow> 'r FileSyncActor \<Rightarrow> 'r sync_call list \<times> 'r FileSyncActor" where
  "sync_started mt deny fs now a = (let (_, a1) = scan_directory mt deny fs now a in ([SyncLater 30], a1))"

text \<open>What \<^verbatim>\<open>AnyMessage::downcast\<close> can find; answers are dropped.\<close>

datatype sync_message = GetFileListMsg string | GetFileMsg string | UpdateFileMsg FileInfo "8 word list" | DeleteFileMsg string | SyncFilesMsg string | UnknownSyncMsg

fun sync_handle_AnyMessage :: "(path \<Rightarrow> bool) \<Rightarrow> sync_message \<Rightarrow> fsys \<Rightarrow> 'r FileSyncActor \<Rightarrow> fsys \<times> 'r FileSyncActor" where
  "sync_handle_AnyMessage deny (UpdateFileMsg info content) fs a = snd (handle_UpdateFile deny info content fs a)"
| "sync_handle_AnyMessage deny (DeleteFileMsg p) fs a = snd (handle_DeleteFile deny p fs a)"
| "sync_handle_AnyMessage deny _ fs a = (fs, a)"

datatype 'r sync_system_message = AddRemoteActor string 'r

fun sync_handle_SystemMessage :: "'r sync_system_message \<Rightarrow> 'r FileSyncActor \<Rightarrow> 'r FileSyncActor" where
  "sync_handle_SystemMessage (AddRemoteActor i actor_ref) a = add_remote_actor i actor_ref a"

section \<open>Starting the nodes\<close>

text \<open>After its start a node looks up the nodes with the names \<^verbatim>\<open>node1\<close> to \<^verbatim>\<open>node9\<close>, its own left out; \<open>lookup\<close> is that of the cluster system.\<close>

definition discover_peers :: "(string \<Rightarrow> 'r option) \<Rightarrow> string \<Rightarrow> 'r FileSyncActor \<Rightarrow> 'r FileSyncActor" where
  "discover_peers lookup node_id a =
     foldl (\<lambda>a i. let target_id = ''node'' @ show_nat i
                  in if target_id = node_id then a
                     else case lookup (''/user/file-sync/'' @ target_id) of
                            Some remote_actor \<Rightarrow> sync_handle_SystemMessage (AddRemoteActor target_id remote_actor) a
                          | None \<Rightarrow> a) a [1..<10]"

record sync_node =
  sn_node_id :: string
  sn_addr :: string
  sn_dir :: path
  sn_seeds :: "string list"

text \<open>The nodes of a local run, \<open>None\<close> when there is no directory for the first one.\<close>

definition sync_multi_node_test :: "nat \<Rightarrow> 16 word \<Rightarrow> path \<Rightarrow> sync_node list option" where
  "sync_multi_node_test node_count base_port base_dir =
     (let node_dirs = map (\<lambda>i. path_join base_dir (''node'' @ show_nat (i + 1))) [0..<node_count];
          first_addr = ''127.0.0.1:'' @ show_nat (unat base_port)
      in if node_dirs = [] then None
         else Some (\<lparr> sn_node_id = ''node1'', sn_addr = first_addr, sn_dir = node_dirs ! 0, sn_seeds = [] \<rparr>
                    # map (\<lambda>i. \<lparr> sn_node_id = ''node'' @ show_nat (i + 1), sn_addr = ''127.0.0.1:'' @ show_nat (unat (base_port + of_nat i)),
                                 sn_dir = node_dirs ! i, sn_seeds = [first_addr] \<rparr>) [1..<node_count]))"

section \<open>The scan finds everything\<close>

text \<open>A file system in order: the parent of an entry is a directory, and names are not empty and hold no slash.\<close>

definition name_ok :: "string \<Rightarrow> bool" where
  "name_ok n \<longleftrightarrow> n \<noteq> [] \<and> CHR ''/'' \<notin> set n"

definition fs_ok :: "fsys \<Rightarrow> bool" where
  "fs_ok fs \<longleftrightarrow> hm_ok fs \<and> (\<forall>p e. hm_get fs p = Some e \<longrightarrow> p \<noteq> [] \<and> is_dir_at fs (butlast p) \<and> list_all name_ok p)"

lemma path_string_Cons: "cs \<noteq> [] \<Longrightarrow> path_string (c # cs) = c @ CHR ''/'' # path_string cs"
  by (cases cs) simp_all

lemma takeWhile_name: "CHR ''/'' \<notin> set c \<Longrightarrow> takeWhile (\<lambda>x. x \<noteq> CHR ''/'') (c @ CHR ''/'' # r) = c"
  by (induction c) auto

lemma path_string_inject:
  "list_all name_ok p \<Longrightarrow> list_all name_ok q \<Longrightarrow> path_string p = path_string q \<Longrightarrow> p = q"
proof (induction p arbitrary: q)
  case Nil
  then show ?case by (cases q rule: path_string.cases) (auto simp: name_ok_def)
next
  case (Cons c cs)
  then obtain d ds where q: "q = d # ds" by (cases q) (cases cs; auto simp: name_ok_def path_string_Cons)+
  have c: "name_ok c" "list_all name_ok cs" "name_ok d" "list_all name_ok ds" using Cons.prems q by simp_all
  have no: "CHR ''/'' \<notin> set c" "CHR ''/'' \<notin> set d" using c by (simp_all add: name_ok_def)
  show ?case
  proof (cases "cs = []"; cases "ds = []")
    assume "cs \<noteq> []" "ds \<noteq> []"
    then have eq: "c @ CHR ''/'' # path_string cs = d @ CHR ''/'' # path_string ds" using Cons.prems(3) q by (simp add: path_string_Cons)
    then have "c = d" using takeWhile_name [OF no(1)] takeWhile_name [OF no(2)] by metis
    then show ?thesis using eq Cons.IH [OF c(2,4)] q by simp
  next
    assume "cs = []" "ds \<noteq> []"
    then have "c = d @ CHR ''/'' # path_string ds" using Cons.prems(3) q by (simp add: path_string_Cons)
    then show ?thesis using no by auto
  next
    assume "cs \<noteq> []" "ds = []"
    then have "d = c @ CHR ''/'' # path_string cs" using Cons.prems(3) q by (simp add: path_string_Cons)
    then show ?thesis using no by auto
  qed (use Cons.prems(3) q in simp)
qed

text \<open>What an entry of the list should say, and the entries below a path.\<close>

definition entry_info :: "(path \<Rightarrow> nat) \<Rightarrow> fsys \<Rightarrow> path \<Rightarrow> path \<Rightarrow> FileInfo" where
  "entry_info mt fs base rel =
     (case hm_get fs (base @ rel) of Some (FsFile b) \<Rightarrow> file_info rel b (mt (base @ rel)) | _ \<Rightarrow> dir_info rel (mt (base @ rel)))"

definition entries_at :: "fsys \<Rightarrow> path \<Rightarrow> path \<Rightarrow> path set" where
  "entries_at fs base rel = {r. prefix rel r \<and> hm_get fs (base @ r) \<noteq> None}"

definition scanned :: "(path \<Rightarrow> nat) \<Rightarrow> fsys \<Rightarrow> path \<Rightarrow> path set \<Rightarrow> (string, FileInfo) hashmap \<Rightarrow> (string, FileInfo) hashmap \<Rightarrow> bool" where
  "scanned mt fs base S files files' \<longleftrightarrow>
     (\<forall>r\<in>S. hm_get files' (path_string r) = Some (entry_info mt fs base r))
     \<and> (\<forall>k. k \<notin> path_string ` S \<longrightarrow> hm_get files' k = hm_get files k)"

lemma fs_names: "fs_ok fs \<Longrightarrow> hm_get fs (base @ r) \<noteq> None \<Longrightarrow> list_all name_ok r"
  by (auto simp: fs_ok_def)

lemma scanned_trans:
  assumes "fs_ok fs" "scanned mt fs base S f g" "scanned mt fs base T g h" "\<forall>r\<in>S \<union> T. hm_get fs (base @ r) \<noteq> None"
  shows "scanned mt fs base (S \<union> T) f h"
  unfolding scanned_def
proof (intro conjI ballI allI impI)
  fix r
  assume r: "r \<in> S \<union> T"
  show "hm_get h (path_string r) = Some (entry_info mt fs base r)"
  proof (cases "r \<in> T")
    case True
    then show ?thesis using assms(3) by (simp add: scanned_def)
  next
    case False
    have "path_string r \<notin> path_string ` T"
    proof
      assume "path_string r \<in> path_string ` T"
      then obtain t where "t \<in> T" "path_string r = path_string t" by blast
      then show False using path_string_inject [of r t] fs_names [OF assms(1)] assms(4) r False by blast
    qed
    then show ?thesis using assms(2,3) r False by (simp add: scanned_def)
  qed
qed (use assms(2,3) in \<open>simp add: scanned_def image_Un\<close>)

lemma scanned_insert:
  "entry_info mt fs base r = v \<Longrightarrow> scanned mt fs base {r} f (hm_insert (path_string r) v f)"
  by (auto simp: scanned_def)

lemma children_iff: "fs_ok fs \<Longrightarrow> n \<in> set (children fs p) \<longleftrightarrow> hm_get fs (p @ [n]) \<noteq> None"
proof -
  assume ok: "fs_ok fs"
  have "n \<in> set (children fs p) \<longleftrightarrow> (\<exists>e. (p @ [n], e) \<in> set fs)"
    by (force simp: children_def image_iff intro: append_butlast_last_id [symmetric])
  also have "\<dots> \<longleftrightarrow> hm_get fs (p @ [n]) \<noteq> None" using ok by (auto simp: fs_ok_def hm_mem_get)
  finally show ?thesis .
qed

definition inside :: "fsys \<Rightarrow> path \<Rightarrow> path \<Rightarrow> path set" where
  "inside fs base rel = {r. strict_prefix rel r \<and> hm_get fs (base @ r) \<noteq> None}"

lemma entries_at_split: "hm_get fs (base @ rel) \<noteq> None \<Longrightarrow> entries_at fs base rel = {rel} \<union> inside fs base rel"
  by (auto simp: entries_at_def inside_def)

text \<open>Ancestors of an entry exist.\<close>

lemma fs_ancestor:
  assumes "fs_ok fs" "hm_get fs (p @ q) \<noteq> None" "p \<noteq> []"
  shows "hm_get fs p \<noteq> None"
  using assms(2)
proof (induction q rule: rev_induct)
  case (snoc c q)
  then obtain e where "hm_get fs ((p @ q) @ [c]) = Some e" by auto
  then have "is_dir_at fs (p @ q)" using assms(1) unfolding fs_ok_def by (metis butlast_snoc)
  then show ?case using snoc.IH assms(3) by (auto simp: is_dir_at_def)
qed simp

lemma inside_children:
  assumes "fs_ok fs"
  shows "inside fs base rel = (\<Union>n\<in>set (children fs (base @ rel)). entries_at fs base (rel @ [n]))"
proof -
  have "r \<in> inside fs base rel \<longleftrightarrow> (\<exists>n. hm_get fs (base @ rel @ [n]) \<noteq> None \<and> r \<in> entries_at fs base (rel @ [n]))" for r
  proof
    assume "r \<in> inside fs base rel"
    then obtain n m where r: "r = rel @ n # m" "hm_get fs (base @ r) \<noteq> None" by (auto simp: inside_def elim: strict_prefixE')
    then have "hm_get fs (base @ rel @ [n]) \<noteq> None" using fs_ancestor [OF assms, of "base @ rel @ [n]" m] by simp
    then show "\<exists>n. hm_get fs (base @ rel @ [n]) \<noteq> None \<and> r \<in> entries_at fs base (rel @ [n])" using r by (auto simp: entries_at_def)
  next
    assume "\<exists>n. hm_get fs (base @ rel @ [n]) \<noteq> None \<and> r \<in> entries_at fs base (rel @ [n])"
    then show "r \<in> inside fs base rel" by (auto simp: inside_def entries_at_def strict_prefix_def dest: append_prefixD)
  qed
  then show ?thesis using children_iff [OF assms, of _ "base @ rel"] by fastforce
qed

lemma inside_file: "fs_ok fs \<Longrightarrow> hm_get fs (base @ rel) = Some (FsFile b) \<Longrightarrow> inside fs base rel = {}"
proof -
  assume ok: "fs_ok fs" and f: "hm_get fs (base @ rel) = Some (FsFile b)"
  then have "base @ rel \<noteq> []" by (auto simp: fs_ok_def)
  then have "\<not> is_dir_at fs (base @ rel)" using f by (simp add: is_dir_at_def)
  then have "children fs (base @ rel) = []"
    using ok children_iff [OF ok, of _ "base @ rel"] unfolding fs_ok_def by (metis butlast_snoc list.set_intros(1) neq_Nil_conv option.exhaust)
  then show ?thesis by (simp add: inside_children [OF ok])
qed

lemma scanned_entry:
  assumes "fs_ok fs" "hm_get fs (base @ rel) \<noteq> None" "v = entry_info mt fs base rel"
    "scanned mt fs base (inside fs base rel) (hm_insert (path_string rel) v f) g"
    "scanned mt fs base T g h" "\<forall>r\<in>T. hm_get fs (base @ r) \<noteq> None"
  shows "scanned mt fs base (entries_at fs base rel \<union> T) f h"
proof -
  have "scanned mt fs base ({rel} \<union> inside fs base rel) f g"
    by (rule scanned_trans [OF assms(1) scanned_insert assms(4)]) (use assms(2,3) in \<open>auto simp: inside_def\<close>)
  then show ?thesis unfolding entries_at_split [OF assms(2)]
    by (rule scanned_trans [OF assms(1) _ assms(5)]) (use assms(2,6) in \<open>auto simp: inside_def\<close>)
qed

lemma scan_correct:
  assumes "fs_ok fs" "\<And>p. \<not> deny p"
  shows "(is_dir_at fs (base @ rel) \<longrightarrow> (\<exists>files'. scan_dir mt deny fs base rel files = Inr files' \<and> scanned mt fs base (inside fs base rel) files files'))"
    and "((\<forall>n\<in>set ns. hm_get fs (base @ rel @ [n]) \<noteq> None) \<longrightarrow>
          (\<exists>files'. scan_entries mt deny fs base rel ns files = Inr files' \<and> scanned mt fs base (\<Union>n\<in>set ns. entries_at fs base (rel @ [n])) files files'))"
  using assms
proof (induction mt deny fs base rel files and mt deny fs base rel ns files rule: scan_dir_scan_entries.induct)
  case (1 mt deny fs base rel files)
  show ?case
  proof
    assume dir: "is_dir_at fs (base @ rel)"
    then have "fs_read_dir deny (base @ rel) fs = Inr (children fs (base @ rel))" and ex: "base @ rel = [] \<or> hm_get fs (base @ rel) \<noteq> None"
      using 1(3) by (auto simp: fs_read_dir_def is_dir_at_def)
    then show "\<exists>files'. scan_dir mt deny fs base rel files = Inr files' \<and> scanned mt fs base (inside fs base rel) files files'"
      using "1.IH" [OF _ _ 1(2,3)] ex children_iff [OF 1(2), of _ "base @ rel"] unfolding inside_children [OF 1(2)]
      by (auto simp: scan_dir.simps [of mt deny fs base rel files])
  qed
next
  case (2 mt deny fs base rel files)
  then show ?case by (simp add: scanned_def)
next
  case (3 mt deny fs base rel n ns files)
  let ?p = "rel @ [n]"
  let ?T = "\<Union>n\<in>set ns. entries_at fs base (rel @ [n])"
  have T: "\<forall>r\<in>?T. hm_get fs (base @ r) \<noteq> None" by (auto simp: entries_at_def)
  show ?case
  proof
    assume ex: "\<forall>m\<in>set (n # ns). hm_get fs (base @ rel @ [m]) \<noteq> None"
    then obtain e where e: "hm_get fs (base @ ?p) = Some e" by auto
    have goal: "scanned mt fs base (\<Union>m\<in>set (n # ns). entries_at fs base (rel @ [m])) files h"
      if "v = entry_info mt fs base ?p" "scanned mt fs base (inside fs base ?p) (hm_insert (path_string ?p) v files) g" "scanned mt fs base ?T g h" for v g h
      using scanned_entry [OF 3(4) _ that(1,2,3) T] e by simp
    show "\<exists>files'. scan_entries mt deny fs base rel (n # ns) files = Inr files'
      \<and> scanned mt fs base (\<Union>m\<in>set (n # ns). entries_at fs base (rel @ [m])) files files'"
    proof (cases e)
      case FsDir
      let ?v = "dir_info ?p (mt (base @ ?p))"
      have v: "?v = entry_info mt fs base ?p" using e FsDir by (simp add: entry_info_def)
      have "is_dir_at fs (base @ ?p)" using e FsDir by (simp add: is_dir_at_def)
      then obtain g where g: "scan_dir mt deny fs base ?p (hm_insert (path_string ?p) ?v files) = Inr g"
        "scanned mt fs base (inside fs base ?p) (hm_insert (path_string ?p) ?v files) g"
        using "3.IH"(1) [OF refl _ _ 3(4,5)] e FsDir by auto
      obtain h where h: "scan_entries mt deny fs base rel ns g = Inr h" "scanned mt fs base ?T g h"
        using "3.IH"(2) [OF refl e FsDir g(1) 3(4,5)] ex by auto
      show ?thesis using goal [OF v g(2) h(2)] e FsDir g(1) h(1) by simp
    next
      case (FsFile b)
      let ?v = "file_info ?p b (mt (base @ ?p))"
      have v: "?v = entry_info mt fs base ?p" using e FsFile by (simp add: entry_info_def)
      have i: "scanned mt fs base (inside fs base ?p) (hm_insert (path_string ?p) ?v files) (hm_insert (path_string ?p) ?v files)"
        using inside_file [OF 3(4), of base ?p] e FsFile by (simp add: scanned_def)
      obtain h where h: "scan_entries mt deny fs base rel ns (hm_insert (path_string ?p) ?v files) = Inr h"
        "scanned mt fs base ?T (hm_insert (path_string ?p) ?v files) h"
        using "3.IH"(3) [OF refl _ _ 3(4,5)] e FsFile ex by auto
      show ?thesis using goal [OF v i h(2)] e FsFile h(1) by simp
    qed
  qed
qed

text \<open>
  A scan of the directory is complete and exact: with a file system in order that refuses nothing, the scan succeeds, and afterwards the list holds, under
  its relative path, one entry for every file and directory below the base directory, with its kind, size, time and hash, and nothing else.
\<close>

theorem scan_directory_exact:
  assumes "fs_ok fs" "\<And>p. \<not> deny p" "resolve fs (fa_base_dir a) = Some base" "is_dir_at fs base"
  shows "fst (scan_directory mt deny fs now a) = Inr ()
    \<and> (\<forall>rel. rel \<noteq> [] \<and> hm_get fs (base @ rel) \<noteq> None \<longrightarrow>
         hm_get (fa_files (snd (scan_directory mt deny fs now a))) (path_string rel) = Some (entry_info mt fs base rel))
    \<and> (\<forall>k. hm_get (fa_files (snd (scan_directory mt deny fs now a))) k \<noteq> None \<longrightarrow>
         (\<exists>rel. rel \<noteq> [] \<and> hm_get fs (base @ rel) \<noteq> None \<and> k = path_string rel))"
proof -
  obtain files where f: "scan_dir mt deny fs base [] [] = Inr files" "scanned mt fs base (inside fs base []) [] files"
    using scan_correct(1) [where deny = deny and base = base and rel = "[]" and mt = mt and files = "[]", OF assms(1,2)] assms(4) by auto
  then have "scan_directory mt deny fs now a = (Inr (), a \<lparr> fa_files := files, fa_last_sync := now \<rparr>)"
    using assms(3) by (simp add: scan_directory_def)
  moreover have "\<exists>rel. rel \<noteq> [] \<and> hm_get fs (base @ rel) \<noteq> None \<and> k = path_string rel" if k: "hm_get files k \<noteq> None" for k
  proof -
    have "k \<in> path_string ` inside fs base []" using f(2) k unfolding scanned_def by (metis map_of.simps(1))
    then obtain r where "r \<in> inside fs base []" "k = path_string r" by blast
    then show ?thesis by (intro exI [of _ r]) (auto simp: inside_def)
  qed
  moreover have "hm_get files (path_string rel) = Some (entry_info mt fs base rel)" if "rel \<noteq> [] \<and> hm_get fs (base @ rel) \<noteq> None" for rel
    using f(2) that by (auto simp: scanned_def inside_def strict_prefix_def)
  ultimately show ?thesis by simp
qed

text \<open>A directory with a file and a subdirectory that holds another one.\<close>

definition demo_fs :: fsys where
  "demo_fs = [([''d''], FsDir), ([''d'', ''x''], FsFile [1, 2]), ([''d'', ''s''], FsDir), ([''d'', ''s'', ''y''], FsFile [])]"

lemma demo_fs_ok: "fs_ok demo_fs"
  unfolding fs_ok_def
proof (intro conjI allI impI)
  show "hm_ok demo_fs" by (simp add: demo_fs_def hm_ok_def)
  fix p e
  assume "hm_get demo_fs p = Some e"
  then have "p \<in> {[''d''], [''d'', ''x''], [''d'', ''s''], [''d'', ''s'', ''y'']}" by (auto simp: demo_fs_def split: if_splits)
  then show "p \<noteq> []" "is_dir_at demo_fs (butlast p)" "list_all name_ok p" by (auto simp: is_dir_at_def demo_fs_def name_ok_def)
qed

theorem scan_directory_exact_witness:
  "let a = FileSyncActor_new ''n'' [''d''] :: unit FileSyncActor;
       files = fa_files (snd (scan_directory (\<lambda>_. 5000) (\<lambda>_. False) demo_fs 9 a))
   in hm_get files ''s/y'' = Some \<lparr> fi_path = ''s/y'', fi_is_dir = False, fi_size = 0, fi_modified = 5000, fi_hash = Some ''0-5'' \<rparr>"
proof -
  let ?a = "FileSyncActor_new ''n'' [''d''] :: unit FileSyncActor"
  have r: "resolve demo_fs (fa_base_dir ?a) = Some [''d'']" "is_dir_at demo_fs [''d'']"
    by (simp_all add: resolve_def FileSyncActor_new_def is_dir_at_def demo_fs_def)
  have "hm_get demo_fs ([''d''] @ [''s'', ''y'']) = Some (FsFile [])" by (simp add: demo_fs_def)
  then have "hm_get (fa_files (snd (scan_directory (\<lambda>_. 5000) (\<lambda>_. False) demo_fs 9 ?a))) (path_string [''s'', ''y''])
    = Some (file_info [''s'', ''y''] [] 5000)"
    using scan_directory_exact [OF demo_fs_ok _ r, of "\<lambda>_. False" "\<lambda>_. 5000" 9] by (auto simp: entry_info_def)
  moreover have "char_of (48 :: nat) = CHR ''0''" "char_of (53 :: nat) = CHR ''5''" by code_simp+
  ultimately show ?thesis by (simp add: file_info_def show_nat.simps)
qed

section \<open>Reading what was written\<close>

lemma resolve_insert_file:
  assumes "\<not> is_dir_at fs q"
  shows "resolve_from (hm_insert q (FsFile b) fs) cur p = resolve_from fs cur p"
proof -
  have "is_dir_at (hm_insert q (FsFile b) fs) c = is_dir_at fs c" for c using assms by (auto simp: is_dir_at_def)
  then show ?thesis by (induction p arbitrary: cur) simp_all
qed

lemma read_after_write: "fs_write deny p content fs = Inr fs' \<Longrightarrow> fs_read deny p fs' = Inr content"
  by (auto simp: fs_write_def fs_read_def resolve_def resolve_insert_file is_dir_at_def split: option.splits if_splits)

text \<open>A file that was updated is returned by the next request for it, with the information and the content it was given.\<close>

theorem update_then_get:
  assumes "handle_UpdateFile deny info content fs a = (Inr True, fs', a')" "\<not> fi_is_dir info"
  shows "handle_GetFile deny fs' (fi_path info) a' = Inr \<lparr> fc_info = info, fc_content = content \<rparr>"
proof -
  let ?p = "trim_slashes (fi_path info)"
  have w: "sync_write_file deny fs ?p content a = (Inr (), fs')" and a': "a' = a \<lparr> fa_files := hm_insert ?p info (fa_files a) \<rparr>"
    using assms by (auto simp: handle_UpdateFile_def Let_def split: sum.splits prod.splits)
  obtain fs1 where "fs_write deny (path_join (fa_base_dir a) ?p) content fs1 = Inr fs'"
    using w by (auto simp: sync_write_file_def Let_def split: sum.splits prod.splits if_splits)
  then have "sync_read_file deny fs' ?p a' = Inr content" using read_after_write by (simp add: sync_read_file_def a')
  then show ?thesis using assms(2) by (simp add: handle_GetFile_def Let_def a')
qed

section \<open>What requests can touch\<close>

text \<open>Without \<^verbatim>\<open>..\<close> a path below a directory leads below it.\<close>

lemma resolve_below:
  "''..'' \<notin> set p \<Longrightarrow> resolve_from fs cur p = Some q \<Longrightarrow> q = cur @ p"
  by (induction p arbitrary: cur) (fastforce split: if_splits)+

lemma resolve_plain: "''..'' \<notin> set p \<Longrightarrow> resolve fs p = Some q \<Longrightarrow> q = p"
  using resolve_below [of p fs "[]" q] by (simp add: resolve_def)

definition same_outside :: "path \<Rightarrow> fsys \<Rightarrow> fsys \<Rightarrow> bool" where
  "same_outside base fs fs' \<longleftrightarrow> (\<forall>q. \<not> prefix base q \<longrightarrow> hm_get fs' q = hm_get fs q)"

lemma same_outside_refl [simp]: "same_outside base fs fs"
  by (simp add: same_outside_def)

lemma same_outside_trans: "same_outside base fs g \<Longrightarrow> same_outside base g h \<Longrightarrow> same_outside base fs h"
  by (simp add: same_outside_def)

lemma mkdir_outside:
  "''..'' \<notin> set p \<Longrightarrow> prefix base p \<Longrightarrow> fs_mkdir deny p fs = Inr fs' \<Longrightarrow> same_outside base fs fs'"
  by (auto simp: fs_mkdir_def same_outside_def dest!: resolve_plain split: option.splits if_splits)

text \<open>A directory that exists is found by the first attempt, so no directory above it is created.\<close>

lemma create_dir_all_outside:
  assumes "resolve fs base = Some base" "is_dir_at fs base" "''..'' \<notin> set p" "prefix base p"
  shows "same_outside base fs (snd (create_dir_all deny p fs)) \<and> resolve (snd (create_dir_all deny p fs)) base = Some base
    \<and> is_dir_at (snd (create_dir_all deny p fs)) base"
  using assms(3,4)
proof (induction "length p" arbitrary: p rule: less_induct)
  case less
  have keep: "resolve g base = Some base \<and> is_dir_at g base"
    if "fs_mkdir deny p f = Inr g" "resolve f base = Some base" "is_dir_at f base" for f g
  proof -
    have "is_dir_at f q \<Longrightarrow> is_dir_at g q" for q using that(1) by (auto simp: fs_mkdir_def is_dir_at_def split: option.splits if_splits)
    moreover have "resolve_from f c b = Some r \<Longrightarrow> resolve_from g c b = Some r" for c b r
      using calculation by (induction b arbitrary: c) (auto split: if_splits)
    ultimately show ?thesis using that by (simp add: resolve_def)
  qed
  show ?case
  proof (cases "fs_mkdir deny p fs")
    case (Inr fs')
    then show ?thesis using mkdir_outside [OF less.prems] keep [OF Inr assms(1,2)] by (simp add: create_dir_all.simps [of deny p fs])
  next
    case (Inl e)
    show ?thesis
    proof (cases "e = NotFound \<and> p \<noteq> []")
      case False
      then show ?thesis using Inl assms(1,2) by (auto simp: create_dir_all.simps [of deny p fs])
    next
      case True
      have "p \<noteq> base"
      proof
        assume "p = base"
        then have "fs_mkdir deny p fs = Inl AlreadyExists" using assms(1,2) by (auto simp: fs_mkdir_def is_dir_at_def)
        then show False using Inl True by simp
      qed
      then have b: "prefix base (butlast p)" "''..'' \<notin> set (butlast p)"
        using less.prems by (auto simp: prefix_def dest: in_set_butlastD) (metis butlast_append)
      obtain r fs1 where c: "create_dir_all deny (butlast p) fs = (r, fs1)" by force
      have ih: "same_outside base fs fs1" "resolve fs1 base = Some base" "is_dir_at fs1 base"
        using less.hyps [of "butlast p"] True b c by auto
      show ?thesis
        using Inl True c ih mkdir_outside [OF less.prems, of deny fs1] keep [of fs1]
        by (cases r; cases "fs_mkdir deny p fs1")
          (auto simp: create_dir_all.simps [of deny p fs] intro: same_outside_trans)
    qed
  qed
qed

lemma path_join_trimmed: "path_join base (trim_slashes s) = base @ components (trim_slashes s)"
  using hd_dropWhile [of "\<lambda>c. c = CHR ''/''" s] by (auto simp: path_join_def trim_slashes_def)

lemma write_outside: "''..'' \<notin> set p \<Longrightarrow> prefix base p \<Longrightarrow> fs_write deny p content fs = Inr fs' \<Longrightarrow> same_outside base fs fs'"
  by (auto simp: fs_write_def same_outside_def dest!: resolve_plain split: option.splits if_splits)

lemma remove_outside:
  assumes "''..'' \<notin> set p" "prefix base p"
  shows "fs_remove_file deny p fs = Inr fs' \<Longrightarrow> same_outside base fs fs'" "fs_remove_dir_all deny p fs = Inr fs' \<Longrightarrow> same_outside base fs fs'"
proof -
  show "fs_remove_file deny p fs = Inr fs' \<Longrightarrow> same_outside base fs fs'"
    using assms by (auto simp: fs_remove_file_def same_outside_def dest!: resolve_plain split: option.splits if_splits)
  have "map_of (filter (\<lambda>(r, _). \<not> prefix p r) fs) q = map_of fs q" if "\<not> prefix base q" for q
    using that assms(2) prefix_order.trans [of base p q] by (induction fs) auto
  then show "fs_remove_dir_all deny p fs = Inr fs' \<Longrightarrow> same_outside base fs fs'"
    using assms by (auto simp: fs_remove_dir_all_def same_outside_def dest!: resolve_plain split: option.splits if_splits)
qed

lemma resolve_snoc:
  "resolve_from fs cur (p @ [c]) =
     (case resolve_from fs cur p of
        None \<Rightarrow> None
      | Some r \<Rightarrow> if is_dir_at fs r then Some (if c = ''..'' then butlast r else r @ [c]) else None)"
  by (induction p arbitrary: cur) auto

lemma existing_parent:
  assumes "resolve fs p = Some q" "p \<noteq> []" "''..'' \<notin> set p"
  shows "create_dir_all deny (butlast p) fs = (Inr (), fs)"
proof -
  have "resolve_from fs [] (butlast p @ [last p]) = Some q" using assms(1,2) by (simp add: resolve_def)
  then obtain r where r: "resolve fs (butlast p) = Some r" "is_dir_at fs r" by (auto simp: resolve_snoc resolve_def split: option.splits if_splits)
  have "''..'' \<notin> set (butlast p)" using assms(3) by (auto dest: in_set_butlastD)
  then have "r = butlast p" using resolve_plain r(1) by blast
  then show ?thesis using r by (auto simp: create_dir_all.simps [of deny "butlast p" fs] fs_mkdir_def fs_is_dir_def is_dir_at_def)
qed

fun message_path :: "sync_message \<Rightarrow> path" where
  "message_path (UpdateFileMsg info content) = components (trim_slashes (fi_path info))"
| "message_path (DeleteFileMsg p) = components (trim_slashes p)"
| "message_path _ = []"

text \<open>
  A message whose path has no \<^verbatim>\<open>..\<close> changes nothing outside the base directory, as long as that directory exists and is itself given without \<^verbatim>\<open>..\<close>.
\<close>

theorem requests_stay_inside:
  assumes "is_dir_at fs (fa_base_dir a)" "resolve fs (fa_base_dir a) = Some (fa_base_dir a)" "''..'' \<notin> set (fa_base_dir a)" "''..'' \<notin> set (message_path m)"
  shows "same_outside (fa_base_dir a) fs (fst (sync_handle_AnyMessage deny m fs a))"
proof (cases m)
  case (UpdateFileMsg info content)
  let ?q = "fa_base_dir a @ message_path m"
  have q: "''..'' \<notin> set ?q" "prefix (fa_base_dir a) ?q" using assms(3,4) by simp_all
  have dirs: "same_outside (fa_base_dir a) fs (snd (create_dir_all deny r fs))" if "''..'' \<notin> set r" "prefix (fa_base_dir a) r" for r
    using create_dir_all_outside [OF assms(2,1) that] by blast
  show ?thesis
  proof (cases "fi_is_dir info")
    case True
    then show ?thesis using dirs [OF q] UpdateFileMsg
      by (auto simp: handle_UpdateFile_def create_directory_def path_join_trimmed Let_def split: sum.splits prod.splits)
  next
    case False
    obtain r fs1 where c: "(if ?q = [] then (Inr (), fs) else create_dir_all deny (butlast ?q) fs) = (r, fs1)" by force
    have fs1: "same_outside (fa_base_dir a) fs fs1"
    proof (cases "message_path m = [] \<and> ?q \<noteq> []")
      case True
      then show ?thesis using c existing_parent [OF assms(2) _ assms(3), of deny] by auto
    next
      case False
      then have "?q = [] \<or> prefix (fa_base_dir a) (butlast ?q)" by (auto simp: butlast_append)
      moreover have "''..'' \<notin> set (butlast ?q)" using q(1) in_set_butlastD by fast
      ultimately show ?thesis using c dirs [of "butlast ?q"] by (auto split: if_splits)
    qed
    have mp: "message_path m = components (trim_slashes (fi_path info))" using UpdateFileMsg by simp
    have w: "sync_write_file deny fs (trim_slashes (fi_path info)) content a =
      (case r of Inl e \<Rightarrow> (Inl e, fs1) | Inr _ \<Rightarrow> (case fs_write deny ?q content fs1 of Inl e \<Rightarrow> (Inl e, fs1) | Inr fs2 \<Rightarrow> (Inr (), fs2)))"
      using mp by (simp only: sync_write_file_def path_join_trimmed Let_def mp [symmetric] c prod.case)
    show ?thesis using fs1 write_outside [OF q, of deny content fs1] UpdateFileMsg False
      by (auto simp: handle_UpdateFile_def w Let_def split: sum.splits intro: same_outside_trans)
  qed
next
  case (DeleteFileMsg p)
  let ?q = "fa_base_dir a @ message_path m"
  have q: "''..'' \<notin> set ?q" "prefix (fa_base_dir a) ?q" using assms(3,4) by simp_all
  show ?thesis using DeleteFileMsg remove_outside [OF q] q
    by (auto simp: handle_DeleteFile_def delete_file_def path_join_trimmed Let_def split: sum.splits if_splits)
qed simp_all

text \<open>With \<^verbatim>\<open>..\<close> a request writes anywhere the process may write.\<close>

theorem update_escapes:
  "handle_UpdateFile (\<lambda>_. False) \<lparr> fi_path = ''../z'', fi_is_dir = False, fi_size = 1, fi_modified = 0, fi_hash = None \<rparr> [7] demo_fs
     (FileSyncActor_new ''n'' [''d''] :: unit FileSyncActor) =
   (Inr True, demo_fs @ [([''z''], FsFile [7])],
    (FileSyncActor_new ''n'' [''d'']) \<lparr> fa_files := [(''../z'', \<lparr> fi_path = ''../z'', fi_is_dir = False, fi_size = 1, fi_modified = 0, fi_hash = None \<rparr>)] \<rparr>)"
  by (simp add: handle_UpdateFile_def sync_write_file_def create_dir_all.simps fs_mkdir_def fs_is_dir_def fs_write_def resolve_def is_dir_at_def
      Let_def path_join_def components_def trim_slashes_def FileSyncActor_new_def demo_fs_def)

text \<open>A request to delete the path \<^verbatim>\<open>/\<close> deletes the base directory with everything in it.\<close>

theorem delete_root:
  "handle_DeleteFile (\<lambda>_. False) ''/'' demo_fs (FileSyncActor_new ''n'' [''d''] :: unit FileSyncActor) =
     (Inr True, [], FileSyncActor_new ''n'' [''d''])"
  by (simp add: handle_DeleteFile_def delete_file_def fs_is_dir_def fs_remove_dir_all_def resolve_def is_dir_at_def
      path_join_def components_def trim_slashes_def FileSyncActor_new_def demo_fs_def)

text \<open>The service does not synchronise: a request for synchronisation sends nothing and changes nothing.\<close>

theorem sync_does_nothing:
  "handle_SyncFiles node a = [] \<and> sync_handle_AnyMessage deny (SyncFilesMsg node) fs a = (fs, a)"
  by (simp add: handle_SyncFiles_def split: option.split)

text \<open>A node knows as peers exactly the other nodes among the nine names that the cluster finds.\<close>

theorem discovered_peers:
  "hm_get (fa_remote_actors (discover_peers lookup node_id (FileSyncActor_new node_id dir))) k =
     (if \<exists>i\<in>{1..<10}. k = ''node'' @ show_nat i \<and> k \<noteq> node_id then lookup (''/user/file-sync/'' @ k) else None)"
proof -
  let ?f = "\<lambda>a i. let target_id = ''node'' @ show_nat i
                  in if target_id = node_id then a
                     else case lookup (''/user/file-sync/'' @ target_id) of
                            Some remote_actor \<Rightarrow> sync_handle_SystemMessage (AddRemoteActor target_id remote_actor) a
                          | None \<Rightarrow> a"
  have "hm_get (fa_remote_actors (foldl ?f a is)) k =
      (if (\<exists>i\<in>set is. k = ''node'' @ show_nat i) \<and> k \<noteq> node_id \<and> lookup (''/user/file-sync/'' @ k) \<noteq> None
       then lookup (''/user/file-sync/'' @ k) else hm_get (fa_remote_actors a) k)" for a "is"
    by (induction "is" arbitrary: a) (auto simp: add_remote_actor_def Let_def split: option.splits)
  from this [of "FileSyncActor_new node_id dir" "[1..<10]"] show ?thesis
    by (auto simp: discover_peers_def FileSyncActor_new_def)
qed

end
