(* ===== verification/Example_Services.thy ===== *)
theory Example_Services
  imports State_Machine Cluster_Broker
begin

text \<open>
  Two services built on actors: the user service with its HTTP interface (\<^verbatim>\<open>examples/http_api/src/main.rs\<close>) and the chat system
  (\<^verbatim>\<open>examples/chat_system/src\<close>), rooms kept by a service actor and one actor per user. What an actor sends is part of its answer, and
  whether a send succeeds is an argument.
\<close>

section \<open>The user service\<close>

record User =
  us_id :: string
  us_name :: string
  us_email :: string
  us_created_at :: u64

text \<open>The counter of ids is not bounded here; it would take \<^verbatim>\<open>2 ^ 64\<close> users for the \<^verbatim>\<open>usize\<close> of the code to overflow.\<close>

record UserServiceActor =
  sv_node_id :: string
  sv_users :: "(string, User) hashmap"
  sv_next_id :: nat

definition UserServiceActor_new :: "string \<Rightarrow> UserServiceActor" where
  "UserServiceActor_new node_id = \<lparr> sv_node_id = node_id, sv_users = [], sv_next_id = 1 \<rparr>"

definition user_name :: "nat \<Rightarrow> string" where
  "user_name n = ''user-'' @ show_nat n"

definition handle_CreateUser :: "u64 \<Rightarrow> string \<Rightarrow> string \<Rightarrow> UserServiceActor \<Rightarrow> (string + User) \<times> UserServiceActor" where
  "handle_CreateUser now name email s =
     (let new_id = user_name (sv_next_id s);
          user = \<lparr> us_id = new_id, us_name = name, us_email = email, us_created_at = now \<rparr>
      in (Inr user, s \<lparr> sv_next_id := sv_next_id s + 1, sv_users := hm_insert new_id user (sv_users s) \<rparr>))"

definition handle_GetUser :: "string \<Rightarrow> UserServiceActor \<Rightarrow> string + User" where
  "handle_GetUser i s = (case hm_get (sv_users s) i of Some user \<Rightarrow> Inr user | None \<Rightarrow> Inl (''User not found: '' @ i))"

definition handle_ListUsers :: "UserServiceActor \<Rightarrow> string + User list" where
  "handle_ListUsers s = Inr (hm_values (sv_users s))"

definition handle_DeleteUser :: "string \<Rightarrow> UserServiceActor \<Rightarrow> (string + bool) \<times> UserServiceActor" where
  "handle_DeleteUser i s =
     (if hm_contains (sv_users s) i then (Inr True, s \<lparr> sv_users := hm_remove i (sv_users s) \<rparr>)
      else (Inl (''User not found: '' @ i), s \<lparr> sv_users := hm_remove i (sv_users s) \<rparr>))"

datatype user_message = CreateUser string string | GetUser string | ListUsers | DeleteUser string | UnknownUserMsg

fun users_handle_AnyMessage :: "u64 \<Rightarrow> user_message \<Rightarrow> UserServiceActor \<Rightarrow> UserServiceActor" where
  "users_handle_AnyMessage now (CreateUser name email) s = snd (handle_CreateUser now name email s)"
| "users_handle_AnyMessage now (DeleteUser i) s = snd (handle_DeleteUser i s)"
| "users_handle_AnyMessage now _ s = s"

subsection \<open>Over HTTP\<close>

datatype http_body = JsonUser User | JsonUsers "User list" | Text string | JsonHealth "(string \<times> string) list" u64 | NoBody

record HttpReply =
  hr_status :: nat
  hr_body :: http_body

abbreviation http :: "nat \<Rightarrow> http_body \<Rightarrow> HttpReply" where
  "http status body \<equiv> \<lparr> hr_status = status, hr_body = body \<rparr>"

text \<open>The answer to a request is the one of the actor, or the error of its mailbox.\<close>

definition create_user :: "(MailboxError + string + User) \<Rightarrow> HttpReply" where
  "create_user answer =
     (case answer of
        Inr (Inr user) \<Rightarrow> http 200 (JsonUser user)
      | Inr (Inl e) \<Rightarrow> http 500 (Text e)
      | Inl e \<Rightarrow> http 500 (Text (mailbox_error_text e)))"

definition get_user :: "(MailboxError + string + User) \<Rightarrow> HttpReply" where
  "get_user answer =
     (case answer of
        Inr (Inr user) \<Rightarrow> http 200 (JsonUser user)
      | Inr (Inl e) \<Rightarrow> http 404 (Text e)
      | Inl e \<Rightarrow> http 500 (Text (mailbox_error_text e)))"

definition list_users :: "(MailboxError + string + User list) \<Rightarrow> HttpReply" where
  "list_users answer =
     (case answer of
        Inr (Inr users) \<Rightarrow> http 200 (JsonUsers users)
      | Inr (Inl e) \<Rightarrow> http 500 (Text e)
      | Inl e \<Rightarrow> http 500 (Text (mailbox_error_text e)))"

definition delete_user :: "(MailboxError + string + bool) \<Rightarrow> HttpReply" where
  "delete_user answer =
     (case answer of
        Inr (Inr _) \<Rightarrow> http 204 NoBody
      | Inr (Inl e) \<Rightarrow> http 404 (Text e)
      | Inl e \<Rightarrow> http 500 (Text (mailbox_error_text e)))"

definition health :: "u64 \<Rightarrow> bool \<Rightarrow> bool \<Rightarrow> HttpReply" where
  "health now alive cluster_up =
     (if alive then
        (if cluster_up then http 200 (JsonHealth [(''status'', ''healthy''), (''cluster'', ''connected'')] now)
         else http 503 (JsonHealth [(''status'', ''degraded''), (''cluster'', ''disconnected'')] now))
      else http 503 (JsonHealth [(''status'', ''unhealthy''), (''user_service'', ''disconnected'')] now))"

text \<open>The routes below \<^verbatim>\<open>/api\<close>, with the actor alive.\<close>

datatype user_request = PostUsers string string | ListUsersReq | GetUserReq string | DeleteUserReq string

fun serve_user :: "u64 \<Rightarrow> user_request \<Rightarrow> UserServiceActor \<Rightarrow> HttpReply \<times> UserServiceActor" where
  "serve_user now (PostUsers name email) s = (let (r, s') = handle_CreateUser now name email s in (create_user (Inr r), s'))"
| "serve_user now ListUsersReq s = (list_users (Inr (handle_ListUsers s)), s)"
| "serve_user now (GetUserReq i) s = (get_user (Inr (handle_GetUser i s)), s)"
| "serve_user now (DeleteUserReq i) s = (let (r, s') = handle_DeleteUser i s in (delete_user (Inr r), s'))"

section \<open>Chat rooms\<close>

record ChatMessage =
  cm_from :: string
  cm_room :: string
  cm_content :: string
  cm_timestamp :: u64

record JoinRoom =
  jr_user_id :: string
  jr_room :: string

record LeaveRoom =
  lr_user_id :: string
  lr_room :: string

text \<open>A \<^verbatim>\<open>HashSet\<close> is a list without repetition.\<close>

record 'r ChatServiceActor =
  ca_node_id :: string
  ca_rooms :: "(string, string list) hashmap"
  ca_users :: "(string, 'r) hashmap"

definition ChatServiceActor_new :: "string \<Rightarrow> 'r ChatServiceActor" where
  "ChatServiceActor_new node_id = \<lparr> ca_node_id = node_id, ca_rooms = [], ca_users = [] \<rparr>"

definition register_user :: "string \<Rightarrow> 'r \<Rightarrow> 'r ChatServiceActor \<Rightarrow> 'r ChatServiceActor" where
  "register_user user_id user_ref c = c \<lparr> ca_users := hm_insert user_id user_ref (ca_users c) \<rparr>"

definition unregister_user :: "string \<Rightarrow> 'r ChatServiceActor \<Rightarrow> 'r ChatServiceActor" where
  "unregister_user user_id c =
     (let rooms = map (\<lambda>(room, users). (room, removeAll user_id users)) (ca_rooms c)
      in c \<lparr> ca_users := hm_remove user_id (ca_users c), ca_rooms := filter (\<lambda>(_, users). users \<noteq> []) rooms \<rparr>)"

text \<open>The messages passed on, each with the reference of the actor it goes to.\<close>

definition chat_handle_ChatMessage :: "ChatMessage \<Rightarrow> 'r ChatServiceActor \<Rightarrow> ('r \<times> ChatMessage) list" where
  "chat_handle_ChatMessage msg c =
     (case hm_get (ca_rooms c) (cm_room msg) of
        Some users \<Rightarrow>
          concat (map (\<lambda>user_id. case hm_get (ca_users c) user_id of
                        Some user_ref \<Rightarrow> if user_id \<noteq> cm_from msg then [(user_ref, msg)] else []
                      | None \<Rightarrow> []) users)
      | None \<Rightarrow> [])"

definition chat_handle_JoinRoom :: "u64 \<Rightarrow> JoinRoom \<Rightarrow> 'r ChatServiceActor \<Rightarrow> ('r \<times> ChatMessage) list \<times> 'r ChatServiceActor" where
  "chat_handle_JoinRoom now msg c =
     (let room_users = (case hm_get (ca_rooms c) (jr_room msg) of Some users \<Rightarrow> users | None \<Rightarrow> []);
          c1 = c \<lparr> ca_rooms := hm_insert (jr_room msg) (if jr_user_id msg \<in> set room_users then room_users else room_users @ [jr_user_id msg]) (ca_rooms c) \<rparr>;
          join_notification = \<lparr> cm_from = ''SYSTEM'', cm_room = jr_room msg, cm_content = jr_user_id msg @ '' has joined the room'', cm_timestamp = now \<rparr>
      in (chat_handle_ChatMessage join_notification c1, c1))"

definition chat_handle_LeaveRoom :: "u64 \<Rightarrow> LeaveRoom \<Rightarrow> 'r ChatServiceActor \<Rightarrow> ('r \<times> ChatMessage) list \<times> 'r ChatServiceActor" where
  "chat_handle_LeaveRoom now msg c =
     (case hm_get (ca_rooms c) (lr_room msg) of
        None \<Rightarrow> ([], c)
      | Some users \<Rightarrow>
          (let room_users = removeAll (lr_user_id msg) users
           in if room_users = [] then ([], c \<lparr> ca_rooms := hm_remove (lr_room msg) (ca_rooms c) \<rparr>)
              else (let c1 = c \<lparr> ca_rooms := hm_insert (lr_room msg) room_users (ca_rooms c) \<rparr>;
                        leave_notification = \<lparr> cm_from = ''SYSTEM'', cm_room = lr_room msg, cm_content = lr_user_id msg @ '' has left the room'', cm_timestamp = now \<rparr>
                    in (chat_handle_ChatMessage leave_notification c1, c1))))"

definition handle_GetRoomUsers :: "string \<Rightarrow> 'r ChatServiceActor \<Rightarrow> string list" where
  "handle_GetRoomUsers room c = (case hm_get (ca_rooms c) room of Some users \<Rightarrow> users | None \<Rightarrow> [])"

definition handle_GetAllRooms :: "'r ChatServiceActor \<Rightarrow> string list" where
  "handle_GetAllRooms c = hm_keys (ca_rooms c)"

subsection \<open>The actor of a user\<close>

record UserActor =
  ua_user_id :: string
  ua_node_id :: string
  ua_current_rooms :: "string list"

text \<open>What reaches the service from a user.\<close>

datatype room_message = Join JoinRoom | Leave LeaveRoom

definition UserActor_new :: "string \<Rightarrow> string \<Rightarrow> UserActor" where
  "UserActor_new user_id node_id = \<lparr> ua_user_id = user_id, ua_node_id = node_id, ua_current_rooms = [] \<rparr>"

definition user_stopping :: "UserActor \<Rightarrow> room_message list" where
  "user_stopping u = map (\<lambda>room. Leave \<lparr> lr_user_id = ua_user_id u, lr_room = room \<rparr>) (ua_current_rooms u)"

text \<open>Messages of the chat are only logged.\<close>

definition user_handle_ChatMessage :: "ChatMessage \<Rightarrow> UserActor \<Rightarrow> UserActor" where
  "user_handle_ChatMessage msg u = u"

definition user_handle_JoinRoom :: "bool \<Rightarrow> JoinRoom \<Rightarrow> UserActor \<Rightarrow> room_message list \<times> UserActor" where
  "user_handle_JoinRoom sent msg u =
     (if jr_room msg \<in> set (ua_current_rooms u) then ([], u)
      else (let u1 = u \<lparr> ua_current_rooms := ua_current_rooms u @ [jr_room msg] \<rparr>;
                join_msg = Join \<lparr> jr_user_id = ua_user_id u, jr_room = jr_room msg \<rparr>
            in if sent then ([join_msg], u1) else ([], u1 \<lparr> ua_current_rooms := filter (\<lambda>r. r \<noteq> jr_room msg) (ua_current_rooms u1) \<rparr>)))"

definition user_handle_LeaveRoom :: "bool \<Rightarrow> LeaveRoom \<Rightarrow> UserActor \<Rightarrow> room_message list \<times> UserActor" where
  "user_handle_LeaveRoom sent msg u =
     (if sent then [Leave \<lparr> lr_user_id = ua_user_id u, lr_room = lr_room msg \<rparr>] else [],
      u \<lparr> ua_current_rooms := filter (\<lambda>r. r \<noteq> lr_room msg) (ua_current_rooms u) \<rparr>)"

subsection \<open>Simulated clients\<close>

definition client_join_room :: "string \<Rightarrow> string \<Rightarrow> JoinRoom" where
  "client_join_room user_id room = \<lparr> jr_user_id = user_id, jr_room = room \<rparr>"

definition client_leave_room :: "string \<Rightarrow> string \<Rightarrow> LeaveRoom" where
  "client_leave_room user_id room = \<lparr> lr_user_id = user_id, lr_room = room \<rparr>"

definition client_send_message :: "u64 \<Rightarrow> string \<Rightarrow> string \<Rightarrow> string \<Rightarrow> ChatMessage" where
  "client_send_message now user_id room content = \<lparr> cm_from = user_id, cm_room = room, cm_content = content, cm_timestamp = now \<rparr>"

text \<open>The five users a node creates, each with the messages its client sends.\<close>

definition demo_users :: "string \<Rightarrow> (UserActor \<times> JoinRoom list) list" where
  "demo_users node_id =
     map (\<lambda>i. let user_id = ''user'' @ show_nat i
              in (UserActor_new user_id node_id,
                  client_join_room user_id ''general'' # (if i mod 2 = 0 then [client_join_room user_id ''random''] else []))) [1..<6]"

section \<open>Users over HTTP\<close>

definition users_ok :: "UserServiceActor \<Rightarrow> bool" where
  "users_ok s \<longleftrightarrow> hm_ok (sv_users s) \<and>
     (\<forall>(i, u)\<in>set (sv_users s). us_id u = i \<and> (\<exists>n. i = user_name n \<and> n < sv_next_id s))"

lemma user_name_inject [simp]: "user_name m = user_name n \<longleftrightarrow> m = n"
  by (simp add: user_name_def show_nat_inject)

lemma users_ok_new: "users_ok (UserServiceActor_new node_id)"
  by (simp add: users_ok_def UserServiceActor_new_def)

lemma users_ok_fresh: "users_ok s \<Longrightarrow> hm_get (sv_users s) (user_name (sv_next_id s)) = None"
  by (rule ccontr) (auto simp: users_ok_def dest!: map_of_SomeD)

lemma users_ok_create:
  assumes "users_ok s"
  shows "users_ok (snd (handle_CreateUser now name email s))"
proof -
  have ok: "hm_ok (sv_users s)" and old: "\<And>i u. (i, u) \<in> set (sv_users s) \<Longrightarrow> us_id u = i \<and> (\<exists>n. i = user_name n \<and> n < sv_next_id s)"
    using assms by (auto simp: users_ok_def)
  show ?thesis
    unfolding users_ok_def handle_CreateUser_def Let_def
    using ok by (auto simp: set_hm_insert_ok dest!: old intro: less_SucI)
qed

lemma users_ok_delete: "users_ok s \<Longrightarrow> users_ok (snd (handle_DeleteUser i s))"
  by (auto simp: users_ok_def handle_DeleteUser_def set_hm_remove)

lemma users_ok_serve: "users_ok s \<Longrightarrow> users_ok (snd (serve_user now r s))"
  using users_ok_create users_ok_delete by (cases r) (auto simp: case_prod_unfold Let_def)

text \<open>What one request does to the user of a number already given out.\<close>

lemma serve_user_keeps:
  assumes "n < sv_next_id s"
  shows "n < sv_next_id (snd (serve_user now r s))"
    and "hm_get (sv_users (snd (serve_user now r s))) (user_name n) =
           (if r = DeleteUserReq (user_name n) then None else hm_get (sv_users s) (user_name n))"
  using assms
  by (cases r; simp add: handle_CreateUser_def handle_DeleteUser_def Let_def)+

fun serve_all :: "(u64 \<times> user_request) list \<Rightarrow> UserServiceActor \<Rightarrow> UserServiceActor" where
  "serve_all [] s = s"
| "serve_all ((now, r) # rs) s = serve_all rs (snd (serve_user now r s))"

lemma users_ok_serve_all: "users_ok s \<Longrightarrow> users_ok (serve_all rs s)"
  by (induction rs s rule: serve_all.induct) (auto intro: users_ok_serve)

lemma serve_all_keeps:
  assumes "n < sv_next_id s"
  shows "hm_get (sv_users (serve_all rs s)) (user_name n) =
           (if DeleteUserReq (user_name n) \<in> snd ` set rs then None else hm_get (sv_users s) (user_name n))"
  using assms by (induction rs s rule: serve_all.induct) (simp_all add: serve_user_keeps del: serve_user.simps)

text \<open>
  The life of a user: creating one never replaces another; after any further requests it is found unchanged, unless one of
  them deleted it, and then it is gone for good, since its id is not given out again.
\<close>

theorem user_life:
  assumes "users_ok s" and "serve_user now (PostUsers name email) s = (http 200 (JsonUser u), s1)"
  shows "us_name u = name \<and> us_email u = email \<and> hm_get (sv_users s) (us_id u) = None"
    and "fst (serve_user now' (GetUserReq (us_id u)) (serve_all rs s1)) =
           (if DeleteUserReq (us_id u) \<in> snd ` set rs then http 404 (Text (''User not found: '' @ us_id u)) else http 200 (JsonUser u))"
proof -
  have u: "us_id u = user_name (sv_next_id s)" "us_name u = name" "us_email u = email"
    and s1: "hm_get (sv_users s1) (us_id u) = Some u" "sv_next_id s1 = Suc (sv_next_id s)"
    using assms(2) by (auto simp: handle_CreateUser_def create_user_def Let_def)
  then show "us_name u = name \<and> us_email u = email \<and> hm_get (sv_users s) (us_id u) = None"
    using assms(1) by (simp add: users_ok_fresh)
  have "hm_get (sv_users (serve_all rs s1)) (us_id u) = (if DeleteUserReq (us_id u) \<in> snd ` set rs then None else Some u)"
    using serve_all_keeps[of "sv_next_id s" s1 rs] u s1 by simp
  then show "fst (serve_user now' (GetUserReq (us_id u)) (serve_all rs s1)) =
           (if DeleteUserReq (us_id u) \<in> snd ` set rs then http 404 (Text (''User not found: '' @ us_id u)) else http 200 (JsonUser u))"
    by (simp add: get_user_def handle_GetUser_def)
qed

text \<open>A deletion answers 204 exactly for the users the listing holds, 404 for all others.\<close>

lemma delete_status:
  assumes "users_ok s"
  shows "hr_status (fst (serve_user now (DeleteUserReq i) s)) = (if i \<in> us_id ` set (hm_values (sv_users s)) then 204 else 404)"
proof -
  have "hm_contains (sv_users s) i \<longleftrightarrow> i \<in> fst ` set (sv_users s)"
    by (simp add: map_of_eq_None_iff)
  also have "fst ` set (sv_users s) = us_id ` snd ` set (sv_users s)"
    using assms by (force simp: users_ok_def image_image image_iff)
  finally show ?thesis
    by (auto simp: handle_DeleteUser_def delete_user_def)
qed

text \<open>A message from the cluster changes the service as the request with the same content does.\<close>

lemma any_message_as_request:
  "users_handle_AnyMessage now (CreateUser name email) s = snd (serve_user now (PostUsers name email) s)"
  "users_handle_AnyMessage now (DeleteUser i) s = snd (serve_user now (DeleteUserReq i) s)"
  "users_handle_AnyMessage now (GetUser i) s = snd (serve_user now (GetUserReq i) s)"
  "users_handle_AnyMessage now ListUsers s = snd (serve_user now ListUsersReq s)"
  by (simp_all add: case_prod_unfold Let_def)

section \<open>Rooms and their members\<close>

abbreviation members :: "'r ChatServiceActor \<Rightarrow> string \<Rightarrow> string set" where
  "members c room \<equiv> set (handle_GetRoomUsers room c)"

fun room_ok :: "string list option \<Rightarrow> bool" where
  "room_ok None = True"
| "room_ok (Some users) = (users \<noteq> [] \<and> distinct users)"

definition rooms_ok :: "'r ChatServiceActor \<Rightarrow> bool" where
  "rooms_ok c \<longleftrightarrow> hm_ok (ca_rooms c) \<and> (\<forall>room. room_ok (hm_get (ca_rooms c) room))"

lemma rooms_ok_new: "rooms_ok (ChatServiceActor_new node_id)"
  by (simp add: rooms_ok_def ChatServiceActor_new_def)

lemma rooms_okD: "rooms_ok c \<Longrightarrow> room_ok (hm_get (ca_rooms c) room)"
  by (simp add: rooms_ok_def)

lemma rooms_ok_register: "rooms_ok (register_user i ref c) \<longleftrightarrow> rooms_ok c"
  by (simp add: rooms_ok_def register_user_def)

lemma rooms_ok_join: "rooms_ok c \<Longrightarrow> rooms_ok (snd (chat_handle_JoinRoom now msg c))"
  using rooms_okD[of c "jr_room msg"]
  by (cases "hm_get (ca_rooms c) (jr_room msg)") (simp_all add: rooms_ok_def chat_handle_JoinRoom_def Let_def)

lemma distinct_removeAll': "distinct xs \<Longrightarrow> distinct (removeAll x xs)"
  by (simp add: removeAll_filter_not_eq)

lemma rooms_ok_leave: "rooms_ok c \<Longrightarrow> rooms_ok (snd (chat_handle_LeaveRoom now msg c))"
  using rooms_okD[of c "lr_room msg"]
  by (cases "hm_get (ca_rooms c) (lr_room msg)") (simp_all add: rooms_ok_def chat_handle_LeaveRoom_def Let_def distinct_removeAll')

lemma unregister_rooms:
  assumes "rooms_ok c"
  shows "hm_ok (ca_rooms (unregister_user i c))"
    and "hm_get (ca_rooms (unregister_user i c)) room =
           (case hm_get (ca_rooms c) room of
              Some users \<Rightarrow> if removeAll i users = [] then None else Some (removeAll i users) | None \<Rightarrow> None)"
proof -
  let ?rooms = "map (\<lambda>(room, users). (room, removeAll i users)) (ca_rooms c)"
  have ok: "hm_ok ?rooms"
    using assms by (simp add: rooms_ok_def hm_ok_def comp_def case_prod_unfold)
  show "hm_ok (ca_rooms (unregister_user i c))"
    using ok by (simp add: unregister_user_def Let_def hm_ok_filter)
  have "hm_get ?rooms room = map_option (removeAll i) (hm_get (ca_rooms c) room)"
    by (rule hm_get_map_snd)
  then show "hm_get (ca_rooms (unregister_user i c)) room =
           (case hm_get (ca_rooms c) room of
              Some users \<Rightarrow> if removeAll i users = [] then None else Some (removeAll i users) | None \<Rightarrow> None)"
    using hm_get_filter[OF ok, of "\<lambda>(_, users). users \<noteq> []" room]
    by (simp add: unregister_user_def Let_def split: option.splits)
qed

lemma rooms_ok_unregister:
  assumes "rooms_ok c"
  shows "rooms_ok (unregister_user i c)"
proof -
  have "room_ok (hm_get (ca_rooms (unregister_user i c)) room)" for room
    using rooms_okD[OF assms, of room]
    by (cases "hm_get (ca_rooms c) room") (simp_all add: unregister_rooms[OF assms] distinct_removeAll')
  then show ?thesis
    using unregister_rooms(1)[OF assms] by (simp add: rooms_ok_def)
qed

text \<open>The operations on the rooms are those on the relation of membership.\<close>

lemma members_new: "members (ChatServiceActor_new node_id) = (\<lambda>_. {})"
  by (simp add: handle_GetRoomUsers_def ChatServiceActor_new_def)

lemma members_register: "members (register_user i ref c) = members c"
  by (simp add: handle_GetRoomUsers_def register_user_def)

lemma members_join:
  "members (snd (chat_handle_JoinRoom now msg c)) = (members c)(jr_room msg := insert (jr_user_id msg) (members c (jr_room msg)))"
  by (rule ext) (auto simp: handle_GetRoomUsers_def chat_handle_JoinRoom_def Let_def split: option.splits)

lemma members_leave:
  "members (snd (chat_handle_LeaveRoom now msg c)) = (members c)(lr_room msg := members c (lr_room msg) - {lr_user_id msg})"
  by (rule ext) (auto simp: handle_GetRoomUsers_def chat_handle_LeaveRoom_def Let_def removeAll_filter_not_eq filter_empty_conv split: option.splits)

lemma members_unregister: "rooms_ok c \<Longrightarrow> members (unregister_user i c) room = members c room - {i}"
  by (auto simp: handle_GetRoomUsers_def unregister_rooms removeAll_filter_not_eq filter_empty_conv split: option.splits)

lemma all_rooms_inhabited: "rooms_ok c \<Longrightarrow> set (handle_GetAllRooms c) = {room. members c room \<noteq> {}}"
proof -
  assume ok: "rooms_ok c"
  have "set (handle_GetAllRooms c) = dom (hm_get (ca_rooms c))"
    by (simp add: handle_GetAllRooms_def dom_map_of_conv_image_fst)
  also have "\<dots> = {room. members c room \<noteq> {}}"
  proof -
    have "room \<in> dom (hm_get (ca_rooms c)) \<longleftrightarrow> members c room \<noteq> {}" for room
      using rooms_okD[OF ok, of room] by (cases "hm_get (ca_rooms c) room") (auto simp: handle_GetRoomUsers_def)
    then show ?thesis by blast
  qed
  finally show ?thesis .
qed

text \<open>A message goes exactly once to each registered member of its room, the sender excepted.\<close>

lemma concat_filter_map: "concat (map (\<lambda>x. case f x of Some y \<Rightarrow> if P x then [g y] else [] | None \<Rightarrow> []) xs) = map (\<lambda>x. g (the (f x))) (filter (\<lambda>x. P x \<and> f x \<noteq> None) xs)"
  by (induction xs) (auto split: option.splits)

theorem delivered_once:
  assumes "rooms_ok c"
  obtains receivers where "distinct receivers"
    and "set receivers = (members c (cm_room msg) \<inter> dom (hm_get (ca_users c))) - {cm_from msg}"
    and "chat_handle_ChatMessage msg c = map (\<lambda>i. (the (hm_get (ca_users c) i), msg)) receivers"
proof
  let ?rs = "filter (\<lambda>i. i \<noteq> cm_from msg \<and> hm_get (ca_users c) i \<noteq> None) (handle_GetRoomUsers (cm_room msg) c)"
  show "distinct ?rs"
    using rooms_okD[OF assms, of "cm_room msg"]
    by (cases "hm_get (ca_rooms c) (cm_room msg)") (simp_all add: handle_GetRoomUsers_def)
  show "set ?rs = (members c (cm_room msg) \<inter> dom (hm_get (ca_users c))) - {cm_from msg}"
    by auto
  show "chat_handle_ChatMessage msg c = map (\<lambda>i. (the (hm_get (ca_users c) i), msg)) ?rs"
    by (simp add: chat_handle_ChatMessage_def handle_GetRoomUsers_def concat_filter_map split: option.splits)
qed

text \<open>
  No handler of the service registers a user, so in the program, where the service receives messages only, the table of
  users stays empty and nothing is ever delivered.
\<close>

lemma handlers_keep_users:
  "ca_users (snd (chat_handle_JoinRoom now jm c)) = ca_users c"
  "ca_users (snd (chat_handle_LeaveRoom now lm c)) = ca_users c"
  by (auto simp: chat_handle_JoinRoom_def chat_handle_LeaveRoom_def Let_def split: option.splits)

lemma nobody_registered: "ca_users c = [] \<Longrightarrow> chat_handle_ChatMessage msg c = []"
  by (simp add: chat_handle_ChatMessage_def split: option.splits)

section \<open>Users and the service\<close>

text \<open>
  The actors of the users, the service and the messages in its mailbox. A user joins and leaves rooms on request of its
  client, and leaves all when it stops; the service takes its messages in order. A step of a user may fail to send a join;
  that a leave fails is possible only where \<^verbatim>\<open>lossy\<close> says so.
\<close>

record 'r chat_world =
  cw_users :: "(string, UserActor) hashmap"
  cw_mail :: "room_message list"
  cw_service :: "'r ChatServiceActor"

fun service_handle :: "u64 \<Rightarrow> room_message \<Rightarrow> 'r ChatServiceActor \<Rightarrow> 'r ChatServiceActor" where
  "service_handle now (Join msg) c = snd (chat_handle_JoinRoom now msg c)"
| "service_handle now (Leave msg) c = snd (chat_handle_LeaveRoom now msg c)"

definition chat_init :: "string \<Rightarrow> 'r chat_world" where
  "chat_init node_id = \<lparr> cw_users = [], cw_mail = [], cw_service = ChatServiceActor_new node_id \<rparr>"

inductive chat_step :: "bool \<Rightarrow> 'r chat_world \<Rightarrow> 'r chat_world \<Rightarrow> bool" for lossy where
  user_starts: "hm_get (cw_users w) i = None \<Longrightarrow> chat_step lossy w (w \<lparr> cw_users := hm_insert i (UserActor_new i node_id) (cw_users w) \<rparr>)"
| user_joins: "hm_get (cw_users w) i = Some u \<Longrightarrow> user_handle_JoinRoom sent msg u = (out, u')
    \<Longrightarrow> chat_step lossy w (w \<lparr> cw_users := hm_insert i u' (cw_users w), cw_mail := cw_mail w @ out \<rparr>)"
| user_leaves: "hm_get (cw_users w) i = Some u \<Longrightarrow> sent \<or> lossy \<Longrightarrow> user_handle_LeaveRoom sent msg u = (out, u')
    \<Longrightarrow> chat_step lossy w (w \<lparr> cw_users := hm_insert i u' (cw_users w), cw_mail := cw_mail w @ out \<rparr>)"
| user_stops: "hm_get (cw_users w) i = Some u
    \<Longrightarrow> chat_step lossy w (w \<lparr> cw_users := hm_remove i (cw_users w), cw_mail := cw_mail w @ user_stopping u \<rparr>)"
| service_takes: "cw_mail w = m # ms
    \<Longrightarrow> chat_step lossy w (w \<lparr> cw_mail := ms, cw_service := service_handle now m (cw_service w) \<rparr>)"

text \<open>What a message does to the relation of membership, and the relation once all waiting messages are taken.\<close>

fun room_effect :: "room_message \<Rightarrow> (string \<Rightarrow> string set) \<Rightarrow> string \<Rightarrow> string set" where
  "room_effect (Join msg) R = R(jr_room msg := insert (jr_user_id msg) (R (jr_room msg)))"
| "room_effect (Leave msg) R = R(lr_room msg := R (lr_room msg) - {lr_user_id msg})"

definition settled :: "'r chat_world \<Rightarrow> string \<Rightarrow> string set" where
  "settled w = fold room_effect (cw_mail w) (members (cw_service w))"

lemma service_refines: "members (service_handle now m c) = room_effect m (members c)"
  by (cases m) (simp_all add: members_join members_leave)

definition claimed :: "'r chat_world \<Rightarrow> string \<Rightarrow> string set" where
  "claimed w room = {i. \<exists>u. hm_get (cw_users w) i = Some u \<and> room \<in> set (ua_current_rooms u)}"

definition named_users :: "'r chat_world \<Rightarrow> bool" where
  "named_users w \<longleftrightarrow> (\<forall>i u. hm_get (cw_users w) i = Some u \<longrightarrow> ua_user_id u = i)"

lemma stopping_effect:
  "fold room_effect (user_stopping u) R room = (if room \<in> set (ua_current_rooms u) then R room - {ua_user_id u} else R room)"
proof -
  have "fold room_effect (map (\<lambda>room. Leave \<lparr> lr_user_id = i, lr_room = room \<rparr>) rooms) R room
      = (if room \<in> set rooms then R room - {i} else R room)" for i rooms
    by (induction rooms arbitrary: R) auto
  then show ?thesis
    by (simp add: user_stopping_def)
qed

lemma join_claims:
  assumes "hm_get (cw_users w) i = Some u" "ua_user_id u = i" "user_handle_JoinRoom sent msg u = (out, u')"
  shows "ua_user_id u' = i"
    and "claimed (w \<lparr> cw_users := hm_insert i u' (cw_users w), cw_mail := ms \<rparr>) = fold room_effect out (claimed w)"
  using assms by (auto simp: user_handle_JoinRoom_def Let_def claimed_def fun_eq_iff split: if_splits)

lemma leave_claims:
  assumes "hm_get (cw_users w) i = Some u" "ua_user_id u = i" "user_handle_LeaveRoom True msg u = (out, u')"
  shows "ua_user_id u' = i"
    and "claimed (w \<lparr> cw_users := hm_insert i u' (cw_users w), cw_mail := ms \<rparr>) = fold room_effect out (claimed w)"
  using assms by (auto simp: user_handle_LeaveRoom_def claimed_def fun_eq_iff split: if_splits)

lemma stop_claims:
  assumes "hm_get (cw_users w) i = Some u" "ua_user_id u = i"
  shows "claimed (w \<lparr> cw_users := hm_remove i (cw_users w), cw_mail := ms \<rparr>) = fold room_effect (user_stopping u) (claimed w)"
  using assms by (auto simp: claimed_def stopping_effect fun_eq_iff)

text \<open>
  The actors of the users and the service agree: once the waiting messages are taken, a user is a member of exactly the rooms
  on the list of its actor, and a user without an actor is in none.
\<close>

definition rooms_agree :: "'r chat_world \<Rightarrow> bool" where
  "rooms_agree w \<longleftrightarrow> named_users w \<and> rooms_ok (cw_service w) \<and> settled w = claimed w"

lemma rooms_agree_init: "rooms_agree (chat_init node_id)"
  by (simp add: rooms_agree_def chat_init_def named_users_def rooms_ok_new settled_def members_new claimed_def fun_eq_iff)

lemma rooms_ok_service: "rooms_ok c \<Longrightarrow> rooms_ok (service_handle now m c)"
  by (cases m) (simp_all add: rooms_ok_join rooms_ok_leave)

lemma rooms_agree_step: "chat_step False w w' \<Longrightarrow> rooms_agree w \<Longrightarrow> rooms_agree w'"
proof (induction rule: chat_step.induct)
  case (user_starts w i node_id)
  then have "claimed (w \<lparr> cw_users := hm_insert i (UserActor_new i node_id) (cw_users w) \<rparr>) = claimed w"
    by (auto simp: claimed_def UserActor_new_def fun_eq_iff)
  then show ?case
    using user_starts by (simp add: rooms_agree_def named_users_def settled_def UserActor_new_def)
next
  case (user_joins w i u sent msg out u')
  then have "ua_user_id u = i"
    by (simp add: rooms_agree_def named_users_def)
  from join_claims[OF user_joins(1) this user_joins(2)] show ?case
    using user_joins by (simp add: rooms_agree_def named_users_def settled_def)
next
  case (user_leaves w i u sent msg out u')
  then have "ua_user_id u = i" "user_handle_LeaveRoom True msg u = (out, u')"
    by (simp_all add: rooms_agree_def named_users_def)
  from leave_claims[OF user_leaves(1) this] show ?case
    using user_leaves by (simp add: rooms_agree_def named_users_def settled_def)
next
  case (user_stops w i u)
  then have "ua_user_id u = i"
    by (simp add: rooms_agree_def named_users_def)
  from stop_claims[OF user_stops(1) this] show ?case
    using user_stops by (simp add: rooms_agree_def named_users_def settled_def)
next
  case (service_takes w m ms now)
  have "claimed (w \<lparr> cw_mail := ms, cw_service := service_handle now m (cw_service w) \<rparr>) = claimed w"
    by (simp add: claimed_def fun_eq_iff)
  then show ?case
    using service_takes by (simp add: rooms_agree_def named_users_def settled_def rooms_ok_service service_refines)
qed

theorem rooms_agree_reachable:
  assumes "(chat_step False)\<^sup>*\<^sup>* (chat_init node_id) w"
  shows "rooms_agree w"
  using assms by (induction rule: rtranclp_induct) (auto intro: rooms_agree_init rooms_agree_step)

theorem members_when_idle:
  assumes "(chat_step False)\<^sup>*\<^sup>* (chat_init node_id) w" and "cw_mail w = []"
  shows "members (cw_service w) room = claimed w room"
  using rooms_agree_reachable[OF assms(1)] assms(2) by (simp add: rooms_agree_def settled_def fun_eq_iff)

text \<open>
  Where a leave is lost the two sides disagree for good: the actor of the user has dropped the room, so its stop
  will not send the leave again, while the service still holds the user as a member.
\<close>

lemma lost_leave:
  assumes "hm_get (cw_users w) i = Some u" "rooms_agree w" "i \<in> members (cw_service w) room" "cw_mail w = []"
  obtains w' where "chat_step True w w'" "cw_mail w' = []" "i \<in> members (cw_service w') room" "i \<notin> claimed w' room"
proof
  let ?u' = "u \<lparr> ua_current_rooms := filter (\<lambda>r. r \<noteq> room) (ua_current_rooms u) \<rparr>"
  let ?w' = "w \<lparr> cw_users := hm_insert i ?u' (cw_users w), cw_mail := cw_mail w @ [] \<rparr>"
  show "chat_step True w ?w'"
    using assms(1) by (rule chat_step.user_leaves[where msg = "\<lparr> lr_user_id = i, lr_room = room \<rparr>" and sent = False])
      (simp_all add: user_handle_LeaveRoom_def)
  show "cw_mail ?w' = []" "i \<in> members (cw_service ?w') room" "i \<notin> claimed ?w' room"
    using assms by (simp_all add: claimed_def)
qed

end
